(* ===== verification/Prelude.thy ===== *)
theory Prelude
  imports Main "HOL-Library.AList" "HOL-Library.List_Lexorder" "HOL-Library.Char_ord"
    "HOL-Library.Sublist"
begin

text \<open>
  The combinators every component shares. A Rust \<open>Result<T, E>\<close> is the sum \<open>E + T\<close> with the
  error on the left; \<open>and_then\<close> is the question-mark operator, \<open>collect\<close> is
  \<open>iter().map(f).collect::<Result<Vec<_>>>()\<close>. An operation that writes is a function from
  a state to a result paired with the new state, because a write that happened before an error
  stays on disk; \<open>st_then\<close> sequences two of them.
\<close>

named_theorems result_simps \<open>rewriting of results: when a chain of fallible steps is Ok or Err\<close>
named_theorems frame_simps \<open>what an operation leaves unchanged\<close>

section \<open>Results\<close>

fun and_then :: "'e + 'a \<Rightarrow> ('a \<Rightarrow> 'e + 'b) \<Rightarrow> 'e + 'b" where
  "and_then (Inl e) f = Inl e"
| "and_then (Inr x) f = f x"

fun map_err :: "('e \<Rightarrow> 'f) \<Rightarrow> 'e + 'a \<Rightarrow> 'f + 'a" where
  "map_err f (Inl e) = Inl (f e)"
| "map_err f (Inr x) = Inr x"

fun map_ok :: "('a \<Rightarrow> 'b) \<Rightarrow> 'e + 'a \<Rightarrow> 'e + 'b" where
  "map_ok f (Inl e) = Inl e"
| "map_ok f (Inr x) = Inr (f x)"

fun ok_or :: "'e \<Rightarrow> 'a option \<Rightarrow> 'e + 'a" where
  "ok_or e None = Inl e"
| "ok_or e (Some x) = Inr x"

fun is_ok :: "'e + 'a \<Rightarrow> bool" where
  "is_ok (Inl e) = False"
| "is_ok (Inr x) = True"

fun collect :: "('a \<Rightarrow> 'e + 'b) \<Rightarrow> 'a list \<Rightarrow> 'e + 'b list" where
  "collect f [] = Inr []"
| "collect f (x # xs) = and_then (f x) (\<lambda>y. and_then (collect f xs) (\<lambda>ys. Inr (y # ys)))"

lemma and_then_Inr_iff [result_simps]:
  "and_then r f = Inr y \<longleftrightarrow> (\<exists>x. r = Inr x \<and> f x = Inr y)"
  by (cases r) auto

lemma and_then_Inl_iff [result_simps]:
  "and_then r f = Inl e \<longleftrightarrow> r = Inl e \<or> (\<exists>x. r = Inr x \<and> f x = Inl e)"
  by (cases r) auto

lemma map_err_Inr_iff [result_simps]: "map_err f r = Inr x \<longleftrightarrow> r = Inr x"
  by (cases r) auto

lemma map_err_Inl_iff [result_simps]: "map_err f r = Inl e \<longleftrightarrow> (\<exists>d. r = Inl d \<and> e = f d)"
  by (cases r) auto

lemma map_ok_Inr_iff [result_simps]: "map_ok f r = Inr y \<longleftrightarrow> (\<exists>x. r = Inr x \<and> y = f x)"
  by (cases r) auto

lemma map_ok_Inl_iff [result_simps]: "map_ok f r = Inl e \<longleftrightarrow> r = Inl e"
  by (cases r) auto

lemma ok_or_Inr_iff [result_simps]: "ok_or e x = Inr y \<longleftrightarrow> x = Some y"
  by (cases x) auto

lemma ok_or_Inl_iff [result_simps]: "ok_or e x = Inl d \<longleftrightarrow> x = None \<and> d = e"
  by (cases x) auto

lemma is_ok_iff [result_simps]: "is_ok r \<longleftrightarrow> (\<exists>x. r = Inr x)"
  by (cases r) auto

lemma collect_Inr_iff: "collect f xs = Inr ys \<longleftrightarrow> list_all2 (\<lambda>x y. f x = Inr y) xs ys"
proof (induction xs arbitrary: ys)
  case Nil
  then show ?case by auto
next
  case (Cons x xs)
  then show ?case by (cases ys) (auto simp: result_simps)
qed

lemma list_all2_source: "list_all2 P xs ys \<Longrightarrow> y \<in> set ys \<Longrightarrow> \<exists>x \<in> set xs. P x y"
  by (induction xs ys rule: list_all2_induct) auto

lemma collect_cong_set: "(\<And>x. x \<in> set xs \<Longrightarrow> f x = g x) \<Longrightarrow> collect f xs = collect g xs"
  by (induction xs) auto

lemma collect_map_fst:
  assumes "collect f xs = Inr ys" and "\<And>x y. x \<in> set xs \<Longrightarrow> f x = Inr y \<Longrightarrow> key y = x"
  shows "map key ys = xs"
proof -
  have "list_all2 (\<lambda>x y. f x = Inr y) xs ys" using assms(1) by (simp add: collect_Inr_iff)
  then show ?thesis using assms(2)
    by (induction rule: list_all2_induct) auto
qed

lemma collect_Inr_set:
  assumes "collect f xs = Inr ys" and "y \<in> set ys"
  shows "\<exists>x \<in> set xs. f x = Inr y"
proof -
  have "list_all2 (\<lambda>x y. f x = Inr y) xs ys" using assms(1) by (simp add: collect_Inr_iff)
  then show ?thesis using assms(2)
    by (induction rule: list_all2_induct) auto
qed

lemma collect_append:
  "collect f (xs @ ys) = and_then (collect f xs) (\<lambda>a. map_ok ((@) a) (collect f ys))"
proof (induction xs)
  case Nil
  then show ?case by (cases "collect f ys") simp_all
next
  case (Cons x xs)
  then show ?case by (cases "f x"; cases "collect f xs"; cases "collect f ys") simp_all
qed

lemma find_append: "find P (xs @ ys) = (case find P xs of None \<Rightarrow> find P ys | Some x \<Rightarrow> Some x)"
  by (induction xs) auto

lemma those_Some: "those xs = Some ys \<longleftrightarrow> xs = map Some ys"
proof (induction xs arbitrary: ys)
  case (Cons x xs)
  then show ?case by (cases x; cases ys) auto
qed auto

section \<open>Stateful operations\<close>

type_synonym ('s, 'e, 'a) st_op = "'s \<Rightarrow> ('e + 'a) \<times> 's"

definition st_then :: "('s, 'e, 'a) st_op \<Rightarrow> ('a \<Rightarrow> ('s, 'e, 'b) st_op) \<Rightarrow> ('s, 'e, 'b) st_op" where
  "st_then m f s = (case m s of (Inl e, s') \<Rightarrow> (Inl e, s') | (Inr x, s') \<Rightarrow> f x s')"

definition st_return :: "'a \<Rightarrow> ('s, 'e, 'a) st_op" where
  "st_return x s = (Inr x, s)"

definition st_fail :: "'e \<Rightarrow> ('s, 'e, 'a) st_op" where
  "st_fail e s = (Inl e, s)"

text \<open>A read-only step: its result depends on the state, which it leaves as it is.\<close>

definition st_read :: "('s \<Rightarrow> 'e + 'a) \<Rightarrow> ('s, 'e, 'a) st_op" where
  "st_read f s = (f s, s)"

fun st_for :: "('a \<Rightarrow> ('s, 'e, unit) st_op) \<Rightarrow> 'a list \<Rightarrow> ('s, 'e, unit) st_op" where
  "st_for f [] s = (Inr (), s)"
| "st_for f (x # xs) s = st_then (f x) (\<lambda>_. st_for f xs) s"

lemma st_then_Inr_iff [result_simps]:
  "st_then m f s = (Inr y, t) \<longleftrightarrow> (\<exists>x u. m s = (Inr x, u) \<and> f x u = (Inr y, t))"
  by (auto simp: st_then_def split: prod.splits sum.splits)

lemma st_then_Inl_iff [result_simps]:
  "st_then m f s = (Inl e, t) \<longleftrightarrow>
     m s = (Inl e, t) \<or> (\<exists>x u. m s = (Inr x, u) \<and> f x u = (Inl e, t))"
  by (auto simp: st_then_def split: prod.splits sum.splits)

lemma st_return_iff [result_simps]: "st_return x s = (r, t) \<longleftrightarrow> r = Inr x \<and> t = s"
  by (auto simp: st_return_def)

lemma st_fail_iff [result_simps]: "st_fail e s = (r, t) \<longleftrightarrow> r = Inl e \<and> t = s"
  by (auto simp: st_fail_def)

lemma st_read_iff [result_simps]: "st_read f s = (r, t) \<longleftrightarrow> f s = r \<and> t = s"
  by (auto simp: st_read_def)

lemma st_for_rel:
  assumes step: "\<And>x s r t. x \<in> set xs \<Longrightarrow> f x s = (r, t) \<Longrightarrow> R s t"
    and refl: "\<And>s. R s s" and trans: "\<And>s t u. R s t \<Longrightarrow> R t u \<Longrightarrow> R s u"
  shows "st_for f xs s = (r, t) \<Longrightarrow> R s t"
  using step
proof (induction xs arbitrary: s)
  case Nil
  then show ?case using refl by auto
next
  case (Cons x xs)
  obtain rx u where fx: "f x s = (rx, u)" by (cases "f x s")
  then have su: "R s u" using Cons.prems(2) by (metis list.set_intros(1))
  show ?case
  proof (cases rx)
    case (Inl e)
    then show ?thesis using Cons.prems(1) fx su by (simp add: st_then_def)
  next
    case (Inr v)
    then have "st_for f xs u = (r, t)" using Cons.prems(1) fx by (simp add: st_then_def)
    then have "R u t" using Cons.IH Cons.prems(2) by (metis list.set_intros(2))
    then show ?thesis using su trans by blast
  qed
qed

section \<open>Directories as association lists\<close>

lemma map_of_update [simp]: "map_of (AList.update k v xs) = (map_of xs)(k \<mapsto> v)"
  by (rule update_conv')

lemma keys_iff_map_of: "k \<in> set (map fst xs) \<longleftrightarrow> (\<exists>v. map_of xs k = Some v)"
  using map_of_eq_None_iff [of xs k] by (cases "map_of xs k") auto

lemma map_of_in_keys: "map_of xs k = Some v \<Longrightarrow> k \<in> set (map fst xs)"
  using keys_iff_map_of [of k xs] by blast

lemma keys_update: "set (map fst (AList.update k v xs)) = insert k (set (map fst xs))"
  by (simp add: dom_update)

end
