(* ===== verification/Rust_Str.thy ===== *)
theory Rust_Str
  imports Prelude
begin

text \<open>
  What the code uses of Rust's \<open>str\<close>. A Rust string is modelled by its UTF-8 bytes, one
  \<^typ>\<open>char\<close> per byte, so that \<open>len\<close>, byte indexing and hashing are those of the program;
  the functions that look at characters (\<open>trim\<close>, \<open>is_control\<close>) recognise the multi-byte
  encodings of the characters concerned.
\<close>

abbreviation byte :: "char \<Rightarrow> nat" where
  "byte c \<equiv> of_char c"

section \<open>UTF-8 validity: std::str::from_utf8\<close>

definition is_cont :: "char \<Rightarrow> bool" where
  "is_cont c \<longleftrightarrow> 128 \<le> byte c \<and> byte c \<le> 191"

definition in_range :: "nat \<Rightarrow> nat \<Rightarrow> char \<Rightarrow> bool" where
  "in_range lo hi c \<longleftrightarrow> lo \<le> byte c \<and> byte c \<le> hi"

definition utf8_lead2 :: "char \<Rightarrow> char \<Rightarrow> bool" where
  "utf8_lead2 a b \<longleftrightarrow> in_range 194 223 a \<and> is_cont b"

definition utf8_lead3 :: "char \<Rightarrow> char \<Rightarrow> bool" where
  "utf8_lead3 a b \<longleftrightarrow>
     byte a = 224 \<and> in_range 160 191 b \<or>
     (in_range 225 236 a \<or> in_range 238 239 a) \<and> is_cont b \<or>
     byte a = 237 \<and> in_range 128 159 b"

definition utf8_lead4 :: "char \<Rightarrow> char \<Rightarrow> bool" where
  "utf8_lead4 a b \<longleftrightarrow>
     byte a = 240 \<and> in_range 144 191 b \<or>
     in_range 241 243 a \<and> is_cont b \<or>
     byte a = 244 \<and> in_range 128 143 b"

fun utf8_valid :: "string \<Rightarrow> bool" where
  "utf8_valid [] = True"
| "utf8_valid (a # s) =
     (if byte a < 128 then utf8_valid s
      else (case s of
         [] \<Rightarrow> False
       | b # s1 \<Rightarrow>
           if utf8_lead2 a b then utf8_valid s1
           else (case s1 of
              [] \<Rightarrow> False
            | c # s2 \<Rightarrow>
                if utf8_lead3 a b \<and> is_cont c then utf8_valid s2
                else (case s2 of
                   [] \<Rightarrow> False
                 | d # s3 \<Rightarrow>
                     utf8_lead4 a b \<and> is_cont c \<and> is_cont d \<and> utf8_valid s3))))"

section \<open>Character classes and searching\<close>

text \<open>\<open>s.chars().any(char::is_control)\<close>: U+0000-001F, U+007F and U+0080-009F (C2 80 - C2 9F).\<close>

fun has_control :: "string \<Rightarrow> bool" where
  "has_control [] = False"
| "has_control (c # cs) =
     (byte c < 32 \<or> byte c = 127 \<or>
      (byte c = 194 \<and> (case cs of [] \<Rightarrow> False | d # _ \<Rightarrow> in_range 128 159 d)) \<or>
      has_control cs)"

definition ascii_lower :: "char \<Rightarrow> char" where
  "ascii_lower c = (if in_range 65 90 c then char_of (byte c + 32) else c)"

definition eq_ignore_ascii_case :: "string \<Rightarrow> string \<Rightarrow> bool" where
  "eq_ignore_ascii_case s t \<longleftrightarrow> map ascii_lower s = map ascii_lower t"

definition is_ascii_hexdigit :: "char \<Rightarrow> bool" where
  "is_ascii_hexdigit c \<longleftrightarrow> in_range 48 57 c \<or> in_range 65 70 c \<or> in_range 97 102 c"

fun contains_str :: "string \<Rightarrow> string \<Rightarrow> bool" where
  "contains_str s [] = True"
| "contains_str [] p = False"
| "contains_str (c # cs) p = (prefix p (c # cs) \<or> contains_str cs p)"

fun split_on :: "char \<Rightarrow> string \<Rightarrow> string list" where
  "split_on d [] = [[]]"
| "split_on d (c # cs) =
     (if c = d then [] # split_on d cs
      else (case split_on d cs of [] \<Rightarrow> [[c]] | w # ws \<Rightarrow> (c # w) # ws))"

text \<open>\<open>split_once\<close>.\<close>

fun split_once :: "char \<Rightarrow> string \<Rightarrow> (string \<times> string) option" where
  "split_once c [] = None"
| "split_once c (x # xs) = (if x = c then Some ([], xs) else map_option (\<lambda>(l, r). (x # l, r)) (split_once c xs))"

section \<open>Whitespace: str::trim and str::lines\<close>

text \<open>The UTF-8 encodings of the characters of Unicode's \<open>White_Space\<close> property.\<close>

definition white_space :: "string list" where
  "white_space =
     [[CHR 0x09], [CHR 0x0A], [CHR 0x0B], [CHR 0x0C], [CHR 0x0D], [CHR 0x20], [CHR 0xC2, CHR
      0x85], [CHR 0xC2, CHR 0xA0], [CHR 0xE1, CHR 0x9A, CHR 0x80], [CHR 0xE2, CHR 0x80, CHR 0x80],
      [CHR 0xE2, CHR 0x80, CHR 0x81], [CHR 0xE2, CHR 0x80, CHR 0x82], [CHR 0xE2, CHR 0x80, CHR
      0x83], [CHR 0xE2, CHR 0x80, CHR 0x84], [CHR 0xE2, CHR 0x80, CHR 0x85], [CHR 0xE2, CHR 0x80,
      CHR 0x86], [CHR 0xE2, CHR 0x80, CHR 0x87], [CHR 0xE2, CHR 0x80, CHR 0x88], [CHR 0xE2, CHR
      0x80, CHR 0x89], [CHR 0xE2, CHR 0x80, CHR 0x8A], [CHR 0xE2, CHR 0x80, CHR 0xA8], [CHR 0xE2,
      CHR 0x80, CHR 0xA9], [CHR 0xE2, CHR 0x80, CHR 0xAF], [CHR 0xE2, CHR 0x81, CHR 0x9F], [CHR
      0xE3, CHR 0x80, CHR 0x80]]"

definition drop_white :: "string list \<Rightarrow> string \<Rightarrow> string option" where
  "drop_white ws s =
     (case find (\<lambda>w. prefix w s) ws of None \<Rightarrow> None | Some w \<Rightarrow> Some (drop (max 1 (length w)) s))"

function strip_white :: "string list \<Rightarrow> string \<Rightarrow> string" where
  "strip_white ws s =
     (if s = [] then [] else (case drop_white ws s of None \<Rightarrow> s | Some t \<Rightarrow> strip_white ws t))"
  by pat_completeness auto
termination
  by (relation "measure (\<lambda>(ws, s). length s)")
     (auto simp: drop_white_def split: option.splits)

declare strip_white.simps [simp del]

definition trim_start :: "string \<Rightarrow> string" where
  "trim_start s = strip_white white_space s"

definition trim_end :: "string \<Rightarrow> string" where
  "trim_end s = rev (strip_white (map rev white_space) (rev s))"

definition trim :: "string \<Rightarrow> string" where
  "trim s = trim_end (trim_start s)"

definition strip_cr :: "string \<Rightarrow> string" where
  "strip_cr l = (if l \<noteq> [] \<and> last l = CHR 0x0D then butlast l else l)"

text \<open>\<open>str::lines\<close>: a carriage return goes only where a line feed ends the line; the piece
  after the last line feed is a line only when it is not empty.\<close>

definition lines :: "string \<Rightarrow> string list" where
  "lines s = (let ps = split_on (CHR 0x0A) s
              in map strip_cr (butlast ps) @ (if last ps = [] then [] else [last ps]))"

section \<open>Facts about splitting\<close>

lemma split_on_not_Nil [simp]: "split_on d s \<noteq> []"
  by (cases s) (auto split: list.splits)

lemma split_on_no_sep: "w \<in> set (split_on d s) \<Longrightarrow> d \<notin> set w"
proof (induction s arbitrary: w)
  case Nil
  then show ?case by simp
next
  case (Cons c cs)
  then show ?case by (auto split: if_splits list.splits)
qed

fun join_with :: "string \<Rightarrow> string list \<Rightarrow> string" where
  "join_with sep [] = []"
| "join_with sep [w] = w"
| "join_with sep (w # ws) = w @ sep @ join_with sep ws"

lemma join_split_on: "join_with [d] (split_on d s) = s"
proof (induction s)
  case Nil
  then show ?case by simp
next
  case (Cons c cs)
  then show ?case
    by (cases "split_on d cs"; cases "tl (split_on d cs)") (auto split: list.splits)
qed

lemma set_split_on: "w \<in> set (split_on d s) \<Longrightarrow> set w \<subseteq> set s"
proof (induction s arbitrary: w)
  case Nil
  then show ?case by simp
next
  case (Cons c cs)
  then show ?case by (fastforce split: if_splits list.splits)
qed

lemma split_on_line: "d \<notin> set l \<Longrightarrow> split_on d (l @ d # rest) = l # split_on d rest"
  by (induction l) (auto split: list.splits)

lemma split_once_Some: "split_once c x = Some (l, r) \<longleftrightarrow> x = l @ c # r \<and> c \<notin> set l"
proof (induction x arbitrary: l)
  case (Cons a x)
  then show ?case by (cases l) auto
qed simp

lemma split_on_single: "d \<notin> set v \<Longrightarrow> split_on d v = [v]"
  by (induction v) auto

lemma split_on_append: "split_on c (x @ c # y) = split_on c x @ split_on c y"
proof (induction x)
  case (Cons a x)
  then show ?case using split_on_not_Nil [of c x] by (cases "split_on c x") auto
qed simp

end
