(* ===== verification/Linka_Ids.thy ===== *)
theory Linka_Ids
  imports Rust_Str
begin

text \<open>
  Validated identifiers (\<open>linka/model/src/ids.rs\<close>): the three validation functions the macro
  \<open>validated_string!\<close> runs whenever a value is parsed or deserialised. Each returns the string
  to store or the message of its error.
\<close>

type_synonym node_id = string
type_synonym candidate_id = string
type_synonym project_path = string

definition second_is_colon :: "string \<Rightarrow> bool" where
  "second_is_colon s \<longleftrightarrow> 2 \<le> length s \<and> s ! 1 = CHR '':''"

definition validate_node_id :: "string \<Rightarrow> string + string" where
  "validate_node_id s =
     (if s = [] \<or> s = ''.'' \<or> s = ''..'' then Inl ''node id must be a non-empty name''
      else if (CHR ''/'' \<in> set s \<or> CHR 0x5C \<in> set s) \<or> has_control s
        then Inl ''node id must not contain separators or control characters''
      else if eq_ignore_ascii_case s ''.git'' \<or> second_is_colon s
        then Inl ''node id uses a forbidden platform name or prefix''
      else Inr s)"

definition validate_candidate_id :: "string \<Rightarrow> string + string" where
  "validate_candidate_id s =
     (if \<not> prefix ''candidate-'' s \<or> CHR ''/'' \<in> set s \<or> CHR 0x5C \<in> set s \<or> has_control s
      then Inl (''invalid candidate id `'' @ s @ ''`'')
      else Inr s)"

text \<open>\<open>CandidateId::new\<close>: the ULID is drawn from the clock and a random source, so it is an
  argument.\<close>

definition new_candidate_id :: "string \<Rightarrow> candidate_id" where
  "new_candidate_id ulid = ''candidate-'' @ ulid"

definition normalize_separators :: "string \<Rightarrow> string" where
  "normalize_separators s = map (\<lambda>c. if c = CHR 0x5C then CHR ''/'' else c) s"

definition forbidden_component :: "string \<Rightarrow> bool" where
  "forbidden_component p \<longleftrightarrow>
     p = [] \<or> p = ''.'' \<or> p = ''..'' \<or> eq_ignore_ascii_case p ''.git''"

definition validate_project_path :: "string \<Rightarrow> string + string" where
  "validate_project_path s =
     (let n = normalize_separators s in
      if n = [] \<or> prefix ''/'' n \<or> second_is_colon n \<or> has_control n
        then Inl ''project path must be a non-empty relative path''
      else if list_ex forbidden_component (split_on (CHR ''/'') n)
        then Inl ''project path contains a forbidden component''
      else Inr n)"

section \<open>What validation guarantees\<close>

lemma normalize_separators_idem [simp]:
  "normalize_separators (normalize_separators s) = normalize_separators s"
  by (simp add: normalize_separators_def)

lemma normalize_no_backslash: "CHR 0x5C \<notin> set (normalize_separators s)"
  by (auto simp: normalize_separators_def)

lemma validate_node_id_stores_input: "validate_node_id s = Inr t \<Longrightarrow> t = s"
  by (auto simp: validate_node_id_def split: if_splits)

lemma validate_candidate_id_stores_input: "validate_candidate_id s = Inr t \<Longrightarrow> t = s"
  by (auto simp: validate_candidate_id_def split: if_splits)

lemma validate_project_path_normal: "validate_project_path s = Inr p \<Longrightarrow> p = normalize_separators s"
  by (auto simp: validate_project_path_def Let_def split: if_splits)

lemma project_path_components:
  assumes "validate_project_path s = Inr p"
  shows "\<forall>q \<in> set (split_on (CHR ''/'') p). \<not> forbidden_component q"
  using assms by (auto simp: validate_project_path_def Let_def list_ex_iff split: if_splits)

text \<open>
  Project paths. An accepted path is stored in a normal form that validation accepts
  unchanged, it holds no backslash, does not start at the root, and none of its components is
  empty, \<open>.\<close>, \<open>..\<close> or \<open>.git\<close> in any case: joined to the project root it names
  something below the root and outside Git's own directory.
\<close>

theorem project_path_confined:
  assumes "validate_project_path s = Inr p"
  shows "validate_project_path p = Inr p \<and> CHR 0x5C \<notin> set p \<and> \<not> prefix ''/'' p \<and>
    join_with ''/'' (split_on (CHR ''/'') p) = p \<and>
    (\<forall>q \<in> set (split_on (CHR ''/'') p).
       q \<noteq> [] \<and> q \<noteq> ''.'' \<and> q \<noteq> ''..'' \<and> \<not> eq_ignore_ascii_case q ''.git'')"
proof -
  have p: "p = normalize_separators s" using assms by (rule validate_project_path_normal)
  have again: "validate_project_path p = Inr p"
    using assms by (simp add: validate_project_path_def p Let_def split: if_splits)
  moreover have "\<not> prefix ''/'' p"
    using again by (auto simp: validate_project_path_def Let_def split: if_splits)
  moreover have "CHR 0x5C \<notin> set p" by (simp add: p normalize_no_backslash)
  ultimately show ?thesis
    using project_path_components [OF assms] by (auto simp: join_split_on forbidden_component_def)
qed

theorem project_path_confined_witness:
  "validate_project_path (''src'' @ [CHR 0x5C] @ ''lib.rs'') = Inr ''src/lib.rs'' \<and>
   validate_project_path ''src/lib.rs'' = Inr ''src/lib.rs''"
proof -
  have h: "validate_project_path (''src'' @ [CHR 0x5C] @ ''lib.rs'') = Inr ''src/lib.rs''"
    by code_simp
  show ?thesis using h project_path_confined [OF h] by blast
qed

text \<open>
  Node and candidate ids. An id that parses is stored as given and is one path component:
  non-empty, no separator, not \<open>.\<close> or \<open>..\<close>; so \<open>nodes/<id>\<close> and
  \<open>candidates/<id>\<close> are direct children of their directories.
\<close>

theorem ids_are_single_components:
  "(\<forall>t. validate_node_id s = Inr t \<longrightarrow>
      t = s \<and> split_on (CHR ''/'') t = [t] \<and> CHR 0x5C \<notin> set t \<and> t \<notin> {[], ''.'', ''..''} \<and>
      \<not> eq_ignore_ascii_case t ''.git'') \<and>
   (\<forall>t. validate_candidate_id s = Inr t \<longrightarrow>
      t = s \<and> split_on (CHR ''/'') t = [t] \<and> CHR 0x5C \<notin> set t \<and> t \<notin> {[], ''.'', ''..''})"
proof -
  have single: "split_on d t = [t]" if "d \<notin> set t" for d t
    using that by (induction t) auto
  have node: "t = s \<and> split_on (CHR ''/'') t = [t] \<and> CHR 0x5C \<notin> set t \<and> t \<notin> {[], ''.'', ''..''} \<and>
      \<not> eq_ignore_ascii_case t ''.git''" if "validate_node_id s = Inr t" for t
    using that by (auto simp: validate_node_id_def single split: if_splits)
  have cand: "t = s \<and> split_on (CHR ''/'') t = [t] \<and> CHR 0x5C \<notin> set t \<and> t \<notin> {[], ''.'', ''..''}"
    if "validate_candidate_id s = Inr t" for t
    using that by (auto simp: validate_candidate_id_def single split: if_splits)
  show ?thesis using node cand by blast
qed

theorem ids_are_single_components_witness:
  "validate_node_id ''node-good'' = Inr ''node-good'' \<and>
   validate_candidate_id ''candidate-1'' = Inr ''candidate-1'' \<and>
   split_on (CHR ''/'') ''node-good'' = [''node-good''] \<and>
   split_on (CHR ''/'') ''candidate-1'' = [''candidate-1'']"
proof -
  have n: "validate_node_id ''node-good'' = Inr ''node-good''" by code_simp
  have c: "validate_candidate_id ''candidate-1'' = Inr ''candidate-1''" by code_simp
  show ?thesis
    using n c ids_are_single_components [of "''node-good''"]
      ids_are_single_components [of "''candidate-1''"] by blast
qed

end
