(* ===== verification/Linka_Model.thy ===== *)
theory Linka_Model
  imports Linka_Ids
begin

text \<open>
  The Linka domain model (\<open>linka/model/src\<close>): node definitions, completion records with their
  pins, candidates, submissions, and the derived node state with its classification. A Rust
  field \<open>f\<close> of a struct is the record field of the same name after the struct's initials
  (\<open>nm_schema\<close>, \<open>rm_schema\<close>), because record fields share one name space. The opaque values
  of a definition (\<open>toml::Value\<close>) are carried as text; producer evidence is a JSON value
  (\<open>serde_json::Value\<close>, its objects ordered by key, its numbers integers). Linka inspects neither.
\<close>

type_synonym opaque_value = string

datatype json =
  JNull | JBool bool | JNumber int | JString string | JArray "json list" | JObject "(string \<times> json) list"

section \<open>Node definitions (node.rs)\<close>

datatype author = Human | Machine

fun author_as_str :: "author \<Rightarrow> string" where
  "author_as_str Human = ''human''"
| "author_as_str Machine = ''machine''"

datatype dep_kind = DependsOn | DerivedFrom

fun dep_kind_as_str :: "dep_kind \<Rightarrow> string" where
  "dep_kind_as_str DependsOn = ''depends_on''"
| "dep_kind_as_str DerivedFrom = ''derived_from''"

definition DEFINITION_SCHEMA :: nat where "DEFINITION_SCHEMA = 1"
definition ATTACHMENT_SCHEMA :: nat where "ATTACHMENT_SCHEMA = 1"

record node_meta =
  nm_schema :: nat
  nm_author :: author
  nm_assignee :: "author option"
  nm_depends_on :: "node_id list"
  nm_derived_from :: "node_id list"
  nm_verifies :: "candidate_id option"
  nm_extensions :: "(string \<times> opaque_value) list"

record definition_version =
  dv_metadata :: string
  dv_description :: string

record node_attachment =
  na_schema :: nat
  na_namespace :: string
  na_key :: string
  na_created_at_ms :: int
  na_media_type :: "string option"
  na_content :: string
  na_size :: nat

record new_node_attachment =
  nn_namespace :: string
  nn_key :: string
  nn_media_type :: "string option"
  nn_data :: string

definition title_of :: "string \<Rightarrow> string" where
  "title_of description =
     (case find (\<lambda>l. l \<noteq> []) (map trim (lines description)) of
        None \<Rightarrow> ''(no description)'' | Some l \<Rightarrow> l)"

section \<open>Completion records (result.rs)\<close>

definition RESULT_SCHEMA :: nat where "RESULT_SCHEMA = 1"
definition OBSERVATION_SCHEMA :: nat where "OBSERVATION_SCHEMA = 1"

record result_version =
  rv_metadata :: string
  rv_notes :: "string option"

record artifact_ref =
  ar_scheme :: string
  ar_repository :: string
  ar_id :: string

record project_snapshot =
  ps_scheme :: string
  ps_repository :: string
  ps_revision :: string
  ps_tree :: string

datatype outcome = Done | Failed

fun outcome_as_str :: "outcome \<Rightarrow> string" where
  "outcome_as_str Done = ''done''"
| "outcome_as_str Failed = ''failed''"

datatype verification_outcome = VAccepted | VRejected | VAbandoned

fun verification_as_str :: "verification_outcome \<Rightarrow> string" where
  "verification_as_str VAccepted = ''accepted''"
| "verification_as_str VRejected = ''rejected''"
| "verification_as_str VAbandoned = ''abandoned''"

datatype result_outcome = Work outcome | Verification verification_outcome

fun result_outcome_as_str :: "result_outcome \<Rightarrow> string" where
  "result_outcome_as_str (Work x) = outcome_as_str x"
| "result_outcome_as_str (Verification x) = verification_as_str x"

text \<open>\<open>Deserialize for ResultOutcome\<close>: \<^const>\<open>None\<close> is the \<open>unknown_variant\<close> error.\<close>

definition result_outcome_of_str :: "string \<Rightarrow> result_outcome option" where
  "result_outcome_of_str s =
     (if s = ''done'' then Some (Work Done)
      else if s = ''failed'' then Some (Work Failed)
      else if s = ''accepted'' then Some (Verification VAccepted)
      else if s = ''rejected'' then Some (Verification VRejected)
      else if s = ''abandoned'' then Some (Verification VAbandoned)
      else None)"

record consumed_node =
  cn_id :: node_id
  cn_definition :: definition_version
  cn_result :: "result_version option"
  cn_outcome :: "result_outcome option"
  cn_output :: "artifact_ref option"

record context_pin =
  cp_path :: project_path
  cp_identity :: string
  cp_observed :: bool

record context_observation =
  co_schema :: nat
  co_result :: result_version
  co_context :: "context_pin list"

record producer_evidence =
  pe_namespace :: string
  pe_data :: json

record result_meta =
  rm_schema :: nat
  rm_at :: int
  rm_author :: author
  rm_definition :: definition_version
  rm_outcome :: result_outcome
  rm_project :: project_snapshot
  rm_consumed :: "consumed_node list"
  rm_context :: "context_pin list"
  rm_output :: "artifact_ref option"
  rm_producer :: "producer_evidence option"

section \<open>Candidates (candidate.rs)\<close>

definition CANDIDATE_SCHEMA :: nat where "CANDIDATE_SCHEMA = 1"

record external_identity =
  ei_namespace :: string
  ei_id :: string

datatype candidate_state =
    Pending
  | Accepted (decided_at_ms: int) (decided_by: author) (decision_notes: string)
      (decided_verification: node_id) (target_previous: string)
  | Rejected (decided_at_ms: int) (decided_by: author) (decision_notes: string)
      (decided_verification: node_id)

record candidate_record =
  cr_schema :: nat
  cr_id :: candidate_id
  cr_node :: node_id
  cr_result :: result_version
  cr_artifact :: artifact_ref
  cr_branch :: string
  cr_target :: string
  cr_external :: "external_identity option"
  cr_state :: candidate_state

record new_candidate =
  nc_node :: node_id
  nc_branch :: string
  nc_target :: string
  nc_external :: "external_identity option"

section \<open>Snapshots and submissions (submission.rs)\<close>

definition SNAPSHOT_SCHEMA :: nat where "SNAPSHOT_SCHEMA = 1"

record work_snapshot =
  ws_schema :: nat
  ws_node :: node_id
  ws_definition :: definition_version
  ws_dependencies :: "consumed_node list"
  ws_lineage :: "consumed_node list"
  ws_context :: "context_pin list"
  ws_project :: project_snapshot
  ws_previous_result :: "result_version option"

record submission_envelope =
  se_snapshot :: work_snapshot
  se_notes :: string
  se_author :: author
  se_producer :: "producer_evidence option"

record result_submission =
  rs_snapshot :: work_snapshot
  rs_outcome :: outcome
  rs_output :: "artifact_ref option"
  rs_notes :: string
  rs_author :: author
  rs_producer :: "producer_evidence option"

record verification_submission =
  vs_snapshot :: work_snapshot
  vs_outcome :: verification_outcome
  vs_notes :: string
  vs_author :: author
  vs_producer :: "producer_evidence option"

definition result_envelope :: "result_submission \<Rightarrow> submission_envelope" where
  "result_envelope s =
     \<lparr>se_snapshot = rs_snapshot s, se_notes = rs_notes s, se_author = rs_author s,
      se_producer = rs_producer s\<rparr>"

definition verification_envelope :: "verification_submission \<Rightarrow> submission_envelope" where
  "verification_envelope s =
     \<lparr>se_snapshot = vs_snapshot s, se_notes = vs_notes s, se_author = vs_author s,
      se_producer = vs_producer s\<rparr>"

datatype submission_conflict =
    DefinitionConflict
  | DependenciesConflict
  | LineageConflict
  | ContextConflict project_path
  | ProjectConflict
  | ReadinessConflict
  | PreviousResultConflict

section \<open>Derived state (state.rs)\<close>

datatype recorded_outcome =
  ROpen | RSucceeded | RFailed | RAccepted | RRejected | RAbandoned

fun recorded_of :: "result_outcome \<Rightarrow> recorded_outcome" where
  "recorded_of (Work Done) = RSucceeded"
| "recorded_of (Work Failed) = RFailed"
| "recorded_of (Verification VAccepted) = RAccepted"
| "recorded_of (Verification VRejected) = RRejected"
| "recorded_of (Verification VAbandoned) = RAbandoned"

datatype currency = Current | Stale

datatype staleness_reason =
    DefinitionChanged bool bool
  | ConsumedDefinitionChanged node_id
  | ConsumedNodeMissing node_id
  | ConsumedResultChanged node_id
  | ConsumedOutputChanged node_id
  | ContextChanged project_path
  | ContextMissing project_path
  | OutputDrifted string string

fun staleness_text :: "staleness_reason \<Rightarrow> string" where
  "staleness_text (DefinitionChanged m d) =
     ''definition changed since the work (''
       @ join_with '', '' ((if m then [''node.toml''] else []) @ (if d then [''description.md''] else []))
       @ '')''"
| "staleness_text (ConsumedDefinitionChanged i) = ''dependency '' @ i @ '': definition moved''"
| "staleness_text (ConsumedNodeMissing i) = ''dependency '' @ i @ '': missing''"
| "staleness_text (ConsumedResultChanged i) =
     ''dependency '' @ i @ '': result changed since it was consumed''"
| "staleness_text (ConsumedOutputChanged i) = ''dependency '' @ i @ '': output changed''"
| "staleness_text (ContextChanged p) = ''context '' @ p @ '': content changed''"
| "staleness_text (ContextMissing p) = ''context '' @ p @ '': missing''"
| "staleness_text (OutputDrifted a d) = ''output changed since '' @ a @ '':'' @ [CHR 0x0A] @ d"

datatype blocker_reason =
    MissingBlocker | OpenBlocker | FailedBlocker | RejectedBlocker | AbandonedBlocker
  | StaleBlocker | AwaitingIntegrationBlocker

fun blocker_reason_as_str :: "blocker_reason \<Rightarrow> string" where
  "blocker_reason_as_str MissingBlocker = ''missing''"
| "blocker_reason_as_str OpenBlocker = ''not complete (open)''"
| "blocker_reason_as_str FailedBlocker = ''not complete (failed)''"
| "blocker_reason_as_str RejectedBlocker = ''review rejected''"
| "blocker_reason_as_str AbandonedBlocker = ''review abandoned''"
| "blocker_reason_as_str StaleBlocker = ''not complete (stale)''"
| "blocker_reason_as_str AwaitingIntegrationBlocker = ''awaiting candidate integration''"

record blocker =
  bl_id :: node_id
  bl_reason :: blocker_reason

definition blocker_text :: "blocker \<Rightarrow> string" where
  "blocker_text b = bl_id b @ '': '' @ blocker_reason_as_str (bl_reason b)"

datatype integration_status =
  NotRequired | PendingIntegration | AcceptedIntegration | Published | RejectedIntegration

fun integration_is_done :: "integration_status \<Rightarrow> bool" where
  "integration_is_done NotRequired = True"
| "integration_is_done PendingIntegration = False"
| "integration_is_done AcceptedIntegration = False"
| "integration_is_done Published = True"
| "integration_is_done RejectedIntegration = True"

record node_state =
  st_outcome :: recorded_outcome
  st_currency :: currency
  st_integration :: integration_status
  st_staleness :: "staleness_reason list"
  st_blockers :: "blocker list"

datatype state_class =
    CComplete | CReady | CBlocked | CAwaitingIntegration | CAccepted | CRejected | CAbandoned

definition is_complete :: "node_state \<Rightarrow> bool" where
  "is_complete s \<longleftrightarrow> st_currency s = Current \<and>
     (case st_outcome s of
        RAccepted \<Rightarrow> True | RRejected \<Rightarrow> True | RAbandoned \<Rightarrow> True
      | RSucceeded \<Rightarrow> st_integration s = NotRequired \<or> st_integration s = Published
      | ROpen \<Rightarrow> False | RFailed \<Rightarrow> False)"

definition is_ready :: "node_state \<Rightarrow> bool" where
  "is_ready s \<longleftrightarrow> \<not> is_complete s \<and> st_blockers s = [] \<and> integration_is_done (st_integration s)"

definition is_awaiting_integration :: "node_state \<Rightarrow> bool" where
  "is_awaiting_integration s \<longleftrightarrow> \<not> integration_is_done (st_integration s)"

definition is_blocked :: "node_state \<Rightarrow> bool" where
  "is_blocked s \<longleftrightarrow> \<not> is_complete s \<and> st_blockers s \<noteq> []"

definition classification_tail :: "node_state \<Rightarrow> state_class" where
  "classification_tail s =
     (if is_complete s then CComplete
      else if is_awaiting_integration s then CAwaitingIntegration
      else if is_ready s then CReady
      else CBlocked)"

definition classification :: "node_state \<Rightarrow> state_class" where
  "classification s =
     (if st_currency s = Current
      then (case st_outcome s of
              RAccepted \<Rightarrow> CAccepted | RRejected \<Rightarrow> CRejected | RAbandoned \<Rightarrow> CAbandoned
            | _ \<Rightarrow> classification_tail s)
      else classification_tail s)"

section \<open>Facts about the model\<close>

lemma result_outcome_roundtrip: "result_outcome_of_str (result_outcome_as_str x) = Some x"
  by (cases x rule: result_outcome_as_str.cases; rename_tac y; case_tac y)
     (simp_all add: result_outcome_of_str_def)

lemma result_outcome_of_str_inj: "result_outcome_of_str s = Some x \<Longrightarrow> s = result_outcome_as_str x"
  by (auto simp: result_outcome_of_str_def split: if_splits)

text \<open>
  The one \<open>outcome = "..."\<close> value of a result file. Writing an outcome and reading it back
  gives the same outcome, and the only strings that read as an outcome are the ones written for
  it, so the kind of a result (work or verification) is never lost or changed on disk.
\<close>

theorem result_outcome_on_disk:
  "result_outcome_of_str s = Some x \<longleftrightarrow> s = result_outcome_as_str x"
  using result_outcome_roundtrip result_outcome_of_str_inj by blast

text \<open>
  One precedence for every reader. A node has exactly the class \<open>classification\<close> gives:
  ready means the node is not complete, nothing blocks it and nothing waits for publication;
  complete, ready and awaiting integration exclude each other unless a current review conclusion
  awaits integration; and a node that is neither complete, awaiting nor ready is blocked by a
  dependency.
\<close>

theorem classification_sound:
  "(classification s = CReady \<longleftrightarrow> is_ready s) \<and>
   (classification s \<in> {CComplete, CAccepted, CRejected, CAbandoned} \<longleftrightarrow> is_complete s) \<and>
   (classification s = CBlocked \<longleftrightarrow> is_blocked s \<and> \<not> is_awaiting_integration s) \<and>
   (classification s = CAwaitingIntegration \<longleftrightarrow> is_awaiting_integration s \<and> \<not> is_complete s) \<and>
   (is_complete s \<longrightarrow> \<not> is_ready s \<and> \<not> is_blocked s)"
  by (auto simp: classification_def classification_tail_def is_complete_def is_ready_def
      is_awaiting_integration_def is_blocked_def split: recorded_outcome.splits)

theorem classification_sound_witness:
  "classification \<lparr>st_outcome = RSucceeded, st_currency = Current, st_integration = Published,
      st_staleness = [], st_blockers = []\<rparr> = CComplete \<and>
   \<not> is_ready \<lparr>st_outcome = RSucceeded, st_currency = Current, st_integration = Published,
      st_staleness = [], st_blockers = []\<rparr>"
proof -
  let ?s = "\<lparr>st_outcome = RSucceeded, st_currency = Current, st_integration = Published,
      st_staleness = [], st_blockers = []\<rparr>"
  have c: "classification ?s = CComplete" by code_simp
  then have "is_complete ?s" using classification_sound [of ?s] by simp
  then show ?thesis using c classification_sound [of ?s] by blast
qed

lemma title_of_no_blank: "title_of d \<noteq> []"
  by (auto simp: title_of_def find_Some_iff split: option.splits)

end
