(* ===== verification/Anyhow.thy ===== *)
theory Anyhow
  imports Prelude
begin

text \<open>
  Errors. An \<open>anyhow::Error\<close> is its chain of messages, each the format string of the source with
  its arguments; \<open>bail\<close> is the macro, \<open>with_context\<close> the extension method. A message becomes
  text only where the program displays it.
\<close>

section \<open>Errors\<close>

datatype error =
    Bail string "string list"
  | Context string "string list" error

type_synonym 'a res = "error + 'a"

abbreviation bail :: "string \<Rightarrow> string list \<Rightarrow> error + 'a" where
  "bail m args \<equiv> Inl (Bail m args)"

definition with_context :: "string \<Rightarrow> string list \<Rightarrow> 'a res \<Rightarrow> 'a res" where
  "with_context m args r = map_err (Context m args) r"

definition io_error :: error where
  "io_error = Bail ''io error'' []"

text \<open>A panic (\<open>expect\<close>, \<open>unreachable\<close>), as an error of its own.\<close>

definition panic :: "string \<Rightarrow> error" where
  "panic m = Bail (''panicked: '' @ m) []"

fun show_nat :: "nat \<Rightarrow> string" where
  "show_nat n = (if n < 10 then [char_of (48 + n)] else show_nat (n div 10) @ [char_of (48 + n mod 10)])"

declare show_nat.simps [simp del]

lemma with_context_Inr_iff [result_simps]: "with_context m a r = Inr x \<longleftrightarrow> r = Inr x"
  by (simp add: with_context_def result_simps)

lemma with_context_Inl_iff [result_simps]:
  "with_context m a r = Inl e \<longleftrightarrow> (\<exists>d. r = Inl d \<and> e = Context m a d)"
  by (simp add: with_context_def result_simps)

lemma with_context_simps [simp]:
  "with_context m a (Inr x) = Inr x" "with_context m a (Inl e) = Inl (Context m a e)"
  by (simp_all add: with_context_def)

section \<open>Displaying an error\<close>

text \<open>\<open>Display\<close> of an error: its outermost message, each placeholder filled in order.\<close>

fun fill :: "string \<Rightarrow> string list \<Rightarrow> string" where
  "fill [] args = []"
| "fill [x] args = [x]"
| "fill (x # y # m) args =
     (if x = CHR ''{'' \<and> y = CHR ''}''
      then (case args of [] \<Rightarrow> x # y # fill m [] | a # rest \<Rightarrow> a @ fill m rest)
      else x # fill (y # m) args)"

fun error_text :: "error \<Rightarrow> string" where
  "error_text (Bail m args) = fill m args"
| "error_text (Context m args e) = fill m args"

text \<open>The alternate \<open>Display\<close> of an error: its whole chain of messages.\<close>

fun error_chain :: "error \<Rightarrow> string" where
  "error_chain (Bail m args) = fill m args"
| "error_chain (Context m args e) = fill m args @ '': '' @ error_chain e"

end
