(* ===== verification/Linka_Store.thy ===== *)
theory Linka_Store
  imports Linka_Model Anyhow
begin

text \<open>
  The on-disk store (\<open>linka/src/store.rs\<close>). A file is absent, unreadable or holds bytes; a node
  directory holds the four record files, its attachment directories and its observation files;
  \<open>nodes/\<close> and \<open>candidates/\<close> are association lists in directory order. The \<open>toml\<close> and
  \<open>sha1\<close> crates are the fields of the \<open>codec\<close> record, an argument of every definition that
  parses, prints or hashes. Writes succeed; a read can fail in every way the code handles.

  Plain files inside \<open>nodes/\<close> and \<open>candidates/\<close>, which the code skips when listing, are not
  represented.\<close>

section \<open>Files and directories\<close>

datatype fs_file = NotFound | Unreadable | Bytes string

datatype attach_entry = AttachFile | AttachDir (attach_toml: fs_file) (attach_data: fs_file)

record node_dir =
  nd_node :: fs_file
  nd_description :: fs_file
  nd_result :: fs_file
  nd_notes :: fs_file
  nd_attachments :: "(string \<times> attach_entry) list"
  nd_observations :: "(string \<times> fs_file) list"

definition empty_dir :: node_dir where
  "empty_dir = \<lparr>nd_node = NotFound, nd_description = NotFound, nd_result = NotFound,
     nd_notes = NotFound, nd_attachments = [], nd_observations = []\<rparr>"

record pairing =
  pa_schema :: nat
  pa_root_commit :: string
  pa_paired_at :: int
  pa_name :: "string option"
  pa_remote :: "string option"

record codec =
  sha1_hex :: "string \<Rightarrow> string"
  node_to_toml :: "node_meta \<Rightarrow> string option"
  node_of_toml :: "string \<Rightarrow> node_meta option"
  result_to_toml :: "result_meta \<Rightarrow> string option"
  result_of_toml :: "string \<Rightarrow> result_meta option"
  attachment_to_toml :: "node_attachment \<Rightarrow> string option"
  attachment_of_toml :: "string \<Rightarrow> node_attachment option"
  observation_to_toml :: "context_observation \<Rightarrow> string option"
  observation_of_toml :: "string \<Rightarrow> context_observation option"
  candidate_to_toml :: "candidate_record \<Rightarrow> string option"
  candidate_of_toml :: "string \<Rightarrow> candidate_record option"
  pairing_to_toml :: "pairing \<Rightarrow> string option"
  pairing_of_toml :: "string \<Rightarrow> pairing option"

record store =
  store_root :: string
  store_nodes :: "(string \<times> node_dir) list"
  store_candidates :: "(string \<times> fs_file) list"
  store_pairing :: fs_file

definition blob_id :: "codec \<Rightarrow> string \<Rightarrow> string" where
  "blob_id c bytes = sha1_hex c (''blob '' @ show_nat (length bytes) @ [CHR 0x00] @ bytes)"

definition node_dir_of :: "store \<Rightarrow> node_id \<Rightarrow> node_dir" where
  "node_dir_of s i = (case map_of (store_nodes s) i of None \<Rightarrow> empty_dir | Some d \<Rightarrow> d)"

definition put_dir :: "node_id \<Rightarrow> node_dir \<Rightarrow> store \<Rightarrow> store" where
  "put_dir i d s = s\<lparr>store_nodes := AList.update i d (store_nodes s)\<rparr>"

text \<open>\<open>fs::read\<close> followed by \<open>std::str::from_utf8\<close>, as \<open>fs::read_to_string\<close> does.\<close>

fun read_bytes :: "fs_file \<Rightarrow> string res" where
  "read_bytes (Bytes b) = Inr b"
| "read_bytes NotFound = Inl io_error"
| "read_bytes Unreadable = Inl io_error"

definition utf8_text :: "string \<Rightarrow> string res" where
  "utf8_text b = (if utf8_valid b then Inr b else bail ''invalid utf-8'' [])"

definition read_text :: "fs_file \<Rightarrow> string res" where
  "read_text f = and_then (read_bytes f) utf8_text"

definition parse_with :: "(string \<Rightarrow> 'a option) \<Rightarrow> string \<Rightarrow> 'a res" where
  "parse_with p text = ok_or (Bail ''toml parse error'' []) (p text)"

definition exists_node :: "store \<Rightarrow> node_id \<Rightarrow> bool" where
  "exists_node s i \<longleftrightarrow> nd_node (node_dir_of s i) \<noteq> NotFound"

section \<open>Definitions\<close>

record loaded_definition =
  ld_meta :: node_meta
  ld_description :: string
  ld_version :: definition_version

record loaded_result =
  lr_meta :: result_meta
  lr_notes :: string
  lr_version :: result_version

text \<open>The directory exists once \<open>create_dir_all\<close> ran, even when serialising fails after it.\<close>

definition write_node :: "codec \<Rightarrow> node_id \<Rightarrow> node_meta \<Rightarrow> string \<Rightarrow> (store, error, unit) st_op" where
  "write_node c i meta description s =
     (if nm_schema meta \<noteq> DEFINITION_SCHEMA
      then (bail ''cannot write unsupported definition schema {}'' [show_nat (nm_schema meta)], s)
      else (case node_to_toml c meta of
              None \<Rightarrow> (bail ''serialising node metadata'' [], put_dir i (node_dir_of s i) s)
            | Some data \<Rightarrow>
                (Inr (), put_dir i ((node_dir_of s i)
                   \<lparr>nd_node := Bytes data, nd_description := Bytes description\<rparr>) s)))"

definition load_definition :: "codec \<Rightarrow> store \<Rightarrow> node_id \<Rightarrow> loaded_definition res" where
  "load_definition c s i =
     and_then (with_context ''unknown node `{}`'' [i] (read_bytes (nd_node (node_dir_of s i)))) (\<lambda>data.
     and_then (with_context ''reading node.toml for `{}`'' [i] (utf8_text data)) (\<lambda>text.
     and_then (with_context ''parsing node.toml for `{}`'' [i] (parse_with (node_of_toml c) text)) (\<lambda>meta.
     if nm_schema meta \<noteq> DEFINITION_SCHEMA
     then bail ''node `{}` uses unsupported schema {}'' [i, show_nat (nm_schema meta)]
     else
     and_then (with_context ''reading description.md for `{}`'' [i]
       (read_bytes (nd_description (node_dir_of s i)))) (\<lambda>bytes.
     and_then (with_context ''reading description.md for `{}`'' [i] (utf8_text bytes)) (\<lambda>description.
     Inr \<lparr>ld_meta = meta, ld_description = description,
          ld_version = \<lparr>dv_metadata = blob_id c data, dv_description = blob_id c bytes\<rparr>\<rparr>)))))"

definition read_node :: "codec \<Rightarrow> store \<Rightarrow> node_id \<Rightarrow> (node_meta \<times> string) res" where
  "read_node c s i = map_ok (\<lambda>d. (ld_meta d, ld_description d)) (load_definition c s i)"

definition node_version :: "codec \<Rightarrow> store \<Rightarrow> node_id \<Rightarrow> definition_version res" where
  "node_version c s i = map_ok ld_version (load_definition c s i)"

section \<open>Results\<close>

definition write_result :: "codec \<Rightarrow> node_id \<Rightarrow> result_meta \<Rightarrow> string \<Rightarrow> (store, error, unit) st_op" where
  "write_result c i meta notes s =
     (if rm_schema meta \<noteq> RESULT_SCHEMA
      then (bail ''cannot write unsupported result schema {}'' [show_nat (rm_schema meta)], s)
      else if \<not> exists_node s i then (bail ''unknown node `{}`'' [i], s)
      else (case result_to_toml c meta of
              None \<Rightarrow> (bail ''serialising result metadata'' [], s)
            | Some data \<Rightarrow>
                (Inr (), put_dir i ((node_dir_of s i)
                   \<lparr>nd_result := Bytes data,
                    nd_notes := (if notes = [] then NotFound else Bytes notes)\<rparr>) s)))"

definition load_notes :: "node_id \<Rightarrow> fs_file \<Rightarrow> string option res" where
  "load_notes i f =
     (case f of
        Bytes b \<Rightarrow> Inr (Some b)
      | NotFound \<Rightarrow> Inr None
      | Unreadable \<Rightarrow> with_context ''reading result.md for `{}`'' [i] (Inl io_error))"

definition load_result :: "codec \<Rightarrow> store \<Rightarrow> node_id \<Rightarrow> loaded_result option res" where
  "load_result c s i =
     (case nd_result (node_dir_of s i) of
        NotFound \<Rightarrow>
          (case nd_notes (node_dir_of s i) of
             Bytes _ \<Rightarrow> bail ''result.md exists without result.toml for `{}`'' [i]
           | NotFound \<Rightarrow> Inr None
           | Unreadable \<Rightarrow> with_context ''reading result.md for `{}`'' [i] (Inl io_error))
      | Unreadable \<Rightarrow> with_context ''reading result for `{}`'' [i] (Inl io_error)
      | Bytes data \<Rightarrow>
          and_then (with_context ''reading result.toml for `{}`'' [i] (utf8_text data)) (\<lambda>text.
          and_then (with_context ''parsing result.toml for `{}`'' [i]
            (parse_with (result_of_toml c) text)) (\<lambda>meta.
          if rm_schema meta \<noteq> RESULT_SCHEMA
          then bail ''result for `{}` uses unsupported schema {}'' [i, show_nat (rm_schema meta)]
          else
          and_then (load_notes i (nd_notes (node_dir_of s i))) (\<lambda>notes_bytes.
          and_then (case notes_bytes of
                      None \<Rightarrow> Inr []
                    | Some b \<Rightarrow> with_context ''reading result.md for `{}`'' [i] (utf8_text b)) (\<lambda>notes.
          Inr (Some \<lparr>lr_meta = meta, lr_notes = notes,
                     lr_version = \<lparr>rv_metadata = blob_id c data,
                                   rv_notes = map_option (blob_id c) notes_bytes\<rparr>\<rparr>))))))"

definition read_result :: "codec \<Rightarrow> store \<Rightarrow> node_id \<Rightarrow> (result_meta \<times> string) option res" where
  "read_result c s i = map_ok (map_option (\<lambda>l. (lr_meta l, lr_notes l))) (load_result c s i)"

definition current_result_version :: "codec \<Rightarrow> store \<Rightarrow> node_id \<Rightarrow> result_version option res" where
  "current_result_version c s i = map_ok (map_option lr_version) (load_result c s i)"

definition result_version :: "codec \<Rightarrow> store \<Rightarrow> node_id \<Rightarrow> result_version res" where
  "result_version c s i =
     and_then (load_result c s i) (\<lambda>l.
       ok_or (Bail ''node `{}` has no result'' [i]) (map_option lr_version l))"

section \<open>Attachments\<close>

definition validate_attachment_identity :: "string \<Rightarrow> string \<Rightarrow> unit res" where
  "validate_attachment_identity namespace key =
     (if namespace = [] then bail ''attachment {} must not be empty'' [''namespace'']
      else if has_control namespace
        then bail ''attachment {} must not contain control characters'' [''namespace'']
      else if key = [] then bail ''attachment {} must not be empty'' [''key'']
      else if has_control key
        then bail ''attachment {} must not contain control characters'' [''key'']
      else Inr ())"

definition attachment_identity :: "codec \<Rightarrow> string \<Rightarrow> string \<Rightarrow> string" where
  "attachment_identity c namespace key = blob_id c (namespace @ [CHR 0x00] @ key)"

definition validate_attachment_record :: "node_attachment \<Rightarrow> string \<Rightarrow> string \<Rightarrow> unit res" where
  "validate_attachment_record a namespace key =
     and_then (validate_attachment_identity namespace key) (\<lambda>_.
     if na_schema a \<noteq> ATTACHMENT_SCHEMA
     then bail ''attachment `{}/{}` uses unsupported schema {}''
            [namespace, key, show_nat (na_schema a)]
     else if na_namespace a \<noteq> namespace \<or> na_key a \<noteq> key
     then bail ''attachment identity does not match its recorded namespace and key'' []
     else Inr ())"

definition validate_attachment_data :: "codec \<Rightarrow> node_attachment \<Rightarrow> string \<Rightarrow> unit res" where
  "validate_attachment_data c a data =
     (if na_size a \<noteq> length data
      then bail ''attachment `{}/{}` size does not match its payload'' [na_namespace a, na_key a]
      else if na_content a \<noteq> blob_id c data
      then bail ''attachment `{}/{}` content identity does not match its payload''
             [na_namespace a, na_key a]
      else Inr ())"

definition attachment_path :: "codec \<Rightarrow> string \<Rightarrow> string \<Rightarrow> string res" where
  "attachment_path c namespace key =
     and_then (validate_attachment_identity namespace key) (\<lambda>_.
     Inr (attachment_identity c namespace key))"

fun attachment_files :: "attach_entry \<Rightarrow> fs_file \<times> fs_file" where
  "attachment_files AttachFile = (Unreadable, Unreadable)"
| "attachment_files (AttachDir t d) = (t, d)"

definition read_node_attachment ::
  "codec \<Rightarrow> store \<Rightarrow> node_id \<Rightarrow> string \<Rightarrow> string \<Rightarrow> (node_attachment \<times> string) option res" where
  "read_node_attachment c s i namespace key =
     (if \<not> exists_node s i then bail ''unknown node `{}`'' [i]
      else
      and_then (attachment_path c namespace key) (\<lambda>dir.
      case map_of (nd_attachments (node_dir_of s i)) dir of
        None \<Rightarrow> Inr None
      | Some entry \<Rightarrow>
          and_then (with_context ''reading {}'' [''attachment.toml'']
            (read_text (fst (attachment_files entry)))) (\<lambda>text.
          and_then (with_context ''parsing {}'' [''attachment.toml'']
            (parse_with (attachment_of_toml c) text)) (\<lambda>a.
          and_then (validate_attachment_record a namespace key) (\<lambda>_.
          and_then (with_context ''reading {}'' [''data'']
            (read_bytes (snd (attachment_files entry)))) (\<lambda>data.
          and_then (validate_attachment_data c a data) (\<lambda>_.
          Inr (Some (a, data)))))))))"

definition list_attachment_entry ::
  "codec \<Rightarrow> node_id \<Rightarrow> string \<times> attach_entry \<Rightarrow> node_attachment res" where
  "list_attachment_entry c i entry =
     (case snd entry of
        AttachFile \<Rightarrow> bail ''unexpected file in node `{}` attachments: {}'' [i, fst entry]
      | AttachDir t d \<Rightarrow>
          and_then (with_context ''reading {}'' [''attachment.toml''] (read_text t)) (\<lambda>text.
          and_then (with_context ''parsing {}'' [''attachment.toml'']
            (parse_with (attachment_of_toml c) text)) (\<lambda>a.
          and_then (validate_attachment_record a (na_namespace a) (na_key a)) (\<lambda>_.
          if fst entry \<noteq> attachment_identity c (na_namespace a) (na_key a)
          then bail ''attachment identity and directory disagree for node `{}`'' [i]
          else
          and_then (read_bytes d) (\<lambda>data.
          and_then (validate_attachment_data c a data) (\<lambda>_. Inr a))))))"

definition list_node_attachments :: "codec \<Rightarrow> store \<Rightarrow> node_id \<Rightarrow> node_attachment list res" where
  "list_node_attachments c s i =
     (if \<not> exists_node s i then bail ''unknown node `{}`'' [i]
      else
      and_then (collect (list_attachment_entry c i) (nd_attachments (node_dir_of s i))) (\<lambda>as.
      Inr (sort_key (\<lambda>a. [na_namespace a, na_key a]) as)))"

text \<open>The attachment directory exists once \<open>create_dir_all\<close> ran, even when serialising fails.\<close>

definition write_node_attachment ::
  "codec \<Rightarrow> node_id \<Rightarrow> node_attachment \<Rightarrow> string \<Rightarrow> (store, error, unit) st_op" where
  "write_node_attachment c i a data s =
     (if \<not> exists_node s i then (bail ''unknown node `{}`'' [i], s)
      else (case validate_attachment_record a (na_namespace a) (na_key a) of
        Inl e \<Rightarrow> (Inl e, s)
      | Inr _ \<Rightarrow> (case validate_attachment_data c a data of
          Inl e \<Rightarrow> (Inl e, s)
        | Inr _ \<Rightarrow> (case attachment_path c (na_namespace a) (na_key a) of
            Inl e \<Rightarrow> (Inl e, s)
          | Inr dir \<Rightarrow>
              (let d = node_dir_of s i;
                   old = (case map_of (nd_attachments d) dir of
                            None \<Rightarrow> AttachDir NotFound NotFound | Some entry \<Rightarrow> entry)
               in if old = AttachFile then (with_context ''creating {}'' [dir] (Inl io_error), s)
                  else case attachment_to_toml c a of
                    None \<Rightarrow> (bail ''serialising node attachment metadata'' [],
                      put_dir i (d\<lparr>nd_attachments := AList.update dir old (nd_attachments d)\<rparr>) s)
                  | Some metadata \<Rightarrow> (Inr (),
                      put_dir i (d\<lparr>nd_attachments :=
                        AList.update dir (AttachDir (Bytes metadata) (Bytes data))
                          (nd_attachments d)\<rparr>) s))))))"

section \<open>Context observations\<close>

text \<open>\<open>create_new\<close> makes an existing observation file immutable: writing it again is a no-op.\<close>

definition write_context_observation ::
  "codec \<Rightarrow> node_id \<Rightarrow> context_observation \<Rightarrow> (store, error, unit) st_op" where
  "write_context_observation c i obs s =
     (if co_schema obs \<noteq> OBSERVATION_SCHEMA
      then (bail ''cannot write unsupported context observation schema {}'' [show_nat (co_schema obs)], s)
      else (case observation_to_toml c obs of
        None \<Rightarrow> (bail ''serialising context observation'' [], s)
      | Some data \<Rightarrow>
          (let d = node_dir_of s i; name = blob_id c data @ ''.toml''
           in case map_of (nd_observations d) name of
                Some _ \<Rightarrow> (Inr (), put_dir i d s)
              | None \<Rightarrow> (Inr (), put_dir i
                  (d\<lparr>nd_observations := AList.update name (Bytes data) (nd_observations d)\<rparr>) s))))"

definition read_observation_file :: "codec \<Rightarrow> string \<times> fs_file \<Rightarrow> context_observation res" where
  "read_observation_file c entry =
     and_then (read_text (snd entry)) (\<lambda>data.
     and_then (with_context ''parsing {}'' [fst entry] (parse_with (observation_of_toml c) data)) (\<lambda>obs.
     if co_schema obs \<noteq> OBSERVATION_SCHEMA
     then bail ''context observation {} uses unsupported schema {}''
            [fst entry, show_nat (co_schema obs)]
     else Inr obs))"

definition read_context_observations :: "codec \<Rightarrow> store \<Rightarrow> node_id \<Rightarrow> context_observation list res" where
  "read_context_observations c s i =
     collect (read_observation_file c) (nd_observations (node_dir_of s i))"

section \<open>Listing and paths\<close>

text \<open>\<open>store_root\<close> holds the last component of the root path, which is all the operations
  pass on (as a Git pathspec).\<close>

definition list_ids :: "store \<Rightarrow> node_id list res" where
  "list_ids s =
     and_then (collect (\<lambda>name.
         with_context ''invalid node directory `{}`'' [name]
           (map_err (\<lambda>m. Bail m []) (validate_node_id name)))
       (map fst (store_nodes s))) (\<lambda>ids. Inr (sort ids))"

definition store_name :: "store \<Rightarrow> string" where
  "store_name s = store_root s"

section \<open>Reading depends on the files read\<close>

lemma node_dir_of_put_dir [simp]:
  "node_dir_of (put_dir i d s) j = (if j = i then d else node_dir_of s j)"
  by (simp add: node_dir_of_def put_dir_def)

lemma put_dir_fields [simp]:
  "store_candidates (put_dir i d s) = store_candidates s"
  "store_pairing (put_dir i d s) = store_pairing s"
  "store_root (put_dir i d s) = store_root s"
  by (simp_all add: put_dir_def)

lemma load_definition_cong:
  assumes "nd_node (node_dir_of s i) = nd_node (node_dir_of t i)"
    and "nd_description (node_dir_of s i) = nd_description (node_dir_of t i)"
  shows "load_definition c s i = load_definition c t i"
  unfolding load_definition_def assms ..

lemma load_result_cong:
  assumes "nd_result (node_dir_of s i) = nd_result (node_dir_of t i)"
    and "nd_notes (node_dir_of s i) = nd_notes (node_dir_of t i)"
  shows "load_result c s i = load_result c t i"
  unfolding load_result_def assms ..

lemma exists_node_cong:
  "nd_node (node_dir_of s i) = nd_node (node_dir_of t i) \<Longrightarrow> exists_node s i = exists_node t i"
  by (simp add: exists_node_def)

lemma load_definition_exists: "load_definition c s i = Inr d \<Longrightarrow> exists_node s i"
  by (auto simp: load_definition_def exists_node_def result_simps)

lemma load_definition_schema: "load_definition c s i = Inr d \<Longrightarrow> nm_schema (ld_meta d) = DEFINITION_SCHEMA"
  by (auto simp: load_definition_def result_simps split: if_splits)

lemma load_result_schema: "load_result c s i = Inr (Some l) \<Longrightarrow> rm_schema (lr_meta l) = RESULT_SCHEMA"
  by (auto simp: load_result_def result_simps split: fs_file.splits if_splits)

lemma exists_node_dom:
  assumes "exists_node s i"
  shows "i \<in> set (map fst (store_nodes s))"
proof -
  obtain d where "map_of (store_nodes s) i = Some d"
    using assms by (auto simp: exists_node_def node_dir_of_def empty_dir_def split: option.splits)
  then show ?thesis by (rule map_of_in_keys)
qed

lemma write_node_fields [frame_simps]:
  "write_node c i meta desc s = (r, t) \<Longrightarrow> j \<noteq> i \<Longrightarrow> node_dir_of t j = node_dir_of s j"
  "write_node c i meta desc s = (r, t) \<Longrightarrow> nd_result (node_dir_of t j) = nd_result (node_dir_of s j)"
  "write_node c i meta desc s = (r, t) \<Longrightarrow> nd_notes (node_dir_of t j) = nd_notes (node_dir_of s j)"
  "write_node c i meta desc s = (r, t) \<Longrightarrow>
     nd_attachments (node_dir_of t j) = nd_attachments (node_dir_of s j)"
  "write_node c i meta desc s = (r, t) \<Longrightarrow>
     nd_observations (node_dir_of t j) = nd_observations (node_dir_of s j)"
  "write_node c i meta desc s = (r, t) \<Longrightarrow> store_candidates t = store_candidates s"
  "write_node c i meta desc s = (r, t) \<Longrightarrow> store_pairing t = store_pairing s"
  by (auto simp: write_node_def split: if_splits option.splits)

lemma write_result_fields [frame_simps]:
  "write_result c i meta notes s = (r, t) \<Longrightarrow> j \<noteq> i \<Longrightarrow> node_dir_of t j = node_dir_of s j"
  "write_result c i meta notes s = (r, t) \<Longrightarrow> nd_node (node_dir_of t j) = nd_node (node_dir_of s j)"
  "write_result c i meta notes s = (r, t) \<Longrightarrow>
     nd_description (node_dir_of t j) = nd_description (node_dir_of s j)"
  "write_result c i meta notes s = (r, t) \<Longrightarrow>
     nd_attachments (node_dir_of t j) = nd_attachments (node_dir_of s j)"
  "write_result c i meta notes s = (r, t) \<Longrightarrow>
     nd_observations (node_dir_of t j) = nd_observations (node_dir_of s j)"
  "write_result c i meta notes s = (r, t) \<Longrightarrow> store_candidates t = store_candidates s"
  "write_result c i meta notes s = (r, t) \<Longrightarrow> store_pairing t = store_pairing s"
  by (auto simp: write_result_def split: if_splits option.splits)

lemma write_node_attachment_fields [frame_simps]:
  "write_node_attachment c i a data s = (r, t) \<Longrightarrow> j \<noteq> i \<Longrightarrow> node_dir_of t j = node_dir_of s j"
  "write_node_attachment c i a data s = (r, t) \<Longrightarrow> nd_node (node_dir_of t j) = nd_node (node_dir_of s j)"
  "write_node_attachment c i a data s = (r, t) \<Longrightarrow>
     nd_description (node_dir_of t j) = nd_description (node_dir_of s j)"
  "write_node_attachment c i a data s = (r, t) \<Longrightarrow>
     nd_result (node_dir_of t j) = nd_result (node_dir_of s j)"
  "write_node_attachment c i a data s = (r, t) \<Longrightarrow>
     nd_notes (node_dir_of t j) = nd_notes (node_dir_of s j)"
  "write_node_attachment c i a data s = (r, t) \<Longrightarrow> store_candidates t = store_candidates s"
  "write_node_attachment c i a data s = (r, t) \<Longrightarrow> store_pairing t = store_pairing s"
  by (auto simp: write_node_attachment_def Let_def split: if_splits option.splits sum.splits)

section \<open>The read-after-write contract\<close>

text \<open>
  What the operations rely on wherever they write a record and read it later: a write changes
  what is read under its own key only, and a successful write is what the next read sees. The
  batch lemmas are proved once here and used for node definitions, results and attachments.
\<close>

locale keyed_files =
  fixes get :: "'s \<Rightarrow> 'k \<Rightarrow> 'r"
    and put :: "'v \<Rightarrow> ('s, 'e, unit) st_op"
    and key :: "'v \<Rightarrow> 'k"
    and stored :: "'v \<Rightarrow> 'r \<Rightarrow> bool"
  assumes put_other: "put v s = (r, t) \<Longrightarrow> k \<noteq> key v \<Longrightarrow> get t k = get s k"
    and put_same: "put v s = (Inr (), t) \<Longrightarrow> stored v (get t (key v))"
begin

lemma put_all_other:
  assumes "st_for put vs s = (r, t)" and "k \<notin> key ` set vs"
  shows "get t k = get s k"
  by (rule st_for_rel [where f = put and xs = vs and s = s and r = r and t = t
        and R = "\<lambda>s t. get t k = get s k", symmetric, THEN sym])
     (use assms in \<open>auto dest: put_other\<close>)

lemma put_all_same:
  assumes "st_for put vs s = (Inr (), t)" and "distinct (map key vs)" and "v \<in> set vs"
  shows "stored v (get t (key v))"
  using assms
proof (induction vs arbitrary: s)
  case Nil
  then show ?case by simp
next
  case (Cons x xs)
  then obtain u where x: "put x s = (Inr (), u)" and xs: "st_for put xs u = (Inr (), t)"
    by (auto simp: result_simps)
  show ?case
  proof (cases "v = x")
    case True
    have "key x \<notin> key ` set xs" using Cons.prems(2) by auto
    then have "get t (key x) = get u (key x)" using xs by (rule put_all_other [rotated])
    then show ?thesis using put_same [OF x] True by simp
  next
    case False
    then show ?thesis using Cons.IH [OF xs] Cons.prems by auto
  qed
qed

end

definition definition_files :: "store \<Rightarrow> node_id \<Rightarrow> fs_file \<times> fs_file" where
  "definition_files s i = (nd_node (node_dir_of s i), nd_description (node_dir_of s i))"

definition result_files :: "store \<Rightarrow> node_id \<Rightarrow> fs_file \<times> fs_file" where
  "result_files s i = (nd_result (node_dir_of s i), nd_notes (node_dir_of s i))"

definition attachment_entry_of :: "node_id \<Rightarrow> store \<Rightarrow> string \<Rightarrow> attach_entry option" where
  "attachment_entry_of i s dir = map_of (nd_attachments (node_dir_of s i)) dir"

interpretation definition_records: keyed_files definition_files
  "\<lambda>(i, meta, desc). write_node c i meta desc" fst
  "\<lambda>(i, meta, desc) files. \<exists>data. node_to_toml c meta = Some data \<and> files = (Bytes data, Bytes desc)"
  by unfold_locales
    (auto simp: definition_files_def write_node_def split: if_splits option.splits)

interpretation result_records: keyed_files result_files
  "\<lambda>(i, meta, notes). write_result c i meta notes" fst
  "\<lambda>(i, meta, notes) files. \<exists>data. result_to_toml c meta = Some data \<and>
     files = (Bytes data, if notes = [] then NotFound else Bytes notes)"
  by unfold_locales
    (auto simp: result_files_def write_result_def split: if_splits option.splits)

interpretation attachment_records: keyed_files "attachment_entry_of i"
  "\<lambda>(a, data). write_node_attachment c i a data"
  "\<lambda>(a, data). attachment_identity c (na_namespace a) (na_key a)"
  "\<lambda>(a, data) entry. \<exists>text. attachment_to_toml c a = Some text \<and>
     entry = Some (AttachDir (Bytes text) (Bytes data)) \<and>
     validate_attachment_data c a data = Inr () \<and>
     validate_attachment_record a (na_namespace a) (na_key a) = Inr ()"
  by unfold_locales
    (auto simp: attachment_entry_of_def write_node_attachment_def Let_def attachment_path_def
      result_simps split: if_splits option.splits sum.splits)

end
