(* ===== verification/Linka_Vcs.thy ===== *)
theory Linka_Vcs
  imports Linka_Store
begin

text \<open>
  The version-control seam (\<open>linka/src/vcs.rs\<close>) and the mutation lock (\<open>store.rs\<close>). The
  trait \<open>Vcs\<close> is a record of operations over a backend state; those that look at the store
  directory on disk also get the store. The in-memory \<open>FakeVcs\<close> of the source is the concrete
  backend, and the locale \<open>vcs_contract\<close> holds the laws of the trait's documentation that the
  candidate and submission protocols use. A workbench is the store, the backend, whether another
  process holds the mutation lock, and the project's working tree as \<open>canonicalize\<close> sees it.
\<close>

section \<open>The trait\<close>

record 'v vcs =
  v_require_clean_store :: "'v \<Rightarrow> store \<Rightarrow> string \<Rightarrow> unit res"
  v_commit_store :: "'v \<Rightarrow> store \<Rightarrow> string \<Rightarrow> string \<Rightarrow> unit res \<times> 'v"
  v_output_was_recorded :: "'v \<Rightarrow> string \<Rightarrow> string \<Rightarrow> string \<Rightarrow> bool res"
  v_capture :: "'v \<Rightarrow> string list \<Rightarrow> string \<Rightarrow> string res \<times> 'v"
  v_capture_worktree :: "'v \<Rightarrow> string \<Rightarrow> string \<Rightarrow> string option res \<times> 'v"
  v_retain_output :: "'v \<Rightarrow> string \<Rightarrow> string \<Rightarrow> unit res \<times> 'v"
  v_drift :: "'v \<Rightarrow> string \<Rightarrow> string option \<Rightarrow> string option res"
  v_files_in :: "'v \<Rightarrow> string \<Rightarrow> string list res"
  v_dirty_paths :: "'v \<Rightarrow> string list res"
  v_commit_exists :: "'v \<Rightarrow> string \<Rightarrow> bool res"
  v_head_commit :: "'v \<Rightarrow> string option res"
  v_linka_node :: "'v \<Rightarrow> string \<Rightarrow> string option res"
  v_tree_id :: "'v \<Rightarrow> string \<Rightarrow> string res"
  v_file_blob :: "'v \<Rightarrow> string \<Rightarrow> string option res"
  v_file_blob_at :: "'v \<Rightarrow> string \<Rightarrow> string \<Rightarrow> string option res"
  v_root_commit :: "'v \<Rightarrow> string option res"
  v_remote_url :: "'v \<Rightarrow> string option res"
  v_current_branch :: "'v \<Rightarrow> string option res"
  v_ref_commit :: "'v \<Rightarrow> string \<Rightarrow> string option res"
  v_is_ancestor :: "'v \<Rightarrow> string \<Rightarrow> string \<Rightarrow> bool res"
  v_publish_fast_forward :: "'v \<Rightarrow> string \<Rightarrow> string \<Rightarrow> string \<Rightarrow> bool res \<times> 'v"

section \<open>FakeVcs\<close>

record fake_vcs =
  fk_next_id :: string
  fk_dirty :: "string list"
  fk_drift_for :: "(string \<times> string) list"
  fk_drift_error :: "string option"
  fk_revision_blobs :: "((string \<times> string) \<times> string) list"
  fk_captured :: "string list list"
  fk_store_commits :: nat
  fk_dirty_store :: "string list"
  fk_linka_nodes :: "(string \<times> string) list"
  fk_recorded_outputs :: "(string \<times> string) list"
  fk_files_for :: "(string \<times> string list) list"
  fk_root :: "string option"
  fk_remote :: "string option"
  fk_commits :: "string list"
  fk_refs :: "(string \<times> string) list"
  fk_branch :: "string option"

definition fake_require_clean_store :: "fake_vcs \<Rightarrow> store \<Rightarrow> string \<Rightarrow> unit res" where
  "fake_require_clean_store v s p =
     (if fk_dirty_store v \<noteq> []
      then bail ''uncommitted store changes: {}'' [join_with ([CHR 0x0A] @ ''  '') (fk_dirty_store v)]
      else Inr ())"

definition fake_commit_store :: "fake_vcs \<Rightarrow> store \<Rightarrow> string \<Rightarrow> string \<Rightarrow> unit res \<times> fake_vcs" where
  "fake_commit_store v s p m =
     (Inr (), v\<lparr>fk_store_commits := fk_store_commits v + 1, fk_dirty_store := []\<rparr>)"

definition fake_output_was_recorded :: "fake_vcs \<Rightarrow> string \<Rightarrow> string \<Rightarrow> string \<Rightarrow> bool res" where
  "fake_output_was_recorded v p node commit = Inr ((node, commit) \<in> set (fk_recorded_outputs v))"

definition fake_capture :: "fake_vcs \<Rightarrow> string list \<Rightarrow> string \<Rightarrow> string res \<times> fake_vcs" where
  "fake_capture v paths m =
     (Inr (fk_next_id v),
      v\<lparr>fk_captured := fk_captured v @ [paths],
        fk_files_for := AList.update (fk_next_id v) paths (fk_files_for v),
        fk_commits := List.insert (fk_next_id v) (fk_commits v)\<rparr>)"

definition fake_capture_worktree :: "fake_vcs \<Rightarrow> string \<Rightarrow> string \<Rightarrow> string option res \<times> fake_vcs" where
  "fake_capture_worktree v parent m =
     (if fk_dirty v = [] then (Inr None, v)
      else (Inr (Some (fk_next_id v)),
        v\<lparr>fk_captured := fk_captured v @ [fk_dirty v],
          fk_files_for := AList.update (fk_next_id v) (fk_dirty v) (fk_files_for v),
          fk_commits := List.insert (fk_next_id v) (fk_commits v)\<rparr>))"

definition output_ref :: "string \<Rightarrow> string" where
  "output_ref node = ''refs/linka/outputs/'' @ node"

definition fake_retain_output :: "fake_vcs \<Rightarrow> string \<Rightarrow> string \<Rightarrow> unit res \<times> fake_vcs" where
  "fake_retain_output v node commit =
     (Inr (), v\<lparr>fk_commits := List.insert commit (fk_commits v),
                fk_refs := AList.update (output_ref node) commit (fk_refs v)\<rparr>)"

definition fake_drift :: "fake_vcs \<Rightarrow> string \<Rightarrow> string option \<Rightarrow> string option res" where
  "fake_drift v i against =
     (if against = Some i then Inr None
      else (case fk_drift_error v of
              Some e \<Rightarrow> bail ''{}'' [e]
            | None \<Rightarrow> Inr (map_of (fk_drift_for v) i)))"

definition fake_files_in :: "fake_vcs \<Rightarrow> string \<Rightarrow> string list res" where
  "fake_files_in v i = Inr (case map_of (fk_files_for v) i of None \<Rightarrow> [] | Some fs \<Rightarrow> fs)"

definition fake_publish_fast_forward ::
  "fake_vcs \<Rightarrow> string \<Rightarrow> string \<Rightarrow> string \<Rightarrow> bool res \<times> fake_vcs" where
  "fake_publish_fast_forward v target expected_previous candidate =
     (if map_of (fk_refs v) target \<noteq> Some expected_previous then (Inr False, v)
      else (Inr True, v\<lparr>fk_refs := AList.update target candidate (fk_refs v)\<rparr>))"

definition fake_ops :: "fake_vcs vcs" where
  "fake_ops =
     \<lparr>v_require_clean_store = fake_require_clean_store,
      v_commit_store = fake_commit_store,
      v_output_was_recorded = fake_output_was_recorded,
      v_capture = fake_capture,
      v_capture_worktree = fake_capture_worktree,
      v_retain_output = fake_retain_output,
      v_drift = fake_drift,
      v_files_in = fake_files_in,
      v_dirty_paths = (\<lambda>v. Inr (fk_dirty v)),
      v_commit_exists = (\<lambda>v h. Inr (h \<in> set (fk_commits v))),
      v_head_commit = (\<lambda>v. Inr (fk_root v)),
      v_linka_node = (\<lambda>v commit. Inr (map_of (fk_linka_nodes v) commit)),
      v_tree_id = (\<lambda>v commit. Inr (''tree-'' @ commit)),
      v_file_blob = (\<lambda>v path. Inr None),
      v_file_blob_at = (\<lambda>v revision path. Inr (map_of (fk_revision_blobs v) (revision, path))),
      v_root_commit = (\<lambda>v. Inr (fk_root v)),
      v_remote_url = (\<lambda>v. Inr (fk_remote v)),
      v_current_branch = (\<lambda>v. Inr (fk_branch v)),
      v_ref_commit = (\<lambda>v reference. Inr (map_of (fk_refs v) reference)),
      v_is_ancestor = (\<lambda>v ancestor descendant. Inr (ancestor = descendant)),
      v_publish_fast_forward = fake_publish_fast_forward\<rparr>"

section \<open>The contract of the trait\<close>

text \<open>
  Publication moves the target from exactly the expected commit, by fast-forward, or reports
  \<open>false\<close> and moves nothing; a commit is contained in its own history; a retained output is
  named by its node's ref and exists; committing the store leaves every project reference alone,
  and capturing an output names no output ref.
\<close>

locale vcs_contract =
  fixes V :: "'v vcs"
  assumes publish_moves: "v_publish_fast_forward V v target previous commit = (Inr True, v') \<Longrightarrow>
      v_ref_commit V v target = Inr (Some previous) \<and> v_ref_commit V v' target = Inr (Some commit)"
    and publish_refused: "v_publish_fast_forward V v target previous commit = (Inr False, v') \<Longrightarrow> v' = v"
    and ancestor_refl: "v_is_ancestor V v commit commit = Inr True"
    and retain_names: "v_retain_output V v node commit = (Inr (), v') \<Longrightarrow>
      v_ref_commit V v' (output_ref node) = Inr (Some commit) \<and> v_commit_exists V v' commit = Inr True"
    and commit_store_refs: "v_commit_store V v s p m = (r, v') \<Longrightarrow>
      v_ref_commit V v' = v_ref_commit V v \<and> v_is_ancestor V v' = v_is_ancestor V v"
    and capture_refs: "v_capture V v paths m = (h, v') \<Longrightarrow>
      v_ref_commit V v' (output_ref node) = v_ref_commit V v (output_ref node)"
begin

lemma published_target:
  assumes "v_publish_fast_forward V v target previous commit = (Inr True, v')"
    and "v_commit_store V v' s p m = (r, v'')"
  shows "v_ref_commit V v'' target = Inr (Some commit) \<and> v_is_ancestor V v'' commit commit = Inr True"
  using publish_moves [OF assms(1)] commit_store_refs [OF assms(2)] ancestor_refl by simp

lemma lost_race:
  assumes "v_ref_commit V v target \<noteq> Inr (Some previous)"
    and "v_publish_fast_forward V v target previous commit = (Inr moved, v')"
  shows "\<not> moved \<and> v' = v"
  using assms publish_moves publish_refused by (cases moved) auto

end

interpretation fake: vcs_contract fake_ops
  by unfold_locales
    (auto simp: fake_ops_def fake_publish_fast_forward_def fake_retain_output_def
      fake_commit_store_def fake_capture_def split: if_splits)

section \<open>The workbench and its mutation lock\<close>

datatype project_file = PMissing | PEscapes | PUnresolved | PFile fs_file

record 'v workbench =
  wb_store :: store
  wb_vcs :: 'v
  wb_locked :: bool
  wb_files :: "project_path \<Rightarrow> project_file"

type_synonym ('v, 'a) wb_op = "('v workbench, error, 'a) st_op"

text \<open>
  \<open>Store::mutation_lock\<close>: the lock is refused while another process (or an operation further up
  the call stack) holds it, and given up again when the store is found dirty.
\<close>

definition mutation_lock :: "'v vcs \<Rightarrow> ('v, unit) wb_op" where
  "mutation_lock V w =
     (if wb_locked w then (bail ''another Linka store mutation is in progress ({})'' [''linka-mutation.lock''], w)
      else (case with_context ''Linka store must be clean before mutating'' []
                   (v_require_clean_store V (wb_vcs w) (wb_store w) (store_name (wb_store w))) of
              Inl e \<Rightarrow> (Inl e, w)
            | Inr _ \<Rightarrow> (Inr (), w\<lparr>wb_locked := True\<rparr>)))"

definition mutation_commit :: "'v vcs \<Rightarrow> string \<Rightarrow> ('v, unit) wb_op" where
  "mutation_commit V message w =
     (case v_commit_store V (wb_vcs w) (wb_store w) (store_name (wb_store w)) message of
        (Inl e, v) \<Rightarrow> (Inl e, w\<lparr>wb_vcs := v\<rparr>)
      | (Inr _, v) \<Rightarrow>
          (with_context ''Linka store is still dirty after committing the mutation'' []
             (v_require_clean_store V v (wb_store w) (store_name (wb_store w))),
           w\<lparr>wb_vcs := v\<rparr>))"

text \<open>The lock is a local variable of the operation: dropped on every return, errors included. The
  caller's error type is built from a lock error by \<open>into\<close> (\<open>From<anyhow::Error>\<close>).\<close>

definition with_mutation_as ::
  "(error \<Rightarrow> 'e) \<Rightarrow> 'v vcs \<Rightarrow> ('v workbench, 'e, 'a) st_op \<Rightarrow> ('v workbench, 'e, 'a) st_op" where
  "with_mutation_as into V body w =
     (case mutation_lock V w of
        (Inl e, w1) \<Rightarrow> (Inl (into e), w1)
      | (Inr _, w1) \<Rightarrow> (case body w1 of (r, w2) \<Rightarrow> (r, w2\<lparr>wb_locked := False\<rparr>)))"

abbreviation with_mutation :: "'v vcs \<Rightarrow> ('v, 'a) wb_op \<Rightarrow> ('v, 'a) wb_op" where
  "with_mutation \<equiv> with_mutation_as (\<lambda>e. e)"

text \<open>An operation on the store alone, run on the workbench.\<close>

definition on_store :: "(store, error, 'a) st_op \<Rightarrow> ('v, 'a) wb_op" where
  "on_store m w = (case m (wb_store w) of (r, s) \<Rightarrow> (r, w\<lparr>wb_store := s\<rparr>))"

definition on_vcs :: "('v \<Rightarrow> 'a res \<times> 'v) \<Rightarrow> ('v, 'a) wb_op" where
  "on_vcs m w = (case m (wb_vcs w) of (r, v) \<Rightarrow> (r, w\<lparr>wb_vcs := v\<rparr>))"

lemma on_store_iff [result_simps]:
  "on_store m w = (r, w') \<longleftrightarrow> (\<exists>s. m (wb_store w) = (r, s) \<and> w' = w\<lparr>wb_store := s\<rparr>)"
  by (auto simp: on_store_def split: prod.splits)

lemma on_vcs_iff [result_simps]:
  "on_vcs m w = (r, w') \<longleftrightarrow> (\<exists>v. m (wb_vcs w) = (r, v) \<and> w' = w\<lparr>wb_vcs := v\<rparr>)"
  by (auto simp: on_vcs_def split: prod.splits)

definition store_clean :: "'v vcs \<Rightarrow> 'v workbench \<Rightarrow> bool" where
  "store_clean V w \<longleftrightarrow>
     v_require_clean_store V (wb_vcs w) (wb_store w) (store_name (wb_store w)) = Inr ()"

lemma mutation_lock_cases:
  obtains (refused) e where "mutation_lock V w = (Inl e, w)" "wb_locked w \<or> \<not> store_clean V w"
  | (held) "\<not> wb_locked w" "store_clean V w" "mutation_lock V w = (Inr (), w\<lparr>wb_locked := True\<rparr>)"
proof (cases "v_require_clean_store V (wb_vcs w) (wb_store w) (store_name (wb_store w))")
  case (Inl e)
  then have "\<exists>e. mutation_lock V w = (Inl e, w)" by (simp add: mutation_lock_def)
  then show ?thesis using refused Inl by (auto simp: store_clean_def)
next
  case (Inr u)
  then show ?thesis
    by (cases "wb_locked w") (auto simp: mutation_lock_def store_clean_def intro: refused held)
qed

lemma mutation_commit_store [frame_simps]:
  "mutation_commit V m w = (r, w') \<Longrightarrow> wb_store w' = wb_store w"
  "mutation_commit V m w = (r, w') \<Longrightarrow> wb_files w' = wb_files w"
  "mutation_commit V m w = (r, w') \<Longrightarrow> wb_locked w' = wb_locked w"
  by (auto simp: mutation_commit_def split: prod.splits sum.splits)

lemma mutation_commit_clean:
  "mutation_commit V m w = (Inr u, w') \<Longrightarrow> store_clean V w'"
  by (auto simp: mutation_commit_def store_clean_def result_simps split: prod.splits sum.splits)

lemma with_mutation_Inr:
  "with_mutation_as into V body w = (Inr x, w') \<longleftrightarrow>
     (\<exists>w2. \<not> wb_locked w \<and> store_clean V w \<and>
       body (w\<lparr>wb_locked := True\<rparr>) = (Inr x, w2) \<and> w' = w2\<lparr>wb_locked := False\<rparr>)"
  by (cases rule: mutation_lock_cases [of V w])
    (auto simp: with_mutation_as_def split: prod.splits)

lemma with_mutation_Inl:
  "with_mutation_as into V body w = (Inl e, w') \<Longrightarrow>
     w' = w \<or> (\<exists>w2. \<not> wb_locked w \<and> store_clean V w \<and>
       body (w\<lparr>wb_locked := True\<rparr>) = (Inl e, w2) \<and> w' = w2\<lparr>wb_locked := False\<rparr>)"
  by (cases rule: mutation_lock_cases [of V w])
    (auto simp: with_mutation_as_def split: prod.splits)

lemma with_mutation_released: "with_mutation_as into V body w = (r, w') \<Longrightarrow> \<not> wb_locked w \<Longrightarrow> \<not> wb_locked w'"
  by (cases rule: mutation_lock_cases [of V w])
    (auto simp: with_mutation_as_def split: prod.splits)

end
