(* ===== verification/Linka_Ops.thy ===== *)
theory Linka_Ops
  imports Linka_Vcs
begin

text \<open>
  The helpers every graph operation shares (\<open>linka/src/ops/mod.rs\<close>), reading and writing the
  pairing file (\<open>linka/src/pairing.rs\<close>), and reading candidate records
  (\<open>linka/src/candidate.rs\<close>, \<open>linka/src/candidate/storage.rs\<close>).
\<close>

section \<open>The pairing file\<close>

definition PAIRING_SCHEMA :: nat where "PAIRING_SCHEMA = 1"

definition pairing_load :: "codec \<Rightarrow> store \<Rightarrow> pairing option res" where
  "pairing_load c s =
     (case store_pairing s of
        NotFound \<Rightarrow> Inr None
      | Unreadable \<Rightarrow> with_context ''reading {}'' [''pairing.toml''] (Inl io_error)
      | Bytes b \<Rightarrow>
          and_then (with_context ''reading {}'' [''pairing.toml''] (utf8_text b)) (\<lambda>text.
          and_then (with_context ''parsing {}'' [''pairing.toml''] (parse_with (pairing_of_toml c) text)) (\<lambda>p.
          if pa_schema p \<noteq> PAIRING_SCHEMA
          then bail ''pairing uses unsupported schema {}'' [show_nat (pa_schema p)]
          else Inr (Some p))))"

definition pairing_save :: "codec \<Rightarrow> pairing \<Rightarrow> (store, error, unit) st_op" where
  "pairing_save c p s =
     (if pa_schema p \<noteq> PAIRING_SCHEMA
      then (bail ''cannot write unsupported pairing schema {}'' [show_nat (pa_schema p)], s)
      else (case pairing_to_toml c p of
              None \<Rightarrow> (bail ''serialising pairing'' [], s)
            | Some data \<Rightarrow> (Inr (), s\<lparr>store_pairing := Bytes data\<rparr>)))"

section \<open>Shared helpers\<close>

definition require_clean_except :: "'v vcs \<Rightarrow> 'v workbench \<Rightarrow> string list \<Rightarrow> unit res" where
  "require_clean_except V w allowed =
     and_then (v_dirty_paths V (wb_vcs w)) (\<lambda>dirty.
     let stray = filter (\<lambda>p. p \<notin> set allowed) dirty in
     if stray \<noteq> []
     then bail ''uncommitted project changes outside the declared outputs; declare or revert them: {}''
            [join_with ([CHR 0x0A] @ ''  '') stray]
     else Inr ())"

definition short :: "string \<Rightarrow> string" where
  "short hash = take 12 hash"

definition output_commit :: "result_meta \<Rightarrow> string option" where
  "output_commit r = map_option ar_id (rm_output r)"

definition short_definition :: "definition_version \<Rightarrow> string" where
  "short_definition v = short (dv_metadata v) @ ''/'' @ short (dv_description v)"

definition short_result :: "result_version \<Rightarrow> string" where
  "short_result v = short (rv_metadata v) @ ''/'' @ (case rv_notes v of None \<Rightarrow> ''none'' | Some n \<Rightarrow> short n)"

definition pin_node :: "codec \<Rightarrow> store \<Rightarrow> node_id \<Rightarrow> consumed_node res" where
  "pin_node c s dep =
     and_then (with_context ''cannot pin unknown dependency `{}`'' [dep] (load_definition c s dep)) (\<lambda>d.
     and_then (load_result c s dep) (\<lambda>current.
     Inr \<lparr>cn_id = dep,
          cn_definition = ld_version d,
          cn_result = map_option lr_version current,
          cn_outcome = map_option (\<lambda>r. rm_outcome (lr_meta r)) current,
          cn_output = (case current of None \<Rightarrow> None | Some r \<Rightarrow> rm_output (lr_meta r))\<rparr>))"

definition pin_node_list :: "codec \<Rightarrow> store \<Rightarrow> node_id list \<Rightarrow> consumed_node list res" where
  "pin_node_list c s nodes = collect (pin_node c s) nodes"

definition file_blob :: "codec \<Rightarrow> fs_file \<Rightarrow> string option res" where
  "file_blob c f =
     (case f of
        Bytes b \<Rightarrow> Inr (Some (blob_id c b))
      | NotFound \<Rightarrow> Inr None
      | Unreadable \<Rightarrow> with_context ''reading context'' [] (Inl io_error))"

definition project_file_blob :: "codec \<Rightarrow> 'v workbench \<Rightarrow> project_path \<Rightarrow> string option res" where
  "project_file_blob c w path =
     (case wb_files w path of
        PFile f \<Rightarrow> file_blob c f
      | PEscapes \<Rightarrow> bail ''project path `{}` escapes the project root through a symlink'' [path]
      | PMissing \<Rightarrow> Inr None
      | PUnresolved \<Rightarrow> with_context ''resolving project path `{}`'' [path] (Inl io_error))"

definition parse_project_path :: "string \<Rightarrow> project_path res" where
  "parse_project_path p = map_err (\<lambda>m. Bail m []) (validate_project_path p)"

definition pin_context_path :: "codec \<Rightarrow> 'v vcs \<Rightarrow> 'v workbench \<Rightarrow> string option \<Rightarrow> string \<Rightarrow> context_pin res" where
  "pin_context_path c V w revision raw =
     and_then (parse_project_path raw) (\<lambda>path.
     and_then (case revision of
         Some r \<Rightarrow> v_file_blob_at V (wb_vcs w) r path
       | None \<Rightarrow>
           and_then (v_file_blob V (wb_vcs w) path) (\<lambda>tracked.
           and_then (project_file_blob c w path) (\<lambda>on_disk.
           Inr (case tracked of Some b \<Rightarrow> Some b | None \<Rightarrow> on_disk)))) (\<lambda>blob.
     and_then (ok_or (Bail ''cannot pin `{}`: file not found'' [path]) blob) (\<lambda>identity.
     Inr \<lparr>cp_path = path, cp_identity = identity, cp_observed = False\<rparr>)))"

definition pin_context ::
  "codec \<Rightarrow> 'v vcs \<Rightarrow> 'v workbench \<Rightarrow> string option \<Rightarrow> string list \<Rightarrow> context_pin list res" where
  "pin_context c V w revision paths = collect (pin_context_path c V w revision) paths"

definition paired_repository :: "codec \<Rightarrow> store \<Rightarrow> string res" where
  "paired_repository c s =
     map_ok (\<lambda>p. case p of None \<Rightarrow> [] | Some p \<Rightarrow> pa_root_commit p) (pairing_load c s)"

definition current_project_snapshot :: "codec \<Rightarrow> 'v vcs \<Rightarrow> 'v workbench \<Rightarrow> project_snapshot res" where
  "current_project_snapshot c V w =
     and_then (v_head_commit V (wb_vcs w)) (\<lambda>head.
     let revision = (case head of None \<Rightarrow> [] | Some h \<Rightarrow> h) in
     and_then (if revision = [] then Inr [] else v_tree_id V (wb_vcs w) revision) (\<lambda>tree.
     and_then (paired_repository c (wb_store w)) (\<lambda>repository.
     Inr \<lparr>ps_scheme = ''git'', ps_repository = repository, ps_revision = revision, ps_tree = tree\<rparr>)))"

definition git_artifact :: "codec \<Rightarrow> store \<Rightarrow> string \<Rightarrow> artifact_ref res" where
  "git_artifact c s commit =
     map_ok (\<lambda>repository. \<lparr>ar_scheme = ''git-commit'', ar_repository = repository, ar_id = commit\<rparr>)
       (paired_repository c s)"

definition output_commit_message :: "node_id \<Rightarrow> string \<Rightarrow> string option \<Rightarrow> string" where
  "output_commit_message i message input =
     message @ [CHR 0x0A, CHR 0x0A] @ ''Linka-Node: '' @ i @
       (case input of None \<Rightarrow> [] | Some x \<Rightarrow> [CHR 0x0A] @ ''Linka-Input: '' @ x)"

fun outcome_kind_matches :: "bool \<Rightarrow> result_outcome \<Rightarrow> bool" where
  "outcome_kind_matches False (Work _) = True"
| "outcome_kind_matches True (Verification _) = True"
| "outcome_kind_matches _ _ = False"

definition verification_requires_review_result :: "node_id \<Rightarrow> error" where
  "verification_requires_review_result i =
     Bail ''verification node `{}` requires an accepted, rejected, or abandoned review result'' [i]"

definition ordinary_requires_work_result :: "node_id \<Rightarrow> error" where
  "ordinary_requires_work_result i = Bail ''ordinary node `{}` requires a done or failed work result'' [i]"

definition require_ordinary_node :: "node_meta \<Rightarrow> node_id \<Rightarrow> unit res" where
  "require_ordinary_node meta i =
     (if nm_verifies meta \<noteq> None then Inl (verification_requires_review_result i) else Inr ())"

fun result_satisfies_dependency :: "result_outcome \<Rightarrow> bool" where
  "result_satisfies_dependency (Work Done) = True"
| "result_satisfies_dependency (Verification VAccepted) = True"
| "result_satisfies_dependency _ = False"

fun outcome_requires_full_pins :: "result_outcome \<Rightarrow> bool" where
  "outcome_requires_full_pins (Work Done) = True"
| "outcome_requires_full_pins (Verification _) = True"
| "outcome_requires_full_pins (Work Failed) = False"

section \<open>Reading candidates\<close>

definition branch_ref :: "string \<Rightarrow> string" where
  "branch_ref branch = ''refs/heads/'' @ branch"

definition candidate_list :: "store \<Rightarrow> candidate_id list" where
  "candidate_list s = sort (filter (\<lambda>n. is_ok (validate_candidate_id n)) (map fst (store_candidates s)))"

definition candidate_file :: "store \<Rightarrow> candidate_id \<Rightarrow> fs_file" where
  "candidate_file s i = (case map_of (store_candidates s) i of None \<Rightarrow> NotFound | Some f \<Rightarrow> f)"

definition candidate_load :: "codec \<Rightarrow> store \<Rightarrow> candidate_id \<Rightarrow> candidate_record res" where
  "candidate_load c s i =
     and_then (with_context ''unknown or unreadable candidate `{}`'' [i]
       (and_then (with_context ''reading {}'' [''candidate.toml''] (read_text (candidate_file s i))) (\<lambda>text.
        with_context ''parsing {}'' [''candidate.toml''] (parse_with (candidate_of_toml c) text)))) (\<lambda>candidate.
     if cr_schema candidate \<noteq> CANDIDATE_SCHEMA
     then bail ''candidate `{}` uses unsupported schema {}'' [i, show_nat (cr_schema candidate)]
     else Inr candidate)"

definition candidates_for_node :: "codec \<Rightarrow> store \<Rightarrow> node_id \<Rightarrow> candidate_record list res" where
  "candidates_for_node c s node =
     map_ok (filter (\<lambda>candidate. cr_node candidate = node))
       (collect (candidate_load c s) (candidate_list s))"

fun sole_candidate :: "node_id \<Rightarrow> candidate_record list \<Rightarrow> candidate_record option res" where
  "sole_candidate node [] = Inr None"
| "sole_candidate node [candidate] = Inr (Some candidate)"
| "sole_candidate node found =
     bail ''node `{}` result has {} candidate records'' [node, show_nat (length found)]"

definition candidate_for_version ::
  "codec \<Rightarrow> store \<Rightarrow> node_id \<Rightarrow> result_version \<Rightarrow> artifact_ref \<Rightarrow> candidate_record option res" where
  "candidate_for_version c s node version artifact =
     and_then (candidates_for_node c s node) (\<lambda>all.
     sole_candidate node
       (filter (\<lambda>candidate. cr_result candidate = version \<and> cr_artifact candidate = artifact) all))"

fun find_external ::
  "codec \<Rightarrow> store \<Rightarrow> external_identity \<Rightarrow> candidate_id list \<Rightarrow> candidate_record option res" where
  "find_external c s external [] = Inr None"
| "find_external c s external (i # is) =
     and_then (candidate_load c s i) (\<lambda>candidate.
     if cr_external candidate = Some external then Inr (Some candidate)
     else find_external c s external is)"

definition by_external :: "codec \<Rightarrow> store \<Rightarrow> external_identity \<Rightarrow> candidate_record option res" where
  "by_external c s external = find_external c s external (candidate_list s)"

definition write_candidate :: "codec \<Rightarrow> candidate_record \<Rightarrow> (store, error, unit) st_op" where
  "write_candidate c candidate s =
     (case candidate_to_toml c candidate of
        None \<Rightarrow> (bail ''serialising {}'' [''candidate.toml''],
          s\<lparr>store_candidates :=
              AList.update (cr_id candidate) (candidate_file s (cr_id candidate)) (store_candidates s)\<rparr>)
      | Some text \<Rightarrow> (Inr (),
          s\<lparr>store_candidates := AList.update (cr_id candidate) (Bytes text) (store_candidates s)\<rparr>))"

text \<open>\<open>CandidateRecord::integration\<close>: publication is read off the target's history.\<close>

definition integration :: "'v vcs \<Rightarrow> 'v \<Rightarrow> candidate_record \<Rightarrow> integration_status res" where
  "integration V v candidate =
     (case cr_state candidate of
        Pending \<Rightarrow> Inr PendingIntegration
      | Rejected _ _ _ _ \<Rightarrow> Inr RejectedIntegration
      | Accepted _ _ _ _ previous \<Rightarrow>
          let target_ref = branch_ref (cr_target candidate) in
          and_then (v_ref_commit V v target_ref) (\<lambda>found.
          and_then (ok_or (Bail ''accepted candidate target `{}` is missing'' [target_ref]) found) (\<lambda>target.
          and_then (v_is_ancestor V v (ar_id (cr_artifact candidate)) target) (\<lambda>contained.
          if contained then Inr Published
          else if target = previous then Inr AcceptedIntegration
          else bail ''candidate `{}` target moved from {} to {} without containing {}''
                 [cr_id candidate, previous, target, ar_id (cr_artifact candidate)]))))"

section \<open>Facts\<close>

lemma pin_node_id: "pin_node c s dep = Inr p \<Longrightarrow> cn_id p = dep"
  by (auto simp: pin_node_def result_simps)

lemma pin_node_list_ids: "pin_node_list c s nodes = Inr pins \<Longrightarrow> map cn_id pins = nodes"
  unfolding pin_node_list_def by (rule collect_map_fst) (auto dest: pin_node_id)

lemma pin_node_cong:
  assumes "load_definition c s i = load_definition c t i" and "load_result c s i = load_result c t i"
  shows "pin_node c s i = pin_node c t i"
  unfolding pin_node_def assms ..

lemma pin_node_list_cong:
  "(\<And>i. i \<in> set nodes \<Longrightarrow> load_definition c s i = load_definition c t i \<and> load_result c s i = load_result c t i)
   \<Longrightarrow> pin_node_list c s nodes = pin_node_list c t nodes"
  unfolding pin_node_list_def by (intro collect_cong_set pin_node_cong) auto

lemma candidate_load_schema: "candidate_load c s i = Inr r \<Longrightarrow> cr_schema r = CANDIDATE_SCHEMA"
  by (auto simp: candidate_load_def result_simps split: if_splits)

lemma candidate_load_cong:
  assumes "store_candidates s = store_candidates t"
  shows "candidate_load c s i = candidate_load c t i"
  unfolding candidate_load_def candidate_file_def assms ..

lemma candidate_for_version_cong:
  assumes "store_candidates s = store_candidates t"
  shows "candidate_for_version c s n v a = candidate_for_version c t n v a"
proof -
  have "candidate_load c s = candidate_load c t"
    using candidate_load_cong [OF assms] by blast
  moreover have "candidate_list s = candidate_list t"
    by (simp add: candidate_list_def assms)
  ultimately show ?thesis by (simp only: candidate_for_version_def candidates_for_node_def)
qed

lemma sole_candidate_Some: "sole_candidate node xs = Inr (Some r) \<Longrightarrow> xs = [r]"
  by (induction node xs rule: sole_candidate.induct) auto

lemma candidate_for_version_Some:
  assumes "candidate_for_version c s node version artifact = Inr (Some r)"
  shows "cr_node r = node \<and> cr_result r = version \<and> cr_artifact r = artifact"
proof -
  obtain all where all: "candidates_for_node c s node = Inr all"
    and sole: "sole_candidate node (filter (\<lambda>r. cr_result r = version \<and> cr_artifact r = artifact) all) =
      Inr (Some r)"
    using assms by (auto simp: candidate_for_version_def result_simps)
  have "r \<in> set (filter (\<lambda>r. cr_result r = version \<and> cr_artifact r = artifact) all)"
    by (simp only: sole_candidate_Some [OF sole] list.set_intros)
  then show ?thesis using all by (auto simp: candidates_for_node_def result_simps)
qed

lemma write_candidate_fields [frame_simps]:
  "write_candidate c r s = (x, t) \<Longrightarrow> store_nodes t = store_nodes s"
  "write_candidate c r s = (x, t) \<Longrightarrow> store_pairing t = store_pairing s"
  "write_candidate c r s = (x, t) \<Longrightarrow> store_root t = store_root s"
  by (auto simp: write_candidate_def split: option.splits)

lemma kind_matches_iff:
  "outcome_kind_matches v x \<longleftrightarrow> (v \<longleftrightarrow> (\<exists>d. x = Verification d))"
  by (cases v; cases x) auto

text \<open>Candidate records satisfy the same read-after-write contract as the node records.\<close>

interpretation candidate_records: keyed_files candidate_file "write_candidate c" cr_id
  "\<lambda>r f. \<exists>text. candidate_to_toml c r = Some text \<and> f = Bytes text"
  by unfold_locales (auto simp: write_candidate_def candidate_file_def split: option.splits)

end
