(* ===== verification/Linka_Store_Props.thy ===== *)
theory Linka_Store_Props
  imports Linka_Store
begin

text \<open>
  The properties of the store: what a successful write makes of the next read, and what it leaves
  alone. The codec hypotheses are the documented behaviour of the \<open>toml\<close> crate at the value
  written: its text is UTF-8 and parses back to the value. The table codec at the end of the
  first section is the concrete codec of the witnesses.
\<close>

section \<open>A concrete codec\<close>

definition table_print :: "'a list \<Rightarrow> 'a \<Rightarrow> string option" where
  "table_print xs x =
     (if x \<in> set xs then Some (replicate (length (takeWhile (\<lambda>y. y \<noteq> x) xs)) (CHR ''x'')) else None)"

definition table_parse :: "'a list \<Rightarrow> string \<Rightarrow> 'a option" where
  "table_parse xs s = (if length s < length xs then Some (xs ! length s) else None)"

definition table_codec ::
  "node_meta list \<Rightarrow> result_meta list \<Rightarrow> node_attachment list \<Rightarrow> context_observation list \<Rightarrow>
   candidate_record list \<Rightarrow> pairing list \<Rightarrow> codec" where
  "table_codec ns rs as os cs ps =
     \<lparr>sha1_hex = (\<lambda>b. b),
      node_to_toml = table_print ns, node_of_toml = table_parse ns,
      result_to_toml = table_print rs, result_of_toml = table_parse rs,
      attachment_to_toml = table_print as, attachment_of_toml = table_parse as,
      observation_to_toml = table_print os, observation_of_toml = table_parse os,
      candidate_to_toml = table_print cs, candidate_of_toml = table_parse cs,
      pairing_to_toml = table_print ps, pairing_of_toml = table_parse ps\<rparr>"

definition plain_meta :: "node_id list \<Rightarrow> node_meta" where
  "plain_meta deps = \<lparr>nm_schema = 1, nm_author = Human, nm_assignee = None, nm_depends_on = deps,
     nm_derived_from = [], nm_verifies = None, nm_extensions = []\<rparr>"

definition empty_store :: store where
  "empty_store = \<lparr>store_root = ''.linka'', store_nodes = [], store_candidates = [],
     store_pairing = NotFound\<rparr>"

definition plain_result :: result_meta where
  "plain_result = \<lparr>rm_schema = 1, rm_at = 0, rm_author = Machine,
     rm_definition = \<lparr>dv_metadata = ''m'', dv_description = ''d''\<rparr>, rm_outcome = Work Done,
     rm_project = \<lparr>ps_scheme = ''git'', ps_repository = [], ps_revision = [], ps_tree = []\<rparr>,
     rm_consumed = [], rm_context = [], rm_output = None, rm_producer = None\<rparr>"

definition sample_codec :: codec where
  "sample_codec = table_codec [plain_meta [''node-a'']] [plain_result]
     [\<lparr>na_schema = 1, na_namespace = ''n'', na_key = ''k'', na_created_at_ms = 42,
        na_media_type = None, na_content = ''blob 2'' @ [CHR 0x00] @ ''ab'', na_size = 2\<rparr>] [] [] []"

section \<open>Round trips\<close>

text \<open>The documented behaviour of the \<open>toml\<close> crate, at every value: what it prints is text and
  parses back to the value printed.\<close>

definition codec_faithful :: "codec \<Rightarrow> bool" where
  "codec_faithful c \<longleftrightarrow>
     (\<forall>x t. node_to_toml c x = Some t \<longrightarrow> node_of_toml c t = Some x \<and> utf8_valid t) \<and>
     (\<forall>x t. result_to_toml c x = Some t \<longrightarrow> result_of_toml c t = Some x \<and> utf8_valid t) \<and>
     (\<forall>x t. attachment_to_toml c x = Some t \<longrightarrow> attachment_of_toml c t = Some x \<and> utf8_valid t) \<and>
     (\<forall>x t. observation_to_toml c x = Some t \<longrightarrow> observation_of_toml c t = Some x \<and> utf8_valid t) \<and>
     (\<forall>x t. candidate_to_toml c x = Some t \<longrightarrow> candidate_of_toml c t = Some x \<and> utf8_valid t) \<and>
     (\<forall>x t. pairing_to_toml c x = Some t \<longrightarrow> pairing_of_toml c t = Some x \<and> utf8_valid t)"

lemma table_print_parse:
  assumes "table_print xs x = Some t"
  shows "table_parse xs t = Some x \<and> utf8_valid t"
proof -
  let ?n = "length (takeWhile (\<lambda>y. y \<noteq> x) xs)"
  have x: "x \<in> set xs" and t: "t = replicate ?n (CHR ''x'')"
    using assms by (auto simp: table_print_def split: if_splits)
  have "length (takeWhile (\<lambda>y. y \<noteq> x) xs) < length xs" using x
    by (induction xs) auto
  moreover from this have "xs ! ?n = x" using nth_length_takeWhile by fastforce
  moreover have "utf8_valid (replicate n (CHR ''x''))" for n
    by (induction n) simp_all
  ultimately show ?thesis by (simp add: table_parse_def t)
qed

lemma table_codec_faithful: "codec_faithful (table_codec ns rs as os cs ps)"
  by (simp add: codec_faithful_def table_codec_def table_print_parse)

lemma load_written_definition:
  assumes "write_node c i meta desc s = (Inr (), t)"
    and "node_to_toml c meta = Some data" and "node_of_toml c data = Some meta"
    and "utf8_valid data" and "utf8_valid desc"
  shows "load_definition c t i =
      Inr \<lparr>ld_meta = meta, ld_description = desc,
           ld_version = \<lparr>dv_metadata = blob_id c data, dv_description = blob_id c desc\<rparr>\<rparr>"
proof -
  have files: "definition_files t i = (Bytes data, Bytes desc)"
    using definition_records.put_same [where v = "(i, meta, desc)" and c = c and s = s and t = t]
      assms(1,2) by simp
  have schema: "nm_schema meta = DEFINITION_SCHEMA"
    using assms(1) by (auto simp: write_node_def split: if_splits)
  show ?thesis
    using files schema assms(3-5)
    by (simp add: load_definition_def definition_files_def utf8_text_def parse_with_def)
qed

lemma load_written_result:
  assumes "write_result c i meta notes s = (Inr (), t)"
    and "result_to_toml c meta = Some data" and "result_of_toml c data = Some meta"
    and "utf8_valid data" and "utf8_valid notes"
  shows "load_result c t i =
      Inr (Some \<lparr>lr_meta = meta, lr_notes = notes,
           lr_version = \<lparr>rv_metadata = blob_id c data,
             rv_notes = (if notes = [] then None else Some (blob_id c notes))\<rparr>\<rparr>)"
proof -
  have files: "result_files t i = (Bytes data, if notes = [] then NotFound else Bytes notes)"
    using result_records.put_same [where v = "(i, meta, notes)" and c = c and s = s and t = t]
      assms(1,2) by simp
  have schema: "rm_schema meta = RESULT_SCHEMA"
    using assms(1) by (auto simp: write_result_def split: if_splits)
  show ?thesis
    using files schema assms(3-5)
    by (cases "notes = []")
      (simp_all add: load_result_def result_files_def utf8_text_def parse_with_def load_notes_def)
qed

lemma read_stored_attachment:
  assumes "attachment_entry_of i t (attachment_identity c (na_namespace a) (na_key a)) =
      Some (AttachDir (Bytes text) (Bytes data))"
    and "validate_attachment_data c a data = Inr ()"
    and "validate_attachment_record a (na_namespace a) (na_key a) = Inr ()"
    and "attachment_of_toml c text = Some a" and "utf8_valid text" and "exists_node t i"
  shows "read_node_attachment c t i (na_namespace a) (na_key a) = Inr (Some (a, data))"
proof -
  have "validate_attachment_identity (na_namespace a) (na_key a) = Inr ()"
    using assms(3) by (auto simp: validate_attachment_record_def result_simps)
  then show ?thesis
    using assms
    by (simp add: read_node_attachment_def attachment_path_def attachment_entry_of_def read_text_def
        utf8_text_def parse_with_def)
qed

lemma read_written_attachment:
  assumes "write_node_attachment c i a data s = (Inr (), t)"
    and "attachment_to_toml c a = Some text" and "attachment_of_toml c text = Some a"
    and "utf8_valid text"
  shows "read_node_attachment c t i (na_namespace a) (na_key a) = Inr (Some (a, data))"
proof -
  have "exists_node s i"
    using assms(1) by (auto simp: write_node_attachment_def split: if_splits)
  then have "exists_node t i"
    using write_node_attachment_fields(2) [OF assms(1)] exists_node_cong by blast
  then show ?thesis
    using attachment_records.put_same [where v = "(a, data)" and c = c and i = i and s = s and t = t]
      assms by (auto intro!: read_stored_attachment)
qed

lemma write_node_others:
  assumes "write_node c i meta desc s = (r, t)"
  shows "load_result c t j = load_result c s j" and
    "j \<noteq> i \<Longrightarrow> load_definition c t j = load_definition c s j"
  using write_node_fields [OF assms] by (metis load_result_cong, metis load_definition_cong)

lemma write_result_others:
  assumes "write_result c i meta notes s = (r, t)"
  shows "load_definition c t j = load_definition c s j" and
    "j \<noteq> i \<Longrightarrow> load_result c t j = load_result c s j"
  using write_result_fields [OF assms] by (metis load_definition_cong, metis load_result_cong)

lemma write_node_attachment_others:
  assumes "write_node_attachment c i a data s = (r, t)"
  shows "load_definition c t j = load_definition c s j" and "load_result c t j = load_result c s j"
  using write_node_attachment_fields [OF assms] by (metis load_definition_cong, metis load_result_cong)

text \<open>
  A node definition that was written is the one that is read: same metadata, same prose, and
  a version that is the pair of the blob ids of exactly the two files written. The node's result,
  and every other node, read as before.
\<close>

theorem definition_roundtrip:
  assumes "write_node c i meta desc s = (Inr (), t)"
    and "node_to_toml c meta = Some data" and "node_of_toml c data = Some meta"
    and "utf8_valid data" and "utf8_valid desc"
  shows "load_definition c t i =
      Inr \<lparr>ld_meta = meta, ld_description = desc,
           ld_version = \<lparr>dv_metadata = blob_id c data, dv_description = blob_id c desc\<rparr>\<rparr> \<and>
    load_result c t i = load_result c s i \<and>
    (\<forall>j. j \<noteq> i \<longrightarrow> load_definition c t j = load_definition c s j \<and> load_result c t j = load_result c s j)"
using load_written_definition [OF assms] write_node_others [OF assms(1)] by blast

theorem definition_roundtrip_witness:
  "load_definition sample_codec
      (snd (write_node sample_codec ''node-1'' (plain_meta [''node-a'']) ''hello'' empty_store)) ''node-1''
    = Inr \<lparr>ld_meta = plain_meta [''node-a''], ld_description = ''hello'',
         ld_version = \<lparr>dv_metadata = blob_id sample_codec [],
                       dv_description = blob_id sample_codec ''hello''\<rparr>\<rparr>"
proof -
  let ?t = "snd (write_node sample_codec ''node-1'' (plain_meta [''node-a'']) ''hello'' empty_store)"
  have w: "write_node sample_codec ''node-1'' (plain_meta [''node-a'']) ''hello'' empty_store = (Inr (), ?t)"
    by (simp add: write_node_def sample_codec_def table_codec_def table_print_def plain_meta_def
        DEFINITION_SCHEMA_def)
  have p: "node_to_toml sample_codec (plain_meta [''node-a'']) = Some []"
    "node_of_toml sample_codec [] = Some (plain_meta [''node-a''])"
    by (simp_all add: sample_codec_def table_codec_def table_print_def table_parse_def)
  have u: "utf8_valid []" "utf8_valid ''hello''" by code_simp+
  show ?thesis using definition_roundtrip [OF w p u] by blast
qed

text \<open>
  A result that was written is the one that is read, with its notes (none when they are
  empty, so no \<open>result.md\<close> is left behind by an earlier result) and a version of exactly the
  bytes written. The definition of the node keeps its version: recording work never counts as a
  definition change.
\<close>

theorem result_roundtrip:
  assumes "write_result c i meta notes s = (Inr (), t)"
    and "result_to_toml c meta = Some data" and "result_of_toml c data = Some meta"
    and "utf8_valid data" and "utf8_valid notes"
  shows "load_result c t i =
      Inr (Some \<lparr>lr_meta = meta, lr_notes = notes,
           lr_version = \<lparr>rv_metadata = blob_id c data,
             rv_notes = (if notes = [] then None else Some (blob_id c notes))\<rparr>\<rparr>) \<and>
    load_definition c t i = load_definition c s i \<and>
    (\<forall>j. j \<noteq> i \<longrightarrow> load_definition c t j = load_definition c s j \<and> load_result c t j = load_result c s j)"
using load_written_result [OF assms] write_result_others [OF assms(1)] by blast

definition one_node_store :: store where
  "one_node_store = \<lparr>store_root = ''.linka'',
     store_nodes = [(''node-1'', empty_dir\<lparr>nd_node := Bytes [], nd_description := Bytes ''hello''\<rparr>)],
     store_candidates = [], store_pairing = NotFound\<rparr>"

theorem result_roundtrip_witness:
  "load_result sample_codec
      (snd (write_result sample_codec ''node-1'' plain_result ''did it'' one_node_store)) ''node-1''
    = Inr (Some \<lparr>lr_meta = plain_result, lr_notes = ''did it'',
         lr_version = \<lparr>rv_metadata = blob_id sample_codec [],
                       rv_notes = Some (blob_id sample_codec ''did it'')\<rparr>\<rparr>)"
proof -
  let ?t = "snd (write_result sample_codec ''node-1'' plain_result ''did it'' one_node_store)"
  have w: "write_result sample_codec ''node-1'' plain_result ''did it'' one_node_store = (Inr (), ?t)"
    by (simp add: write_result_def sample_codec_def table_codec_def table_print_def plain_result_def
        RESULT_SCHEMA_def exists_node_def node_dir_of_def one_node_store_def)
  have p: "result_to_toml sample_codec plain_result = Some []"
    "result_of_toml sample_codec [] = Some plain_result"
    by (simp_all add: sample_codec_def table_codec_def table_print_def table_parse_def)
  have u: "utf8_valid []" "utf8_valid ''did it''" by code_simp+
  show ?thesis using result_roundtrip [OF w p u] by simp
qed

text \<open>
  Attachments are opaque and exact: an attachment that was written is read back with its
  record and its payload byte for byte, under the directory its namespace and key hash to, and
  neither the node's definition nor its result changes version.
\<close>

theorem attachment_roundtrip:
  assumes "write_node_attachment c i a data s = (Inr (), t)"
    and "attachment_to_toml c a = Some text" and "attachment_of_toml c text = Some a"
    and "utf8_valid text"
  shows "read_node_attachment c t i (na_namespace a) (na_key a) = Inr (Some (a, data)) \<and>
    load_definition c t i = load_definition c s i \<and> load_result c t i = load_result c s i"
using read_written_attachment [OF assms] write_node_attachment_others [OF assms(1)] by blast

definition sample_attachment :: node_attachment where
  "sample_attachment = \<lparr>na_schema = 1, na_namespace = ''n'', na_key = ''k'', na_created_at_ms = 42,
     na_media_type = None, na_content = ''blob 2'' @ [CHR 0x00] @ ''ab'', na_size = 2\<rparr>"

theorem attachment_roundtrip_witness:
  "read_node_attachment sample_codec
      (snd (write_node_attachment sample_codec ''node-1'' sample_attachment ''ab'' one_node_store))
      ''node-1'' ''n'' ''k'' = Inr (Some (sample_attachment, ''ab''))"
proof -
  let ?t = "snd (write_node_attachment sample_codec ''node-1'' sample_attachment ''ab'' one_node_store)"
  have w: "write_node_attachment sample_codec ''node-1'' sample_attachment ''ab'' one_node_store = (Inr (), ?t)"
    by code_simp
  have p: "attachment_to_toml sample_codec sample_attachment = Some []"
    "attachment_of_toml sample_codec [] = Some sample_attachment"
    by code_simp+
  have u: "utf8_valid []" by simp
  show ?thesis using attachment_roundtrip [OF w p u] by (simp add: sample_attachment_def)
qed

end
