(* ===== verification/Linka_Sample.thy ===== *)
theory Linka_Sample
  imports Linka_Ops Linka_Store_Props
begin

text \<open>
  A small concrete workbench for the witnesses: nodes \<open>a\<close> (done), \<open>b\<close> (open, depends on
  \<open>a\<close>), \<open>p\<close> and \<open>q\<close> (depending on each other), over the table codec and the in-memory
  backend.
\<close>

definition meta_a :: node_meta where "meta_a = plain_meta []"
definition meta_b :: node_meta where "meta_b = plain_meta [''a'']"
definition meta_p :: node_meta where "meta_p = plain_meta [''q'']"
definition meta_q :: node_meta where "meta_q = plain_meta [''p'']"

definition hash :: "string \<Rightarrow> string" where
  "hash b = ''blob '' @ show_nat (length b) @ [CHR 0x00] @ b"

definition sample_project :: project_snapshot where
  "sample_project = \<lparr>ps_scheme = ''git'', ps_repository = [], ps_revision = ''c0'', ps_tree = ''tree-c0''\<rparr>"

definition version_a :: definition_version where
  "version_a = \<lparr>dv_metadata = hash [], dv_description = hash ''do a''\<rparr>"

definition result_a :: result_meta where
  "result_a = \<lparr>rm_schema = 1, rm_at = 5, rm_author = Machine, rm_definition = version_a,
     rm_outcome = Work Done, rm_project = sample_project, rm_consumed = [], rm_context = [],
     rm_output = None, rm_producer = None\<rparr>"

definition result_version_a :: result_version where
  "result_version_a = \<lparr>rv_metadata = hash [], rv_notes = None\<rparr>"

definition pin_a :: consumed_node where
  "pin_a = \<lparr>cn_id = ''a'', cn_definition = version_a, cn_result = Some result_version_a,
     cn_outcome = Some (Work Done), cn_output = None\<rparr>"

definition version_b :: definition_version where
  "version_b = \<lparr>dv_metadata = hash ''x'', dv_description = hash ''do b''\<rparr>"

definition result_b :: result_meta where
  "result_b = \<lparr>rm_schema = 1, rm_at = 9, rm_author = Machine, rm_definition = version_b,
     rm_outcome = Work Done, rm_project = sample_project, rm_consumed = [pin_a], rm_context = [],
     rm_output = None, rm_producer = None\<rparr>"

definition wb_codec :: codec where
  "wb_codec = table_codec [meta_a, meta_b, meta_p, meta_q] [result_a, result_b] [] [] [] []"

definition dir_of :: "string \<Rightarrow> string \<Rightarrow> fs_file \<Rightarrow> node_dir" where
  "dir_of toml prose result = empty_dir
     \<lparr>nd_node := Bytes toml, nd_description := Bytes prose, nd_result := result\<rparr>"

definition sample_store :: store where
  "sample_store = \<lparr>store_root = ''.linka'',
     store_nodes =
       [(''a'', dir_of [] ''do a'' (Bytes [])), (''b'', dir_of ''x'' ''do b'' NotFound),
        (''p'', dir_of ''xx'' ''do p'' NotFound), (''q'', dir_of ''xxx'' ''do q'' NotFound)],
     store_candidates = [], store_pairing = NotFound\<rparr>"

definition sample_vcs :: fake_vcs where
  "sample_vcs = \<lparr>fk_next_id = ''c1'', fk_dirty = [], fk_drift_for = [], fk_drift_error = None,
     fk_revision_blobs = [], fk_captured = [], fk_store_commits = 0, fk_dirty_store = [],
     fk_linka_nodes = [], fk_recorded_outputs = [], fk_files_for = [], fk_root = Some ''c0'',
     fk_remote = None, fk_commits = [''c0''], fk_refs = [], fk_branch = None\<rparr>"

definition sample_wb :: "fake_vcs workbench" where
  "sample_wb = \<lparr>wb_store = sample_store, wb_vcs = sample_vcs, wb_locked = False,
     wb_files = (\<lambda>_. PMissing)\<rparr>"

lemmas sample_defs = sample_wb_def sample_vcs_def sample_store_def wb_codec_def table_codec_def
  meta_a_def meta_b_def meta_p_def meta_q_def result_a_def result_b_def

end
