(* ===== verification/Linka_State_Spec.thy ===== *)
theory Linka_State_Spec
  imports Linka_State Linka_Sample
begin

text \<open>
  The specification of derived state and its refinement. \<open>derives\<close> is the least relation closed
  under the one rule of node state (outcome, integration and staleness from the node's own files,
  blockers from the states of its dependencies); it has no cache, no visiting set and no order of
  evaluation. The memoised evaluation returns a state exactly when the relation derives it.
\<close>

section \<open>The specification\<close>

inductive derives :: "codec \<Rightarrow> 'v vcs \<Rightarrow> 'v workbench \<Rightarrow> node_id \<Rightarrow> node_state \<Rightarrow> bool"
  and derives_blockers :: "codec \<Rightarrow> 'v vcs \<Rightarrow> 'v workbench \<Rightarrow> node_id list \<Rightarrow> blocker list \<Rightarrow> bool"
  for c V w where
  derives_node:
    "load_definition c (wb_store w) i = Inr d \<Longrightarrow> recorded_state c V w i (ld_meta d) = Inr recorded \<Longrightarrow>
     derives_blockers c V w (nm_depends_on (ld_meta d)) bs \<Longrightarrow>
     derives c V w i (assemble_state recorded bs)"
| derives_none: "derives_blockers c V w [] []"
| derives_missing:
    "\<not> exists_node (wb_store w) dep \<Longrightarrow> derives_blockers c V w deps bs \<Longrightarrow>
     derives_blockers c V w (dep # deps) (\<lparr>bl_id = dep, bl_reason = MissingBlocker\<rparr> # bs)"
| derives_dependency:
    "exists_node (wb_store w) dep \<Longrightarrow> derives c V w dep state \<Longrightarrow>
     dependency_blocker dep state = Inr b \<Longrightarrow> derives_blockers c V w deps bs \<Longrightarrow>
     derives_blockers c V w (dep # deps) (b @ bs)"

inductive_cases derives_nodeE: "derives c V w i state"
inductive_cases derives_noneE: "derives_blockers c V w [] bs"
inductive_cases derives_consE: "derives_blockers c V w (dep # deps) bs"

lemma derives_unique:
  shows "derives c V w i state \<Longrightarrow> derives c V w i state' \<Longrightarrow> state' = state"
    and "derives_blockers c V w deps bs \<Longrightarrow> derives_blockers c V w deps bs' \<Longrightarrow> bs' = bs"
proof (induction arbitrary: state' and bs' rule: derives_derives_blockers.inducts)
  case (derives_node i d recorded bs)
  then show ?case by (fastforce elim!: derives_nodeE)
next
  case derives_none
  then show ?case by (auto elim: derives_noneE)
next
  case (derives_missing dep deps bs)
  then show ?case by (fastforce elim!: derives_consE)
next
  case (derives_dependency dep state b deps bs)
  then show ?case by (fastforce elim!: derives_consE)
qed

section \<open>Soundness of the evaluation\<close>

definition cache_sound :: "codec \<Rightarrow> 'v vcs \<Rightarrow> 'v workbench \<Rightarrow> state_cache \<Rightarrow> bool" where
  "cache_sound c V w cached \<longleftrightarrow> (\<forall>i state. map_of cached i = Some state \<longrightarrow> derives c V w i state)"

lemma cache_sound_Nil [simp]: "cache_sound c V w []"
  by (simp add: cache_sound_def)

lemma cache_sound_Cons: "cache_sound c V w cached \<Longrightarrow> derives c V w i state \<Longrightarrow>
    cache_sound c V w ((i, state) # cached)"
  by (simp add: cache_sound_def)

lemma node_state_view_sound:
  shows "cache_sound c V w cached \<Longrightarrow> node_state_view c V w visiting cached i = (r, cached') \<Longrightarrow>
     cache_sound c V w cached' \<and> (\<forall>state. r = Inr state \<longrightarrow> derives c V w i state)"
    and "cache_sound c V w cached \<Longrightarrow> blockers_view c V w visiting cached deps = (rb, cached') \<Longrightarrow>
     cache_sound c V w cached' \<and> (\<forall>bs. rb = Inr bs \<longrightarrow> derives_blockers c V w deps bs)"
proof (induction c V w visiting cached i and c V w visiting cached deps
    arbitrary: r cached' and rb cached' rule: node_state_view_blockers_view.induct)
  case (1 c V w visiting cached i)
  show ?case
  proof (cases "map_of cached i")
    case (Some state)
    then show ?thesis using "1.prems" by (auto simp: node_state_view.simps cache_sound_def)
  next
    case None
    show ?thesis
    proof (cases "i \<in> set visiting \<or> (\<nexists>d. load_definition c (wb_store w) i = Inr d)")
      case True
      then show ?thesis using "1.prems" None
        by (auto simp: node_state_view.simps result_simps split: if_splits sum.splits)
    next
      case False
      then obtain d where d: "load_definition c (wb_store w) i = Inr d" and nv: "i \<notin> set visiting"
        by blast
      show ?thesis
      proof (cases "recorded_state c V w i (ld_meta d)")
        case (Inl e)
        then show ?thesis using "1.prems" None d nv by (auto simp: node_state_view.simps)
      next
        case (Inr recorded)
        obtain rb cached1 where b:
            "blockers_view c V w (i # visiting) cached (nm_depends_on (ld_meta d)) = (rb, cached1)"
          by fastforce
        note IH = "1.IH" [OF None nv _ Inr "1.prems"(1) b]
        have IH': "cache_sound c V w cached1 \<and>
            (\<forall>bs. rb = Inr bs \<longrightarrow> derives_blockers c V w (nm_depends_on (ld_meta d)) bs)"
          using IH d by simp
        show ?thesis
        proof (cases rb)
          case (Inl e)
          then show ?thesis using "1.prems" None d nv Inr b IH'
            by (auto simp: node_state_view.simps)
        next
          case (Inr bs)
          then have "derives c V w i (assemble_state recorded bs)"
            using IH' d \<open>recorded_state c V w i (ld_meta d) = Inr recorded\<close>
            by (auto intro: derives_node)
          then show ?thesis
            using "1.prems" None d nv \<open>recorded_state c V w i (ld_meta d) = Inr recorded\<close> b Inr IH'
            by (auto simp: node_state_view.simps intro: cache_sound_Cons)
        qed
      qed
    qed
  qed
next
  case (2 c V w visiting cached)
  then show ?case by (auto intro: derives_none)
next
  case (3 c V w visiting cached dep deps)
  show ?case
  proof (cases "exists_node (wb_store w) dep")
    case False
    obtain rb1 cached1 where b: "blockers_view c V w visiting cached deps = (rb1, cached1)" by fastforce
    have "cache_sound c V w cached1 \<and> (\<forall>bs. rb1 = Inr bs \<longrightarrow> derives_blockers c V w deps bs)"
      using "3.IH"(1) [OF False "3.prems"(1) b] .
    then show ?thesis using "3.prems"(2) False b
      by (cases rb1) (auto simp: blockers_view.simps(2) intro: derives_missing)
  next
    case True
    obtain r1 cached1 where s: "node_state_view c V w visiting cached dep = (r1, cached1)" by fastforce
    have sound1: "cache_sound c V w cached1 \<and> (\<forall>state. r1 = Inr state \<longrightarrow> derives c V w dep state)"
      using "3.IH"(2) [OF _ "3.prems"(1) s] True by simp
    show ?thesis
    proof (cases r1)
      case (Inl e)
      then show ?thesis using "3.prems"(2) True s sound1 by (auto simp: blockers_view.simps(2))
    next
      case (Inr state)
      show ?thesis
      proof (cases "dependency_blocker dep state")
        case (Inl e)
        then show ?thesis using "3.prems"(2) True s sound1 Inr by (auto simp: blockers_view.simps(2))
      next
        case b: (Inr b)
        obtain rb2 cached2 where t: "blockers_view c V w visiting cached1 deps = (rb2, cached2)"
          by fastforce
        have "cache_sound c V w cached2 \<and> (\<forall>bs. rb2 = Inr bs \<longrightarrow> derives_blockers c V w deps bs)"
          using "3.IH"(3) [OF _ s [symmetric] Inr b _ t] True sound1 by simp
        then show ?thesis using "3.prems"(2) True s sound1 Inr b t
          by (cases rb2) (auto simp: blockers_view.simps(2) intro: derives_dependency)
      qed
    qed
  qed
qed

section \<open>Completeness: no derivable node runs into its own visit\<close>

definition dep_edge :: "codec \<Rightarrow> store \<Rightarrow> node_id \<Rightarrow> node_id \<Rightarrow> bool" where
  "dep_edge c s i j \<longleftrightarrow>
     (\<exists>d. load_definition c s i = Inr d \<and> j \<in> set (nm_depends_on (ld_meta d)) \<and> exists_node s j)"

lemma derives_accessible:
  shows "derives c V w i state \<Longrightarrow> Wellfounded.accp (\<lambda>b a. dep_edge c (wb_store w) a b) i"
    and "derives_blockers c V w deps bs \<Longrightarrow>
      \<forall>j \<in> set deps. exists_node (wb_store w) j \<longrightarrow>
        Wellfounded.accp (\<lambda>b a. dep_edge c (wb_store w) a b) j"
proof (induction rule: derives_derives_blockers.inducts)
  case (derives_node i d recorded bs)
  show ?case
  proof (rule accp.accI)
    fix j assume "dep_edge c (wb_store w) i j"
    then have "j \<in> set (nm_depends_on (ld_meta d))" "exists_node (wb_store w) j"
      using derives_node(1) by (simp_all add: dep_edge_def)
    then show "Wellfounded.accp (\<lambda>b a. dep_edge c (wb_store w) a b) j"
      using derives_node.IH by blast
  qed
next
  case (derives_missing dep deps bs)
  then show ?case by simp
next
  case (derives_dependency dep state b deps bs)
  then show ?case by simp
qed simp

lemma accessible_no_cycle:
  assumes "Wellfounded.accp (\<lambda>b a. E a b) x"
  shows "\<not> E\<^sup>+\<^sup>+ x x"
  using assms
proof (induction rule: accp_induct [consumes 1, case_names step])
  case (step x)
  show ?case
  proof
    assume "E\<^sup>+\<^sup>+ x x"
    then obtain y where "E x y" and "E\<^sup>*\<^sup>* y x" by (meson tranclpD)
    then have "E\<^sup>+\<^sup>+ y y" by (meson rtranclp_into_tranclp1)
    then show False using step \<open>E x y\<close> by blast
  qed
qed

lemma derives_acyclic: "derives c V w i state \<Longrightarrow> \<not> (dep_edge c (wb_store w))\<^sup>+\<^sup>+ i i"
  by (intro accessible_no_cycle derives_accessible)

lemma node_state_view_complete:
  shows "derives c V w i state \<Longrightarrow> cache_sound c V w cached \<Longrightarrow>
      \<forall>v \<in> set visiting. (dep_edge c (wb_store w))\<^sup>+\<^sup>+ v i \<Longrightarrow>
      fst (node_state_view c V w visiting cached i) = Inr state"
    and "derives_blockers c V w deps bs \<Longrightarrow> cache_sound c V w cached \<Longrightarrow>
      \<forall>v \<in> set visiting. \<forall>j \<in> set deps. exists_node (wb_store w) j \<longrightarrow>
        (dep_edge c (wb_store w))\<^sup>+\<^sup>+ v j \<Longrightarrow>
      fst (blockers_view c V w visiting cached deps) = Inr bs"
proof (induction arbitrary: visiting cached and visiting cached
    rule: derives_derives_blockers.inducts)
  case (derives_node i d recorded bs)
  let ?E = "dep_edge c (wb_store w)"
  have here: "derives c V w i (assemble_state recorded bs)"
    using derives_node by (intro derives_derives_blockers.derives_node)
  show ?case
  proof (cases "map_of cached i")
    case (Some state)
    then have "derives c V w i state" using derives_node.prems(1) by (simp add: cache_sound_def)
    then show ?thesis using Some derives_unique(1) [OF here] by (simp add: node_state_view.simps)
  next
    case None
    have nv: "i \<notin> set visiting" using derives_acyclic [OF here] derives_node.prems(2) by blast
    have step: "?E i j" if "j \<in> set (nm_depends_on (ld_meta d))" "exists_node (wb_store w) j" for j
      using that derives_node(1) by (auto simp: dep_edge_def)
    have "\<forall>v \<in> set (i # visiting). \<forall>j \<in> set (nm_depends_on (ld_meta d)).
        exists_node (wb_store w) j \<longrightarrow> ?E\<^sup>+\<^sup>+ v j"
      using step derives_node.prems(2) by (auto intro: tranclp.trancl_into_trancl)
    then have "fst (blockers_view c V w (i # visiting) cached (nm_depends_on (ld_meta d))) = Inr bs"
      using derives_node(4) derives_node.prems(1) by blast
    then show ?thesis using None nv derives_node(1,2)
      by (auto simp: node_state_view.simps split: prod.splits)
  qed
next
  case derives_none
  then show ?case by simp
next
  case (derives_missing dep deps bs)
  then have "fst (blockers_view c V w visiting cached deps) = Inr bs" by simp
  then show ?case using derives_missing(1) by (auto simp: blockers_view.simps(2) split: prod.splits)
next
  case (derives_dependency dep state b deps bs)
  obtain cached1 where s: "node_state_view c V w visiting cached dep = (Inr state, cached1)"
    using derives_dependency(3) [OF derives_dependency.prems(1), of visiting]
      derives_dependency.prems(2) derives_dependency(1) by (metis eq_fst_iff list.set_intros(1))
  then have "cache_sound c V w cached1"
    using node_state_view_sound(1) [OF derives_dependency.prems(1) s] by blast
  then have "fst (blockers_view c V w visiting cached1 deps) = Inr bs"
    using derives_dependency(5) derives_dependency.prems(2) by simp
  then show ?case using s derives_dependency(1,6)
    by (auto simp: blockers_view.simps(2) split: prod.splits)
qed

section \<open>The evaluation refines the specification\<close>

lemma node_state_iff: "node_state c V w i = Inr state \<longleftrightarrow> derives c V w i state"
proof
  assume "node_state c V w i = Inr state"
  then show "derives c V w i state"
    using node_state_view_sound(1) [OF cache_sound_Nil, of c V w "[]" i]
    by (metis node_state_def prod.collapse)
next
  assume "derives c V w i state"
  then show "node_state c V w i = Inr state"
    using node_state_view_complete(1) [OF _ cache_sound_Nil, of c V w i state "[]"]
    by (simp add: node_state_def)
qed

text \<open>Whatever was asked of a view before, its answer about a node is the answer of a fresh one.\<close>

lemma node_state_view_shared:
  assumes "cache_sound c V w cached"
  shows "fst (node_state_view c V w [] cached i) = Inr state \<longleftrightarrow> node_state c V w i = Inr state"
proof
  assume "fst (node_state_view c V w [] cached i) = Inr state"
  then show "node_state c V w i = Inr state"
    using node_state_view_sound(1) [OF assms, of "[]" i] by (metis node_state_iff prod.collapse)
next
  assume "node_state c V w i = Inr state"
  then show "fst (node_state_view c V w [] cached i) = Inr state"
    using node_state_view_complete(1) [OF _ assms, of i state "[]"] by (simp add: node_state_iff)
qed

lemma node_state_unfold:
  "node_state c V w i = Inr state \<longleftrightarrow>
     (\<exists>d recorded bs. load_definition c (wb_store w) i = Inr d \<and>
        recorded_state c V w i (ld_meta d) = Inr recorded \<and>
        derives_blockers c V w (nm_depends_on (ld_meta d)) bs \<and> state = assemble_state recorded bs)"
  unfolding node_state_iff by (blast intro: derives_node elim: derives_nodeE)

text \<open>A dependency blocks a node unless it exists, is complete, and succeeded or was accepted.\<close>

definition dependency_met :: "codec \<Rightarrow> 'v vcs \<Rightarrow> 'v workbench \<Rightarrow> node_id \<Rightarrow> bool" where
  "dependency_met c V w dep \<longleftrightarrow> exists_node (wb_store w) dep \<and>
     (\<exists>state. node_state c V w dep = Inr state \<and> is_complete state \<and>
        st_outcome state \<in> {RSucceeded, RAccepted})"

lemma dependency_blocker_Nil:
  "dependency_blocker dep state = Inr [] \<longleftrightarrow>
     is_complete state \<and> st_outcome state \<in> {RSucceeded, RAccepted}"
  by (cases "st_outcome state")
    (auto simp: dependency_blocker_def result_simps is_complete_def split: if_splits)

lemma dependency_blocker_id: "dependency_blocker dep state = Inr b \<Longrightarrow> \<forall>x \<in> set b. bl_id x = dep"
  by (auto simp: dependency_blocker_def result_simps split: if_splits)

lemma derives_blockers_ids: "derives_blockers c V w deps bs \<Longrightarrow> bl_id ` set bs \<subseteq> set deps"
proof (induction deps arbitrary: bs)
  case Nil
  then show ?case by (auto elim: derives_noneE)
next
  case (Cons dep deps)
  then show ?case by (fastforce elim!: derives_consE dest: dependency_blocker_id)
qed

lemma derives_blockers_Nil:
  "derives_blockers c V w deps [] \<longleftrightarrow> (\<forall>dep \<in> set deps. dependency_met c V w dep)"
proof (induction deps)
  case Nil
  then show ?case by (simp add: derives_none)
next
  case (Cons dep deps)
  show ?case
  proof
    assume "derives_blockers c V w (dep # deps) []"
    then show "\<forall>x \<in> set (dep # deps). dependency_met c V w x"
      using Cons.IH by (auto elim!: derives_consE simp: dependency_met_def node_state_iff dependency_blocker_Nil)
  next
    assume met: "\<forall>x \<in> set (dep # deps). dependency_met c V w x"
    then obtain state where "exists_node (wb_store w) dep" "derives c V w dep state"
      "dependency_blocker dep state = Inr []"
      by (auto simp: dependency_met_def node_state_iff dependency_blocker_Nil)
    moreover have "derives_blockers c V w deps []" using met Cons.IH by simp
    ultimately have "derives_blockers c V w (dep # deps) ([] @ [])" by (rule derives_dependency)
    then show "derives_blockers c V w (dep # deps) []" by simp
  qed
qed

lemma derives_blockers_mem:
  "derives_blockers c V w deps bs \<Longrightarrow> b \<in> set bs \<longleftrightarrow> bl_id b \<in> set deps \<and>
     (if exists_node (wb_store w) (bl_id b)
      then \<exists>state. node_state c V w (bl_id b) = Inr state \<and> dependency_blocker (bl_id b) state = Inr [b]
      else bl_reason b = MissingBlocker)"
proof (induction deps arbitrary: bs)
  case Nil
  then show ?case by (auto elim: derives_noneE)
next
  case (Cons dep deps)
  consider (missing) bs' where "\<not> exists_node (wb_store w) dep"
      "bs = \<lparr>bl_id = dep, bl_reason = MissingBlocker\<rparr> # bs'" "derives_blockers c V w deps bs'"
    | (found) state b' bs' where "exists_node (wb_store w) dep" "bs = b' @ bs'"
      "derives c V w dep state" "dependency_blocker dep state = Inr b'" "derives_blockers c V w deps bs'"
    using Cons.prems by (rule derives_consE) blast+
  then show ?case
  proof cases
    case missing
    then show ?thesis using Cons.IH [OF missing(3)] by (cases b) auto
  next
    case found
    have b': "b' = [] \<or> (\<exists>x. b' = [x] \<and> bl_id x = dep)"
      using found(4) by (auto simp: dependency_blocker_def result_simps split: if_splits)
    have here: "(\<exists>sd. node_state c V w dep = Inr sd \<and> dependency_blocker dep sd = Inr [b]) \<longleftrightarrow> b' = [b]"
      using found(3,4) by (simp add: node_state_iff [THEN iffD2, OF found(3)])
    note IH = Cons.IH [OF found(5)]
    show ?thesis
    proof (cases "bl_id b = dep")
      case True
      then show ?thesis using IH here found(1,2) b' by auto
    next
      case False
      then have "b \<notin> set b'" using b' by auto
      then show ?thesis using IH found(2) False by simp
    qed
  qed
qed

section \<open>Properties\<close>

text \<open>
  C6. The memoised evaluation computes the specification. For a fresh view, and for a view that
  already answered other questions, the evaluation returns a state exactly when the specification
  derives it; the \<open>visiting\<close> set never turns an answer into an error and the cache never
  changes one.
\<close>

theorem node_state_refines:
  assumes "cache_sound c V w cached"
  shows "(node_state c V w i = Inr state \<longleftrightarrow> derives c V w i state) \<and>
    (fst (node_state_view c V w [] cached i) = Inr state \<longleftrightarrow> derives c V w i state) \<and>
    cache_sound c V w (snd (node_state_view c V w [] cached i))"
  using node_state_view_shared [OF assms, of i state] node_state_view_sound(1) [OF assms, of "[]" i]
  by (metis node_state_iff prod.collapse)

theorem node_state_refines_witness:
  "\<exists>state. derives wb_codec fake_ops sample_wb ''b'' state \<and> is_ready state"
proof -
  let ?s = "\<lparr>st_outcome = ROpen, st_currency = Current, st_integration = NotRequired,
      st_staleness = [], st_blockers = []\<rparr>"
  have "node_state wb_codec fake_ops sample_wb ''b'' = Inr ?s" by code_simp
  then have "derives wb_codec fake_ops sample_wb ''b'' ?s"
    using node_state_refines [OF cache_sound_Nil] by blast
  moreover have "is_ready ?s" by code_simp
  ultimately show ?thesis by blast
qed

text \<open>
  C37. A dependency cycle is an error, not a loop: the evaluation ends on every store, and it
  reports an error for every node from which a cycle of \<open>depends_on\<close> edges between existing
  nodes can be reached.
\<close>

theorem node_state_cycle_is_error:
  assumes "(dep_edge c (wb_store w))\<^sup>*\<^sup>* i j" and "(dep_edge c (wb_store w))\<^sup>+\<^sup>+ j j"
  shows "\<exists>e. node_state c V w i = Inl e"
proof (rule ccontr)
  assume "\<nexists>e. node_state c V w i = Inl e"
  then obtain state where "derives c V w i state"
    by (cases "node_state c V w i") (auto simp: node_state_iff)
  then have "Wellfounded.accp (\<lambda>b a. dep_edge c (wb_store w) a b) i"
    by (rule derives_accessible)
  then have "Wellfounded.accp (\<lambda>b a. dep_edge c (wb_store w) a b) j"
    using assms(1)
  proof (induction arbitrary: j rule: accp_induct [consumes 1, case_names step])
    case (step x)
    show ?case
    proof (cases "j = x")
      case False
      then obtain y where "dep_edge c (wb_store w) x y" "(dep_edge c (wb_store w))\<^sup>*\<^sup>* y j"
        using step.prems by (metis converse_rtranclpE)
      then show ?thesis using step.IH by blast
    qed (use step.hyps in simp)
  qed
  then show False using accessible_no_cycle assms(2) by fast
qed

theorem node_state_cycle_is_error_witness:
  "\<exists>e. node_state wb_codec fake_ops sample_wb ''p'' = Inl e"
proof -
  have p: "load_definition wb_codec (wb_store sample_wb) ''p'' =
      Inr \<lparr>ld_meta = meta_p, ld_description = ''do p'',
        ld_version = \<lparr>dv_metadata = hash ''xx'', dv_description = hash ''do p''\<rparr>\<rparr>" by code_simp
  have q: "load_definition wb_codec (wb_store sample_wb) ''q'' =
      Inr \<lparr>ld_meta = meta_q, ld_description = ''do q'',
        ld_version = \<lparr>dv_metadata = hash ''xxx'', dv_description = hash ''do q''\<rparr>\<rparr>" by code_simp
  have "exists_node (wb_store sample_wb) ''p''" "exists_node (wb_store sample_wb) ''q''" by code_simp+
  then have "dep_edge wb_codec (wb_store sample_wb) ''p'' ''q''"
    "dep_edge wb_codec (wb_store sample_wb) ''q'' ''p''"
    using p q by (simp_all add: dep_edge_def meta_p_def meta_q_def plain_meta_def)
  then have "(dep_edge wb_codec (wb_store sample_wb))\<^sup>+\<^sup>+ ''p'' ''p''"
    by (rule tranclp.trancl_into_trancl [OF tranclp.r_into_trancl])
  then show ?thesis by (rule node_state_cycle_is_error [OF rtranclp.rtrancl_refl])
qed

text \<open>
  C16. Readiness. When its state can be derived, a node is ready exactly when it is not complete,
  nothing of it awaits publication, and each of its dependencies exists, is complete and
  succeeded or was accepted; a rejected or abandoned review is complete and still blocks.
\<close>

theorem readiness_exact:
  assumes "node_state c V w i = Inr state" and "load_definition c (wb_store w) i = Inr d"
  shows "is_ready state \<longleftrightarrow> \<not> is_complete state \<and> \<not> is_awaiting_integration state \<and>
    (\<forall>dep \<in> set (nm_depends_on (ld_meta d)). exists_node (wb_store w) dep \<and>
      (\<exists>sd. node_state c V w dep = Inr sd \<and> is_complete sd \<and> st_outcome sd \<in> {RSucceeded, RAccepted}))"
proof -
  obtain recorded bs where "derives_blockers c V w (nm_depends_on (ld_meta d)) bs"
    and state: "state = assemble_state recorded bs"
    using assms by (auto simp: node_state_unfold)
  then have "bs = [] \<longleftrightarrow> (\<forall>dep \<in> set (nm_depends_on (ld_meta d)). dependency_met c V w dep)"
    using derives_blockers_Nil derives_unique(2) by metis
  moreover have "st_blockers state = bs" by (simp add: state assemble_state_def split: prod.splits)
  ultimately show ?thesis
    by (simp add: is_ready_def is_awaiting_integration_def dependency_met_def conj_commute)
qed

theorem readiness_exact_witness:
  "\<exists>sd. node_state wb_codec fake_ops sample_wb ''a'' = Inr sd \<and> is_complete sd"
proof -
  let ?s = "\<lparr>st_outcome = ROpen, st_currency = Current, st_integration = NotRequired,
      st_staleness = [], st_blockers = []\<rparr>"
  have s: "node_state wb_codec fake_ops sample_wb ''b'' = Inr ?s" by code_simp
  have d: "load_definition wb_codec (wb_store sample_wb) ''b'' =
      Inr \<lparr>ld_meta = meta_b, ld_description = ''do b'', ld_version = version_b\<rparr>" by code_simp
  have "is_ready ?s" by code_simp
  then show ?thesis
    using readiness_exact [OF s d] by (auto simp: meta_b_def plain_meta_def)
qed

definition reason_for :: "node_state \<Rightarrow> blocker_reason" where
  "reason_for sd =
     (if st_currency sd = Stale then StaleBlocker
      else (case st_outcome sd of
              ROpen \<Rightarrow> OpenBlocker | RFailed \<Rightarrow> FailedBlocker | RRejected \<Rightarrow> RejectedBlocker
            | RAbandoned \<Rightarrow> AbandonedBlocker | _ \<Rightarrow> AwaitingIntegrationBlocker))"

lemma dependency_blocker_total:
  "dependency_blocker dep sd =
     Inr (if is_complete sd \<and> st_outcome sd \<in> {RSucceeded, RAccepted} then []
          else [\<lparr>bl_id = dep, bl_reason = reason_for sd\<rparr>])"
  by (cases "st_outcome sd"; cases "st_currency sd")
    (auto simp: dependency_blocker_def is_complete_def reason_for_def)

text \<open>
  Blockers name every unmet dependency with the right reason, and the \<open>unreachable!()\<close>
  of an accepted dependency is never reached: a blocker of a node is exactly a dependency that is
  missing, or whose own state is stale, or current with the outcome its reason names.
\<close>

theorem blockers_exact:
  assumes "node_state c V w i = Inr state" and "load_definition c (wb_store w) i = Inr d"
  shows "b \<in> set (st_blockers state) \<longleftrightarrow> bl_id b \<in> set (nm_depends_on (ld_meta d)) \<and>
    (if exists_node (wb_store w) (bl_id b)
     then \<exists>sd. node_state c V w (bl_id b) = Inr sd \<and> bl_reason b = reason_for sd \<and>
       \<not> (is_complete sd \<and> st_outcome sd \<in> {RSucceeded, RAccepted})
     else bl_reason b = MissingBlocker)"
proof -
  obtain recorded bs where bs: "derives_blockers c V w (nm_depends_on (ld_meta d)) bs"
    and state: "state = assemble_state recorded bs"
    using assms by (auto simp: node_state_unfold)
  have "st_blockers state = bs" by (simp add: state assemble_state_def split: prod.splits)
  then show ?thesis
    using derives_blockers_mem [OF bs, of b] by (cases b) (auto simp: dependency_blocker_total)
qed

definition open_wb :: "fake_vcs workbench" where
  "open_wb = sample_wb\<lparr>wb_store := put_dir ''a'' (dir_of [] ''do a'' NotFound) sample_store\<rparr>"

theorem blockers_exact_witness:
  "\<exists>sd. node_state wb_codec fake_ops open_wb ''a'' = Inr sd \<and> reason_for sd = OpenBlocker"
proof -
  let ?b = "\<lparr>bl_id = ''a'', bl_reason = OpenBlocker\<rparr>"
  let ?s = "\<lparr>st_outcome = ROpen, st_currency = Current, st_integration = NotRequired,
      st_staleness = [], st_blockers = [?b]\<rparr>"
  have s: "node_state wb_codec fake_ops open_wb ''b'' = Inr ?s" by code_simp
  have d: "load_definition wb_codec (wb_store open_wb) ''b'' =
      Inr \<lparr>ld_meta = meta_b, ld_description = ''do b'', ld_version = version_b\<rparr>" by code_simp
  have "exists_node (wb_store open_wb) ''a''" by code_simp
  then show ?thesis using blockers_exact [OF s d, of ?b] by auto
qed

text \<open>What a pin of a consumed node asserts of the graph as it is now.\<close>

definition pin_holds :: "codec \<Rightarrow> store \<Rightarrow> consumed_node \<Rightarrow> bool" where
  "pin_holds c s p \<longleftrightarrow> exists_node s (cn_id p) \<and>
     (\<exists>d current. load_definition c s (cn_id p) = Inr d \<and> load_result c s (cn_id p) = Inr current \<and>
       ld_version d = cn_definition p \<and> map_option lr_version current = cn_result p \<and>
       (case current of None \<Rightarrow> None | Some l \<Rightarrow> rm_output (lr_meta l)) = cn_output p)"

lemma stale_consumed_Nil: "stale_consumed c s p = Inr [] \<longleftrightarrow> pin_holds c s p"
  by (auto simp: stale_consumed_def pin_holds_def result_simps split: if_splits)

lemma stale_pin_Nil:
  "stale_pin c w pin = Inr [] \<longleftrightarrow> project_file_blob c w (cp_path pin) = Inr (Some (cp_identity pin))"
  by (auto simp: stale_pin_def result_simps split: option.splits if_splits)

lemma stale_output_Nil:
  "stale_output V v result candidate = Inr [] \<longleftrightarrow>
     (\<forall>output. rm_output result = Some output \<longrightarrow> output_drift V v output candidate = Inr None)"
  by (auto simp: stale_output_def result_simps split: option.splits)

lemma collect_concat_Nil:
  "(\<exists>ys. collect f xs = Inr ys \<and> concat ys = []) \<longleftrightarrow> (\<forall>x \<in> set xs. f x = Inr [])"
  by (induction xs) (auto simp: result_simps)

text \<open>
  C17. Currency. A recorded result is current exactly when the evidence still covers the facts:
  the definition has the recorded version; every consumed node exists with the pinned definition,
  result and output; every pinned or observed context file has the pinned content; and the output
  did not drift from the published target (from the checkout when no candidate carries it).
\<close>

theorem staleness_exact:
  "staleness_for_result c V w i result version candidate = Inr [] \<longleftrightarrow>
     (\<exists>d observations. load_definition c (wb_store w) i = Inr d \<and> ld_version d = rm_definition result \<and>
       (\<forall>p \<in> set (rm_consumed result). pin_holds c (wb_store w) p) \<and>
       read_context_observations c (wb_store w) i = Inr observations \<and>
       (\<forall>pin \<in> set (rm_context result @
             concat (map co_context (filter (\<lambda>ob. co_result ob = version) observations))).
         project_file_blob c w (cp_path pin) = Inr (Some (cp_identity pin))) \<and>
       (\<forall>output. rm_output result = Some output \<longrightarrow>
         output_drift V (wb_vcs w) output candidate = Inr None))"
proof -
  let ?pins = "\<lambda>obs. rm_context result @
      concat (map co_context (filter (\<lambda>ob. co_result ob = version) obs))"
  have "staleness_for_result c V w i result version candidate = Inr [] \<longleftrightarrow>
    (\<exists>d obs. load_definition c (wb_store w) i = Inr d \<and> ld_version d = rm_definition result \<and>
      (\<exists>ys. collect (stale_consumed c (wb_store w)) (rm_consumed result) = Inr ys \<and> concat ys = []) \<and>
      read_context_observations c (wb_store w) i = Inr obs \<and>
      (\<exists>zs. collect (stale_pin c w) (?pins obs) = Inr zs \<and> concat zs = []) \<and>
      stale_output V (wb_vcs w) result candidate = Inr [])"
    unfolding staleness_for_result_def Let_def by (auto simp: result_simps split: if_splits)
  then show ?thesis
    by (simp only: collect_concat_Nil stale_consumed_Nil stale_pin_Nil stale_output_Nil)
qed

theorem staleness_exact_witness:
  "pin_holds wb_codec sample_store pin_a"
proof -
  have "staleness_for_result wb_codec fake_ops sample_wb ''b'' result_b result_version_a None = Inr []"
    by code_simp
  then have "\<forall>p \<in> set (rm_consumed result_b). pin_holds wb_codec (wb_store sample_wb) p"
    using staleness_exact [of wb_codec fake_ops sample_wb] by blast
  then show ?thesis by (simp add: result_b_def sample_wb_def)
qed

end
