(* ===== verification/Linka_Query.thy ===== *)
theory Linka_Query
  imports Linka_State_Spec
begin

text \<open>
  Read-only graph queries (\<open>linka/src/ops/query.rs\<close>), each derived by scanning the store. The
  queue of \<open>unsettled\<close> is modelled as it is; the search ends because a node enters \<open>seen\<close> at
  most once and every queued node is a node of the store.
\<close>

section \<open>Scans\<close>

fun origin_scan :: "codec \<Rightarrow> store \<Rightarrow> string \<Rightarrow> node_id list \<Rightarrow> node_id option res" where
  "origin_scan c s commit [] = Inr None"
| "origin_scan c s commit (i # is) =
     and_then (read_result c s i) (\<lambda>found.
     case found of
       Some (result, _) \<Rightarrow>
         if output_commit result = Some commit then Inr (Some i) else origin_scan c s commit is
     | None \<Rightarrow> origin_scan c s commit is)"

definition origin :: "codec \<Rightarrow> store \<Rightarrow> string \<Rightarrow> node_id option res" where
  "origin c s commit = and_then (list_ids s) (origin_scan c s commit)"

definition output_of :: "codec \<Rightarrow> store \<Rightarrow> node_id \<Rightarrow> string option res" where
  "output_of c s i =
     (if \<not> exists_node s i then bail ''unknown node `{}`'' [i]
      else map_ok (\<lambda>found. case found of None \<Rightarrow> None | Some (result, _) \<Rightarrow> output_commit result)
             (read_result c s i))"

definition edges_of :: "node_meta \<Rightarrow> node_id list" where
  "edges_of meta = nm_depends_on meta @ nm_derived_from meta"

fun dependents_scan :: "codec \<Rightarrow> store \<Rightarrow> node_id \<Rightarrow> node_id list \<Rightarrow> node_id list res" where
  "dependents_scan c s i [] = Inr []"
| "dependents_scan c s i (j # js) =
     (if j = i then dependents_scan c s i js
      else
      and_then (read_node c s j) (\<lambda>node.
      and_then (dependents_scan c s i js) (\<lambda>rest.
      Inr (if i \<in> set (edges_of (fst node)) then j # rest else rest))))"

definition dependents :: "codec \<Rightarrow> store \<Rightarrow> node_id \<Rightarrow> node_id list res" where
  "dependents c s i =
     (if \<not> exists_node s i then bail ''unknown node `{}`'' [i]
      else and_then (list_ids s) (dependents_scan c s i))"

definition verifications_for :: "codec \<Rightarrow> store \<Rightarrow> candidate_id \<Rightarrow> node_id list res" where
  "verifications_for c s candidate =
     and_then (candidate_load c s candidate) (\<lambda>_.
     and_then (list_ids s) (\<lambda>ids.
     and_then (collect (\<lambda>i. map_ok (\<lambda>node. (i, fst node)) (read_node c s i)) ids) (\<lambda>nodes.
     Inr (map fst (filter (\<lambda>(i, meta). nm_verifies meta = Some candidate) nodes)))))"

section \<open>Settledness\<close>

text \<open>The reverse adjacency: for every node, the nodes naming it, in the order of the scan.\<close>

definition add_edge :: "node_id \<Rightarrow> node_id \<Rightarrow> (node_id \<times> node_id list) list \<Rightarrow> (node_id \<times> node_id list) list" where
  "add_edge other dep radj =
     AList.update dep ((case map_of radj dep of None \<Rightarrow> [] | Some xs \<Rightarrow> xs) @ [other]) radj"

fun reverse_edges ::
  "codec \<Rightarrow> store \<Rightarrow> (node_id \<times> node_id list) list \<Rightarrow> node_id list \<Rightarrow> (node_id \<times> node_id list) list res" where
  "reverse_edges c s radj [] = Inr radj"
| "reverse_edges c s radj (j # js) =
     and_then (read_node c s j) (\<lambda>node.
     reverse_edges c s (fold (add_edge j) (edges_of (fst node)) radj) js)"

definition adjacent :: "(node_id \<times> node_id list) list \<Rightarrow> node_id \<Rightarrow> node_id list" where
  "adjacent radj i = (case map_of radj i of None \<Rightarrow> [] | Some xs \<Rightarrow> xs)"

fun unsettled_outcome :: "recorded_outcome \<Rightarrow> string res" where
  "unsettled_outcome ROpen = Inr ''open''"
| "unsettled_outcome RFailed = Inr ''failed''"
| "unsettled_outcome RSucceeded = Inl (panic ''internal error: entered unreachable code'')"
| "unsettled_outcome RAccepted = Inr ''accepted but stale''"
| "unsettled_outcome RRejected = Inr ''rejected but stale''"
| "unsettled_outcome RAbandoned = Inr ''abandoned but stale''"

definition unsettled_reason :: "node_id \<Rightarrow> node_state \<Rightarrow> string list res" where
  "unsettled_reason node state =
     (if is_complete state then Inr []
      else if is_awaiting_integration state
        then Inr [node @ '': awaiting candidate integration'']
      else if st_outcome state = RSucceeded then Inr [node @ '': done but stale'']
      else map_ok (\<lambda>outcome. [node @ '': not done ('' @ outcome @ '')'']) (unsettled_outcome (st_outcome state)))"

function unsettled_loop ::
  "codec \<Rightarrow> 'v vcs \<Rightarrow> 'v workbench \<Rightarrow> (node_id \<times> node_id list) list \<Rightarrow> state_cache \<Rightarrow> node_id list \<Rightarrow>
   node_id list \<Rightarrow> string list res" where
  "unsettled_loop c V w radj cached seen [] = Inr []"
| "unsettled_loop c V w radj cached seen (node # queue) =
     (if node \<in> set seen then unsettled_loop c V w radj cached seen queue
      else (case node_state_view c V w [] cached node of
              (Inl e, _) \<Rightarrow> Inl e
            | (Inr state, cached1) \<Rightarrow>
                and_then (unsettled_reason node state) (\<lambda>reason.
                map_ok ((@) reason)
                  (unsettled_loop c V w radj cached1 (node # seen) (queue @ adjacent radj node)))))"
  by pat_completeness auto

text \<open>Nodes still to be seen with queued successors: the keys of \<open>radj\<close> not in \<open>seen\<close>.\<close>

termination
proof (relation "measures
    [\<lambda>(c, V, w, radj, cached, seen, queue). card (set (map fst radj) - set seen),
     \<lambda>(c, V, w, radj, cached, seen, queue). length queue]", goal_cases)
  case 1
  show ?case by simp
next
  case (2 c V w radj cached seen node queue)
  then show ?case by simp
next
  case (3 c V w radj cached seen node queue x1 cached1 state reason)
  show ?case
  proof (cases "node \<in> set (map fst radj)")
    case True
    then have "set (map fst radj) - set (node # seen) \<subset> set (map fst radj) - set seen"
      using 3 by auto
    then have "card (set (map fst radj) - set (node # seen)) < card (set (map fst radj) - set seen)"
      by (intro psubset_card_mono) auto
    then show ?thesis by simp
  next
    case False
    then have "map_of radj node = None" by (simp add: map_of_eq_None_iff)
    then have "adjacent radj node = []" by (simp add: adjacent_def)
    moreover have "set (map fst radj) - set (node # seen) = set (map fst radj) - set seen"
      using False by auto
    ultimately show ?thesis by simp
  qed
qed

definition unsettled :: "codec \<Rightarrow> 'v vcs \<Rightarrow> 'v workbench \<Rightarrow> node_id \<Rightarrow> string list res" where
  "unsettled c V w i =
     (if \<not> exists_node (wb_store w) i then bail ''unknown node `{}`'' [i]
      else
      and_then (list_ids (wb_store w)) (\<lambda>ids.
      and_then (reverse_edges c (wb_store w) [] ids) (\<lambda>radj.
      unsettled_loop c V w radj [] [] [i])))"

section \<open>What the scans compute\<close>

lemma read_result_unfold:
  "load_result c s i = Inr (Some l) \<Longrightarrow> read_result c s i = Inr (Some (lr_meta l, lr_notes l))"
  "load_result c s i = Inr None \<Longrightarrow> read_result c s i = Inr None"
  "load_result c s i = Inl e \<Longrightarrow> read_result c s i = Inl e"
  by (simp_all add: read_result_def)

lemma read_result_cases:
  obtains (err) e where "load_result c s i = Inl e" "read_result c s i = Inl e"
  | (none) "load_result c s i = Inr None" "read_result c s i = Inr None"
  | (some) l where "load_result c s i = Inr (Some l)" "read_result c s i = Inr (Some (lr_meta l, lr_notes l))"
proof (cases "load_result c s i")
  case (Inl e)
  then show ?thesis using err by (simp add: read_result_unfold)
next
  case (Inr x)
  then show ?thesis using none some by (cases x) (simp_all add: read_result_unfold)
qed

lemma origin_scan_Some:
  assumes "origin_scan c s commit ids = Inr (Some i)"
  shows "i \<in> set ids \<and> (\<exists>l. load_result c s i = Inr (Some l) \<and> output_commit (lr_meta l) = Some commit)"
  using assms
proof (induction ids)
  case (Cons j js)
  then show ?case
    by (cases rule: read_result_cases [of c s j]) (auto split: if_splits)
qed simp

lemma origin_scan_None:
  assumes "origin_scan c s commit ids = Inr None" and "i \<in> set ids"
  shows "load_result c s i = Inr (Some l) \<Longrightarrow> output_commit (lr_meta l) \<noteq> Some commit"
  using assms
proof (induction ids)
  case (Cons j js)
  then show ?case
    by (cases rule: read_result_cases [of c s j]) (auto split: if_splits)
qed simp

lemma dependents_scan_set:
  "dependents_scan c s i ids = Inr out \<Longrightarrow>
     j \<in> set out \<longleftrightarrow> j \<in> set ids \<and> j \<noteq> i \<and>
       (\<exists>d. load_definition c s j = Inr d \<and> i \<in> set (edges_of (ld_meta d)))"
  by (induction ids arbitrary: out) (auto simp: result_simps read_node_def split: if_splits)

section \<open>The reverse adjacency\<close>

lemma adjacent_add_edge:
  "set (adjacent (add_edge j dep radj) i) = set (adjacent radj i) \<union> (if i = dep then {j} else {})"
  by (auto simp: adjacent_def add_edge_def split: option.splits)

lemma adjacent_add_edges:
  "set (adjacent (fold (add_edge j) deps radj) i) =
     set (adjacent radj i) \<union> (if i \<in> set deps then {j} else {})"
  by (induction deps arbitrary: radj) (auto simp: adjacent_add_edge)

lemma reverse_edges_adjacent:
  assumes "reverse_edges c s radj ids = Inr radj'"
  shows "j \<in> set (adjacent radj' i) \<longleftrightarrow> j \<in> set (adjacent radj i) \<or>
       (j \<in> set ids \<and> (\<exists>d. load_definition c s j = Inr d \<and> i \<in> set (edges_of (ld_meta d))))"
  using assms
proof (induction ids arbitrary: radj)
  case (Cons k ks)
  then obtain d where d: "load_definition c s k = Inr d"
    and rest: "reverse_edges c s (fold (add_edge k) (edges_of (ld_meta d)) radj) ks = Inr radj'"
    by (auto simp: result_simps read_node_def)
  show ?case using d by (auto simp: Cons.IH [OF rest] adjacent_add_edges)
qed simp

text \<open>\<open>names c s i j\<close>: node \<open>j\<close> of the store names \<open>i\<close> in one of its dependency lists.\<close>

definition names :: "codec \<Rightarrow> store \<Rightarrow> node_id \<Rightarrow> node_id \<Rightarrow> bool" where
  "names c s i j \<longleftrightarrow> j \<in> set (map fst (store_nodes s)) \<and>
     (\<exists>d. load_definition c s j = Inr d \<and> i \<in> set (edges_of (ld_meta d)))"

lemma list_ids_set: "list_ids s = Inr ids \<Longrightarrow> set ids = set (map fst (store_nodes s))"
proof -
  assume "list_ids s = Inr ids"
  then obtain xs where xs: "collect (\<lambda>name. with_context ''invalid node directory `{}`'' [name]
       (map_err (\<lambda>m. Bail m []) (validate_node_id name))) (map fst (store_nodes s)) = Inr xs"
    and "ids = sort xs" by (auto simp: list_ids_def result_simps)
  moreover have "map (\<lambda>x. x) xs = map fst (store_nodes s)"
    by (rule collect_map_fst [OF xs]) (auto simp: result_simps dest: validate_node_id_stores_input)
  ultimately show ?thesis by simp
qed

lemma unsettled_reason_Nil: "unsettled_reason n state = Inr r \<Longrightarrow> r = [] \<longleftrightarrow> is_complete state"
  by (auto simp: unsettled_reason_def result_simps split: if_splits)

lemma unsettled_reason_total: "\<exists>r. unsettled_reason n state = Inr r"
  by (cases "st_outcome state") (auto simp: unsettled_reason_def)

text \<open>The search: there is a set of nodes, closed under adjacency, that was visited.\<close>

lemma unsettled_loop_visits:
  assumes "unsettled_loop c V w radj cached seen queue = Inr reasons" and "cache_sound c V w cached"
  shows "\<exists>T. set queue \<subseteq> T \<union> set seen \<and> T \<inter> set seen = {} \<and>
     (\<forall>n \<in> T. set (adjacent radj n) \<subseteq> T \<union> set seen) \<and>
     (\<forall>n \<in> T. \<exists>q \<in> set queue. (\<lambda>a b. b \<in> set (adjacent radj a))\<^sup>*\<^sup>* q n) \<and>
     (\<forall>n \<in> T. \<exists>state. node_state c V w n = Inr state) \<and>
     (reasons = [] \<longleftrightarrow> (\<forall>n \<in> T. \<exists>state. node_state c V w n = Inr state \<and> is_complete state))"
  using assms
proof (induction c V w radj cached seen queue arbitrary: reasons rule: unsettled_loop.induct)
  case (1 c V w radj cached seen)
  then show ?case by (intro exI [of _ "{}"]) auto
next
  case (2 c V w radj cached seen node queue)
  show ?case
  proof (cases "node \<in> set seen")
    case True
    then obtain T where "set queue \<subseteq> T \<union> set seen \<and> T \<inter> set seen = {} \<and>
     (\<forall>n \<in> T. set (adjacent radj n) \<subseteq> T \<union> set seen) \<and>
     (\<forall>n \<in> T. \<exists>q \<in> set queue. (\<lambda>a b. b \<in> set (adjacent radj a))\<^sup>*\<^sup>* q n) \<and>
     (\<forall>n \<in> T. \<exists>state. node_state c V w n = Inr state) \<and>
     (reasons = [] \<longleftrightarrow> (\<forall>n \<in> T. \<exists>state. node_state c V w n = Inr state \<and> is_complete state))"
      using 2 by auto
    then show ?thesis using True by (intro exI [of _ T]) auto
  next
    case False
    obtain state cached1 reason rest where
      view: "node_state_view c V w [] cached node = (Inr state, cached1)"
      and reason: "unsettled_reason node state = Inr reason"
      and rest: "unsettled_loop c V w radj cached1 (node # seen) (queue @ adjacent radj node) = Inr rest"
      and rs: "reasons = reason @ rest"
      using 2(3) False by (auto simp: result_simps split: prod.splits sum.splits)
    have st: "node_state c V w node = Inr state"
      using node_state_view_shared [OF 2(4), of node state] view by (simp add: node_state_iff)
    have sound: "cache_sound c V w cached1"
      using node_state_view_sound(1) [OF 2(4), of "[]" node] view by simp
    obtain T where T: "set (queue @ adjacent radj node) \<subseteq> T \<union> set (node # seen)"
      "T \<inter> set (node # seen) = {}"
      "\<forall>n \<in> T. set (adjacent radj n) \<subseteq> T \<union> set (node # seen)"
      "\<forall>n \<in> T. \<exists>q \<in> set (queue @ adjacent radj node). (\<lambda>a b. b \<in> set (adjacent radj a))\<^sup>*\<^sup>* q n"
      "\<forall>n \<in> T. \<exists>state. node_state c V w n = Inr state"
      "rest = [] \<longleftrightarrow> (\<forall>n \<in> T. \<exists>state. node_state c V w n = Inr state \<and> is_complete state)"
      using 2(2) [OF False view [symmetric] refl rest sound] by auto
    have reach: "\<exists>q \<in> set (node # queue). (\<lambda>a b. b \<in> set (adjacent radj a))\<^sup>*\<^sup>* q n" if "n \<in> T" for n
    proof -
      obtain q where q: "q \<in> set queue \<or> q \<in> set (adjacent radj node)"
        "(\<lambda>a b. b \<in> set (adjacent radj a))\<^sup>*\<^sup>* q n" using T(4) \<open>n \<in> T\<close> by auto
      then show ?thesis by (metis converse_rtranclp_into_rtranclp list.set_intros)
    qed
    have "reasons = [] \<longleftrightarrow> is_complete state \<and> rest = []"
      using unsettled_reason_Nil [OF reason] rs by auto
    then show ?thesis using T False st reach
      by (intro exI [of _ "insert node T"]) (auto 4 3)
  qed
qed

text \<open>
  Settledness. \<open>unsettled\<close> reports nothing exactly when the node and every node that names
  it, directly or through others, over both kinds of edges, is complete, whatever the cycles of the
  lineage graph; it always ends.
\<close>

theorem unsettled_exact:
  assumes "unsettled c V w i = Inr reasons"
  shows "reasons = [] \<longleftrightarrow> (\<forall>j. (names c (wb_store w))\<^sup>*\<^sup>* i j \<longrightarrow>
    (\<exists>state. node_state c V w j = Inr state \<and> is_complete state))"
proof -
  obtain ids radj where ids: "list_ids (wb_store w) = Inr ids"
    and radj: "reverse_edges c (wb_store w) [] ids = Inr radj"
    and loop: "unsettled_loop c V w radj [] [] [i] = Inr reasons"
    using assms by (auto simp: unsettled_def result_simps split: if_splits)
  have rel: "(\<lambda>a b. b \<in> set (adjacent radj a)) = names c (wb_store w)"
    using list_ids_set [OF ids]
    by (intro ext) (simp add: reverse_edges_adjacent [OF radj] names_def adjacent_def [of "[]"])
  obtain T where T: "i \<in> T" "\<forall>n \<in> T. \<forall>m. names c (wb_store w) n m \<longrightarrow> m \<in> T"
    "\<forall>n \<in> T. (names c (wb_store w))\<^sup>*\<^sup>* i n"
    "reasons = [] \<longleftrightarrow> (\<forall>n \<in> T. \<exists>state. node_state c V w n = Inr state \<and> is_complete state)"
    using unsettled_loop_visits [OF loop cache_sound_Nil] unfolding rel
    by (auto simp flip: rel)
  have "j \<in> T" if "(names c (wb_store w))\<^sup>*\<^sup>* i j" for j
    using that by induction (use T in auto)
  then have "T = {j. (names c (wb_store w))\<^sup>*\<^sup>* i j}" using T(3) by auto
  then show ?thesis using T(4) by auto
qed

theorem unsettled_exact_witness:
  "\<exists>j. (names wb_codec sample_store)\<^sup>*\<^sup>* ''a'' j \<and>
     \<not> (\<exists>state. node_state wb_codec fake_ops sample_wb j = Inr state \<and> is_complete state)"
proof -
  have run: "unsettled wb_codec fake_ops sample_wb ''a'' = Inr [''b: not done (open)'']" by code_simp
  show ?thesis using unsettled_exact [OF run] by (auto simp: sample_wb_def)
qed

text \<open>
  The producer of a commit. \<open>origin\<close> finds a node of the store whose recorded result has
  exactly that commit as its output, and answers none only when no node has; it is the inverse of
  \<open>output_of\<close>, read off the results instead of a second index.
\<close>

theorem origin_exact:
  assumes "origin c s commit = Inr found"
  shows "(found = None \<longleftrightarrow> (\<forall>i \<in> set (map fst (store_nodes s)). \<forall>l.
      load_result c s i = Inr (Some l) \<longrightarrow> output_commit (lr_meta l) \<noteq> Some commit)) \<and>
    (\<forall>i. found = Some i \<longrightarrow> i \<in> set (map fst (store_nodes s)) \<and>
      (exists_node s i \<longrightarrow> output_of c s i = Inr (Some commit)))"
proof -
  obtain ids where ids: "list_ids s = Inr ids" and scan: "origin_scan c s commit ids = Inr found"
    using assms by (auto simp: origin_def result_simps)
  show ?thesis
  proof (cases found)
    case None
    then show ?thesis
      using origin_scan_None [of c s commit ids] scan list_ids_set [OF ids] by auto
  next
    case (Some i)
    then obtain l where l: "i \<in> set ids" "load_result c s i = Inr (Some l)"
      "output_commit (lr_meta l) = Some commit"
      using origin_scan_Some scan by blast
    then have "output_of c s i = Inr (Some commit)" if "exists_node s i"
      using that by (simp add: output_of_def read_result_unfold)
    then show ?thesis using l Some list_ids_set [OF ids] by auto
  qed
qed

theorem origin_exact_witness:
  "origin wb_codec sample_store ''c9'' = Inr None \<and>
   \<not> (\<exists>l. load_result wb_codec sample_store ''a'' = Inr (Some l) \<and> output_commit (lr_meta l) = Some ''c9'')"
proof -
  have none: "origin wb_codec sample_store ''c9'' = Inr None" by code_simp
  from origin_exact [OF this] have
    "\<forall>l. load_result wb_codec sample_store ''a'' = Inr (Some l) \<longrightarrow> output_commit (lr_meta l) \<noteq> Some ''c9''"
    by (simp add: sample_store_def)
  then show ?thesis using none by blast
qed

end
