(* ===== verification/Linka_Evidence.thy ===== *)
theory Linka_Evidence
  imports Linka_Query
begin

text \<open>
  What rides alongside a result (\<open>linka/src/ops/mutate.rs\<close>): immutable node attachments and
  context observations discovered after an execution. The clock readings are arguments.
\<close>

section \<open>Attachments\<close>

definition new_attachment :: "codec \<Rightarrow> int \<Rightarrow> new_node_attachment \<Rightarrow> node_attachment" where
  "new_attachment c now n =
     \<lparr>na_schema = ATTACHMENT_SCHEMA, na_namespace = nn_namespace n, na_key = nn_key n,
      na_created_at_ms = now, na_media_type = nn_media_type n, na_content = blob_id c (nn_data n),
      na_size = length (nn_data n)\<rparr>"

fun prepare_attachments_loop ::
  "codec \<Rightarrow> store \<Rightarrow> node_id \<Rightarrow> int \<Rightarrow> (string \<times> string) list \<Rightarrow> new_node_attachment list \<Rightarrow>
   (node_attachment list \<times> (node_attachment \<times> string) list) res" where
  "prepare_attachments_loop c s i now identities [] = Inr ([], [])"
| "prepare_attachments_loop c s i now identities (n # ns) =
     (if (nn_namespace n, nn_key n) \<in> set identities
      then bail ''attachment batch repeats `{}/{}`'' [nn_namespace n, nn_key n]
      else
      and_then (read_node_attachment c s i (nn_namespace n) (nn_key n)) (\<lambda>found.
      case found of
        Some (existing, data) \<Rightarrow>
          if na_media_type existing \<noteq> nn_media_type n \<or> data \<noteq> nn_data n
          then bail ''attachment `{}/{}` already exists with different content'' [nn_namespace n, nn_key n]
          else
          map_ok (\<lambda>(attachments, pending). (existing # attachments, pending))
            (prepare_attachments_loop c s i now ((nn_namespace n, nn_key n) # identities) ns)
      | None \<Rightarrow>
          let a = new_attachment c now n in
          map_ok (\<lambda>(attachments, pending). (a # attachments, (a, nn_data n) # pending))
            (prepare_attachments_loop c s i now ((nn_namespace n, nn_key n) # identities) ns)))"

definition prepare_node_attachments ::
  "codec \<Rightarrow> store \<Rightarrow> node_id \<Rightarrow> int \<Rightarrow> new_node_attachment list \<Rightarrow>
   (node_attachment list \<times> (node_attachment \<times> string) list) res" where
  "prepare_node_attachments c s i now new = prepare_attachments_loop c s i now [] new"

definition write_node_attachments ::
  "codec \<Rightarrow> node_id \<Rightarrow> (node_attachment \<times> string) list \<Rightarrow> (store, error, unit) st_op" where
  "write_node_attachments c i pending = st_for (\<lambda>(a, data). write_node_attachment c i a data) pending"

definition record_node_attachments ::
  "codec \<Rightarrow> 'v vcs \<Rightarrow> int \<Rightarrow> node_id \<Rightarrow> new_node_attachment list \<Rightarrow> ('v, node_attachment list) wb_op" where
  "record_node_attachments c V now i new =
     (if new = [] then st_return []
      else with_mutation V
        (st_then (st_read (\<lambda>w.
           if \<not> exists_node (wb_store w) i then bail ''unknown node `{}`'' [i]
           else prepare_node_attachments c (wb_store w) i now new)) (\<lambda>(attachments, pending).
         st_then (on_store (write_node_attachments c i pending)) (\<lambda>_.
         if pending = [] then st_return attachments
         else st_then (mutation_commit V (''linka: attach '' @ show_nat (length pending) @ '' item(s) to '' @ i))
                (\<lambda>_. st_return attachments)))))"

definition record_node_attachment ::
  "codec \<Rightarrow> 'v vcs \<Rightarrow> int \<Rightarrow> node_id \<Rightarrow> new_node_attachment \<Rightarrow> ('v, node_attachment) wb_op" where
  "record_node_attachment c V now i new =
     st_then (record_node_attachments c V now i [new]) (\<lambda>attachments.
     case attachments of
       a # _ \<Rightarrow> st_return a
     | [] \<Rightarrow> st_fail (panic ''one attachment requested''))"

section \<open>Context observations\<close>

fun outputs_scan :: "codec \<Rightarrow> 'v vcs \<Rightarrow> 'v workbench \<Rightarrow> node_id list \<Rightarrow> string list res" where
  "outputs_scan c V w [] = Inr []"
| "outputs_scan c V w (i # is) =
     and_then (output_of c (wb_store w) i) (\<lambda>commit.
     and_then (case commit of None \<Rightarrow> Inr [] | Some h \<Rightarrow> v_files_in V (wb_vcs w) h) (\<lambda>files.
     map_ok ((@) files) (outputs_scan c V w is)))"

definition frozen_blob :: "codec \<Rightarrow> 'v vcs \<Rightarrow> 'v workbench \<Rightarrow> result_meta \<Rightarrow> project_path \<Rightarrow> string option res" where
  "frozen_blob c V w result path =
     (if ps_revision (rm_project result) \<noteq> []
      then v_file_blob_at V (wb_vcs w) (ps_revision (rm_project result)) path
      else project_file_blob c w path)"

fun observe_paths ::
  "codec \<Rightarrow> 'v vcs \<Rightarrow> 'v workbench \<Rightarrow> result_meta \<Rightarrow> string list \<Rightarrow> string list \<Rightarrow> string list \<Rightarrow>
   context_pin list res" where
  "observe_paths c V w result node_outputs pinned [] = Inr []"
| "observe_paths c V w result node_outputs pinned (path # paths) =
     (if path \<in> set pinned \<or> path \<in> set node_outputs
      then observe_paths c V w result node_outputs pinned paths
      else
      and_then (parse_project_path path) (\<lambda>project_path.
      and_then (frozen_blob c V w result project_path) (\<lambda>blob.
      case blob of
        None \<Rightarrow> observe_paths c V w result node_outputs pinned paths
      | Some b \<Rightarrow>
          map_ok ((#) \<lparr>cp_path = project_path, cp_identity = b, cp_observed = True\<rparr>)
            (observe_paths c V w result node_outputs (path # pinned) paths))))"

definition known_paths :: "result_meta \<Rightarrow> result_version \<Rightarrow> context_observation list \<Rightarrow> string list" where
  "known_paths result expected_result observations =
     map cp_path (rm_context result) @
     concat (map (\<lambda>ob. map cp_path (co_context ob))
       (filter (\<lambda>ob. co_result ob = expected_result) observations))"

text \<open>What the observation will hold, before anything is written.\<close>

definition observed_context ::
  "codec \<Rightarrow> 'v vcs \<Rightarrow> 'v workbench \<Rightarrow> node_id \<Rightarrow> result_version \<Rightarrow> string list \<Rightarrow> context_pin list res" where
  "observed_context c V w i expected_result paths =
     and_then (read_result c (wb_store w) i) (\<lambda>found.
     and_then (ok_or (Bail ''node `{}` has no result'' [i]) found) (\<lambda>(result, _).
     and_then (result_version c (wb_store w) i) (\<lambda>version.
     if version \<noteq> expected_result
     then bail ''result changed before context observation was recorded'' []
     else
     and_then (list_ids (wb_store w)) (\<lambda>ids.
     and_then (outputs_scan c V w ids) (\<lambda>node_outputs.
     and_then (read_context_observations c (wb_store w) i) (\<lambda>observations.
     observe_paths c V w result node_outputs (known_paths result expected_result observations)
       paths))))))"

definition record_context_observation_locked ::
  "codec \<Rightarrow> 'v vcs \<Rightarrow> node_id \<Rightarrow> result_version \<Rightarrow> string list \<Rightarrow> ('v, nat) wb_op" where
  "record_context_observation_locked c V i expected_result paths =
     st_then (st_read (\<lambda>w. observed_context c V w i expected_result paths)) (\<lambda>context_pins.
     if context_pins = [] then st_return 0
     else st_then (on_store (write_context_observation c i
            \<lparr>co_schema = OBSERVATION_SCHEMA, co_result = expected_result, co_context = context_pins\<rparr>))
          (\<lambda>_. st_return (length context_pins)))"

definition record_context_observation ::
  "codec \<Rightarrow> 'v vcs \<Rightarrow> node_id \<Rightarrow> result_version \<Rightarrow> string list \<Rightarrow> ('v, nat) wb_op" where
  "record_context_observation c V i expected_result paths =
     with_mutation V
       (st_then (record_context_observation_locked c V i expected_result paths) (\<lambda>added.
        if added > 0
        then st_then (mutation_commit V (''linka: context observation '' @ i)) (\<lambda>_. st_return added)
        else st_return added))"

section \<open>Facts about attachments\<close>

definition attachment_dir :: "codec \<Rightarrow> node_attachment \<times> string \<Rightarrow> string" where
  "attachment_dir c p = attachment_identity c (na_namespace (fst p)) (na_key (fst p))"

lemma read_attachment_identity:
  "read_node_attachment c s i namespace key = Inr (Some (a, data)) \<Longrightarrow>
     na_namespace a = namespace \<and> na_key a = key"
  by (auto simp: read_node_attachment_def validate_attachment_record_def result_simps
      split: if_splits option.splits)

lemma read_attachment_entry:
  assumes "read_node_attachment c s i namespace key = Inr found"
  shows "found = None \<longleftrightarrow> attachment_entry_of i s (attachment_identity c namespace key) = None"
  using assms
  by (auto simp: read_node_attachment_def attachment_path_def attachment_entry_of_def result_simps
      split: if_splits option.splits)

lemma read_attachment_cong:
  assumes "attachment_entry_of i s (attachment_identity c namespace key) =
      attachment_entry_of i t (attachment_identity c namespace key)"
    and "exists_node s i = exists_node t i"
  shows "read_node_attachment c s i namespace key = read_node_attachment c t i namespace key"
proof (cases "validate_attachment_identity namespace key")
  case (Inl e)
  then show ?thesis by (simp add: read_node_attachment_def attachment_path_def assms(2))
next
  case (Inr u)
  then show ?thesis using assms
    by (simp add: read_node_attachment_def attachment_path_def attachment_entry_of_def)
qed

text \<open>What a prepared batch is: each request is an attachment read from the store with the same
  content, or a new record to write under a directory that is not there yet.\<close>

definition prepared_as ::
  "codec \<Rightarrow> store \<Rightarrow> node_id \<Rightarrow> (node_attachment \<times> string) list \<Rightarrow> new_node_attachment \<Rightarrow> node_attachment \<Rightarrow> bool" where
  "prepared_as c s i pending n a \<longleftrightarrow>
     na_namespace a = nn_namespace n \<and> na_key a = nn_key n \<and> na_media_type a = nn_media_type n \<and>
     (read_node_attachment c s i (nn_namespace n) (nn_key n) = Inr (Some (a, nn_data n)) \<or>
      (a, nn_data n) \<in> set pending)"

lemma prepared_as_mono: "prepared_as c s i ps n a \<Longrightarrow> set ps \<subseteq> set qs \<Longrightarrow> prepared_as c s i qs n a"
  by (auto simp: prepared_as_def)

lemma prepare_loop_Cons:
  assumes "prepare_attachments_loop c s i now identities (n # ns) = Inr x"
  obtains (existing) a as ps where "(nn_namespace n, nn_key n) \<notin> set identities"
      "read_node_attachment c s i (nn_namespace n) (nn_key n) = Inr (Some (a, nn_data n))"
      "na_media_type a = nn_media_type n" "x = (a # as, ps)"
      "prepare_attachments_loop c s i now ((nn_namespace n, nn_key n) # identities) ns = Inr (as, ps)"
  | (new) a as ps where "(nn_namespace n, nn_key n) \<notin> set identities"
      "read_node_attachment c s i (nn_namespace n) (nn_key n) = Inr None"
      "na_namespace a = nn_namespace n" "na_key a = nn_key n" "na_media_type a = nn_media_type n"
      "x = (a # as, (a, nn_data n) # ps)"
      "prepare_attachments_loop c s i now ((nn_namespace n, nn_key n) # identities) ns = Inr (as, ps)"
proof -
  have fresh: "(nn_namespace n, nn_key n) \<notin> set identities"
    using assms by (auto split: if_splits)
  then obtain found where found: "read_node_attachment c s i (nn_namespace n) (nn_key n) = Inr found"
    using assms by (auto simp: result_simps)
  show ?thesis
  proof (cases found)
    case None
    have a: "na_namespace (new_attachment c now n) = nn_namespace n" "na_key (new_attachment c now n) = nn_key n"
      "na_media_type (new_attachment c now n) = nn_media_type n"
      by (simp_all add: new_attachment_def)
    show ?thesis using assms fresh found None new [OF _ _ a] by (auto simp: result_simps Let_def)
  next
    case (Some y)
    obtain a data where "y = (a, data)" by (cases y)
    then show ?thesis using assms fresh found Some existing
      by (auto simp: result_simps split: if_splits)
  qed
qed

lemma prepare_attachments_loop_spec:
  assumes "prepare_attachments_loop c s i now identities new = Inr (attachments, pending)"
  shows "list_all2 (prepared_as c s i pending) new attachments \<and>
    (\<forall>p \<in> set pending. attachment_entry_of i s (attachment_dir c p) = None) \<and>
    set (map (\<lambda>p. (na_namespace (fst p), na_key (fst p))) pending) \<subseteq> (\<lambda>n. (nn_namespace n, nn_key n)) ` set new \<and>
    set identities \<inter> (\<lambda>n. (nn_namespace n, nn_key n)) ` set new = {} \<and>
    distinct (map (\<lambda>p. (na_namespace (fst p), na_key (fst p))) pending)"
  using assms
proof (induction new arbitrary: identities attachments pending)
  case Nil
  then show ?case by simp
next
  case (Cons n ns)
  from Cons.prems show ?case
  proof (cases rule: prepare_loop_Cons)
    case (existing a as ps)
    then show ?thesis using Cons.IH [OF existing(5)] read_attachment_identity [OF existing(2)]
      by (auto simp: prepared_as_def)
  next
    case (new a as ps)
    note IH = Cons.IH [OF new(7)]
    have "list_all2 (prepared_as c s i pending) ns as"
      by (rule list_all2_mono [OF conjunct1 [OF IH]]) (use new(6) in \<open>auto intro: prepared_as_mono\<close>)
    moreover have "prepared_as c s i pending n a" using new by (simp add: prepared_as_def)
    moreover have "attachment_entry_of i s (attachment_dir c (a, nn_data n)) = None"
      using read_attachment_entry [OF new(2)] new by (simp add: attachment_dir_def)
    ultimately show ?thesis using IH new by auto
  qed
qed

lemma write_node_attachments_frame [frame_simps]:
  assumes "write_node_attachments c i pending s = (r, t)"
  shows "\<And>j. load_definition c t j = load_definition c s j" "\<And>j. load_result c t j = load_result c s j"
    "\<And>j. exists_node t j = exists_node s j"
    "store_candidates t = store_candidates s" "store_pairing t = store_pairing s"
proof -
  let ?R = "\<lambda>s t. (\<forall>j. load_definition c t j = load_definition c s j) \<and>
      (\<forall>j. load_result c t j = load_result c s j) \<and> (\<forall>j. exists_node t j = exists_node s j) \<and>
      store_candidates t = store_candidates s \<and> store_pairing t = store_pairing s"
  have "?R s t"
  proof (rule st_for_rel [where R = ?R])
    show "st_for (\<lambda>(a, data). write_node_attachment c i a data) pending s = (r, t)"
      using assms by (simp add: write_node_attachments_def)
  next
    fix x s r t
    assume "(\<lambda>(a, data). write_node_attachment c i a data) x s = (r, t)"
    then have w: "write_node_attachment c i (fst x) (snd x) s = (r, t)" by (simp add: split_beta)
    show "?R s t"
      using write_node_attachment_others [OF w] write_node_attachment_fields [OF w]
        exists_node_cong [where s = t and t = s] by blast
  qed auto
  then show "\<And>j. load_definition c t j = load_definition c s j" "\<And>j. load_result c t j = load_result c s j"
    "\<And>j. exists_node t j = exists_node s j"
    "store_candidates t = store_candidates s" "store_pairing t = store_pairing s" by blast+
qed

text \<open>Writing a prepared batch: every request can be read back, everything there before is as it was.\<close>

lemma attachment_dir_conv:
  "attachment_dir c = (\<lambda>(a, data). attachment_identity c (na_namespace a) (na_key a))"
  by (auto simp: attachment_dir_def)

lemma written_attachments:
  assumes w: "write_node_attachments c i pending s = (Inr (), t)"
    and new: "\<forall>p \<in> set pending. attachment_entry_of i s (attachment_dir c p) = None"
  shows "read_node_attachment c s i namespace key = Inr (Some x) \<Longrightarrow>
      read_node_attachment c t i namespace key = Inr (Some x)"
    and "codec_faithful c \<Longrightarrow> exists_node s i \<Longrightarrow> distinct (map (attachment_dir c) pending) \<Longrightarrow>
      (a, data) \<in> set pending \<Longrightarrow>
      read_node_attachment c t i (na_namespace a) (na_key a) = Inr (Some (a, data))"
proof -
  note for_all = w [unfolded write_node_attachments_def]
  note ex = write_node_attachments_frame(3) [OF w, of i]
  assume r: "read_node_attachment c s i namespace key = Inr (Some x)"
  have "attachment_identity c namespace key \<notin> attachment_dir c ` set pending"
    using new read_attachment_entry [OF r] by auto
  then have "attachment_entry_of i t (attachment_identity c namespace key) =
      attachment_entry_of i s (attachment_identity c namespace key)"
    using attachment_records.put_all_other [OF for_all, of "attachment_identity c namespace key"]
    by (simp add: attachment_dir_conv)
  then show "read_node_attachment c t i namespace key = Inr (Some x)"
    using read_attachment_cong [of i t c namespace key s] ex r by simp
next
  note for_all = w [unfolded write_node_attachments_def]
  assume c: "codec_faithful c" and s: "exists_node s i"
    and d: "distinct (map (attachment_dir c) pending)" and p: "(a, data) \<in> set pending"
  have "exists_node t i" using write_node_attachments_frame(3) [OF w, of i] s by simp
  moreover obtain toml where "attachment_to_toml c a = Some toml"
    "attachment_entry_of i t (attachment_identity c (na_namespace a) (na_key a)) =
       Some (AttachDir (Bytes toml) (Bytes data))"
    "validate_attachment_data c a data = Inr ()"
    "validate_attachment_record a (na_namespace a) (na_key a) = Inr ()"
    using attachment_records.put_all_same [OF for_all _ p] d
    by (auto simp: attachment_dir_conv)
  ultimately show "read_node_attachment c t i (na_namespace a) (na_key a) = Inr (Some (a, data))"
    using c by (intro read_stored_attachment) (auto simp: codec_faithful_def)
qed

lemma prepare_existing:
  assumes "list_all2 (\<lambda>n a. na_media_type a = nn_media_type n \<and>
      read_node_attachment c s i (nn_namespace n) (nn_key n) = Inr (Some (a, nn_data n))) new attachments"
    and "distinct (map (\<lambda>n. (nn_namespace n, nn_key n)) new)"
    and "set identities \<inter> (\<lambda>n. (nn_namespace n, nn_key n)) ` set new = {}"
  shows "prepare_attachments_loop c s i now identities new = Inr (attachments, [])"
  using assms
  by (induction new attachments arbitrary: identities rule: list_all2_induct) auto

lemma prepare_distinct:
  assumes "prepare_attachments_loop c s i now identities new = Inr x"
  shows "distinct (map (\<lambda>n. (nn_namespace n, nn_key n)) new)"
  using assms
proof (induction new arbitrary: identities x)
  case (Cons n ns)
  have "set ((nn_namespace n, nn_key n) # identities) \<inter> (\<lambda>n. (nn_namespace n, nn_key n)) ` set ns = {}"
    if "prepare_attachments_loop c s i now ((nn_namespace n, nn_key n) # identities) ns = Inr (as, ps)" for as ps
    using prepare_attachments_loop_spec [OF that] by blast
  with Cons.prems show ?case
    by (cases rule: prepare_loop_Cons) (auto dest: Cons.IH)
qed simp

lemma record_node_attachments_Inr:
  assumes "record_node_attachments c V now i new w = (Inr attachments, w')" and "new \<noteq> []"
  obtains pending t where "\<not> wb_locked w" "store_clean V w" "exists_node (wb_store w) i"
    "prepare_node_attachments c (wb_store w) i now new = Inr (attachments, pending)"
    "write_node_attachments c i pending (wb_store w) = (Inr (), t)" "wb_store w' = t"
    "\<not> wb_locked w'" "store_clean V w'"
proof -
  obtain pending w1 t where lock: "\<not> wb_locked w" "store_clean V w" "exists_node (wb_store w) i"
    and prep: "prepare_node_attachments c (wb_store w) i now new = Inr (attachments, pending)"
    and wr: "write_node_attachments c i pending (wb_store w) = (Inr (), t)"
    and fin: "if pending = [] then w1 = w\<lparr>wb_locked := True, wb_store := t\<rparr>
      else mutation_commit V (''linka: attach '' @ show_nat (length pending) @ '' item(s) to '' @ i)
        (w\<lparr>wb_locked := True, wb_store := t\<rparr>) = (Inr (), w1)"
    and w': "w' = w1\<lparr>wb_locked := False\<rparr>"
    using assms unfolding record_node_attachments_def
    by (auto simp: with_mutation_Inr result_simps split: if_splits)
  have "wb_store w1 = t" using fin by (auto dest: mutation_commit_store split: if_splits)
  moreover have "store_clean V w1"
  proof (cases "pending = []")
    case True
    then have "t = wb_store w" using wr by (simp add: write_node_attachments_def)
    then show ?thesis using fin True lock(2) by (simp add: store_clean_def)
  qed (use fin in \<open>auto dest: mutation_commit_clean\<close>)
  ultimately show ?thesis
    using that [OF lock prep wr] w' by (simp add: store_clean_def)
qed

text \<open>
  Attachments are immutable, and recording them can be retried. After a batch was recorded,
  every attachment that could be read before reads the same, every request reads back with exactly
  its payload and media type (requests whose directories differ, as the hash makes them), the
  derived facts of every node are as before, and recording the same batch again returns the same
  records and changes nothing, whatever the clock says.
\<close>

theorem attachments_immutable_and_retryable:
  assumes "codec_faithful c" and "new \<noteq> []"
    and "record_node_attachments c V now i new w = (Inr attachments, w')"
    and "distinct (map (\<lambda>n. attachment_identity c (nn_namespace n) (nn_key n)) new)"
  shows "(\<forall>namespace key x. read_node_attachment c (wb_store w) i namespace key = Inr (Some x) \<longrightarrow>
      read_node_attachment c (wb_store w') i namespace key = Inr (Some x)) \<and>
    list_all2 (\<lambda>n a. na_media_type a = nn_media_type n \<and>
      read_node_attachment c (wb_store w') i (nn_namespace n) (nn_key n) = Inr (Some (a, nn_data n)))
      new attachments \<and>
    (\<forall>j. load_definition c (wb_store w') j = load_definition c (wb_store w) j \<and>
      load_result c (wb_store w') j = load_result c (wb_store w) j) \<and>
    record_node_attachments c V now' i new w' = (Inr attachments, w')"
  using assms(3,2)
proof (rule record_node_attachments_Inr)
  fix pending t
  assume ex: "exists_node (wb_store w) i"
    and prep: "prepare_node_attachments c (wb_store w) i now new = Inr (attachments, pending)"
    and wr: "write_node_attachments c i pending (wb_store w) = (Inr (), t)"
    and w': "wb_store w' = t" "\<not> wb_locked w'" "store_clean V w'"
  note spec = prepare_attachments_loop_spec [OF prep [unfolded prepare_node_attachments_def]]
  then have new: "\<forall>p \<in> set pending. attachment_entry_of i (wb_store w) (attachment_dir c p) = None"
    by blast
  have "distinct (map (attachment_dir c) pending)"
  proof -
    let ?k = "\<lambda>p. (na_namespace (fst p), na_key (fst p))"
    let ?id = "\<lambda>(namespace, key). attachment_identity c namespace key"
    have "inj_on ?id ((\<lambda>n. (nn_namespace n, nn_key n)) ` set new)"
      using assms(4) by (auto simp: distinct_map inj_on_def)
    then have "inj_on ?id (set (map ?k pending))" using spec by (blast intro: inj_on_subset)
    then have "distinct (map ?id (map ?k pending))" using spec by (simp only: distinct_map)
    moreover have "map ?id (map ?k pending) = map (attachment_dir c) pending"
      by (simp add: attachment_dir_def)
    ultimately show ?thesis by (simp only:)
  qed
  note wrote = written_attachments(2) [OF wr new assms(1) ex this]
  note kept = written_attachments(1) [OF wr new]
  have all: "list_all2 (\<lambda>n a. na_media_type a = nn_media_type n \<and>
      read_node_attachment c t i (nn_namespace n) (nn_key n) = Inr (Some (a, nn_data n))) new attachments"
    by (rule list_all2_mono [OF conjunct1 [OF spec]])
      (use kept wrote in \<open>force simp: prepared_as_def\<close>)
  have "prepare_node_attachments c t i now' new = Inr (attachments, [])"
    unfolding prepare_node_attachments_def
    by (rule prepare_existing [OF all]) (use prepare_distinct [OF prep [unfolded prepare_node_attachments_def]] in auto)
  then have "record_node_attachments c V now' i new w' = (Inr attachments, w')"
    using write_node_attachments_frame(3) [OF wr, of i] ex w' assms(2)
    by (auto simp: record_node_attachments_def with_mutation_Inr result_simps write_node_attachments_def)
  then show ?thesis
    using all kept w'(1) write_node_attachments_frame(1,2) [OF wr] by blast
qed

section \<open>Facts about observations\<close>

lemma observe_paths_Cons:
  assumes "observe_paths c V w result outputs pinned (path # paths) = Inr pins"
    and "validate_project_path path = Inr path"
  obtains (known) "path \<in> set pinned \<or> path \<in> set outputs"
      "observe_paths c V w result outputs pinned paths = Inr pins"
  | (absent) "frozen_blob c V w result path = Inr None"
      "observe_paths c V w result outputs pinned paths = Inr pins"
  | (seen) b rest where "path \<notin> set pinned" "path \<notin> set outputs"
      "frozen_blob c V w result path = Inr (Some b)"
      "pins = \<lparr>cp_path = path, cp_identity = b, cp_observed = True\<rparr> # rest"
      "observe_paths c V w result outputs (path # pinned) paths = Inr rest"
proof (cases "path \<in> set pinned \<or> path \<in> set outputs")
  case True
  then show ?thesis using assms known by simp
next
  case False
  then obtain blob where blob: "frozen_blob c V w result path = Inr blob"
    using assms by (auto simp: result_simps parse_project_path_def)
  show ?thesis
    using assms False blob absent seen
    by (cases blob) (auto simp: result_simps parse_project_path_def)
qed

text \<open>For paths in normal form: what was observed, and that nothing was missed.\<close>

lemma observe_paths_spec:
  assumes "observe_paths c V w result outputs pinned paths = Inr pins"
    and "\<forall>p \<in> set paths. validate_project_path p = Inr p"
  shows "(\<forall>pin \<in> set pins. cp_observed pin \<and> cp_path pin \<in> set paths \<and> cp_path pin \<notin> set pinned \<and>
      cp_path pin \<notin> set outputs \<and> frozen_blob c V w result (cp_path pin) = Inr (Some (cp_identity pin))) \<and>
    distinct (map cp_path pins) \<and>
    (\<forall>p \<in> set paths. p \<in> set pinned \<or> p \<in> set outputs \<or> frozen_blob c V w result p = Inr None \<or>
      p \<in> cp_path ` set pins)"
  using assms
proof (induction paths arbitrary: pinned pins)
  case (Cons path paths)
  have "validate_project_path path = Inr path" using Cons.prems by simp
  with Cons.prems(1) show ?case
  proof (cases rule: observe_paths_Cons)
    case known
    then show ?thesis using Cons.IH [OF known(2)] Cons.prems(2) by auto
  next
    case absent
    then show ?thesis using Cons.IH [OF absent(2)] Cons.prems(2) by auto
  next
    case (seen b rest)
    then show ?thesis using Cons.IH [OF seen(5)] Cons.prems(2) by auto
  qed
qed simp

lemma observe_paths_none:
  assumes "\<forall>p \<in> set paths. validate_project_path p = Inr p"
    and "\<forall>p \<in> set paths. p \<in> set pinned \<or> p \<in> set outputs \<or> frozen_blob c V w result p = Inr None"
  shows "observe_paths c V w result outputs pinned paths = Inr []"
  using assms by (induction paths) (auto simp: parse_project_path_def)

text \<open>Observation files are named by their content, so a name determines the bytes under it.\<close>

definition content_addressed :: "codec \<Rightarrow> store \<Rightarrow> node_id \<Rightarrow> bool" where
  "content_addressed c s i \<longleftrightarrow> (\<forall>data f.
     map_of (nd_observations (node_dir_of s i)) (blob_id c data @ ''.toml'') = Some f \<longrightarrow> f = Bytes data)"

lemma update_absent: "k \<notin> fst ` set xs \<Longrightarrow> AList.update k v xs = xs @ [(k, v)]"
  by (induction xs) auto

lemma read_observations_after:
  assumes "codec_faithful c" and "content_addressed c s i" and "co_schema ob = OBSERVATION_SCHEMA"
    and "write_context_observation c i ob s = (Inr (), t)"
    and "read_context_observations c s i = Inr obs"
  shows "\<exists>obs'. read_context_observations c t i = Inr obs' \<and> set obs' = insert ob (set obs)"
proof -
  let ?old = "nd_observations (node_dir_of s i)"
  obtain data where data: "observation_to_toml c ob = Some data"
    using assms(3,4) by (auto simp: write_context_observation_def split: option.splits)
  let ?name = "blob_id c data @ ''.toml''"
  have parse: "read_observation_file c (?name, Bytes data) = Inr ob"
    using assms(1,3) data
    by (simp add: read_observation_file_def read_text_def utf8_text_def parse_with_def codec_faithful_def)
  show ?thesis
  proof (cases "map_of ?old ?name")
    case None
    then have "nd_observations (node_dir_of t i) = ?old @ [(?name, Bytes data)]"
      using assms(3,4) data None update_absent [of ?name ?old]
      by (auto simp: write_context_observation_def Let_def map_of_eq_None_iff)
    then have "read_context_observations c t i = Inr (obs @ [ob])"
      using assms(5) parse by (simp add: read_context_observations_def collect_append)
    then show ?thesis by auto
  next
    case (Some f)
    then have "f = Bytes data" using assms(2) by (simp add: content_addressed_def)
    then have "(?name, Bytes data) \<in> set ?old" using Some by (auto dest: map_of_SomeD)
    then have "ob \<in> set obs"
      using assms(5) parse by (force simp: read_context_observations_def collect_Inr_iff list_all2_conv_all_nth in_set_conv_nth)
    moreover have "node_dir_of t i = node_dir_of s i"
      using assms(3,4) data Some by (auto simp: write_context_observation_def Let_def)
    ultimately show ?thesis using assms(5) by (auto simp: read_context_observations_def)
  qed
qed

lemma write_context_observation_frame [frame_simps]:
  assumes "write_context_observation c i ob s = (r, t)"
  shows "load_definition c t j = load_definition c s j" "load_result c t j = load_result c s j"
    "exists_node t j = exists_node s j" "store_candidates t = store_candidates s"
    "store_pairing t = store_pairing s" "store_root t = store_root s"
proof -
  have "nd_node (node_dir_of t j) = nd_node (node_dir_of s j)"
    "nd_description (node_dir_of t j) = nd_description (node_dir_of s j)"
    "nd_result (node_dir_of t j) = nd_result (node_dir_of s j)"
    "nd_notes (node_dir_of t j) = nd_notes (node_dir_of s j)"
    using assms by (auto simp: write_context_observation_def Let_def split: if_splits option.splits)
  then show "load_definition c t j = load_definition c s j" "load_result c t j = load_result c s j"
    "exists_node t j = exists_node s j"
    by (auto intro: load_definition_cong load_result_cong simp: exists_node_def)
  show "store_candidates t = store_candidates s" "store_pairing t = store_pairing s" "store_root t = store_root s"
    using assms by (auto simp: write_context_observation_def Let_def split: if_splits option.splits)
qed

lemma list_ids_cong:
  "map fst (store_nodes s) = map fst (store_nodes t) \<Longrightarrow> list_ids s = list_ids t"
  by (simp add: list_ids_def)

lemma keys_put_dir:
  "i \<in> set (map fst (store_nodes s)) \<Longrightarrow> map fst (store_nodes (put_dir i d s)) = map fst (store_nodes s)"
  by (simp add: put_dir_def update_keys)

lemma list_ids_put_dir: "exists_node s i \<Longrightarrow> list_ids (put_dir i d s) = list_ids s"
  by (intro list_ids_cong keys_put_dir exists_node_dom)

lemma read_result_cong: "load_result c s i = load_result c t i \<Longrightarrow> read_result c s i = read_result c t i"
  by (simp add: read_result_def)

lemma outputs_scan_cong:
  assumes "\<And>j. load_result c (wb_store w) j = load_result c (wb_store w') j"
    and "\<And>j. exists_node (wb_store w) j = exists_node (wb_store w') j" and "wb_vcs w = wb_vcs w'"
  shows "outputs_scan c V w ids = outputs_scan c V w' ids"
proof -
  have "output_of c (wb_store w) j = output_of c (wb_store w') j" for j
    using assms(1,2) [of j] read_result_cong [OF assms(1) [of j]] by (simp add: output_of_def)
  note outputs = this
  show ?thesis
  proof (induction ids)
    case (Cons a ids)
    show ?case unfolding outputs_scan.simps outputs [of a] Cons assms(3) ..
  qed simp
qed

lemma known_paths_insert:
  assumes "set obs' = insert ob (set obs)" and "co_result ob = expected"
  shows "set (known_paths result expected obs') =
    set (known_paths result expected obs) \<union> cp_path ` set (co_context ob)"
  using assms by (auto simp: known_paths_def)

lemma observed_context_Inr:
  "observed_context c V w i expected paths = Inr pins \<longleftrightarrow>
     (\<exists>l ids outputs observations. load_result c (wb_store w) i = Inr (Some l) \<and>
        lr_version l = expected \<and> list_ids (wb_store w) = Inr ids \<and>
        outputs_scan c V w ids = Inr outputs \<and>
        read_context_observations c (wb_store w) i = Inr observations \<and>
        observe_paths c V w (lr_meta l) outputs (known_paths (lr_meta l) expected observations) paths = Inr pins)"
  by (cases rule: read_result_cases [of c "wb_store w" i])
    (auto simp: observed_context_def result_version_def result_simps split: if_splits)

definition new_sample :: new_node_attachment where
  "new_sample = \<lparr>nn_namespace = ''n'', nn_key = ''k'', nn_media_type = None, nn_data = ''ab''\<rparr>"

definition observed_pin :: context_pin where
  "observed_pin = \<lparr>cp_path = ''f.txt'', cp_identity = ''h'', cp_observed = True\<rparr>"

definition evidence_codec :: codec where
  "evidence_codec = table_codec [meta_a, meta_b, meta_p, meta_q] [result_a, result_b] [sample_attachment]
     [\<lparr>co_schema = 1, co_result = result_version_a, co_context = [observed_pin]\<rparr>] [] []"

definition evidence_wb :: "fake_vcs workbench" where
  "evidence_wb = sample_wb\<lparr>wb_vcs := sample_vcs\<lparr>fk_revision_blobs := [((''c0'', ''f.txt''), ''h'')]\<rparr>\<rparr>"

theorem attachments_immutable_and_retryable_witness:
  "\<exists>w'. record_node_attachments evidence_codec fake_ops 42 ''a'' [new_sample] evidence_wb =
       (Inr [sample_attachment], w') \<and>
     record_node_attachments evidence_codec fake_ops 99 ''a'' [new_sample] w' = (Inr [sample_attachment], w')"
proof -
  let ?run = "record_node_attachments evidence_codec fake_ops 42 ''a'' [new_sample] evidence_wb"
  have "fst ?run = Inr [sample_attachment]" by code_simp
  then have run: "?run = (Inr [sample_attachment], snd ?run)" by (metis prod.collapse)
  have c: "codec_faithful evidence_codec" by (simp add: evidence_codec_def table_codec_faithful)
  show ?thesis using attachments_immutable_and_retryable [OF c _ run] run by fastforce
qed

text \<open>
  Observations. What is recorded for a result was discovered after the execution but is the
  content the result ran against: each new pin is marked as observed, names one of the paths
  offered, was not pinned before and is no node's output, and its identity is the one of the
  result's frozen project revision (of the working tree when there is none). No path is pinned
  twice, and observing the same paths again finds nothing to add. No definition or result moves.
\<close>

theorem observation_is_frozen_and_idempotent:
  assumes "codec_faithful c" and "content_addressed c (wb_store w) i" and "exists_node (wb_store w) i"
    and "\<forall>p \<in> set paths. validate_project_path p = Inr p"
    and "observed_context c V w i expected paths = Inr pins"
    and "record_context_observation_locked c V i expected paths w = (Inr n, w')"
  shows "n = length pins \<and> distinct (map cp_path pins) \<and>
    (\<exists>l. load_result c (wb_store w) i = Inr (Some l) \<and> lr_version l = expected \<and>
      (\<forall>pin \<in> set pins. cp_observed pin \<and> cp_path pin \<in> set paths \<and>
         cp_path pin \<notin> cp_path ` set (rm_context (lr_meta l)) \<and>
         frozen_blob c V w (lr_meta l) (cp_path pin) = Inr (Some (cp_identity pin)))) \<and>
    observed_context c V w' i expected paths = Inr [] \<and>
    (\<forall>j. load_definition c (wb_store w') j = load_definition c (wb_store w) j \<and>
      load_result c (wb_store w') j = load_result c (wb_store w) j)"
proof -
  obtain l ids outputs observations where l: "load_result c (wb_store w) i = Inr (Some l)"
    "lr_version l = expected" and ids: "list_ids (wb_store w) = Inr ids"
    and outputs: "outputs_scan c V w ids = Inr outputs"
    and obs: "read_context_observations c (wb_store w) i = Inr observations"
    and pins: "observe_paths c V w (lr_meta l) outputs (known_paths (lr_meta l) expected observations) paths = Inr pins"
    using assms(5) by (auto simp: observed_context_Inr)
  note spec = observe_paths_spec [OF pins assms(4)]
  let ?ob = "\<lparr>co_schema = OBSERVATION_SCHEMA, co_result = expected, co_context = pins\<rparr>"
  have run: "pins = [] \<and> w' = w \<or> pins \<noteq> [] \<and>
      (\<exists>t. write_context_observation c i ?ob (wb_store w) = (Inr (), t) \<and> w' = w\<lparr>wb_store := t\<rparr>)"
    and n: "n = length pins"
    using assms(5,6) by (auto simp: record_context_observation_locked_def result_simps split: if_splits)
  have again: "observed_context c V w' i expected paths = Inr [] \<and>
    (\<forall>j. load_definition c (wb_store w') j = load_definition c (wb_store w) j \<and>
      load_result c (wb_store w') j = load_result c (wb_store w) j)"
    using run
  proof
    assume "pins \<noteq> [] \<and>
      (\<exists>t. write_context_observation c i ?ob (wb_store w) = (Inr (), t) \<and> w' = w\<lparr>wb_store := t\<rparr>)"
    then obtain t where t: "write_context_observation c i ?ob (wb_store w) = (Inr (), t)"
      and w': "w' = w\<lparr>wb_store := t\<rparr>" by blast
    note frame = write_context_observation_frame [OF t]
    obtain obs' where obs': "read_context_observations c t i = Inr obs'"
      "set obs' = insert ?ob (set observations)"
      using read_observations_after [OF assms(1,2) _ t obs] by auto
    have ids': "list_ids t = Inr ids"
      using t ids list_ids_put_dir [OF assms(3)]
      by (auto simp: write_context_observation_def Let_def split: if_splits option.splits)
    have outputs': "outputs_scan c V w' ids = Inr outputs"
      using outputs outputs_scan_cong [of c w w' V ids] frame by (simp add: w')
    have blob: "frozen_blob c V w' result path = frozen_blob c V w result path" for result path
      by (simp add: frozen_blob_def w' project_file_blob_def)
    have known: "set (known_paths (lr_meta l) expected obs') = set (known_paths (lr_meta l) expected observations) \<union> cp_path ` set pins"
      using known_paths_insert [OF obs'(2), of expected "lr_meta l"] by simp
    have "observe_paths c V w' (lr_meta l) outputs (known_paths (lr_meta l) expected obs') paths = Inr []"
    proof (rule observe_paths_none [OF assms(4)], rule ballI)
      fix path
      assume "path \<in> set paths"
      then have "path \<in> set (known_paths (lr_meta l) expected observations) \<or> path \<in> set outputs \<or>
          frozen_blob c V w (lr_meta l) path = Inr None \<or> path \<in> cp_path ` set pins"
        using spec by blast
      then show "path \<in> set (known_paths (lr_meta l) expected obs') \<or> path \<in> set outputs \<or>
          frozen_blob c V w' (lr_meta l) path = Inr None"
        unfolding known blob by blast
    qed
    then have "observed_context c V w' i expected paths = Inr []"
      using l frame(2) [of i] ids' outputs' obs'(1) by (simp add: observed_context_Inr w')
    then show ?thesis using frame by (simp add: w')
  qed (use assms(5) in simp)
  have pinned: "cp_path pin \<notin> cp_path ` set (rm_context (lr_meta l))" if "pin \<in> set pins" for pin
    using spec that by (auto simp: known_paths_def)
  show ?thesis
  proof (intro conjI exI [of _ l] ballI)
    fix pin
    assume pin: "pin \<in> set pins"
    show "cp_path pin \<notin> cp_path ` set (rm_context (lr_meta l))" using pinned [OF pin] .
    show "cp_observed pin" "cp_path pin \<in> set paths"
      "frozen_blob c V w (lr_meta l) (cp_path pin) = Inr (Some (cp_identity pin))"
      using spec pin by blast+
  qed (use n spec l again in blast)+
qed

theorem observation_is_frozen_and_idempotent_witness:
  "\<exists>w'. record_context_observation_locked evidence_codec fake_ops ''a'' result_version_a [''f.txt''] evidence_wb =
       (Inr 1, w') \<and>
     observed_context evidence_codec fake_ops w' ''a'' result_version_a [''f.txt''] = Inr []"
proof -
  let ?run = "record_context_observation_locked evidence_codec fake_ops ''a'' result_version_a [''f.txt''] evidence_wb"
  have "fst ?run = Inr 1" by code_simp
  then have run: "?run = (Inr 1, snd ?run)" by (metis prod.collapse)
  have c: "codec_faithful evidence_codec" by (simp add: evidence_codec_def table_codec_faithful)
  have a: "content_addressed evidence_codec (wb_store evidence_wb) ''a''"
    by (simp add: content_addressed_def evidence_wb_def sample_wb_def sample_store_def node_dir_of_def
        dir_of_def empty_dir_def)
  have e: "exists_node (wb_store evidence_wb) ''a''" by code_simp
  have p: "\<forall>p \<in> set [''f.txt'']. validate_project_path p = Inr p" by code_simp
  have o: "observed_context evidence_codec fake_ops evidence_wb ''a'' result_version_a [''f.txt''] =
      Inr [observed_pin]" by code_simp
  show ?thesis using observation_is_frozen_and_idempotent [OF c a e p o run] run by blast
qed

end
