(* ===== verification/Linka_Candidate.thy ===== *)
theory Linka_Candidate
  imports Linka_State_Spec
begin

text \<open>
  Candidates (\<open>linka/src/candidate/operations.rs\<close>): registration against an exact result, the
  decision a verification prepares, the read-only \<open>accept\<close> and \<open>reject\<close>, and publication by
  fast-forward. The clock reading and the ULID of a new candidate are arguments.
\<close>

section \<open>Validation\<close>

definition validate_branch_name :: "string \<Rightarrow> unit res" where
  "validate_branch_name branch =
     (if branch = [] \<or> prefix ''refs/'' branch \<or> contains_str branch ''..'' \<or>
         CHR '' '' \<in> set branch \<or> has_control branch
      then bail ''invalid branch name `{}`'' [branch] else Inr ())"

definition validate_external :: "external_identity option \<Rightarrow> unit res" where
  "validate_external external =
     (case external of
        None \<Rightarrow> Inr ()
      | Some e \<Rightarrow>
          if trim (ei_namespace e) = [] \<or> trim (ei_id e) = []
          then bail ''external candidate identity needs a namespace and id'' [] else Inr ())"

section \<open>Decisions\<close>

definition require_current ::
  "codec \<Rightarrow> 'v vcs \<Rightarrow> 'v workbench \<Rightarrow> candidate_record \<Rightarrow> integration_status \<Rightarrow> unit res" where
  "require_current c V w candidate expected =
     and_then (read_result c (wb_store w) (cr_node candidate)) (\<lambda>found.
     case found of
       None \<Rightarrow> bail ''candidate `{}` source result disappeared'' [cr_id candidate]
     | Some (result, _) \<Rightarrow>
         and_then (result_version c (wb_store w) (cr_node candidate)) (\<lambda>version.
         if version \<noteq> cr_result candidate \<or> rm_output result \<noteq> Some (cr_artifact candidate)
         then bail ''candidate `{}` is no longer the current result for node `{}`''
                [cr_id candidate, cr_node candidate]
         else
         and_then (node_state c V w (cr_node candidate)) (\<lambda>state.
         if st_integration state \<noteq> expected \<or> st_currency state \<noteq> Current
         then bail ''candidate `{}` is not the current {} candidate for node `{}`''
                [cr_id candidate, cr_node candidate]
         else Inr ())))"

definition decided_state ::
  "'v vcs \<Rightarrow> 'v \<Rightarrow> int \<Rightarrow> candidate_record \<Rightarrow> node_id \<Rightarrow> verification_outcome \<Rightarrow> author \<Rightarrow> string \<Rightarrow>
   candidate_state res" where
  "decided_state V v now candidate verification outcome author notes =
     (case outcome of
        VAccepted \<Rightarrow>
          and_then (v_ref_commit V v (branch_ref (cr_target candidate))) (\<lambda>found.
          and_then (ok_or (Bail ''target branch `{}` does not exist'' [cr_target candidate]) found) (\<lambda>previous.
          Inr (Accepted now author notes verification previous)))
      | VRejected \<Rightarrow> Inr (Rejected now author notes verification)
      | VAbandoned \<Rightarrow> bail ''an abandoned verification cannot decide candidate `{}`'' [cr_id candidate])"

definition require_exact_candidate_pin ::
  "candidate_record \<Rightarrow> node_id \<Rightarrow> result_meta \<Rightarrow> verification_outcome \<Rightarrow> unit res" where
  "require_exact_candidate_pin candidate verification result expected =
     (if rm_outcome result \<noteq> Verification expected
      then bail ''verification `{}` is {}, not {}''
             [verification, result_outcome_as_str (rm_outcome result), verification_as_str expected]
      else
      and_then (ok_or (Bail ''verification `{}` does not pin candidate source `{}`''
                         [verification, cr_node candidate])
                 (find (\<lambda>pin. cn_id pin = cr_node candidate) (rm_consumed result))) (\<lambda>source_pin.
      if cn_result source_pin \<noteq> Some (cr_result candidate) \<or>
         cn_output source_pin \<noteq> Some (cr_artifact candidate)
      then bail ''verification `{}` did not review the exact candidate artifact'' [verification]
      else Inr ()))"

definition deciding_outcome :: "candidate_id \<Rightarrow> result_outcome \<Rightarrow> verification_outcome res" where
  "deciding_outcome i outcome =
     (case outcome of
        Verification VAccepted \<Rightarrow> Inr VAccepted
      | Verification VRejected \<Rightarrow> Inr VRejected
      | Verification VAbandoned \<Rightarrow> bail ''an abandoned verification cannot decide candidate `{}`'' [i]
      | Work _ \<Rightarrow> bail ''a work result cannot decide candidate `{}`'' [i])"

definition prepare_verification_decision ::
  "codec \<Rightarrow> 'v vcs \<Rightarrow> 'v workbench \<Rightarrow> int \<Rightarrow> candidate_id \<Rightarrow> node_id \<Rightarrow> result_meta \<Rightarrow> author \<Rightarrow>
   string \<Rightarrow> candidate_record res" where
  "prepare_verification_decision c V w now i verification result author notes =
     and_then (deciding_outcome i (rm_outcome result)) (\<lambda>outcome.
     if outcome = VRejected \<and> trim notes = []
     then bail ''rejected verification requires notes'' []
     else
     and_then (candidate_load c (wb_store w) i) (\<lambda>candidate.
     if cr_state candidate \<noteq> Pending then bail ''candidate `{}` already has a decision'' [i]
     else
     and_then (require_current c V w candidate PendingIntegration) (\<lambda>_.
     and_then (require_exact_candidate_pin candidate verification result outcome) (\<lambda>_.
     and_then (decided_state V (wb_vcs w) now candidate verification outcome author notes) (\<lambda>state.
     Inr (candidate\<lparr>cr_state := state\<rparr>))))))"

definition candidate_accept ::
  "codec \<Rightarrow> store \<Rightarrow> candidate_id \<Rightarrow> node_id \<Rightarrow> candidate_record res" where
  "candidate_accept c s i verification =
     and_then (candidate_load c s i) (\<lambda>candidate.
     case cr_state candidate of
       Accepted _ _ _ existing _ \<Rightarrow>
         if existing = verification then Inr candidate
         else bail ''candidate `{}` was accepted by a different verification'' [i]
     | Rejected _ _ _ _ \<Rightarrow> bail ''candidate `{}` was already rejected'' [i]
     | Pending \<Rightarrow>
         bail ''candidate `{}` is pending; submit an accepted verification to decide it'' [i])"

definition candidate_reject ::
  "codec \<Rightarrow> store \<Rightarrow> candidate_id \<Rightarrow> node_id \<Rightarrow> string \<Rightarrow> candidate_record res" where
  "candidate_reject c s i verification notes =
     (if trim notes = [] then bail ''rejection requires notes'' []
      else
      and_then (candidate_load c s i) (\<lambda>candidate.
      case cr_state candidate of
        Rejected _ _ existing_notes existing \<Rightarrow>
          if existing_notes = notes \<and> existing = verification then Inr candidate
          else bail ''candidate `{}` already has a different decision'' [i]
      | Pending \<Rightarrow>
          bail ''candidate `{}` is pending; submit a rejected verification to decide it'' [i]
      | Accepted _ _ _ _ _ \<Rightarrow> bail ''candidate `{}` already has a different decision'' [i]))"

section \<open>Registration\<close>

text \<open>What registering would do, before anything is written: the record that exists already, or
  the new one.\<close>

definition registered_external ::
  "codec \<Rightarrow> store \<Rightarrow> new_candidate \<Rightarrow> candidate_record option res" where
  "registered_external c s new =
     (case nc_external new of
        None \<Rightarrow> Inr None
      | Some external \<Rightarrow>
          and_then (by_external c s external) (\<lambda>found.
          case found of
            None \<Rightarrow> Inr None
          | Some existing \<Rightarrow>
              if cr_node existing \<noteq> nc_node new \<or> cr_branch existing \<noteq> nc_branch new \<or>
                 cr_target existing \<noteq> nc_target new
              then bail ''external candidate identity `{}/{}` is already attached to different facts''
                     [ei_namespace external, ei_id external]
              else Inr (Some existing)))"

definition registered_result ::
  "codec \<Rightarrow> store \<Rightarrow> string \<Rightarrow> new_candidate \<Rightarrow> (candidate_record + candidate_record) res" where
  "registered_result c s ulid new =
     and_then (load_result c s (nc_node new)) (\<lambda>loaded.
     and_then (ok_or (Bail ''node `{}` has no successful result to register'' [nc_node new]) loaded) (\<lambda>result.
     if rm_outcome (lr_meta result) \<noteq> Work Done
     then bail ''node `{}` does not have a successful result'' [nc_node new]
     else
     and_then (ok_or (Bail ''node `{}` result has no project output'' [nc_node new])
       (rm_output (lr_meta result))) (\<lambda>artifact.
     and_then (candidate_for_version c s (nc_node new) (lr_version result) artifact) (\<lambda>found.
     case found of
       Some existing \<Rightarrow>
         if cr_branch existing = nc_branch new \<and> cr_target existing = nc_target new \<and>
            cr_external existing = nc_external new
         then Inr (Inl existing)
         else bail ''node `{}` result already has candidate `{}` with different facts''
                [nc_node new, cr_id existing]
     | None \<Rightarrow>
         Inr (Inr \<lparr>cr_schema = CANDIDATE_SCHEMA, cr_id = new_candidate_id ulid, cr_node = nc_node new,
                   cr_result = lr_version result, cr_artifact = artifact, cr_branch = nc_branch new,
                   cr_target = nc_target new, cr_external = nc_external new, cr_state = Pending\<rparr>)))))"

definition registration ::
  "codec \<Rightarrow> store \<Rightarrow> string \<Rightarrow> new_candidate \<Rightarrow> (candidate_record + candidate_record) res" where
  "registration c s ulid new =
     and_then (validate_external (nc_external new)) (\<lambda>_.
     and_then (validate_branch_name (nc_branch new)) (\<lambda>_.
     and_then (validate_branch_name (nc_target new)) (\<lambda>_.
     and_then (registered_external c s new) (\<lambda>known.
     case known of
       Some existing \<Rightarrow> Inr (Inl existing)
     | None \<Rightarrow> registered_result c s ulid new))))"

definition register_locked ::
  "codec \<Rightarrow> string \<Rightarrow> new_candidate \<Rightarrow> (store, error, candidate_record) st_op" where
  "register_locked c ulid new =
     st_then (st_read (\<lambda>s. registration c s ulid new)) (\<lambda>r.
     case r of
       Inl existing \<Rightarrow> st_return existing
     | Inr candidate \<Rightarrow> st_then (write_candidate c candidate) (\<lambda>_. st_return candidate))"

definition register ::
  "codec \<Rightarrow> 'v vcs \<Rightarrow> string \<Rightarrow> new_candidate \<Rightarrow> ('v, candidate_record) wb_op" where
  "register c V ulid new =
     with_mutation V
       (st_then (on_store (register_locked c ulid new)) (\<lambda>candidate.
        st_then (mutation_commit V (''linka: register candidate '' @ cr_id candidate)) (\<lambda>_.
        st_return candidate)))"

section \<open>Publication\<close>

definition publish_checks ::
  "codec \<Rightarrow> 'v vcs \<Rightarrow> 'v workbench \<Rightarrow> candidate_id \<Rightarrow> (candidate_record \<times> string) option res" where
  "publish_checks c V w i =
     and_then (candidate_load c (wb_store w) i) (\<lambda>candidate.
     case cr_state candidate of
       Accepted _ _ _ _ previous \<Rightarrow>
         and_then (integration V (wb_vcs w) candidate) (\<lambda>status.
         if status = Published then Inr None
         else and_then (require_current c V w candidate AcceptedIntegration) (\<lambda>_.
              Inr (Some (candidate, previous))))
     | _ \<Rightarrow> bail ''candidate `{}` has not been accepted'' [i])"

definition publish :: "codec \<Rightarrow> 'v vcs \<Rightarrow> candidate_id \<Rightarrow> ('v, unit) wb_op" where
  "publish c V i =
     st_then (st_read (\<lambda>w. publish_checks c V w i)) (\<lambda>todo.
     case todo of
       None \<Rightarrow> st_return ()
     | Some (candidate, previous) \<Rightarrow>
         st_then (on_vcs (\<lambda>v. v_publish_fast_forward V v (branch_ref (cr_target candidate)) previous
                    (ar_id (cr_artifact candidate)))) (\<lambda>moved.
         if moved then st_return ()
         else st_fail (Bail ''candidate `{}` cannot fast-forward its target branch'' [i])))"

section \<open>Facts\<close>

lemma require_current_Inr:
  "require_current c V w candidate expected = Inr u \<longleftrightarrow>
     (\<exists>l state. load_result c (wb_store w) (cr_node candidate) = Inr (Some l) \<and>
        lr_version l = cr_result candidate \<and> rm_output (lr_meta l) = Some (cr_artifact candidate) \<and>
        node_state c V w (cr_node candidate) = Inr state \<and>
        st_integration state = expected \<and> st_currency state = Current)"
  by (cases "load_result c (wb_store w) (cr_node candidate)")
    (auto simp: require_current_def read_result_def result_version_def result_simps
      split: if_splits option.splits)

lemma require_exact_candidate_pin_Inr:
  assumes "require_exact_candidate_pin candidate verification result expected = Inr u"
  shows "rm_outcome result = Verification expected \<and>
    (\<exists>pin \<in> set (rm_consumed result). cn_id pin = cr_node candidate \<and>
       cn_result pin = Some (cr_result candidate) \<and> cn_output pin = Some (cr_artifact candidate))"
  using assms
  by (auto simp: require_exact_candidate_pin_def result_simps find_Some_iff split: if_splits)

lemma decided_state_Inr:
  assumes "decided_state V v now candidate verification outcome author notes = Inr state"
  shows "(outcome = VAccepted \<and> (\<exists>previous.
      v_ref_commit V v (branch_ref (cr_target candidate)) = Inr (Some previous) \<and>
      state = Accepted now author notes verification previous)) \<or>
    (outcome = VRejected \<and> state = Rejected now author notes verification)"
  using assms by (cases outcome) (auto simp: decided_state_def result_simps)

lemma prepare_decision_Inr:
  assumes "prepare_verification_decision c V w now i verification result author notes = Inr r"
  obtains candidate outcome where
    "candidate_load c (wb_store w) i = Inr candidate" "cr_state candidate = Pending"
    "rm_outcome result = Verification outcome" "outcome = VRejected \<longrightarrow> trim notes \<noteq> []"
    "require_current c V w candidate PendingIntegration = Inr ()"
    "require_exact_candidate_pin candidate verification result outcome = Inr ()"
    "decided_state V (wb_vcs w) now candidate verification outcome author notes = Inr (cr_state r)"
    "r = candidate\<lparr>cr_state := cr_state r\<rparr>"
proof -
  obtain outcome candidate state where
    o: "deciding_outcome i (rm_outcome result) = Inr outcome" "\<not> (outcome = VRejected \<and> trim notes = [])"
    and load: "candidate_load c (wb_store w) i = Inr candidate" "cr_state candidate = Pending"
    and checks: "require_current c V w candidate PendingIntegration = Inr ()"
      "require_exact_candidate_pin candidate verification result outcome = Inr ()"
      "decided_state V (wb_vcs w) now candidate verification outcome author notes = Inr state"
    and r: "r = candidate\<lparr>cr_state := state\<rparr>"
    using assms unfolding prepare_verification_decision_def
    by (auto simp: result_simps split: if_splits)
  have "rm_outcome result = Verification outcome"
    using o(1) by (auto simp: deciding_outcome_def split: result_outcome.splits verification_outcome.splits)
  then show ?thesis using that [OF load] o(2) checks r by simp
qed

lemma publish_checks_Inr:
  assumes "publish_checks c V w i = Inr todo"
  obtains candidate at by_whom why verification previous status where
    "candidate_load c (wb_store w) i = Inr candidate"
    "cr_state candidate = Accepted at by_whom why verification previous"
    "integration V (wb_vcs w) candidate = Inr status"
    "status = Published \<and> todo = None \<or> status \<noteq> Published \<and> todo = Some (candidate, previous) \<and>
       require_current c V w candidate AcceptedIntegration = Inr ()"
proof -
  obtain candidate where load: "candidate_load c (wb_store w) i = Inr candidate"
    using assms by (auto simp: publish_checks_def result_simps)
  show ?thesis
  proof (cases "cr_state candidate")
    case (Accepted at by_whom why verification previous)
    then obtain status where status: "integration V (wb_vcs w) candidate = Inr status"
      using assms load by (auto simp: publish_checks_def result_simps)
    show ?thesis
      by (rule that [OF load Accepted status])
        (use assms load Accepted status in \<open>auto simp: publish_checks_def result_simps split: if_splits\<close>)
  qed (use assms load in \<open>simp_all add: publish_checks_def\<close>)
qed

section \<open>A concrete candidate\<close>

text \<open>Node \<open>a\<close> is done with the output \<open>c1\<close>, carried by a candidate for the branch
  \<open>main\<close>, which still is at \<open>c0\<close>; node \<open>v\<close> reviews it.\<close>

definition artifact_c1 :: artifact_ref where
  "artifact_c1 = \<lparr>ar_scheme = ''git-commit'', ar_repository = [], ar_id = ''c1''\<rparr>"

definition result_out :: result_meta where
  "result_out = result_a\<lparr>rm_output := Some artifact_c1\<rparr>"

definition cand :: candidate_record where
  "cand = \<lparr>cr_schema = 1, cr_id = ''candidate-1'', cr_node = ''a'', cr_result = result_version_a,
     cr_artifact = artifact_c1, cr_branch = ''attempt'', cr_target = ''main'', cr_external = None,
     cr_state = Pending\<rparr>"

definition cand_accepted :: candidate_record where
  "cand_accepted = cand\<lparr>cr_state := Accepted 7 Human [] ''v'' ''c0''\<rparr>"

definition meta_v :: node_meta where
  "meta_v = (plain_meta [])\<lparr>nm_derived_from := [''a''], nm_verifies := Some ''candidate-1''\<rparr>"

definition pin_out :: consumed_node where
  "pin_out = pin_a\<lparr>cn_output := Some artifact_c1\<rparr>"

definition result_v :: result_meta where
  "result_v = \<lparr>rm_schema = 1, rm_at = 7, rm_author = Human,
     rm_definition = \<lparr>dv_metadata = hash ''x'', dv_description = hash ''review''\<rparr>,
     rm_outcome = Verification VAccepted, rm_project = sample_project, rm_consumed = [pin_out],
     rm_context = [], rm_output = None, rm_producer = None\<rparr>"

definition cand_codec :: codec where
  "cand_codec = table_codec [meta_a, meta_v] [result_out, result_v] [] [] [cand, cand_accepted] []"

definition cand_wb :: "string \<Rightarrow> fake_vcs workbench" where
  "cand_wb text = \<lparr>wb_store = \<lparr>store_root = ''.linka'',
       store_nodes = [(''a'', dir_of [] ''do a'' (Bytes [])), (''v'', dir_of ''x'' ''review'' NotFound)],
       store_candidates = [(''candidate-1'', Bytes text)], store_pairing = NotFound\<rparr>,
     wb_vcs = sample_vcs\<lparr>fk_commits := [''c0'', ''c1''], fk_refs := [(''refs/heads/main'', ''c0'')]\<rparr>,
     wb_locked = False, wb_files = (\<lambda>_. PMissing)\<rparr>"

section \<open>Properties\<close>

text \<open>
  C32. A decision is made once, on exactly what was reviewed. When a verification prepares a
  decision, the candidate is still pending and is the current result of its node, current and
  awaiting integration; the verification's result pins the candidate's node with exactly the
  candidate's result and artifact; nothing but the state of the record changes; an acceptance
  remembers the commit the target branch has now, and a rejection has notes.
\<close>

theorem decision_is_exact:
  assumes "prepare_verification_decision c V w now i verification result author notes = Inr r"
  shows "\<exists>candidate. candidate_load c (wb_store w) i = Inr candidate \<and> cr_state candidate = Pending \<and>
    r = candidate\<lparr>cr_state := cr_state r\<rparr> \<and>
    (\<exists>l state. load_result c (wb_store w) (cr_node candidate) = Inr (Some l) \<and>
       lr_version l = cr_result candidate \<and> rm_output (lr_meta l) = Some (cr_artifact candidate) \<and>
       node_state c V w (cr_node candidate) = Inr state \<and> st_currency state = Current) \<and>
    (\<exists>pin \<in> set (rm_consumed result). cn_id pin = cr_node candidate \<and>
       cn_result pin = Some (cr_result candidate) \<and> cn_output pin = Some (cr_artifact candidate)) \<and>
    ((rm_outcome result = Verification VAccepted \<and> (\<exists>previous.
        v_ref_commit V (wb_vcs w) (branch_ref (cr_target candidate)) = Inr (Some previous) \<and>
        cr_state r = Accepted now author notes verification previous)) \<or>
     (rm_outcome result = Verification VRejected \<and> trim notes \<noteq> [] \<and>
        cr_state r = Rejected now author notes verification))"
  using assms
proof (rule prepare_decision_Inr)
  fix candidate outcome
  assume load: "candidate_load c (wb_store w) i = Inr candidate" "cr_state candidate = Pending"
    and oc: "rm_outcome result = Verification outcome" "outcome = VRejected \<longrightarrow> trim notes \<noteq> []"
    and cur: "require_current c V w candidate PendingIntegration = Inr ()"
    and pin: "require_exact_candidate_pin candidate verification result outcome = Inr ()"
    and dec: "decided_state V (wb_vcs w) now candidate verification outcome author notes = Inr (cr_state r)"
    and r: "r = candidate\<lparr>cr_state := cr_state r\<rparr>"
  show ?thesis
    using load r cur require_exact_candidate_pin_Inr [OF pin] decided_state_Inr [OF dec] oc
    by (intro exI [of _ candidate]) (auto simp: require_current_Inr)
qed

theorem decision_is_exact_witness:
  "\<exists>target. v_ref_commit fake_ops (wb_vcs (cand_wb [])) (branch_ref ''main'') = Inr (Some target) \<and>
     cr_state cand_accepted = Accepted 7 Human [] ''v'' target"
proof -
  have run: "prepare_verification_decision cand_codec fake_ops (cand_wb []) 7 ''candidate-1'' ''v''
      result_v Human [] = Inr cand_accepted" by code_simp
  have load: "candidate_load cand_codec (wb_store (cand_wb [])) ''candidate-1'' = Inr cand" by code_simp
  have "rm_outcome result_v = Verification VAccepted" "cr_target cand = ''main''" by code_simp+
  then show ?thesis using decision_is_exact [OF run] load by auto
qed

text \<open>
  Publication. Once \<open>publish\<close> returned, the accepted candidate's artifact is contained in
  its target branch, the derived integration status is published, the store was not touched, and
  publishing again succeeds and changes nothing: Git history is the only journal a retry needs.
  The backend is any that satisfies the contract of the \<open>Vcs\<close> trait.
\<close>

theorem publish_is_idempotent:
  assumes "vcs_contract V" and "publish c V i w = (Inr (), w')"
  shows "\<exists>candidate target. candidate_load c (wb_store w') i = Inr candidate \<and>
    v_ref_commit V (wb_vcs w') (branch_ref (cr_target candidate)) = Inr (Some target) \<and>
    v_is_ancestor V (wb_vcs w') (ar_id (cr_artifact candidate)) target = Inr True \<and>
    integration V (wb_vcs w') candidate = Inr Published \<and>
    wb_store w' = wb_store w \<and> publish c V i w' = (Inr (), w')"
proof -
  obtain candidate at by_whom why verification previous status where
    load: "candidate_load c (wb_store w) i = Inr candidate"
    and st: "cr_state candidate = Accepted at by_whom why verification previous"
    and int: "integration V (wb_vcs w) candidate = Inr status"
    and run: "status = Published \<and> w' = w \<or>
      (\<exists>v. v_publish_fast_forward V (wb_vcs w) (branch_ref (cr_target candidate)) previous
         (ar_id (cr_artifact candidate)) = (Inr True, v) \<and> w' = w\<lparr>wb_vcs := v\<rparr>)"
    using assms(2) unfolding publish_def
    by (auto simp: result_simps elim!: publish_checks_Inr split: if_splits)
  have store: "wb_store w' = wb_store w" using run by auto
  have "\<exists>target. v_ref_commit V (wb_vcs w') (branch_ref (cr_target candidate)) = Inr (Some target) \<and>
      v_is_ancestor V (wb_vcs w') (ar_id (cr_artifact candidate)) target = Inr True"
    using run
  proof
    assume "status = Published \<and> w' = w"
    then show ?thesis using int st
      by (auto simp: integration_def Let_def result_simps split: if_splits)
  next
    assume "\<exists>v. v_publish_fast_forward V (wb_vcs w) (branch_ref (cr_target candidate)) previous
         (ar_id (cr_artifact candidate)) = (Inr True, v) \<and> w' = w\<lparr>wb_vcs := v\<rparr>"
    then show ?thesis
      using vcs_contract.publish_moves [OF assms(1)] vcs_contract.ancestor_refl [OF assms(1)] by fastforce
  qed
  then obtain target where target: "v_ref_commit V (wb_vcs w') (branch_ref (cr_target candidate)) = Inr (Some target)"
      "v_is_ancestor V (wb_vcs w') (ar_id (cr_artifact candidate)) target = Inr True" by blast
  then have pub: "integration V (wb_vcs w') candidate = Inr Published"
    by (simp add: integration_def st Let_def)
  have "publish c V i w' = (Inr (), w')"
    using load st pub store
    by (simp add: publish_def publish_checks_def st_then_def st_read_def st_return_def)
  then show ?thesis using load store target pub by auto
qed

theorem publish_is_idempotent_witness:
  "\<exists>w. publish cand_codec fake_ops ''candidate-1'' (cand_wb ''x'') = (Inr (), w) \<and>
     publish cand_codec fake_ops ''candidate-1'' w = (Inr (), w) \<and>
     v_ref_commit fake_ops (wb_vcs w) ''refs/heads/main'' = Inr (Some ''c1'')"
proof -
  let ?w = "(cand_wb ''x'')\<lparr>wb_vcs := (wb_vcs (cand_wb ''x''))\<lparr>fk_refs := [(''refs/heads/main'', ''c1'')]\<rparr>\<rparr>"
  have checks: "publish_checks cand_codec fake_ops (cand_wb ''x'') ''candidate-1'' =
      Inr (Some (cand_accepted, ''c0''))" by code_simp
  have move: "fake_publish_fast_forward (wb_vcs (cand_wb ''x'')) ''refs/heads/main'' ''c0'' ''c1'' =
      (Inr True, wb_vcs ?w)" by (simp add: cand_wb_def fake_publish_fast_forward_def)
  have run: "publish cand_codec fake_ops ''candidate-1'' (cand_wb ''x'') = (Inr (), ?w)"
    using checks move
    by (simp add: publish_def st_then_def st_read_def st_return_def on_vcs_def fake_ops_def
        branch_ref_def cand_accepted_def cand_def artifact_c1_def)
  have "v_ref_commit fake_ops (wb_vcs ?w) ''refs/heads/main'' = Inr (Some ''c1'')"
    by (simp add: fake_ops_def)
  then show ?thesis
    using publish_is_idempotent [OF fake.vcs_contract_axioms run] run by blast
qed

end
