(* ===== verification/Linka_Submit.thy ===== *)
theory Linka_Submit
  imports Linka_Evidence Linka_Candidate
begin

text \<open>
  The snapshot and submission protocol (\<open>linka/src/ops/submit.rs\<close>). A submission is checked
  against the live graph under the mutation lock, every check and every preparation before the
  first write; \<open>submission_checks\<close> is that read-only part and \<open>submission_writes\<close> the writes,
  in the order of the code. The clock readings and the ULID a submission draws are a record of
  arguments.
\<close>

section \<open>Snapshots\<close>

definition frozen_revision :: "project_snapshot \<Rightarrow> string option" where
  "frozen_revision project = (if ps_revision project = [] then None else Some (ps_revision project))"

definition snapshot_work ::
  "codec \<Rightarrow> 'v vcs \<Rightarrow> 'v workbench \<Rightarrow> node_id \<Rightarrow> string list \<Rightarrow> work_snapshot res" where
  "snapshot_work c V w i context_paths =
     and_then (node_state c V w i) (\<lambda>state.
     if \<not> is_ready state then bail ''node `{}` is not ready'' [i]
     else
     and_then (load_definition c (wb_store w) i) (\<lambda>d.
     and_then (pin_node_list c (wb_store w) (nm_depends_on (ld_meta d))) (\<lambda>dependencies.
     and_then (pin_node_list c (wb_store w) (nm_derived_from (ld_meta d))) (\<lambda>lineage.
     and_then (current_project_snapshot c V w) (\<lambda>project.
     and_then (pin_context c V w (frozen_revision project) context_paths) (\<lambda>pins.
     and_then (current_result_version c (wb_store w) i) (\<lambda>previous.
     Inr \<lparr>ws_schema = SNAPSHOT_SCHEMA, ws_node = i, ws_definition = ld_version d,
          ws_dependencies = dependencies, ws_lineage = lineage, ws_context = pins,
          ws_project = project, ws_previous_result = previous\<rparr>)))))))"

section \<open>Errors\<close>

datatype submission_error = Conflict "submission_conflict list" | Evaluation error

definition st_map_err :: "('e \<Rightarrow> 'f) \<Rightarrow> ('s, 'e, 'a) st_op \<Rightarrow> ('s, 'f, 'a) st_op" where
  "st_map_err f m s = (case m s of (r, t) \<Rightarrow> (map_err f r, t))"

lemma st_map_err_Inr_iff [result_simps]: "st_map_err f m s = (Inr x, t) \<longleftrightarrow> m s = (Inr x, t)"
  by (auto simp: st_map_err_def result_simps split: prod.splits)

lemma st_map_err_Inl_iff [result_simps]:
  "st_map_err f m s = (Inl e, t) \<longleftrightarrow> (\<exists>d. m s = (Inl d, t) \<and> e = f d)"
  by (auto simp: st_map_err_def result_simps split: prod.splits)

type_synonym ('v, 'a) submit_op = "('v workbench, submission_error, 'a) st_op"

section \<open>The checks of a submission\<close>

record recorded_submission =
  rc_envelope :: submission_envelope
  rc_outcome :: result_outcome
  rc_output :: "artifact_ref option"

record readings =
  rd_result_at :: int
  rd_decided_at :: int
  rd_attached_at :: int
  rd_ulid :: string

abbreviation rc_snapshot :: "recorded_submission \<Rightarrow> work_snapshot" where
  "rc_snapshot sub \<equiv> se_snapshot (rc_envelope sub)"

definition submission_definition :: "codec \<Rightarrow> store \<Rightarrow> recorded_submission \<Rightarrow> loaded_definition res" where
  "submission_definition c s sub =
     (let snapshot = rc_snapshot sub; i = ws_node snapshot in
      if ws_schema snapshot \<noteq> SNAPSHOT_SCHEMA
      then bail ''work snapshot uses unsupported schema {}'' [show_nat (ws_schema snapshot)]
      else if (case rc_output sub of
                 None \<Rightarrow> False
               | Some output \<Rightarrow> ar_repository output \<noteq> ps_repository (ws_project snapshot))
      then bail ''output artifact belongs to a different project repository'' []
      else
      and_then (load_definition c s i) (\<lambda>d.
      if \<not> outcome_kind_matches (nm_verifies (ld_meta d) \<noteq> None) (rc_outcome sub)
      then Inl (if nm_verifies (ld_meta d) \<noteq> None then verification_requires_review_result i
                else ordinary_requires_work_result i)
      else Inr d))"

definition context_conflict ::
  "codec \<Rightarrow> 'v vcs \<Rightarrow> 'v workbench \<Rightarrow> string \<Rightarrow> context_pin \<Rightarrow> submission_conflict list res" where
  "context_conflict c V w revision pin =
     and_then (if revision = [] then project_file_blob c w (cp_path pin)
               else v_file_blob_at V (wb_vcs w) revision (cp_path pin)) (\<lambda>current.
     Inr (if current \<noteq> Some (cp_identity pin) then [ContextConflict (cp_path pin)] else []))"

definition project_conflict :: "string \<Rightarrow> recorded_submission \<Rightarrow> submission_conflict list" where
  "project_conflict revision sub =
     (let recorded = ps_revision (ws_project (rc_snapshot sub));
          expected = (case rc_output sub of None \<Rightarrow> recorded | Some output \<Rightarrow> ar_id output)
      in if recorded \<noteq> [] \<and> revision \<noteq> expected \<and> revision \<noteq> recorded then [ProjectConflict] else [])"

text \<open>The loop over the frozen dependencies: whether one of them is no longer evidence.\<close>

fun evidence_missing :: "codec \<Rightarrow> 'v vcs \<Rightarrow> 'v workbench \<Rightarrow> consumed_node list \<Rightarrow> bool res" where
  "evidence_missing c V w [] = Inr False"
| "evidence_missing c V w (dependency # rest) =
     and_then (node_state c V w (cn_id dependency)) (\<lambda>state.
     if \<not> is_complete state \<or>
        \<not> (case cn_outcome dependency of None \<Rightarrow> False | Some x \<Rightarrow> result_satisfies_dependency x) \<or>
        cn_result dependency = None
     then Inr True
     else evidence_missing c V w rest)"

definition submission_conflicts ::
  "codec \<Rightarrow> 'v vcs \<Rightarrow> 'v workbench \<Rightarrow> recorded_submission \<Rightarrow> loaded_definition \<Rightarrow>
   submission_conflict list res" where
  "submission_conflicts c V w sub d =
     (let snapshot = rc_snapshot sub; i = ws_node snapshot; s = wb_store w in
      and_then (pin_node_list c s (nm_depends_on (ld_meta d))) (\<lambda>dependencies.
      and_then (pin_node_list c s (nm_derived_from (ld_meta d))) (\<lambda>lineage.
      and_then (v_head_commit V (wb_vcs w)) (\<lambda>head.
      let revision = (case head of None \<Rightarrow> [] | Some h \<Rightarrow> h) in
      and_then (collect (context_conflict c V w revision) (ws_context snapshot)) (\<lambda>moved.
      and_then (node_state c V w i) (\<lambda>state.
      and_then (if outcome_requires_full_pins (rc_outcome sub)
                then evidence_missing c V w (ws_dependencies snapshot) else Inr False) (\<lambda>missing.
      and_then (current_result_version c s i) (\<lambda>previous.
      Inr ((if ld_version d \<noteq> ws_definition snapshot then [DefinitionConflict] else []) @
           (if dependencies \<noteq> ws_dependencies snapshot then [DependenciesConflict] else []) @
           (if lineage \<noteq> ws_lineage snapshot then [LineageConflict] else []) @
           concat moved @
           project_conflict revision sub @
           (if \<not> is_ready state \<or> missing then [ReadinessConflict] else []) @
           (if previous \<noteq> ws_previous_result snapshot then [PreviousResultConflict] else []))))))))))"

definition submission_result :: "readings \<Rightarrow> recorded_submission \<Rightarrow> result_meta" where
  "submission_result rd sub =
     (let snapshot = rc_snapshot sub in
      \<lparr>rm_schema = RESULT_SCHEMA, rm_at = rd_result_at rd, rm_author = se_author (rc_envelope sub),
       rm_definition = ws_definition snapshot, rm_outcome = rc_outcome sub,
       rm_project = ws_project snapshot, rm_consumed = ws_dependencies snapshot @ ws_lineage snapshot,
       rm_context = ws_context snapshot, rm_output = rc_output sub,
       rm_producer = se_producer (rc_envelope sub)\<rparr>)"

definition submission_decision ::
  "codec \<Rightarrow> 'v vcs \<Rightarrow> 'v workbench \<Rightarrow> readings \<Rightarrow> recorded_submission \<Rightarrow> node_meta \<Rightarrow>
   candidate_record option res" where
  "submission_decision c V w rd sub meta =
     (if rc_outcome sub = Verification VAccepted \<or> rc_outcome sub = Verification VRejected
      then and_then (ok_or (panic ''verification outcome was validated against node kind'')
             (nm_verifies meta)) (\<lambda>candidate.
           map_ok Some (prepare_verification_decision c V w (rd_decided_at rd) candidate
             (ws_node (rc_snapshot sub)) (submission_result rd sub) (se_author (rc_envelope sub))
             (se_notes (rc_envelope sub))))
      else Inr None)"

definition submission_checks ::
  "codec \<Rightarrow> 'v vcs \<Rightarrow> 'v workbench \<Rightarrow> readings \<Rightarrow> recorded_submission \<Rightarrow> new_node_attachment list \<Rightarrow>
   submission_error + (candidate_record option \<times> (node_attachment \<times> string) list)" where
  "submission_checks c V w rd sub attachments =
     and_then (map_err Evaluation (submission_definition c (wb_store w) sub)) (\<lambda>d.
     and_then (map_err Evaluation (submission_conflicts c V w sub d)) (\<lambda>conflicts.
     if conflicts \<noteq> [] then Inl (Conflict conflicts)
     else
     map_err Evaluation
       (and_then (submission_decision c V w rd sub (ld_meta d)) (\<lambda>decision.
        and_then (prepare_node_attachments c (wb_store w) (ws_node (rc_snapshot sub)) (rd_attached_at rd)
          attachments) (\<lambda>(_, pending). Inr (decision, pending))))))"

section \<open>The writes of a submission\<close>

definition submission_writes ::
  "codec \<Rightarrow> 'v vcs \<Rightarrow> readings \<Rightarrow> recorded_submission \<Rightarrow> new_candidate option \<Rightarrow> string list \<Rightarrow>
   candidate_record option \<Rightarrow> (node_attachment \<times> string) list \<Rightarrow> ('v, unit) wb_op" where
  "submission_writes c V rd sub candidate observed_paths decision pending =
     (let i = ws_node (rc_snapshot sub) in
      st_then (on_store (write_node_attachments c i pending)) (\<lambda>_.
      st_then (on_store (write_result c i (submission_result rd sub) (se_notes (rc_envelope sub)))) (\<lambda>_.
      st_then (case candidate of
                 None \<Rightarrow> st_return ()
               | Some new \<Rightarrow> st_then (on_store (register_locked c (rd_ulid rd) new)) (\<lambda>_. st_return ())) (\<lambda>_.
      st_then (case decision of
                 None \<Rightarrow> st_return ()
               | Some decided \<Rightarrow> on_store (write_candidate c decided)) (\<lambda>_.
      st_then (if observed_paths = [] then st_return ()
               else st_then (st_read (\<lambda>w. result_version c (wb_store w) i)) (\<lambda>version.
                    st_then (record_context_observation_locked c V i version observed_paths) (\<lambda>_.
                    st_return ()))) (\<lambda>_.
      mutation_commit V (''linka: result '' @ i)))))))"

definition submit_result_locked ::
  "codec \<Rightarrow> 'v vcs \<Rightarrow> readings \<Rightarrow> recorded_submission \<Rightarrow> new_node_attachment list \<Rightarrow>
   new_candidate option \<Rightarrow> string list \<Rightarrow> ('v, unit) submit_op" where
  "submit_result_locked c V rd sub attachments candidate observed_paths =
     st_then (st_read (\<lambda>w. submission_checks c V w rd sub attachments)) (\<lambda>(decision, pending).
     st_map_err Evaluation (submission_writes c V rd sub candidate observed_paths decision pending))"

section \<open>The entry points\<close>

text \<open>What the three entry points share: the lock, then the checked writes.\<close>

definition submit ::
  "codec \<Rightarrow> 'v vcs \<Rightarrow> readings \<Rightarrow> recorded_submission \<Rightarrow> new_node_attachment list \<Rightarrow>
   new_candidate option \<Rightarrow> string list \<Rightarrow> ('v, unit) submit_op" where
  "submit c V rd sub attachments candidate observed_paths =
     with_mutation_as Evaluation V (submit_result_locked c V rd sub attachments candidate observed_paths)"

definition recorded_result :: "result_submission \<Rightarrow> recorded_submission" where
  "recorded_result submission =
     \<lparr>rc_envelope = result_envelope submission, rc_outcome = Work (rs_outcome submission),
      rc_output = rs_output submission\<rparr>"

definition recorded_verification :: "verification_submission \<Rightarrow> recorded_submission" where
  "recorded_verification submission =
     \<lparr>rc_envelope = verification_envelope submission, rc_outcome = Verification (vs_outcome submission),
      rc_output = None\<rparr>"

definition submit_result_with_attachments ::
  "codec \<Rightarrow> 'v vcs \<Rightarrow> readings \<Rightarrow> result_submission \<Rightarrow> new_node_attachment list \<Rightarrow> ('v, unit) submit_op" where
  "submit_result_with_attachments c V rd submission attachments =
     submit c V rd (recorded_result submission) attachments None []"

definition submit_result :: "codec \<Rightarrow> 'v vcs \<Rightarrow> readings \<Rightarrow> result_submission \<Rightarrow> ('v, unit) submit_op" where
  "submit_result c V rd submission = submit_result_with_attachments c V rd submission []"

definition submit_result_with_candidate ::
  "codec \<Rightarrow> 'v vcs \<Rightarrow> readings \<Rightarrow> result_submission \<Rightarrow> new_candidate \<Rightarrow> new_node_attachment list \<Rightarrow>
   string list \<Rightarrow> ('v, unit) submit_op" where
  "submit_result_with_candidate c V rd submission candidate attachments observed_paths =
     submit c V rd (recorded_result submission) attachments (Some candidate) observed_paths"

definition submit_verification ::
  "codec \<Rightarrow> 'v vcs \<Rightarrow> readings \<Rightarrow> verification_submission \<Rightarrow> ('v, unit) submit_op" where
  "submit_verification c V rd submission =
     submit c V rd (recorded_verification submission) [] None []"

section \<open>Captured executions\<close>

text \<open>The checks before the capture, and the message of the output commit.\<close>

definition capture_checks ::
  "codec \<Rightarrow> 'v vcs \<Rightarrow> 'v workbench \<Rightarrow> node_id \<Rightarrow> project_path list \<Rightarrow> outcome \<Rightarrow> unit res" where
  "capture_checks c V w i outputs result_outcome =
     and_then (read_node c (wb_store w) i) (\<lambda>(meta, _).
     and_then (require_ordinary_node meta i) (\<lambda>_.
     if result_outcome = Done then require_clean_except V w outputs else Inr ()))"

definition capture_message ::
  "codec \<Rightarrow> 'v workbench \<Rightarrow> work_snapshot \<Rightarrow> string option \<Rightarrow> string res" where
  "capture_message c w snapshot message =
     map_ok (\<lambda>text. output_commit_message (ws_node snapshot) text
         (frozen_revision (ws_project snapshot)))
       (case message of
          Some text \<Rightarrow> Inr text
        | None \<Rightarrow> map_ok (\<lambda>node. title_of (snd node)) (read_node c (wb_store w) (ws_node snapshot)))"

definition output_artifact :: "codec \<Rightarrow> store \<Rightarrow> string option \<Rightarrow> artifact_ref option res" where
  "output_artifact c s commit =
     (case commit of None \<Rightarrow> Inr None | Some h \<Rightarrow> map_ok Some (git_artifact c s h))"

definition retain :: "'v vcs \<Rightarrow> node_id \<Rightarrow> string option \<Rightarrow> ('v, unit) wb_op" where
  "retain V i commit =
     (case commit of None \<Rightarrow> st_return () | Some h \<Rightarrow> on_vcs (\<lambda>v. v_retain_output V v i h))"

definition capture_output ::
  "codec \<Rightarrow> 'v vcs \<Rightarrow> work_snapshot \<Rightarrow> project_path list \<Rightarrow> string option \<Rightarrow> outcome \<Rightarrow>
   ('v, string option) wb_op" where
  "capture_output c V snapshot outputs message result_outcome =
     (if result_outcome = Done \<and> outputs \<noteq> []
      then st_then (st_read (\<lambda>w. capture_message c w snapshot message)) (\<lambda>commit_message.
           st_then (on_vcs (\<lambda>v. v_capture V v outputs commit_message)) (\<lambda>h. st_return (Some h)))
      else st_return None)"

definition capture_submission ::
  "codec \<Rightarrow> 'v vcs \<Rightarrow> readings \<Rightarrow> work_snapshot \<Rightarrow> project_path list \<Rightarrow> string option \<Rightarrow> outcome \<Rightarrow>
   string \<Rightarrow> author \<Rightarrow> producer_evidence option \<Rightarrow> ('v, string option) submit_op" where
  "capture_submission c V rd snapshot outputs message result_outcome note_text author_of producer =
     (let i = ws_node snapshot in
      st_then (st_map_err Evaluation (st_read (\<lambda>w. capture_checks c V w i outputs result_outcome))) (\<lambda>_.
      st_then (st_map_err Evaluation
        (capture_output c V snapshot outputs message result_outcome)) (\<lambda>output_commit.
      st_then (st_map_err Evaluation (st_read (\<lambda>w. output_artifact c (wb_store w) output_commit))) (\<lambda>output.
      st_then (submit_result c V rd \<lparr>rs_snapshot = snapshot, rs_outcome = result_outcome, rs_output = output,
                 rs_notes = note_text, rs_author = author_of, rs_producer = producer\<rparr>) (\<lambda>_.
      st_then (st_map_err Evaluation (retain V i output_commit)) (\<lambda>_.
      st_return output_commit))))))"

definition require_commit :: "'v vcs \<Rightarrow> 'v workbench \<Rightarrow> string \<Rightarrow> unit res" where
  "require_commit V w commit =
     and_then (v_commit_exists V (wb_vcs w) commit) (\<lambda>found.
     if \<not> found
     then bail ''promoted execution output `{}` is missing from the project repository'' [commit]
     else Inr ())"

definition submit_captured_execution_with_attachments ::
  "codec \<Rightarrow> 'v vcs \<Rightarrow> readings \<Rightarrow> work_snapshot \<Rightarrow> string option \<Rightarrow> string \<Rightarrow> author \<Rightarrow>
   producer_evidence option \<Rightarrow> new_node_attachment list \<Rightarrow> ('v, unit) submit_op" where
  "submit_captured_execution_with_attachments c V rd snapshot commit note_text author_of producer attachments =
     (let i = ws_node snapshot in
      st_then (st_map_err Evaluation (st_read (\<lambda>w.
        and_then (read_node c (wb_store w) i) (\<lambda>(meta, _).
        and_then (require_ordinary_node meta i) (\<lambda>_.
        and_then (case commit of None \<Rightarrow> Inr () | Some h \<Rightarrow> require_commit V w h) (\<lambda>_.
        output_artifact c (wb_store w) commit)))))) (\<lambda>output.
      st_then (submit_result_with_attachments c V rd \<lparr>rs_snapshot = snapshot, rs_outcome = Done,
                 rs_output = output, rs_notes = note_text, rs_author = author_of, rs_producer = producer\<rparr>
                 attachments) (\<lambda>_.
      st_map_err Evaluation (retain V i commit))))"

definition submit_captured_execution_with_candidate ::
  "codec \<Rightarrow> 'v vcs \<Rightarrow> readings \<Rightarrow> work_snapshot \<Rightarrow> string \<Rightarrow> string \<Rightarrow> author \<Rightarrow>
   producer_evidence option \<Rightarrow> new_node_attachment list \<Rightarrow> new_candidate \<Rightarrow> string list \<Rightarrow> ('v, unit) submit_op" where
  "submit_captured_execution_with_candidate c V rd snapshot commit note_text author_of producer
     attachments candidate observed_paths =
     (let i = ws_node snapshot in
      st_then (st_map_err Evaluation (st_read (\<lambda>w.
        and_then (git_artifact c (wb_store w) commit) (\<lambda>output.
        and_then (require_commit V w commit) (\<lambda>_. Inr output))))) (\<lambda>output.
      st_then (submit_result_with_candidate c V rd \<lparr>rs_snapshot = snapshot, rs_outcome = Done,
                 rs_output = Some output, rs_notes = note_text, rs_author = author_of, rs_producer = producer\<rparr>
                 candidate attachments observed_paths) (\<lambda>_.
      st_map_err Evaluation (retain V i (Some commit)))))"

section \<open>The lock is not part of the facts\<close>

lemma stale_pin_locked [simp]: "stale_pin c (w\<lparr>wb_locked := b\<rparr>) = stale_pin c w"
  by (intro ext) (simp add: stale_pin_def project_file_blob_def)

lemma locked_fields:
  "wb_store (w\<lparr>wb_locked := b\<rparr>) = wb_store w" "wb_vcs (w\<lparr>wb_locked := b\<rparr>) = wb_vcs w"
  by simp_all

lemma recorded_state_locked [simp]: "recorded_state c V (w\<lparr>wb_locked := b\<rparr>) i meta = recorded_state c V w i meta"
proof -
  have "staleness_for_result c V (w\<lparr>wb_locked := b\<rparr>) = staleness_for_result c V w"
    by (intro ext) (unfold staleness_for_result_def locked_fields stale_pin_locked, rule refl)
  note stale = this
  show ?thesis unfolding recorded_state_def locked_fields stale ..
qed

lemma derives_locked:
  "derives c V w i state \<Longrightarrow> derives c V (w\<lparr>wb_locked := b\<rparr>) i state"
  "derives_blockers c V w deps bs \<Longrightarrow> derives_blockers c V (w\<lparr>wb_locked := b\<rparr>) deps bs"
proof (induction rule: derives_derives_blockers.inducts)
  case (derives_node i d recorded bs)
  then show ?case by (intro derives_derives_blockers.derives_node) simp_all
next
  case derives_none
  then show ?case by (rule derives_derives_blockers.derives_none)
next
  case (derives_missing dep deps bs)
  then show ?case by (intro derives_derives_blockers.derives_missing) simp_all
next
  case (derives_dependency dep state b deps bs)
  then show ?case by (intro derives_derives_blockers.derives_dependency) simp_all
qed

lemma node_state_locked: "node_state c V (w\<lparr>wb_locked := b\<rparr>) i = Inr state \<longleftrightarrow> node_state c V w i = Inr state"
proof -
  have "derives c V w i state" if "derives c V (w\<lparr>wb_locked := b\<rparr>) i state"
    using derives_locked(1) [OF that, of "wb_locked w"] by simp
  then show ?thesis using derives_locked(1) by (auto simp: node_state_iff)
qed

section \<open>Facts about the checks\<close>

lemma submission_definition_Inr:
  "submission_definition c s sub = Inr d \<longleftrightarrow>
     ws_schema (rc_snapshot sub) = SNAPSHOT_SCHEMA \<and>
     (\<forall>output. rc_output sub = Some output \<longrightarrow>
        ar_repository output = ps_repository (ws_project (rc_snapshot sub))) \<and>
     load_definition c s (ws_node (rc_snapshot sub)) = Inr d \<and>
     outcome_kind_matches (nm_verifies (ld_meta d) \<noteq> None) (rc_outcome sub)"
  by (auto simp: submission_definition_def Let_def result_simps split: option.splits)

lemma context_conflict_Nil:
  "context_conflict c V w revision pin = Inr [] \<longleftrightarrow>
     (if revision = [] then project_file_blob c w (cp_path pin)
      else v_file_blob_at V (wb_vcs w) revision (cp_path pin)) = Inr (Some (cp_identity pin))"
  by (auto simp: context_conflict_def result_simps split: if_splits)

lemma evidence_missing_False:
  "evidence_missing c V w deps = Inr False \<longleftrightarrow>
     (\<forall>p \<in> set deps. \<exists>state x v. node_state c V w (cn_id p) = Inr state \<and> is_complete state \<and>
        cn_outcome p = Some x \<and> result_satisfies_dependency x \<and> cn_result p = Some v)"
  by (induction deps) (auto simp: result_simps split: option.splits)

lemma submission_conflicts_Nil:
  "submission_conflicts c V w sub d = Inr [] \<longleftrightarrow>
     (\<exists>head state. ld_version d = ws_definition (rc_snapshot sub) \<and>
        pin_node_list c (wb_store w) (nm_depends_on (ld_meta d)) = Inr (ws_dependencies (rc_snapshot sub)) \<and>
        pin_node_list c (wb_store w) (nm_derived_from (ld_meta d)) = Inr (ws_lineage (rc_snapshot sub)) \<and>
        v_head_commit V (wb_vcs w) = Inr head \<and>
        (\<forall>pin \<in> set (ws_context (rc_snapshot sub)).
           context_conflict c V w (case head of None \<Rightarrow> [] | Some h \<Rightarrow> h) pin = Inr []) \<and>
        project_conflict (case head of None \<Rightarrow> [] | Some h \<Rightarrow> h) sub = [] \<and>
        node_state c V w (ws_node (rc_snapshot sub)) = Inr state \<and> is_ready state \<and>
        (outcome_requires_full_pins (rc_outcome sub) \<longrightarrow>
           evidence_missing c V w (ws_dependencies (rc_snapshot sub)) = Inr False) \<and>
        current_result_version c (wb_store w) (ws_node (rc_snapshot sub)) =
          Inr (ws_previous_result (rc_snapshot sub)))"
  (is "?lhs = ?rhs")
proof -
  have "?lhs \<longleftrightarrow> (\<exists>head state moved missing. ld_version d = ws_definition (rc_snapshot sub) \<and>
        pin_node_list c (wb_store w) (nm_depends_on (ld_meta d)) = Inr (ws_dependencies (rc_snapshot sub)) \<and>
        pin_node_list c (wb_store w) (nm_derived_from (ld_meta d)) = Inr (ws_lineage (rc_snapshot sub)) \<and>
        v_head_commit V (wb_vcs w) = Inr head \<and>
        (collect (context_conflict c V w (case head of None \<Rightarrow> [] | Some h \<Rightarrow> h))
           (ws_context (rc_snapshot sub)) = Inr moved \<and> concat moved = []) \<and>
        project_conflict (case head of None \<Rightarrow> [] | Some h \<Rightarrow> h) sub = [] \<and>
        node_state c V w (ws_node (rc_snapshot sub)) = Inr state \<and> is_ready state \<and>
        ((if outcome_requires_full_pins (rc_outcome sub)
          then evidence_missing c V w (ws_dependencies (rc_snapshot sub)) else Inr False) = Inr missing \<and> \<not> missing) \<and>
        current_result_version c (wb_store w) (ws_node (rc_snapshot sub)) =
          Inr (ws_previous_result (rc_snapshot sub)))"
    unfolding submission_conflicts_def Let_def
    by (simp add: result_simps del: concat_eq_Nil_conv cong: if_cong) (auto simp del: concat_eq_Nil_conv split: if_splits)
  also have "\<dots> \<longleftrightarrow> ?rhs"
    using collect_concat_Nil [of "context_conflict c V w r" "ws_context (rc_snapshot sub)" for r]
    by (auto simp del: concat_eq_Nil_conv split: if_splits) (metis+)?
  finally show ?thesis .
qed

lemma submission_checks_Inr:
  "submission_checks c V w rd sub attachments = Inr (decision, pending) \<longleftrightarrow>
     (\<exists>d as. submission_definition c (wb_store w) sub = Inr d \<and>
        submission_conflicts c V w sub d = Inr [] \<and>
        submission_decision c V w rd sub (ld_meta d) = Inr decision \<and>
        prepare_node_attachments c (wb_store w) (ws_node (rc_snapshot sub)) (rd_attached_at rd) attachments =
          Inr (as, pending))"
  by (auto simp: submission_checks_def result_simps split: if_splits)

lemma submission_checks_Conflict:
  "submission_checks c V w rd sub attachments = Inl (Conflict cs) \<Longrightarrow> cs \<noteq> [] \<and>
     (\<exists>d. submission_definition c (wb_store w) sub = Inr d \<and> submission_conflicts c V w sub d = Inr cs)"
  by (auto simp: submission_checks_def result_simps split: if_splits)

section \<open>Facts about the writes\<close>

text \<open>Two stores that hold the same definitions and results.\<close>

definition same_records :: "codec \<Rightarrow> store \<Rightarrow> store \<Rightarrow> bool" where
  "same_records c s t \<longleftrightarrow>
     (\<forall>j. load_definition c t j = load_definition c s j \<and> load_result c t j = load_result c s j \<and>
       exists_node t j = exists_node s j)"

lemma same_records_refl [simp]: "same_records c s s"
  by (simp add: same_records_def)

lemma same_records_trans: "same_records c s t \<Longrightarrow> same_records c t u \<Longrightarrow> same_records c s u"
  by (simp add: same_records_def)

lemma same_records_nodes: "store_nodes t = store_nodes s \<Longrightarrow> same_records c s t"
  unfolding same_records_def by (metis exists_node_cong load_definition_cong load_result_cong node_dir_of_def)

lemma register_locked_frame [frame_simps]:
  "register_locked c ulid new s = (r, t) \<Longrightarrow> store_nodes t = store_nodes s \<and> store_root t = store_root s"
  unfolding register_locked_def
  by (cases "registration c s ulid new")
    (auto simp: st_then_def st_read_def st_return_def split: sum.splits prod.splits
      dest: write_candidate_fields)

lemma register_locked_same: "register_locked c ulid new s = (r, t) \<Longrightarrow> same_records c s t"
  by (auto dest!: register_locked_frame intro: same_records_nodes)

lemma write_candidate_same: "write_candidate c r s = (x, t) \<Longrightarrow> same_records c s t"
  by (auto dest!: write_candidate_fields(1) intro: same_records_nodes)

lemma write_context_observation_same: "write_context_observation c i ob s = (r, t) \<Longrightarrow> same_records c s t"
  by (simp add: same_records_def write_context_observation_frame)

lemma write_node_attachments_same: "write_node_attachments c i pending s = (r, t) \<Longrightarrow> same_records c s t"
  by (simp add: same_records_def write_node_attachments_frame)

lemma observe_locked_frame:
  assumes "record_context_observation_locked c V i expected paths w = (Inr n, w')"
  shows "same_records c (wb_store w) (wb_store w') \<and> store_candidates (wb_store w') = store_candidates (wb_store w) \<and>
    wb_vcs w' = wb_vcs w \<and> wb_files w' = wb_files w \<and> wb_locked w' = wb_locked w"
  using assms unfolding record_context_observation_locked_def
  by (auto simp: result_simps split: if_splits
      dest: write_context_observation_same write_context_observation_frame(4))

lemma mutation_commit_vcs:
  "mutation_commit V m w = (Inr u, w') \<Longrightarrow> \<exists>s p m. v_commit_store V (wb_vcs w) s p m = (Inr (), wb_vcs w')"
  by (rule exI [of _ "wb_store w"], rule exI [of _ "store_name (wb_store w)"], rule exI [of _ m])
    (auto simp: mutation_commit_def split: prod.splits sum.splits)

lemma submission_writes_Inr:
  assumes "submission_writes c V rd sub candidate observed decision pending w = (Inr (), w')"
  obtains s1 s2 s4 where
    "write_node_attachments c (ws_node (rc_snapshot sub)) pending (wb_store w) = (Inr (), s1)"
    "write_result c (ws_node (rc_snapshot sub)) (submission_result rd sub) (se_notes (rc_envelope sub)) s1 =
       (Inr (), s2)"
    "same_records c s2 s4" "same_records c s4 (wb_store w')"
    "store_candidates (wb_store w') = store_candidates s4"
    "\<forall>decided. decision = Some decided \<longrightarrow> (\<exists>s3. write_candidate c decided s3 = (Inr (), s4))"
    "store_clean V w'" "wb_locked w' = wb_locked w" "wb_files w' = wb_files w"
    "\<exists>s p m. v_commit_store V (wb_vcs w) s p m = (Inr (), wb_vcs w')"
proof -
  let ?i = "ws_node (rc_snapshot sub)"
  obtain s1 s2 s3 s4 w5 where
    s1: "write_node_attachments c ?i pending (wb_store w) = (Inr (), s1)"
    and s2: "write_result c ?i (submission_result rd sub) (se_notes (rc_envelope sub)) s1 = (Inr (), s2)"
    and s3: "(case candidate of None \<Rightarrow> s3 = s2
      | Some new \<Rightarrow> \<exists>r. register_locked c (rd_ulid rd) new s2 = (Inr r, s3))"
    and s4: "(case decision of None \<Rightarrow> s4 = s3 | Some decided \<Rightarrow> write_candidate c decided s3 = (Inr (), s4))"
    and w5: "if observed = [] then w5 = w\<lparr>wb_store := s4\<rparr>
      else \<exists>version n. record_context_observation_locked c V ?i version observed (w\<lparr>wb_store := s4\<rparr>) = (Inr n, w5)"
    and commit: "mutation_commit V (''linka: result '' @ ?i) w5 = (Inr (), w')"
    using assms unfolding submission_writes_def Let_def
    by (auto simp: result_simps split: option.splits if_splits) blast+
  have "same_records c s2 s3" using s3 by (auto split: option.splits dest: register_locked_same)
  moreover have "same_records c s3 s4" using s4 by (auto split: option.splits dest: write_candidate_same)
  ultimately have "same_records c s2 s4" by (rule same_records_trans)
  moreover have "same_records c s4 (wb_store w5) \<and> store_candidates (wb_store w5) = store_candidates s4 \<and>
      wb_files w5 = wb_files w \<and> wb_locked w5 = wb_locked w \<and> wb_vcs w5 = wb_vcs w"
    using w5 by (auto split: if_splits dest!: observe_locked_frame)
  moreover have "\<forall>decided. decision = Some decided \<longrightarrow> (\<exists>s3. write_candidate c decided s3 = (Inr (), s4))"
    using s4 by auto
  ultimately show ?thesis
    using that [OF s1 s2] mutation_commit_store [OF commit] mutation_commit_clean [OF commit]
      mutation_commit_vcs [OF commit] by simp
qed

lemma submit_Inr:
  assumes "submit c V rd sub attachments candidate observed w = (Inr (), w')"
  obtains d decision pending w2 where
    "submission_definition c (wb_store w) sub = Inr d"
    "submission_conflicts c V (w\<lparr>wb_locked := True\<rparr>) sub d = Inr []"
    "submission_decision c V (w\<lparr>wb_locked := True\<rparr>) rd sub (ld_meta d) = Inr decision"
    "submission_writes c V rd sub candidate observed decision pending (w\<lparr>wb_locked := True\<rparr>) = (Inr (), w2)"
    "w' = w2\<lparr>wb_locked := False\<rparr>"
  using assms unfolding submit_def submit_result_locked_def
  by (auto simp: with_mutation_Inr result_simps submission_checks_Inr)

lemma pin_node_list_holds:
  assumes "pin_node_list c s nodes = Inr pins" and "p \<in> set pins"
  shows "pin_holds c s p"
proof -
  obtain dep where "pin_node c s dep = Inr p"
    using collect_Inr_set [of "pin_node c s" nodes pins p] assms by (auto simp: pin_node_list_def)
  then show ?thesis
    by (auto simp: pin_node_def pin_holds_def result_simps intro: load_definition_exists)
qed

lemma pin_holds_cong:
  assumes "load_definition c t (cn_id p) = load_definition c s (cn_id p)"
    and "load_result c t (cn_id p) = load_result c s (cn_id p)" and "pin_holds c s p"
  shows "pin_holds c t p"
  using assms by (auto simp: pin_holds_def intro: load_definition_exists)

lemma load_written_candidate:
  assumes "codec_faithful c" and "write_candidate c r s = (Inr (), t)" and "cr_schema r = CANDIDATE_SCHEMA"
  shows "candidate_load c t (cr_id r) = Inr r"
proof -
  obtain toml where "candidate_to_toml c r = Some toml" "candidate_file t (cr_id r) = Bytes toml"
    using candidate_records.put_same [OF assms(2)] by blast
  then show ?thesis using assms(1,3)
    by (simp add: candidate_load_def read_text_def utf8_text_def parse_with_def codec_faithful_def)
qed

section \<open>A concrete submission\<close>

definition snapshot_b :: work_snapshot where
  "snapshot_b = \<lparr>ws_schema = 1, ws_node = ''b'', ws_definition = version_b, ws_dependencies = [pin_a],
     ws_lineage = [], ws_context = [], ws_project = sample_project, ws_previous_result = None\<rparr>"

definition submission_b :: recorded_submission where
  "submission_b = \<lparr>rc_envelope = \<lparr>se_snapshot = snapshot_b, se_notes = [], se_author = Machine,
       se_producer = None\<rparr>, rc_outcome = Work Done, rc_output = None\<rparr>"

definition late_submission :: recorded_submission where
  "late_submission = submission_b\<lparr>rc_envelope := (rc_envelope submission_b)
     \<lparr>se_snapshot := snapshot_b\<lparr>ws_dependencies := [], ws_previous_result := Some result_version_a\<rparr>\<rparr>\<rparr>"

definition readings_b :: readings where
  "readings_b = \<lparr>rd_result_at = 9, rd_decided_at = 9, rd_attached_at = 9, rd_ulid = ''01''\<rparr>"

text \<open>What the writes record, whoever holds the lock.\<close>

lemma submission_writes_record:
  assumes "codec_faithful c" and "utf8_valid (se_notes (rc_envelope sub))"
    and "submission_writes c V rd sub candidate observed decision pending w = (Inr (), w')"
  obtains l where "load_result c (wb_store w') (ws_node (rc_snapshot sub)) = Inr (Some l)"
    "lr_meta l = submission_result rd sub" "lr_notes l = se_notes (rc_envelope sub)"
    "\<And>j. load_definition c (wb_store w') j = load_definition c (wb_store w) j"
    "\<And>j. j \<noteq> ws_node (rc_snapshot sub) \<Longrightarrow> load_result c (wb_store w') j = load_result c (wb_store w) j"
    "store_clean V w'" "\<exists>s p m. v_commit_store V (wb_vcs w) s p m = (Inr (), wb_vcs w')"
proof -
  let ?i = "ws_node (rc_snapshot sub)"
  obtain s1 s2 s4 where s1: "write_node_attachments c ?i pending (wb_store w) = (Inr (), s1)"
    and s2: "write_result c ?i (submission_result rd sub) (se_notes (rc_envelope sub)) s1 = (Inr (), s2)"
    and s4: "same_records c s2 s4" "same_records c s4 (wb_store w')" and clean: "store_clean V w'"
    and vcs: "\<exists>s p m. v_commit_store V (wb_vcs w) s p m = (Inr (), wb_vcs w')"
    using assms(3) by (rule submission_writes_Inr)
  obtain toml where "result_to_toml c (submission_result rd sub) = Some toml"
    using s2 by (auto simp: write_result_def split: if_splits option.splits)
  then obtain l where l: "load_result c s2 ?i = Inr (Some l)" "lr_meta l = submission_result rd sub"
    "lr_notes l = se_notes (rc_envelope sub)"
    using load_written_result [OF s2] assms(1,2) by (auto simp: codec_faithful_def)
  have "load_definition c (wb_store w') j = load_definition c (wb_store w) j" for j
    using s4 write_result_others(1) [OF s2] write_node_attachments_same [OF s1]
    by (simp add: same_records_def)
  moreover have "load_result c (wb_store w') j = load_result c (wb_store w) j" if "j \<noteq> ?i" for j
    using s4 write_result_others(2) [OF s2 that] write_node_attachments_same [OF s1]
    by (simp add: same_records_def)
  moreover have "load_result c (wb_store w') ?i = Inr (Some l)"
    using s4 l(1) by (simp add: same_records_def)
  ultimately show ?thesis using that l(2,3) clean vcs by simp
qed

lemma submit_records:
  assumes "codec_faithful c" and "utf8_valid (se_notes (rc_envelope sub))"
    and "submit c V rd sub attachments candidate observed w = (Inr (), w')"
  obtains l where "load_result c (wb_store w') (ws_node (rc_snapshot sub)) = Inr (Some l)"
    "lr_meta l = submission_result rd sub" "lr_notes l = se_notes (rc_envelope sub)"
    "\<And>j. load_definition c (wb_store w') j = load_definition c (wb_store w) j"
    "\<And>j. j \<noteq> ws_node (rc_snapshot sub) \<Longrightarrow> load_result c (wb_store w') j = load_result c (wb_store w) j"
    "\<not> wb_locked w'" "store_clean V w'"
proof -
  obtain decision pending w2 where
    writes: "submission_writes c V rd sub candidate observed decision pending (w\<lparr>wb_locked := True\<rparr>) = (Inr (), w2)"
    and w': "w' = w2\<lparr>wb_locked := False\<rparr>"
    using assms(3) by (rule submit_Inr)
  show ?thesis
    by (rule submission_writes_record [OF assms(1,2) writes], rule that)
      (simp_all add: w' store_clean_def)
qed

lemma submit_conflict:
  assumes "submit c V rd sub attachments candidate observed w = (Inl (Conflict conflicts), w')"
  shows "w' = w \<and> \<not> wb_locked w \<and> conflicts \<noteq> [] \<and>
    (\<exists>d. submission_definition c (wb_store w) sub = Inr d \<and>
      submission_conflicts c V (w\<lparr>wb_locked := True\<rparr>) sub d = Inr conflicts)"
proof (cases rule: mutation_lock_cases [of V w])
  case (refused e)
  then show ?thesis using assms by (simp add: submit_def with_mutation_as_def)
next
  case held
  then obtain w2 where body: "submit_result_locked c V rd sub attachments candidate observed
      (w\<lparr>wb_locked := True\<rparr>) = (Inl (Conflict conflicts), w2)" and w': "w' = w2\<lparr>wb_locked := False\<rparr>"
    using assms by (auto simp: submit_def with_mutation_as_def split: prod.splits)
  then have checks: "submission_checks c V (w\<lparr>wb_locked := True\<rparr>) rd sub attachments = Inl (Conflict conflicts)"
    and w2: "w2 = w\<lparr>wb_locked := True\<rparr>"
    by (auto simp: submit_result_locked_def result_simps)
  have "w' = w" using w' w2 held(1) by simp
  then show ?thesis using submission_checks_Conflict [OF checks] held(1) by simp
qed

section \<open>Properties\<close>

text \<open>
  C9. A conflict records nothing. When a submission is refused with conflicts, whatever the
  attachments, the candidate and the observed paths that came with it, the workbench is exactly
  what it was, the lock is free, and the conflicts are the non-empty list of the checks.
\<close>

theorem conflict_records_nothing:
  assumes "submit c V rd sub attachments candidate observed w = (Inl (Conflict conflicts), w')"
  shows "w' = w \<and> \<not> wb_locked w \<and> conflicts \<noteq> [] \<and>
    (\<exists>d. submission_definition c (wb_store w) sub = Inr d \<and>
      submission_conflicts c V (w\<lparr>wb_locked := True\<rparr>) sub d = Inr conflicts)"
  using submit_conflict [OF assms] .

theorem conflict_records_nothing_witness:
  "submit wb_codec fake_ops readings_b late_submission [] None [] sample_wb =
     (Inl (Conflict [DependenciesConflict, PreviousResultConflict]), sample_wb)"
proof -
  let ?run = "submit wb_codec fake_ops readings_b late_submission [] None [] sample_wb"
  have "fst ?run = Inl (Conflict [DependenciesConflict, PreviousResultConflict])" by code_simp
  then have run: "?run = (Inl (Conflict [DependenciesConflict, PreviousResultConflict]), snd ?run)"
    by (metis prod.collapse)
  then show ?thesis using conflict_records_nothing [OF run] by simp
qed



lemma ready_dependencies:
  assumes "node_state c V w i = Inr state" and "is_ready state" and "load_definition c (wb_store w) i = Inr d"
    and "dep \<in> set (nm_depends_on (ld_meta d))"
  shows "dependency_met c V w dep"
proof -
  obtain recorded bs where "derives_blockers c V w (nm_depends_on (ld_meta d)) bs"
    and "state = assemble_state recorded bs"
    using assms by (auto simp: node_state_unfold)
  moreover from this have "bs = []"
    using assms(2) by (simp add: is_ready_def assemble_state_def split: prod.splits)
  ultimately show ?thesis using assms(4) derives_blockers_Nil by blast
qed

lemma met_dependency_pin:
  assumes "dependency_met c V w dep" and "pin_node c (wb_store w) dep = Inr p"
  shows "\<exists>state x v. node_state c V w (cn_id p) = Inr state \<and> is_complete state \<and>
    cn_outcome p = Some x \<and> result_satisfies_dependency x \<and> cn_result p = Some v"
proof -
  obtain state where state: "node_state c V w dep = Inr state" "is_complete state"
    "st_outcome state \<in> {RSucceeded, RAccepted}"
    using assms(1) by (auto simp: dependency_met_def)
  obtain d recorded bs where "load_definition c (wb_store w) dep = Inr d"
    and r: "recorded_state c V w dep (ld_meta d) = Inr recorded" "state = assemble_state recorded bs"
    using state(1) unfolding node_state_unfold by blast
  obtain current where current: "load_result c (wb_store w) dep = Inr current"
    and p: "p = \<lparr>cn_id = dep, cn_definition = cn_definition p, cn_result = map_option lr_version current,
      cn_outcome = map_option (\<lambda>r. rm_outcome (lr_meta r)) current, cn_output = cn_output p\<rparr>"
    using assms(2) by (auto simp: pin_node_def result_simps)
  show ?thesis
  proof (cases current)
    case None
    then have "recorded = (ROpen, NotRequired, [])" using r(1) current by (simp add: recorded_state_def)
    then show ?thesis using r(2) state(3) by (simp add: assemble_state_def)
  next
    case (Some l)
    then have "fst recorded = recorded_of (rm_outcome (lr_meta l))"
      using r(1) current by (auto simp: recorded_state_def result_simps split: if_splits)
    then have "recorded_of (rm_outcome (lr_meta l)) \<in> {RSucceeded, RAccepted}"
      using r(2) state(3) by (auto simp: assemble_state_def split: prod.splits)
    then have "result_satisfies_dependency (rm_outcome (lr_meta l))"
      by (cases "rm_outcome (lr_meta l)" rule: recorded_of.cases) simp_all
    moreover have "cn_id p = dep" "cn_outcome p = Some (rm_outcome (lr_meta l))" "cn_result p = Some (lr_version l)"
      using p Some by (metis consumed_node.select_convs option.simps(9))+
    ultimately show ?thesis using state by auto
  qed
qed



text \<open>
  C30. A review and its decision are one fact. When a submission with the outcome accepted or
  rejected is recorded, the candidate its node verifies was pending before, and afterwards is
  decided by exactly this node with the same outcome, nothing else of its record changed; so the
  decision is never recorded without the result, nor the result without the decision.
\<close>

theorem verification_decides_with_result:
  assumes "codec_faithful c" and "submit c V rd sub attachments None observed w = (Inr (), w')"
    and "rc_outcome sub = Verification outcome" and "outcome \<noteq> VAbandoned"
  shows "\<exists>d i candidate decided. load_definition c (wb_store w) (ws_node (rc_snapshot sub)) = Inr d \<and>
    nm_verifies (ld_meta d) = Some i \<and>
    candidate_load c (wb_store w) i = Inr candidate \<and> cr_state candidate = Pending \<and>
    candidate_load c (wb_store w') (cr_id candidate) = Inr decided \<and>
    decided = candidate\<lparr>cr_state := cr_state decided\<rparr> \<and>
    (if outcome = VAccepted
     then \<exists>at by_whom why target. cr_state decided = Accepted at by_whom why (ws_node (rc_snapshot sub)) target \<and>
       v_ref_commit V (wb_vcs w) (branch_ref (cr_target candidate)) = Inr (Some target)
     else \<exists>at by_whom why. cr_state decided = Rejected at by_whom why (ws_node (rc_snapshot sub)))"
proof -
  let ?i = "ws_node (rc_snapshot sub)" and ?wl = "w\<lparr>wb_locked := True\<rparr>"
  obtain d decision pending w2 where d: "submission_definition c (wb_store w) sub = Inr d"
    and decision: "submission_decision c V ?wl rd sub (ld_meta d) = Inr decision"
    and writes: "submission_writes c V rd sub None observed decision pending ?wl = (Inr (), w2)"
    and w': "w' = w2\<lparr>wb_locked := False\<rparr>"
    using assms(2) by (rule submit_Inr)
  have "rc_outcome sub = Verification VAccepted \<or> rc_outcome sub = Verification VRejected"
    using assms(3,4) by (cases outcome) auto
  then obtain i decided where i: "nm_verifies (ld_meta d) = Some i" and dec: "decision = Some decided"
    and prepared: "prepare_verification_decision c V ?wl (rd_decided_at rd) i ?i (submission_result rd sub)
      (se_author (rc_envelope sub)) (se_notes (rc_envelope sub)) = Inr decided"
    using decision by (auto simp: submission_decision_def result_simps)
  obtain candidate found where cand: "candidate_load c (wb_store w) i = Inr candidate" "cr_state candidate = Pending"
    and o: "rm_outcome (submission_result rd sub) = Verification found"
    and state: "decided_state V (wb_vcs w) (rd_decided_at rd) candidate ?i found (se_author (rc_envelope sub))
      (se_notes (rc_envelope sub)) = Inr (cr_state decided)"
    and r: "decided = candidate\<lparr>cr_state := cr_state decided\<rparr>"
    using prepared by (rule prepare_decision_Inr) simp
  have found: "found = outcome" using o assms(3) by (simp add: submission_result_def Let_def)
  obtain s3 s4 where s4: "write_candidate c decided s3 = (Inr (), s4)"
    and cs: "store_candidates (wb_store w2) = store_candidates s4"
    using writes dec by (elim submission_writes_Inr) blast
  have id: "cr_id decided = cr_id candidate" "cr_schema decided = CANDIDATE_SCHEMA"
    using candidate_load_schema [OF cand(1)] by (subst r, simp)+
  have "candidate_load c (wb_store w') (cr_id candidate) = Inr decided"
    using load_written_candidate [OF assms(1) s4 id(2)] candidate_load_cong [OF cs] by (simp add: id w')
  moreover have "load_definition c (wb_store w) ?i = Inr d" using d by (simp add: submission_definition_Inr)
  moreover have "if outcome = VAccepted
     then \<exists>at by_whom why target. cr_state decided = Accepted at by_whom why ?i target \<and>
       v_ref_commit V (wb_vcs w) (branch_ref (cr_target candidate)) = Inr (Some target)
     else \<exists>at by_whom why. cr_state decided = Rejected at by_whom why ?i"
    using decided_state_Inr [OF state] found by auto
  ultimately show ?thesis using i cand r by blast
qed

definition snapshot_v :: work_snapshot where
  "snapshot_v = \<lparr>ws_schema = 1, ws_node = ''v'',
     ws_definition = \<lparr>dv_metadata = hash ''x'', dv_description = hash ''review''\<rparr>, ws_dependencies = [],
     ws_lineage = [pin_out], ws_context = [], ws_project = sample_project, ws_previous_result = None\<rparr>"

definition submission_v :: recorded_submission where
  "submission_v = recorded_verification \<lparr>vs_snapshot = snapshot_v, vs_outcome = VAccepted, vs_notes = [],
     vs_author = Human, vs_producer = None\<rparr>"

theorem verification_decides_with_result_witness:
  "\<exists>w' at by_whom why. submit cand_codec fake_ops (readings_b\<lparr>rd_result_at := 7, rd_decided_at := 7\<rparr>)
       submission_v [] None [] (cand_wb []) = (Inr (), w') \<and>
     (\<exists>decided. candidate_load cand_codec (wb_store w') ''candidate-1'' = Inr decided \<and>
       cr_state decided = Accepted at by_whom why ''v'' ''c0'')"
proof -
  let ?run = "submit cand_codec fake_ops (readings_b\<lparr>rd_result_at := 7, rd_decided_at := 7\<rparr>)
       submission_v [] None [] (cand_wb [])"
  have "fst ?run = Inr ()" by code_simp
  then have run: "?run = (Inr (), snd ?run)" by (metis prod.collapse)
  have c: "codec_faithful cand_codec" by (simp add: cand_codec_def table_codec_faithful)
  have o: "rc_outcome submission_v = Verification VAccepted" by code_simp
  have n: "ws_node (rc_snapshot submission_v) = ''v''" by code_simp
  have d: "load_definition cand_codec (wb_store (cand_wb [])) ''v'' = Inr \<lparr>ld_meta = meta_v,
      ld_description = ''review'', ld_version = ws_definition snapshot_v\<rparr>" by code_simp
  have cand: "candidate_load cand_codec (wb_store (cand_wb [])) ''candidate-1'' = Inr cand" by code_simp
  have "cr_id cand = ''candidate-1''" "nm_verifies meta_v = Some ''candidate-1''" by code_simp+
  moreover have "v_ref_commit fake_ops (wb_vcs (cand_wb [])) (branch_ref (cr_target cand)) = Inr (Some ''c0'')"
    by code_simp
  ultimately show ?thesis
    using verification_decides_with_result [OF c run o] run cand d unfolding n by fastforce
qed

lemma capture_output_Inr:
  "capture_output c V snapshot outputs message x w = (Inr h, w') \<Longrightarrow>
     (h = None \<or> x = Done) \<and>
     (w' = w \<or> (\<exists>m r v. v_capture V (wb_vcs w) outputs m = (r, v) \<and> w' = w\<lparr>wb_vcs := v\<rparr>))"
  by (auto simp: capture_output_def result_simps split: if_splits)

lemma retain_Inr:
  "vcs_contract V \<Longrightarrow> retain V i (Some h) w = (Inr (), w') \<Longrightarrow>
     v_ref_commit V (wb_vcs w') (output_ref i) = Inr (Some h) \<and>
     v_commit_exists V (wb_vcs w') h = Inr True \<and> wb_store w' = wb_store w"
  using vcs_contract.retain_names by (fastforce simp: retain_def result_simps)

text \<open>
  Captured output. When work is captured against a snapshot and accepted with an output, the
  node's output ref names the captured commit, the commit exists, and it is the output of the
  recorded result. When the submission conflicts, the store is what it was and no output ref moved:
  the capture happens before the version check, the retention only after acceptance.
\<close>

theorem captured_output_is_retained_on_acceptance_only:
  assumes "vcs_contract V" and "codec_faithful c" and "utf8_valid note_text"
    and "capture_submission c V rd snapshot outputs message result_outcome note_text by_whom producer w = (r, w')"
  shows "(\<forall>h. r = Inr (Some h) \<longrightarrow>
      v_ref_commit V (wb_vcs w') (output_ref (ws_node snapshot)) = Inr (Some h) \<and>
      v_commit_exists V (wb_vcs w') h = Inr True \<and>
      (\<exists>l. load_result c (wb_store w') (ws_node snapshot) = Inr (Some l) \<and>
        rm_outcome (lr_meta l) = Work Done \<and> output_commit (lr_meta l) = Some h)) \<and>
    (\<forall>conflicts. r = Inl (Conflict conflicts) \<longrightarrow> wb_store w' = wb_store w \<and>
      (\<forall>node. v_ref_commit V (wb_vcs w') (output_ref node) = v_ref_commit V (wb_vcs w) (output_ref node)))"
proof (intro conjI allI impI)
  fix h
  assume "r = Inr (Some h)"
  then obtain w1 art w2 where commit: "result_outcome = Done"
    and art: "output_artifact c (wb_store w1) (Some h) = Inr art"
    and sub: "submit_result c V rd \<lparr>rs_snapshot = snapshot, rs_outcome = result_outcome, rs_output = art,
        rs_notes = note_text, rs_author = by_whom, rs_producer = producer\<rparr> w1 = (Inr (), w2)"
    and ret: "retain V (ws_node snapshot) (Some h) w2 = (Inr (), w')"
    using assms(4) capture_output_Inr [of c V snapshot outputs message result_outcome w "Some h"]
    unfolding capture_submission_def Let_def
    by (auto simp: result_simps)
  let ?rec = "recorded_result \<lparr>rs_snapshot = snapshot, rs_outcome = result_outcome, rs_output = art,
        rs_notes = note_text, rs_author = by_whom, rs_producer = producer\<rparr>"
  have rec: "rc_snapshot ?rec = snapshot" "se_notes (rc_envelope ?rec) = note_text"
    "rc_outcome ?rec = Work result_outcome" "rc_output ?rec = art"
    by (simp_all add: recorded_result_def result_envelope_def)
  have "submit c V rd ?rec [] None [] w1 = (Inr (), w2)"
    using sub by (simp add: submit_result_def submit_result_with_attachments_def)
  then obtain l where l: "load_result c (wb_store w2) (ws_node snapshot) = Inr (Some l)"
    "lr_meta l = submission_result rd ?rec"
    using submit_records [OF assms(2), of ?rec] assms(3) rec by metis
  have "\<exists>x. art = Some x \<and> ar_id x = h"
    using art by (auto simp: output_artifact_def git_artifact_def result_simps)
  then have "rm_outcome (lr_meta l) = Work Done" "output_commit (lr_meta l) = Some h"
    using l(2) commit rec by (auto simp: submission_result_def Let_def output_commit_def)
  then show "v_ref_commit V (wb_vcs w') (output_ref (ws_node snapshot)) = Inr (Some h)"
    "v_commit_exists V (wb_vcs w') h = Inr True"
    "\<exists>l. load_result c (wb_store w') (ws_node snapshot) = Inr (Some l) \<and>
        rm_outcome (lr_meta l) = Work Done \<and> output_commit (lr_meta l) = Some h"
    using retain_Inr [OF assms(1) ret] l(1) by auto
next
  fix conflicts
  assume "r = Inl (Conflict conflicts)"
  then obtain w1 submission h where
    "capture_output c V snapshot outputs message result_outcome w = (Inr h, w1)"
    and sub: "submit_result c V rd submission w1 = (Inl (Conflict conflicts), w')"
    using assms(4) unfolding capture_submission_def Let_def by (auto simp: result_simps)
  then have w1: "w1 = w \<or> (\<exists>m x v. v_capture V (wb_vcs w) outputs m = (x, v) \<and> w1 = w\<lparr>wb_vcs := v\<rparr>)"
    using capture_output_Inr by blast
  have "w' = w1"
    using submit_conflict [OF sub [unfolded submit_result_def submit_result_with_attachments_def]] by blast
  then show "wb_store w' = wb_store w"
    "\<And>node. v_ref_commit V (wb_vcs w') (output_ref node) = v_ref_commit V (wb_vcs w) (output_ref node)"
    using w1 vcs_contract.capture_refs [OF assms(1)] by auto
qed

definition capture_codec :: codec where
  "capture_codec = table_codec [meta_a, meta_b, meta_p, meta_q]
     [result_a, result_b\<lparr>rm_output := Some artifact_c1\<rparr>] [] [] [] []"

definition capture_wb :: "fake_vcs workbench" where
  "capture_wb = sample_wb\<lparr>wb_vcs := sample_vcs\<lparr>fk_dirty := [''o.txt'']\<rparr>\<rparr>"

theorem captured_output_is_retained_on_acceptance_only_witness:
  "\<exists>w'. capture_submission capture_codec fake_ops readings_b snapshot_b [''o.txt''] None Done [] Machine None
       capture_wb = (Inr (Some ''c1''), w') \<and>
     v_ref_commit fake_ops (wb_vcs w') ''refs/linka/outputs/b'' = Inr (Some ''c1'')"
proof -
  let ?run = "capture_submission capture_codec fake_ops readings_b snapshot_b [''o.txt''] None Done [] Machine None
       capture_wb"
  have "fst ?run = Inr (Some ''c1'')" by code_simp
  then have run: "?run = (Inr (Some ''c1''), snd ?run)" by (metis prod.collapse)
  have c: "codec_faithful capture_codec" by (simp add: capture_codec_def table_codec_faithful)
  have u: "utf8_valid []" by simp
  have n: "output_ref (ws_node snapshot_b) = ''refs/linka/outputs/b''" by code_simp
  show ?thesis
    using captured_output_is_retained_on_acceptance_only [OF fake.vcs_contract_axioms c u run] run
    unfolding n by blast
qed

end
