(* ===== verification/Linka_Mutate.thy ===== *)
theory Linka_Mutate
  imports Linka_Submit
begin

text \<open>
  The mutating operations (\<open>linka/src/ops/mutate.rs\<close>): creating, linking and editing nodes,
  completing, answering and failing work. Each takes the mutation lock and commits its whole store
  change once. ULIDs and clock readings are arguments.
\<close>

section \<open>Creating nodes\<close>

record new_node =
  nw_description :: string
  nw_author :: author
  nw_assignee :: "author option"
  nw_depends_on :: "node_id list"
  nw_derived_from :: "node_id list"

text \<open>The lineage of the new node: a verification derives from its candidate's source node.\<close>

definition add_lineage ::
  "codec \<Rightarrow> store \<Rightarrow> new_node \<Rightarrow> candidate_id option \<Rightarrow> node_id list res" where
  "add_lineage c s new verifies =
     (case verifies of
        None \<Rightarrow> Inr (nw_derived_from new)
      | Some i \<Rightarrow>
          and_then (candidate_load c s i) (\<lambda>candidate.
          Inr (if cr_node candidate \<in> set (nw_derived_from new) then nw_derived_from new
               else nw_derived_from new @ [cr_node candidate])))"

fun require_related :: "store \<Rightarrow> node_id list \<Rightarrow> unit res" where
  "require_related s [] = Inr ()"
| "require_related s (dep # deps) =
     (if \<not> exists_node s dep then bail ''unknown related node `{}`'' [dep] else require_related s deps)"

definition new_meta :: "new_node \<Rightarrow> node_id list \<Rightarrow> candidate_id option \<Rightarrow> node_meta" where
  "new_meta new derived verifies =
     \<lparr>nm_schema = DEFINITION_SCHEMA, nm_author = nw_author new, nm_assignee = nw_assignee new,
      nm_depends_on = nw_depends_on new, nm_derived_from = derived, nm_verifies = verifies,
      nm_extensions = []\<rparr>"

definition add_checks ::
  "codec \<Rightarrow> store \<Rightarrow> string \<Rightarrow> new_node \<Rightarrow> candidate_id option \<Rightarrow> (node_id \<times> node_meta) res" where
  "add_checks c s ulid new verifies =
     and_then (add_lineage c s new verifies) (\<lambda>derived.
     and_then (require_related s (nw_depends_on new @ derived)) (\<lambda>_.
     and_then (map_err (\<lambda>m. Bail m []) (validate_node_id (''node-'' @ ulid))) (\<lambda>i.
     Inr (i, new_meta new derived verifies))))"

definition add_node ::
  "codec \<Rightarrow> 'v vcs \<Rightarrow> string \<Rightarrow> new_node \<Rightarrow> candidate_id option \<Rightarrow> ('v, node_id) wb_op" where
  "add_node c V ulid new verifies =
     (if trim (nw_description new) = [] then st_fail (Bail ''a node needs a description'' [])
      else with_mutation V
        (st_then (st_read (\<lambda>w. add_checks c (wb_store w) ulid new verifies)) (\<lambda>(i, meta).
         st_then (on_store (write_node c i meta (nw_description new))) (\<lambda>_.
         st_then (mutation_commit V (''linka: add '' @ i)) (\<lambda>_.
         st_return i)))))"

definition add :: "codec \<Rightarrow> 'v vcs \<Rightarrow> string \<Rightarrow> new_node \<Rightarrow> ('v, node_id) wb_op" where
  "add c V ulid new = add_node c V ulid new None"

definition add_verification ::
  "codec \<Rightarrow> 'v vcs \<Rightarrow> string \<Rightarrow> candidate_id \<Rightarrow> new_node \<Rightarrow> ('v, node_id) wb_op" where
  "add_verification c V ulid candidate new = add_node c V ulid new (Some candidate)"

section \<open>Linking and editing\<close>

fun edges_for :: "dep_kind \<Rightarrow> node_meta \<Rightarrow> node_id list" where
  "edges_for DependsOn meta = nm_depends_on meta"
| "edges_for DerivedFrom meta = nm_derived_from meta"

fun push_edge :: "dep_kind \<Rightarrow> node_id \<Rightarrow> node_meta \<Rightarrow> node_meta" where
  "push_edge DependsOn target meta = meta\<lparr>nm_depends_on := nm_depends_on meta @ [target]\<rparr>"
| "push_edge DerivedFrom target meta = meta\<lparr>nm_derived_from := nm_derived_from meta @ [target]\<rparr>"

definition link_checks ::
  "codec \<Rightarrow> store \<Rightarrow> node_id \<Rightarrow> node_id \<Rightarrow> dep_kind \<Rightarrow> (node_meta \<times> string) res" where
  "link_checks c s source target kind =
     (if \<not> exists_node s target then bail ''unknown related node `{}`'' [target]
      else
      and_then (read_node c s source) (\<lambda>(meta, description).
      if target \<in> set (edges_for kind meta) then bail ''duplicate edge'' []
      else Inr (push_edge kind target meta, description)))"

definition link :: "codec \<Rightarrow> 'v vcs \<Rightarrow> node_id \<Rightarrow> node_id \<Rightarrow> dep_kind \<Rightarrow> ('v, unit) wb_op" where
  "link c V source target kind =
     (if source = target then st_fail (Bail ''cannot link a node to itself'' [])
      else with_mutation V
        (st_then (st_read (\<lambda>w. link_checks c (wb_store w) source target kind)) (\<lambda>(meta, description).
         st_then (on_store (write_node c source meta description)) (\<lambda>_.
         mutation_commit V (''linka: link '' @ source @ '' -> '' @ target)))))"

datatype edit_outcome = Edited | Unchanged

definition edit :: "codec \<Rightarrow> 'v vcs \<Rightarrow> node_id \<Rightarrow> string \<Rightarrow> ('v, edit_outcome) wb_op" where
  "edit c V i description =
     (if trim description = [] then st_fail (Bail ''a node needs a description'' [])
      else with_mutation V
        (st_then (st_read (\<lambda>w. read_node c (wb_store w) i)) (\<lambda>(meta, current).
         if current = description then st_return Unchanged
         else
         st_then (on_store (write_node c i meta description)) (\<lambda>_.
         st_then (mutation_commit V (''linka: edit '' @ i)) (\<lambda>_.
         st_return Edited)))))"

section \<open>Reporting a submission error\<close>

fun conflict_debug :: "submission_conflict \<Rightarrow> string" where
  "conflict_debug DefinitionConflict = ''DefinitionChanged''"
| "conflict_debug DependenciesConflict = ''DependenciesChanged''"
| "conflict_debug LineageConflict = ''LineageChanged''"
| "conflict_debug (ContextConflict p) = ''ContextChanged { path: ProjectPath('' @ [CHR 0x22] @ p @ [CHR 0x22] @ '') }''"
| "conflict_debug ProjectConflict = ''ProjectChanged''"
| "conflict_debug ReadinessConflict = ''ReadinessChanged''"
| "conflict_debug PreviousResultConflict = ''PreviousResultChanged''"

fun submission_error_text :: "submission_error \<Rightarrow> string" where
  "submission_error_text (Conflict conflicts) =
     ''result submission conflicts: ['' @ join_with '', '' (map conflict_debug conflicts) @ '']''"
| "submission_error_text (Evaluation e) = error_text e"

section \<open>Completing work\<close>

definition require_consistent_project_head :: "codec \<Rightarrow> 'v vcs \<Rightarrow> 'v workbench \<Rightarrow> unit res" where
  "require_consistent_project_head c V w =
     and_then (v_head_commit V (wb_vcs w)) (\<lambda>found.
     case found of
       None \<Rightarrow> Inr ()
     | Some head \<Rightarrow>
         and_then (v_linka_node V (wb_vcs w) head) (\<lambda>trailer.
         case trailer of
           None \<Rightarrow> Inr ()
         | Some declared \<Rightarrow>
             and_then (origin c (wb_store w) head) (\<lambda>recorded.
             case recorded of
               Some node \<Rightarrow>
                 if node = declared then Inr ()
                 else bail ''inconsistent Linka state: project HEAD {} declares node `{}`, but the store records it as output of `{}`''
                        [short head, declared, node]
             | None \<Rightarrow>
                 and_then (map_err (\<lambda>m. Bail ''project HEAD {} has an invalid Linka-Node trailer: {}'' [short head, m])
                   (validate_node_id declared)) (\<lambda>_.
                 and_then (v_output_was_recorded V (wb_vcs w) (store_name (wb_store w)) declared head) (\<lambda>was.
                 if was then Inr ()
                 else bail ''inconsistent Linka state: project HEAD {} declares itself as output of node `{}`, but the store has never recorded that output; restore the project changes and run `linka complete` again, or move the project checkout to a consistent commit''
                        [short head, declared])))))"

text \<open>Everything \<open>complete\<close> reads before it captures: the description, the input commit and the
  snapshot.\<close>

definition complete_checks ::
  "codec \<Rightarrow> 'v vcs \<Rightarrow> 'v workbench \<Rightarrow> node_id \<Rightarrow> project_path list \<Rightarrow> string list \<Rightarrow>
   (string \<times> string option \<times> work_snapshot) res" where
  "complete_checks c V w i outputs context_paths =
     and_then (require_consistent_project_head c V w) (\<lambda>_.
     and_then (read_node c (wb_store w) i) (\<lambda>(meta, description).
     and_then (require_ordinary_node meta i) (\<lambda>_.
     and_then (require_clean_except V w outputs) (\<lambda>_.
     and_then (v_head_commit V (wb_vcs w)) (\<lambda>input.
     and_then (snapshot_work c V w i context_paths) (\<lambda>snapshot.
     Inr (description, input, snapshot)))))))"

definition capture_and_retain ::
  "'v vcs \<Rightarrow> node_id \<Rightarrow> project_path list \<Rightarrow> string \<Rightarrow> ('v, string option) wb_op" where
  "capture_and_retain V i outputs commit_message =
     (if outputs = [] then st_return None
      else
      st_then (on_vcs (\<lambda>v. v_capture V v outputs commit_message)) (\<lambda>commit.
      st_then (on_vcs (\<lambda>v. v_retain_output V v i commit)) (\<lambda>_.
      st_return (Some commit))))"

definition completion_error :: "string option \<Rightarrow> submission_error \<Rightarrow> error" where
  "completion_error commit e =
     (case commit of
        Some h \<Rightarrow> Bail ''inconsistent completion: project output commit {} was created but its Linka result was not recorded: {}''
                    [h, submission_error_text e]
      | None \<Rightarrow> Bail ''{}'' [submission_error_text e])"

definition complete_locked ::
  "codec \<Rightarrow> 'v vcs \<Rightarrow> readings \<Rightarrow> node_id \<Rightarrow> project_path list \<Rightarrow> string list \<Rightarrow> string option \<Rightarrow> string \<Rightarrow>
   author \<Rightarrow> ('v, string option) wb_op" where
  "complete_locked c V rd i outputs context_paths message note_text by_whom =
     st_then (st_read (\<lambda>w. complete_checks c V w i outputs context_paths)) (\<lambda>(description, input, snapshot).
     st_then (capture_and_retain V i outputs (output_commit_message i
         (case message of Some m \<Rightarrow> m | None \<Rightarrow> title_of description) input)) (\<lambda>commit.
     st_then (st_read (\<lambda>w. output_artifact c (wb_store w) commit)) (\<lambda>artifact.
     st_then (st_map_err (completion_error commit)
       (submit_result_locked c V rd
          \<lparr>rc_envelope = \<lparr>se_snapshot = snapshot, se_notes = note_text, se_author = by_whom, se_producer = None\<rparr>,
           rc_outcome = Work Done, rc_output = artifact\<rparr> [] None [])) (\<lambda>_.
     st_return commit))))"

definition complete ::
  "codec \<Rightarrow> 'v vcs \<Rightarrow> readings \<Rightarrow> node_id \<Rightarrow> string list \<Rightarrow> string list \<Rightarrow> string option \<Rightarrow> string \<Rightarrow>
   author \<Rightarrow> ('v, string option) wb_op" where
  "complete c V rd i outputs context_paths message note_text by_whom =
     st_then (st_read (\<lambda>_. collect parse_project_path outputs)) (\<lambda>paths.
     with_mutation V (complete_locked c V rd i paths context_paths message note_text by_whom))"

definition respond ::
  "codec \<Rightarrow> 'v vcs \<Rightarrow> readings \<Rightarrow> node_id \<Rightarrow> string \<Rightarrow> author \<Rightarrow> ('v, unit) wb_op" where
  "respond c V rd i note_text by_whom =
     (if trim note_text = [] then st_fail (Bail ''a response needs some text'' [])
      else
      st_then (st_read (\<lambda>w. snapshot_work c V w i [])) (\<lambda>snapshot.
      st_map_err (\<lambda>e. Bail ''{}'' [submission_error_text e])
        (submit_result c V rd \<lparr>rs_snapshot = snapshot, rs_outcome = Done, rs_output = None,
           rs_notes = note_text, rs_author = by_whom, rs_producer = None\<rparr>)))"

definition failure_result ::
  "codec \<Rightarrow> 'v vcs \<Rightarrow> 'v workbench \<Rightarrow> int \<Rightarrow> node_id \<Rightarrow> author \<Rightarrow> result_meta res" where
  "failure_result c V w now i by_whom =
     and_then (read_node c (wb_store w) i) (\<lambda>(meta, _).
     and_then (require_ordinary_node meta i) (\<lambda>_.
     and_then (pin_node_list c (wb_store w) (nm_depends_on meta @ nm_derived_from meta)) (\<lambda>consumed.
     and_then (node_version c (wb_store w) i) (\<lambda>version.
     and_then (current_project_snapshot c V w) (\<lambda>project.
     Inr \<lparr>rm_schema = RESULT_SCHEMA, rm_at = now, rm_author = by_whom, rm_definition = version,
          rm_outcome = Work Failed, rm_project = project, rm_consumed = consumed, rm_context = [],
          rm_output = None, rm_producer = None\<rparr>)))))"

definition fail :: "codec \<Rightarrow> 'v vcs \<Rightarrow> int \<Rightarrow> node_id \<Rightarrow> string \<Rightarrow> author \<Rightarrow> ('v, unit) wb_op" where
  "fail c V now i note_text by_whom =
     with_mutation V
       (st_then (st_read (\<lambda>w. failure_result c V w now i by_whom)) (\<lambda>result.
        st_then (on_store (write_result c i result note_text)) (\<lambda>_.
        mutation_commit V (''linka: fail '' @ i))))"

section \<open>Facts\<close>

lemma load_definition_text:
  assumes "load_definition c s i = Inr d"
  shows "utf8_valid (ld_description d)" "dv_description (ld_version d) = blob_id c (ld_description d)"
proof -
  obtain bytes where "utf8_text bytes = Inr (ld_description d)"
    "dv_description (ld_version d) = blob_id c bytes"
    using assms by (auto simp: load_definition_def result_simps split: if_splits)
  then show "utf8_valid (ld_description d)" "dv_description (ld_version d) = blob_id c (ld_description d)"
    by (auto simp: utf8_text_def split: if_splits)
qed

text \<open>A definition written under the lock and committed: what is read afterwards.\<close>

lemma written_definition:
  assumes "codec_faithful c" and "utf8_valid description"
    and "write_node c i meta description s = (Inr (), t)"
  obtains d where "load_definition c t i = Inr d" "ld_meta d = meta" "ld_description d = description"
    "dv_description (ld_version d) = blob_id c description"
    "\<And>j. j \<noteq> i \<Longrightarrow> load_definition c t j = load_definition c s j"
    "\<And>j. load_result c t j = load_result c s j"
proof -
  obtain toml where "node_to_toml c meta = Some toml"
    using assms(3) by (auto simp: write_node_def split: if_splits option.splits)
  then show ?thesis
    using that load_written_definition [OF assms(3)] assms(1,2) write_node_others [OF assms(3)]
    by (auto simp: codec_faithful_def)
qed

lemma edit_Inr:
  assumes "edit c V i description w = (Inr x, w')"
  obtains (unchanged) d where "load_definition c (wb_store w) i = Inr d" "ld_description d = description"
      "x = Unchanged" "w' = w" "\<not> wb_locked w" "store_clean V w"
  | (edited) d t where "load_definition c (wb_store w) i = Inr d" "ld_description d \<noteq> description"
      "x = Edited" "write_node c i (ld_meta d) description (wb_store w) = (Inr (), t)"
      "wb_store w' = t" "\<not> wb_locked w'" "store_clean V w'"
proof -
  obtain d w2 where lock: "\<not> wb_locked w" "store_clean V w"
    and d: "load_definition c (wb_store w) i = Inr d" and w': "w' = w2\<lparr>wb_locked := False\<rparr>"
    and body: "(if ld_description d = description then st_return Unchanged
         else
         st_then (on_store (write_node c i (ld_meta d) description)) (\<lambda>_.
         st_then (mutation_commit V (''linka: edit '' @ i)) (\<lambda>_.
         st_return Edited))) (w\<lparr>wb_locked := True\<rparr>) = (Inr x, w2)"
    using assms unfolding edit_def
    by (auto simp: with_mutation_Inr result_simps read_node_def split: if_splits)
  show ?thesis
  proof (cases "ld_description d = description")
    case True
    have "w' = w" using body True w' lock by (simp add: result_simps)
    then show ?thesis using unchanged d True lock body by (simp add: result_simps)
  next
    case False
    obtain t where t: "write_node c i (ld_meta d) description (wb_store w) = (Inr (), t)"
      and commit: "mutation_commit V (''linka: edit '' @ i) (w\<lparr>wb_locked := True, wb_store := t\<rparr>) = (Inr (), w2)"
      and x: "x = Edited"
      using body False by (auto simp: result_simps)
    show ?thesis
      using edited [OF d False x t] mutation_commit_store(1) [OF commit] mutation_commit_clean [OF commit]
      by (simp add: w' store_clean_def)
  qed
qed

section \<open>Properties\<close>

text \<open>
  Editing. Submitting the prose a node already has changes nothing at all. Otherwise exactly
  the description moves: the metadata, every result and every other node are as before, the
  store is committed; and when the new prose hashes differently the recorded work no longer counts:
  a result of the old version is stale and no pin of the old version holds.
\<close>

theorem edit_moves_exactly_the_description:
  assumes "codec_faithful c" and "utf8_valid description" and "edit c V i description w = (Inr x, w')"
  shows "\<exists>d. load_definition c (wb_store w) i = Inr d \<and> (x = Unchanged \<longleftrightarrow> ld_description d = description) \<and>
    (x = Unchanged \<longrightarrow> w' = w) \<and> \<not> wb_locked w' \<and> store_clean V w' \<and>
    (x = Edited \<longrightarrow>
      (\<exists>d'. load_definition c (wb_store w') i = Inr d' \<and> ld_meta d' = ld_meta d \<and> ld_description d' = description) \<and>
      (\<forall>j. load_result c (wb_store w') j = load_result c (wb_store w) j) \<and>
      (\<forall>j. j \<noteq> i \<longrightarrow> load_definition c (wb_store w') j = load_definition c (wb_store w) j) \<and>
      (blob_id c description \<noteq> blob_id c (ld_description d) \<longrightarrow>
        (\<forall>result version candidate. rm_definition result = ld_version d \<longrightarrow>
          staleness_for_result c V w' i result version candidate \<noteq> Inr []) \<and>
        (\<forall>p. cn_id p = i \<longrightarrow> cn_definition p = ld_version d \<longrightarrow> \<not> pin_holds c (wb_store w') p)))"
  using assms(3)
proof (cases rule: edit_Inr)
  case (unchanged d)
  then show ?thesis by auto
next
  case (edited d t)
  obtain d' where d': "load_definition c t i = Inr d'" "ld_meta d' = ld_meta d" "ld_description d' = description"
    "dv_description (ld_version d') = blob_id c description"
    and same: "\<And>j. j \<noteq> i \<Longrightarrow> load_definition c t j = load_definition c (wb_store w) j"
    "\<And>j. load_result c t j = load_result c (wb_store w) j"
    using written_definition [OF assms(1,2) edited(4)] by metis
  have moved: "ld_version d' \<noteq> ld_version d" if "blob_id c description \<noteq> blob_id c (ld_description d)"
    using that d'(4) load_definition_text(2) [OF edited(1)] by auto
  have "staleness_for_result c V w' i result version candidate \<noteq> Inr []"
    if "blob_id c description \<noteq> blob_id c (ld_description d)" "rm_definition result = ld_version d"
    for result version candidate
    using moved [OF that(1)] that(2) d'(1) edited(5)
    by (auto simp: staleness_for_result_def Let_def result_simps)
  moreover have "\<not> pin_holds c (wb_store w') p"
    if "blob_id c description \<noteq> blob_id c (ld_description d)" "cn_id p = i" "cn_definition p = ld_version d" for p
    using moved [OF that(1)] that(2,3) d'(1) edited(5) by (auto simp: pin_holds_def)
  ultimately show ?thesis
    using edited d' same by (intro exI [of _ d]) auto
qed

definition edit_codec :: codec where
  "edit_codec = table_codec [meta_a, meta_b, meta_p, meta_q, plain_meta [''b''], plain_meta [''a'', ''b'']]
     [result_a, result_b] [] [] [] []"

theorem edit_moves_exactly_the_description_witness:
  "\<exists>w'. edit edit_codec fake_ops ''a'' ''do more'' sample_wb = (Inr Edited, w') \<and>
     \<not> pin_holds edit_codec (wb_store w') pin_a"
proof -
  let ?run = "edit edit_codec fake_ops ''a'' ''do more'' sample_wb"
  have "fst ?run = Inr Edited" by code_simp
  then have run: "?run = (Inr Edited, snd ?run)" by (metis prod.collapse)
  have c: "codec_faithful edit_codec" by (simp add: edit_codec_def table_codec_faithful)
  have u: "utf8_valid ''do more''" by code_simp
  have d: "load_definition edit_codec (wb_store sample_wb) ''a'' =
      Inr \<lparr>ld_meta = meta_a, ld_description = ''do a'', ld_version = version_a\<rparr>" by code_simp
  have "blob_id edit_codec ''do more'' \<noteq> blob_id edit_codec ''do a''"
    "cn_id pin_a = ''a''" "cn_definition pin_a = version_a" by code_simp+
  then show ?thesis using edit_moves_exactly_the_description [OF c u run] run d by fastforce
qed

text \<open>
  Linking. An accepted link adds exactly one edge, at the end of the named list of the source
  node: the target exists, was not in that list and is not the source itself; the prose, the
  other list, every result and every other node are as before.
\<close>

theorem link_adds_exactly_one_edge:
  assumes "codec_faithful c" and "link c V source target kind w = (Inr (), w')"
  shows "source \<noteq> target \<and> exists_node (wb_store w) target \<and>
    (\<exists>d d'. load_definition c (wb_store w) source = Inr d \<and> target \<notin> set (edges_for kind (ld_meta d)) \<and>
      load_definition c (wb_store w') source = Inr d' \<and> ld_meta d' = push_edge kind target (ld_meta d) \<and>
      edges_for kind (ld_meta d') = edges_for kind (ld_meta d) @ [target] \<and>
      ld_description d' = ld_description d) \<and>
    (\<forall>j. load_result c (wb_store w') j = load_result c (wb_store w) j) \<and>
    (\<forall>j. j \<noteq> source \<longrightarrow> load_definition c (wb_store w') j = load_definition c (wb_store w) j) \<and>
    \<not> wb_locked w' \<and> store_clean V w'"
proof -
  obtain d t w2 where facts: "source \<noteq> target" "exists_node (wb_store w) target"
    and d: "load_definition c (wb_store w) source = Inr d" "target \<notin> set (edges_for kind (ld_meta d))"
    and t: "write_node c source (push_edge kind target (ld_meta d)) (ld_description d) (wb_store w) = (Inr (), t)"
    and commit: "mutation_commit V (''linka: link '' @ source @ '' -> '' @ target)
      (w\<lparr>wb_locked := True, wb_store := t\<rparr>) = (Inr (), w2)"
    and w': "w' = w2\<lparr>wb_locked := False\<rparr>"
    using assms(2) unfolding link_def link_checks_def
    by (auto simp: with_mutation_Inr result_simps read_node_def split: if_splits)
  obtain d' where d': "load_definition c t source = Inr d'" "ld_meta d' = push_edge kind target (ld_meta d)"
      "ld_description d' = ld_description d"
    and same: "\<And>j. j \<noteq> source \<Longrightarrow> load_definition c t j = load_definition c (wb_store w) j"
    "\<And>j. load_result c t j = load_result c (wb_store w) j"
    using written_definition [OF assms(1) load_definition_text(1) [OF d(1)] t] by metis
  have "edges_for kind (ld_meta d') = edges_for kind (ld_meta d) @ [target]"
    using d'(2) by (cases kind) simp_all
  moreover have "wb_store w' = t" "store_clean V w'"
    using mutation_commit_store(1) [OF commit] mutation_commit_clean [OF commit]
    by (simp_all add: w' store_clean_def)
  ultimately show ?thesis using facts d d' same w' by auto
qed

theorem link_adds_exactly_one_edge_witness:
  "\<exists>w' d'. link edit_codec fake_ops ''a'' ''b'' DependsOn sample_wb = (Inr (), w') \<and>
     load_definition edit_codec (wb_store w') ''a'' = Inr d' \<and> nm_depends_on (ld_meta d') = [''b'']"
proof -
  let ?run = "link edit_codec fake_ops ''a'' ''b'' DependsOn sample_wb"
  have "fst ?run = Inr ()" by code_simp
  then have run: "?run = (Inr (), snd ?run)" by (metis prod.collapse)
  have c: "codec_faithful edit_codec" by (simp add: edit_codec_def table_codec_faithful)
  have d: "load_definition edit_codec (wb_store sample_wb) ''a'' =
      Inr \<lparr>ld_meta = meta_a, ld_description = ''do a'', ld_version = version_a\<rparr>" by code_simp
  have "nm_depends_on meta_a = []" by code_simp
  then show ?thesis using link_adds_exactly_one_edge [OF c run] run d by auto
qed

text \<open>
  Adding. A new node is recorded with exactly the given prose and edges, all of whose targets
  existed; a verification of a candidate derives from the candidate's source node, so that
  completing it pins what it reviewed. Results and all other nodes are as before.
\<close>

theorem added_node_is_as_given:
  assumes "codec_faithful c" and "utf8_valid (nw_description new)"
    and "add_node c V ulid new verifies w = (Inr i, w')"
  shows "i = ''node-'' @ ulid \<and> (\<exists>d. load_definition c (wb_store w') i = Inr d \<and>
      ld_description d = nw_description new \<and> nm_verifies (ld_meta d) = verifies \<and>
      nm_depends_on (ld_meta d) = nw_depends_on new \<and>
      set (nw_derived_from new) \<subseteq> set (nm_derived_from (ld_meta d)) \<and>
      (\<forall>dep \<in> set (edges_of (ld_meta d)). exists_node (wb_store w) dep) \<and>
      (\<forall>candidate. verifies = Some candidate \<longrightarrow> (\<exists>r. candidate_load c (wb_store w) candidate = Inr r \<and>
        cr_node r \<in> set (nm_derived_from (ld_meta d))))) \<and>
    (\<forall>j. load_result c (wb_store w') j = load_result c (wb_store w) j) \<and>
    (\<forall>j. j \<noteq> i \<longrightarrow> load_definition c (wb_store w') j = load_definition c (wb_store w) j) \<and>
    \<not> wb_locked w' \<and> store_clean V w'"
proof -
  obtain derived t w2 where derived: "add_lineage c (wb_store w) new verifies = Inr derived"
    and related: "require_related (wb_store w) (nw_depends_on new @ derived) = Inr ()"
    and i: "validate_node_id (''node-'' @ ulid) = Inr i"
    and t: "write_node c i (new_meta new derived verifies) (nw_description new) (wb_store w) = (Inr (), t)"
    and commit: "mutation_commit V (''linka: add '' @ i) (w\<lparr>wb_locked := True, wb_store := t\<rparr>) = (Inr (), w2)"
    and w': "w' = w2\<lparr>wb_locked := False\<rparr>"
    using assms(3) unfolding add_node_def add_checks_def
    by (auto simp: with_mutation_Inr result_simps split: if_splits)
  have all: "\<forall>dep \<in> set deps. exists_node s dep" if "require_related s deps = Inr ()" for s deps
    using that by (induction deps) (auto split: if_splits)
  have lineage: "set (nw_derived_from new) \<subseteq> set derived \<and>
      (\<forall>candidate. verifies = Some candidate \<longrightarrow> (\<exists>r. candidate_load c (wb_store w) candidate = Inr r \<and>
        cr_node r \<in> set derived))"
    using derived by (auto simp: add_lineage_def result_simps split: option.splits if_splits)
  obtain d where d: "load_definition c t i = Inr d" "ld_meta d = new_meta new derived verifies"
      "ld_description d = nw_description new"
    and same: "\<And>j. j \<noteq> i \<Longrightarrow> load_definition c t j = load_definition c (wb_store w) j"
    "\<And>j. load_result c t j = load_result c (wb_store w) j"
    using written_definition [OF assms(1,2) t] by metis
  have "wb_store w' = t" "store_clean V w'"
    using mutation_commit_store(1) [OF commit] mutation_commit_clean [OF commit]
    by (simp_all add: w' store_clean_def)
  moreover have "i = ''node-'' @ ulid" using validate_node_id_stores_input [OF i] .
  ultimately show ?thesis
    using d same lineage all [OF related] w' by (auto simp: new_meta_def edges_of_def)
qed

definition new_c :: new_node where
  "new_c = \<lparr>nw_description = ''do c'', nw_author = Human, nw_assignee = None, nw_depends_on = [''b''],
     nw_derived_from = []\<rparr>"

theorem added_node_is_as_given_witness:
  "\<exists>w' d. add edit_codec fake_ops ''01'' new_c sample_wb = (Inr ''node-01'', w') \<and>
     load_definition edit_codec (wb_store w') ''node-01'' = Inr d \<and> nm_depends_on (ld_meta d) = [''b'']"
proof -
  let ?run = "add_node edit_codec fake_ops ''01'' new_c None sample_wb"
  have "fst ?run = Inr ''node-01''" by code_simp
  then have run: "?run = (Inr ''node-01'', snd ?run)" by (metis prod.collapse)
  have c: "codec_faithful edit_codec" by (simp add: edit_codec_def table_codec_faithful)
  have u: "utf8_valid (nw_description new_c)" by code_simp
  have "nw_depends_on new_c = [''b'']" by (simp add: new_c_def)
  then show ?thesis using added_node_is_as_given [OF c u run] run by (auto simp: add_def)
qed

text \<open>
  Failing. A recorded failure pins the definition and every dependency and lineage node as
  they are, replaces whatever result was there, moves nothing else, and leaves the node neither
  complete nor, to its dependents, satisfied: whenever its state can be derived, the outcome is
  failed.
\<close>

theorem failure_is_recorded:
  assumes "codec_faithful c" and "utf8_valid note_text" and "fail c V now i note_text by_whom w = (Inr (), w')"
  shows "(\<exists>d l. load_definition c (wb_store w) i = Inr d \<and> nm_verifies (ld_meta d) = None \<and>
      load_result c (wb_store w') i = Inr (Some l) \<and> rm_outcome (lr_meta l) = Work Failed \<and>
      rm_definition (lr_meta l) = ld_version d \<and> lr_notes l = note_text \<and>
      pin_node_list c (wb_store w) (edges_of (ld_meta d)) = Inr (rm_consumed (lr_meta l))) \<and>
    (\<forall>j. load_definition c (wb_store w') j = load_definition c (wb_store w) j) \<and>
    (\<forall>j. j \<noteq> i \<longrightarrow> load_result c (wb_store w') j = load_result c (wb_store w) j) \<and>
    (\<forall>state. node_state c V w' i = Inr state \<longrightarrow> st_outcome state = RFailed \<and> \<not> is_complete state) \<and>
    \<not> wb_locked w' \<and> store_clean V w'"
proof -
  obtain result t w2 where result: "failure_result c V (w\<lparr>wb_locked := True\<rparr>) now i by_whom = Inr result"
    and t: "write_result c i result note_text (wb_store w) = (Inr (), t)"
    and commit: "mutation_commit V (''linka: fail '' @ i) (w\<lparr>wb_locked := True, wb_store := t\<rparr>) = (Inr (), w2)"
    and w': "w' = w2\<lparr>wb_locked := False\<rparr>"
    using assms(3) unfolding fail_def by (auto simp: with_mutation_Inr result_simps)
  obtain d where d: "load_definition c (wb_store w) i = Inr d" "nm_verifies (ld_meta d) = None"
    and fields: "rm_outcome result = Work Failed" "rm_definition result = ld_version d"
    "pin_node_list c (wb_store w) (edges_of (ld_meta d)) = Inr (rm_consumed result)"
    using result by (auto simp: failure_result_def result_simps read_node_def node_version_def
        require_ordinary_node_def edges_of_def split: if_splits)
  obtain toml where "result_to_toml c result = Some toml"
    using t by (auto simp: write_result_def split: if_splits option.splits)
  then obtain l where l: "load_result c t i = Inr (Some l)" "lr_meta l = result" "lr_notes l = note_text"
    using load_written_result [OF t] assms(1,2) by (auto simp: codec_faithful_def)
  have store: "wb_store w' = t" "store_clean V w'"
    using mutation_commit_store(1) [OF commit] mutation_commit_clean [OF commit]
    by (simp_all add: w' store_clean_def)
  have "st_outcome state = RFailed \<and> \<not> is_complete state" if st: "node_state c V w' i = Inr state" for state
  proof -
    obtain e recorded bs where "load_definition c (wb_store w') i = Inr e"
      and r: "recorded_state c V w' i (ld_meta e) = Inr recorded" "state = assemble_state recorded bs"
      using st unfolding node_state_unfold by blast
    then have "fst recorded = RFailed"
      using l fields store by (auto simp: recorded_state_def result_simps split: if_splits)
    then show ?thesis using r(2) by (auto simp: assemble_state_def is_complete_def split: prod.splits)
  qed
  then show ?thesis
    using d fields l store write_result_others [OF t] w' by auto
qed

definition fail_codec :: codec where
  "fail_codec = table_codec [meta_a, meta_b, meta_p, meta_q]
     [result_a, result_b\<lparr>rm_outcome := Work Failed\<rparr>] [] [] [] []"

theorem failure_is_recorded_witness:
  "\<exists>w' state. fail fail_codec fake_ops 9 ''b'' ''broke'' Machine sample_wb = (Inr (), w') \<and>
     node_state fail_codec fake_ops w' ''b'' = Inr state \<and> \<not> is_complete state"
proof -
  let ?run = "fail fail_codec fake_ops 9 ''b'' ''broke'' Machine sample_wb"
  have "fst ?run = Inr ()" by code_simp
  then have run: "?run = (Inr (), snd ?run)" by (metis prod.collapse)
  have c: "codec_faithful fail_codec" by (simp add: fail_codec_def table_codec_faithful)
  have u: "utf8_valid ''broke''" by code_simp
  have "is_ok (node_state fail_codec fake_ops (snd ?run) ''b'')" by code_simp
  then show ?thesis using failure_is_recorded [OF c u run] run by (auto simp: is_ok_iff)
qed

text \<open>
  A cycle through the ordinary operations: \<open>b\<close> depends on \<open>a\<close>, both states can be derived,
  and \<open>link\<close> accepts the edge back, after which neither can.
\<close>

theorem link_admits_a_cycle:
  "is_ok (node_state edit_codec fake_ops sample_wb ''a'') \<and> is_ok (node_state edit_codec fake_ops sample_wb ''b'') \<and>
   (\<exists>w'. link edit_codec fake_ops ''a'' ''b'' DependsOn sample_wb = (Inr (), w') \<and>
     \<not> is_ok (node_state edit_codec fake_ops w' ''a'') \<and> \<not> is_ok (node_state edit_codec fake_ops w' ''b''))"
proof -
  let ?run = "link edit_codec fake_ops ''a'' ''b'' DependsOn sample_wb"
  have "fst ?run = Inr ()" by code_simp
  then have run: "?run = (Inr (), snd ?run)" by (metis prod.collapse)
  have "is_ok (node_state edit_codec fake_ops sample_wb ''a'')" "is_ok (node_state edit_codec fake_ops sample_wb ''b'')"
    "\<not> is_ok (node_state edit_codec fake_ops (snd ?run) ''a'')"
    "\<not> is_ok (node_state edit_codec fake_ops (snd ?run) ''b'')" by code_simp+
  then show ?thesis using run by blast
qed

lemma current_project_snapshot_locked:
  "current_project_snapshot c V (w\<lparr>wb_locked := b\<rparr>) = current_project_snapshot c V w"
  unfolding current_project_snapshot_def locked_fields ..

lemma capture_and_retain_Inr:
  assumes "capture_and_retain V i outputs m w = (Inr h, w')"
  shows "(h = None \<longleftrightarrow> outputs = []) \<and> wb_store w' = wb_store w \<and> wb_locked w' = wb_locked w \<and>
    (vcs_contract V \<longrightarrow> (\<forall>x. h = Some x \<longrightarrow> v_ref_commit V (wb_vcs w') (output_ref i) = Inr (Some x)))"
  using assms vcs_contract.retain_names by (fastforce simp: capture_and_retain_def result_simps split: if_splits)



end
