(* ===== verification/Linka_Check.thy ===== *)
theory Linka_Check
  imports Linka_Mutate
begin

text \<open>
  The integrity check (\<open>linka/src/ops/check.rs\<close>): the problems of each node, in the order the
  code reports them, and the cycles of the dependency graph. The depth-first search of
  \<open>find_cycles\<close> threads its state map through nested calls; it ends because the map only grows.
\<close>

section \<open>Problem reports\<close>

definition problem :: "node_id \<Rightarrow> string \<Rightarrow> string list \<Rightarrow> string" where
  "problem i m args = i @ '': '' @ fill m args"

definition validate_artifact :: "node_id \<Rightarrow> artifact_ref \<Rightarrow> string option \<Rightarrow> string list" where
  "validate_artifact i artifact repository =
     (if ar_scheme artifact \<noteq> ''git-commit''
      then [problem i ''unsupported artifact scheme `{}`'' [ar_scheme artifact]] else []) @
     (if length (ar_repository artifact) \<noteq> 40 \<or> \<not> list_all is_ascii_hexdigit (ar_repository artifact)
      then [problem i ''invalid artifact repository identity `{}`'' [ar_repository artifact]] else []) @
     (case repository of
        None \<Rightarrow> []
      | Some expected \<Rightarrow>
          if ar_repository artifact \<noteq> expected
          then [problem i ''artifact belongs to a different repository'' []] else [])"

definition check_pin ::
  "node_id \<Rightarrow> node_meta \<Rightarrow> result_outcome \<Rightarrow> string option \<Rightarrow> consumed_node \<Rightarrow> string list" where
  "check_pin i meta result_outcome repository pin =
     (let required = cn_id pin \<in> set (nm_depends_on meta); lineage = cn_id pin \<in> set (nm_derived_from meta) in
      (if \<not> required \<and> \<not> lineage
       then [problem i ''consumed pin `{}` has no declared edge'' [cn_id pin]] else []) @
      (if required \<and> outcome_requires_full_pins result_outcome \<and>
          (cn_result pin = None \<or>
           \<not> (case cn_outcome pin of None \<Rightarrow> False | Some x \<Rightarrow> result_satisfies_dependency x))
       then [problem i ''successful result has no successful evidence for required dependency `{}`'' [cn_id pin]]
       else []) @
      (case cn_output pin of None \<Rightarrow> [] | Some output \<Rightarrow> validate_artifact i output repository))"

fun check_pins ::
  "node_id \<Rightarrow> node_meta \<Rightarrow> result_outcome \<Rightarrow> string option \<Rightarrow> node_id list \<Rightarrow> consumed_node list \<Rightarrow> string list" where
  "check_pins i meta x repository seen [] = []"
| "check_pins i meta x repository seen (pin # pins) =
     (if cn_id pin \<in> set seen then [problem i ''duplicate consumed-node pin `{}`'' [cn_id pin]] else []) @
     check_pin i meta x repository pin @
     check_pins i meta x repository (cn_id pin # seen) pins"

fun duplicate_context :: "node_id \<Rightarrow> project_path list \<Rightarrow> project_path list \<Rightarrow> string list" where
  "duplicate_context i seen [] = []"
| "duplicate_context i seen (path # paths) =
     (if path \<in> set seen then [problem i ''duplicate context pin `{}`'' [path]] else []) @
     duplicate_context i (path # seen) paths"

definition validate_result_semantics ::
  "node_id \<Rightarrow> node_meta \<Rightarrow> result_meta \<Rightarrow> string option \<Rightarrow> string list" where
  "validate_result_semantics i meta result repository =
     (if rm_schema result \<noteq> RESULT_SCHEMA
      then [problem i ''unsupported result schema {}'' [show_nat (rm_schema result)]] else []) @
     (if \<not> outcome_kind_matches (nm_verifies meta \<noteq> None) (rm_outcome result)
      then (if nm_verifies meta \<noteq> None then [problem i ''verification node has a work outcome'' []]
            else [problem i ''ordinary node has a verification outcome'' []])
      else []) @
     (if nm_verifies meta \<noteq> None \<and> rm_output result \<noteq> None
      then [problem i ''verification result declares project output'' []] else []) @
     check_pins i meta (rm_outcome result) repository [] (rm_consumed result) @
     (if outcome_requires_full_pins (rm_outcome result)
      then map (\<lambda>edge. problem i ''successful result is missing pin for `{}`'' [edge])
             (filter (\<lambda>edge. edge \<notin> cn_id ` set (rm_consumed result)) (nm_depends_on meta @ nm_derived_from meta))
      else []) @
     duplicate_context i [] (map cp_path (rm_context result)) @
     (case rm_output result of None \<Rightarrow> [] | Some output \<Rightarrow> validate_artifact i output repository)"

fun decided_by :: "candidate_state \<Rightarrow> node_id option" where
  "decided_by Pending = None"
| "decided_by (Accepted _ _ _ verification _) = Some verification"
| "decided_by (Rejected _ _ _ verification) = Some verification"

fun decision_matches :: "node_id \<Rightarrow> result_outcome \<Rightarrow> candidate_state \<Rightarrow> bool" where
  "decision_matches i (Verification VAccepted) (Accepted _ _ _ verification _) = (verification = i)"
| "decision_matches i (Verification VAccepted) _ = False"
| "decision_matches i (Verification VRejected) (Rejected _ _ _ verification) = (verification = i)"
| "decision_matches i (Verification VRejected) _ = False"
| "decision_matches i (Verification VAbandoned) state = (decided_by state \<noteq> Some i)"
| "decision_matches i (Work _) state = True"

definition validate_verification_decision ::
  "codec \<Rightarrow> store \<Rightarrow> node_id \<Rightarrow> node_meta \<Rightarrow> result_meta \<Rightarrow> string list" where
  "validate_verification_decision c s i meta result =
     (case nm_verifies meta of
        None \<Rightarrow> []
      | Some candidate_id \<Rightarrow>
          (case candidate_load c s candidate_id of
             Inl _ \<Rightarrow> []
           | Inr candidate \<Rightarrow>
               if decision_matches i (rm_outcome result) (cr_state candidate) then []
               else [problem i ''verification outcome {} disagrees with candidate `{}` decision''
                       [result_outcome_as_str (rm_outcome result), candidate_id]]))"

fun check_edges :: "codec \<Rightarrow> store \<Rightarrow> node_id \<Rightarrow> string \<Rightarrow> node_id list \<Rightarrow> node_id list \<Rightarrow> string list" where
  "check_edges c s i kind seen [] = []"
| "check_edges c s i kind seen (dep # deps) =
     (if dep \<in> set seen then [problem i ''duplicate {} entry `{}`'' [kind, dep]] else []) @
     (if dep = i then [problem i ''{} refers to the node itself'' [kind]]
      else if \<not> is_ok (read_node c s dep)
        then [problem i ''{} target `{}` missing or unreadable'' [kind, dep]] else []) @
     check_edges c s i kind (dep # seen) deps"

definition check_verifies :: "codec \<Rightarrow> store \<Rightarrow> node_id \<Rightarrow> node_meta \<Rightarrow> string list" where
  "check_verifies c s i meta =
     (case nm_verifies meta of
        None \<Rightarrow> []
      | Some candidate_id \<Rightarrow>
          (case candidate_load c s candidate_id of
             Inl e \<Rightarrow> [problem i ''verifies candidate `{}` missing or unreadable ({})'' [candidate_id, error_chain e]]
           | Inr candidate \<Rightarrow>
               if cr_node candidate \<notin> set (nm_derived_from meta)
               then [problem i ''verifies candidate `{}` but does not derive from its source node `{}`''
                       [candidate_id, cr_node candidate]]
               else []))"

definition check_result ::
  "codec \<Rightarrow> store \<Rightarrow> string option \<Rightarrow> node_id \<Rightarrow> node_meta \<Rightarrow> string list" where
  "check_result c s repository i meta =
     (case read_result c s i of
        Inl e \<Rightarrow> [problem i ''unreadable result ({})'' [error_chain e]]
      | Inr None \<Rightarrow> []
      | Inr (Some (result, _)) \<Rightarrow>
          validate_result_semantics i meta result repository @ validate_verification_decision c s i meta result)"

definition check_observations :: "codec \<Rightarrow> store \<Rightarrow> node_id \<Rightarrow> string list" where
  "check_observations c s i =
     (case read_context_observations c s i of
        Inl e \<Rightarrow> [problem i ''unreadable context observation ({})'' [error_chain e]]
      | Inr observations \<Rightarrow>
          map (\<lambda>ob. problem i ''unsupported context observation schema {}'' [show_nat (co_schema ob)])
            (filter (\<lambda>ob. co_schema ob \<noteq> OBSERVATION_SCHEMA) observations))"

definition check_attachments :: "codec \<Rightarrow> store \<Rightarrow> node_id \<Rightarrow> string list" where
  "check_attachments c s i =
     (case list_node_attachments c s i of
        Inl e \<Rightarrow> [problem i ''unreadable attachment ({})'' [error_chain e]]
      | Inr _ \<Rightarrow> [])"

definition check_meta ::
  "codec \<Rightarrow> store \<Rightarrow> string option \<Rightarrow> node_id \<Rightarrow> node_meta \<Rightarrow> string list" where
  "check_meta c s repository i meta =
     (if nm_schema meta \<noteq> DEFINITION_SCHEMA
      then [problem i ''unsupported definition schema {}'' [show_nat (nm_schema meta)]] else []) @
     check_result c s repository i meta @
     check_observations c s i @
     check_attachments c s i @
     check_edges c s i ''depends_on'' [] (nm_depends_on meta) @
     check_edges c s i ''derived_from'' [] (nm_derived_from meta) @
     check_verifies c s i meta"

section \<open>Cycles\<close>

type_synonym dep_graph = "(node_id \<times> node_id list) list"

datatype visit_state = Visiting | VisitDone

definition children :: "dep_graph \<Rightarrow> node_id \<Rightarrow> node_id list" where
  "children g n = (case map_of g n of None \<Rightarrow> [] | Some deps \<Rightarrow> filter (\<lambda>d. d \<in> set (map fst g)) deps)"

definition cycle_report :: "node_id list \<Rightarrow> node_id \<Rightarrow> string" where
  "cycle_report stack n = ''dependency cycle: '' @ join_with '' -> '' (dropWhile (\<lambda>m. m \<noteq> n) stack @ [n])"

text \<open>\<open>visit\<close> on a list of nodes: the siblings of a call are visited in turn.\<close>

function visit ::
  "dep_graph \<Rightarrow> node_id list \<Rightarrow> (node_id \<times> visit_state) list \<Rightarrow> node_id list \<Rightarrow>
   (node_id \<times> visit_state) list \<times> string list" where
  "visit g stack st [] = (st, [])"
| "visit g stack st (n # ns) =
     (case map_of st n of
        Some VisitDone \<Rightarrow> visit g stack st ns
      | Some Visiting \<Rightarrow>
          (let rest = visit g stack st ns in (fst rest, cycle_report stack n # snd rest))
      | None \<Rightarrow>
          (let inner = visit g (stack @ [n]) ((n, Visiting) # st) (children g n);
               rest = visit g stack ((n, VisitDone) # fst inner) ns
           in (fst rest, snd inner @ snd rest)))"
  by pat_completeness auto

lemma visit_grows:
  "visit_dom (g, stack, st, ns) \<Longrightarrow> fst ` set st \<subseteq> fst ` set (fst (visit g stack st ns))"
proof (induction g stack st ns rule: visit.pinduct)
  case (1 g stack st)
  then show ?case by (simp add: visit.psimps)
next
  case (2 g stack st n ns)
  show ?case
  proof (cases "map_of st n")
    case None
    then show ?thesis using 2(1) 2(2) [OF None] 2(3) [OF None refl] by (auto simp: visit.psimps Let_def)
  next
    case (Some x)
    then show ?thesis using 2(1,4,5) by (cases x) (auto simp: visit.psimps Let_def)
  qed
qed

lemma children_known: "n \<notin> set (map fst g) \<Longrightarrow> children g n = []"
  by (simp add: children_def map_of_eq_None_iff split: option.splits)
    (metis map_of_eq_None_iff not_None_eq option.distinct(1) list.set_map)

termination visit
proof (relation "measures
    [\<lambda>(g, stack, st, ns). card (set (map fst g) - fst ` set st), \<lambda>(g, stack, st, ns). length ns]",
    goal_cases)
  case 1
  show ?case by simp
next
  case (2 g stack st n ns)
  show ?case
  proof (cases "n \<in> set (map fst g)")
    case True
    moreover have "n \<notin> fst ` set st" using 2 by (simp add: map_of_eq_None_iff)
    ultimately have "card (set (map fst g) - fst ` set ((n, Visiting) # st)) < card (set (map fst g) - fst ` set st)"
      by (intro psubset_card_mono) auto
    then show ?thesis by simp
  next
    case False
    then have "set (map fst g) - fst ` set ((n, Visiting) # st) = set (map fst g) - fst ` set st" by auto
    then show ?thesis using children_known [OF False] by simp
  qed
next
  case (3 g stack st n ns inner)
  have "fst ` set st \<subseteq> fst ` set ((n, VisitDone) # fst inner)"
    using visit_grows [OF 3(3)] 3(2) by auto
  then have "card (set (map fst g) - fst ` set ((n, VisitDone) # fst inner)) \<le> card (set (map fst g) - fst ` set st)"
    by (intro card_mono) auto
  then show ?case by auto
qed auto

definition find_cycles :: "dep_graph \<Rightarrow> string list" where
  "find_cycles g = snd (visit g [] [] (map fst g))"

section \<open>The check\<close>

fun check_nodes ::
  "codec \<Rightarrow> store \<Rightarrow> string option \<Rightarrow> node_id list \<Rightarrow> string list \<times> dep_graph" where
  "check_nodes c s repository [] = ([], [])"
| "check_nodes c s repository (i # is) =
     (let rest = check_nodes c s repository is in
      case read_node c s i of
        Inl e \<Rightarrow> (problem i ''unreadable definition ({})'' [error_chain e] # fst rest, snd rest)
      | Inr (meta, _) \<Rightarrow>
          (check_meta c s repository i meta @ fst rest, (i, nm_depends_on meta) # snd rest))"

definition check :: "codec \<Rightarrow> store \<Rightarrow> string list res" where
  "check c s =
     and_then (pairing_load c s) (\<lambda>pairing.
     and_then (list_ids s) (\<lambda>ids.
     let checked = check_nodes c s (map_option pa_root_commit pairing) ids in
     Inr (fst checked @ find_cycles (snd checked))))"

definition check_workbench :: "codec \<Rightarrow> 'v vcs \<Rightarrow> 'v workbench \<Rightarrow> string list res" where
  "check_workbench c V w =
     and_then (check c (wb_store w)) (\<lambda>problems.
     Inr (problems @
       (case v_require_clean_store V (wb_vcs w) (wb_store w) (store_name (wb_store w)) of
          Inl e \<Rightarrow> [fill ''store has uncommitted changes: {}'' [error_chain e]]
        | Inr _ \<Rightarrow> [])))"

definition retention_problem :: "'v vcs \<Rightarrow> 'v \<Rightarrow> node_id \<Rightarrow> artifact_ref \<Rightarrow> string list res" where
  "retention_problem V v i artifact =
     (if ar_scheme artifact \<noteq> ''git-commit'' then Inr []
      else
      and_then (v_ref_commit V v (output_ref i)) (\<lambda>found.
      Inr (case found of
             None \<Rightarrow> [problem i ''output retention ref is missing for artifact {}'' [ar_id artifact]]
           | Some retained \<Rightarrow>
               if retained \<noteq> ar_id artifact
               then [problem i ''output retention ref points to {}, expected {}'' [retained, ar_id artifact]]
               else [])))"

definition artifact_problem :: "'v vcs \<Rightarrow> 'v \<Rightarrow> node_id \<Rightarrow> artifact_ref \<Rightarrow> string list res" where
  "artifact_problem V v i artifact =
     (if ar_scheme artifact \<noteq> ''git-commit'' then Inr []
      else
      and_then (v_commit_exists V v (ar_id artifact)) (\<lambda>found.
      Inr (if \<not> found then [problem i ''artifact {} is not retained'' [ar_id artifact]] else [])))"

definition node_artifact_problems :: "codec \<Rightarrow> 'v vcs \<Rightarrow> 'v workbench \<Rightarrow> node_id \<Rightarrow> string list res" where
  "node_artifact_problems c V w i =
     and_then (read_result c (wb_store w) i) (\<lambda>found.
     case found of
       None \<Rightarrow> Inr []
     | Some (result, _) \<Rightarrow>
         and_then (case rm_output result of None \<Rightarrow> Inr [] | Some artifact \<Rightarrow> retention_problem V (wb_vcs w) i artifact) (\<lambda>retention.
         and_then (collect (artifact_problem V (wb_vcs w) i)
           ((case rm_output result of None \<Rightarrow> [] | Some artifact \<Rightarrow> [artifact]) @
            concat (map (\<lambda>pin. case cn_output pin of None \<Rightarrow> [] | Some artifact \<Rightarrow> [artifact]) (rm_consumed result)))) (\<lambda>missing.
         Inr (retention @ concat missing))))"

definition check_artifacts :: "codec \<Rightarrow> 'v vcs \<Rightarrow> 'v workbench \<Rightarrow> string list res" where
  "check_artifacts c V w =
     and_then (check_workbench c V w) (\<lambda>problems.
     and_then (list_ids (wb_store w)) (\<lambda>ids.
     and_then (collect (node_artifact_problems c V w) ids) (\<lambda>more.
     Inr (problems @ concat more))))"

section \<open>Facts about the search\<close>

definition dep_step :: "dep_graph \<Rightarrow> node_id \<Rightarrow> node_id \<Rightarrow> bool" where
  "dep_step g a b \<longleftrightarrow> b \<in> set (children g a)"

lemma visit_unfold:
  "map_of st n = Some VisitDone \<Longrightarrow> visit g stack st (n # ns) = visit g stack st ns"
  "map_of st n = Some Visiting \<Longrightarrow> visit g stack st (n # ns) =
     (fst (visit g stack st ns), cycle_report stack n # snd (visit g stack st ns))"
  by (simp_all add: Let_def)

lemma visit_new:
  assumes "map_of st n = None"
  obtains st1 out1 st2 out2 where
    "visit g (stack @ [n]) ((n, Visiting) # st) (children g n) = (st1, out1)"
    "visit g stack ((n, VisitDone) # st1) ns = (st2, out2)"
    "visit g stack st (n # ns) = (st2, out1 @ out2)"
  using assms by (auto simp: Let_def intro: that [OF surjective_pairing surjective_pairing])

declare visit.simps(2) [simp del]

text \<open>A call keeps every mark that was set, leaves no new node in progress, and marks every node asked.\<close>

definition visit_framed ::
  "(node_id \<times> visit_state) list \<Rightarrow> (node_id \<times> visit_state) list \<Rightarrow> node_id list \<Rightarrow> bool" where
  "visit_framed st st' ns \<longleftrightarrow>
     (\<forall>m x. map_of st m = Some x \<longrightarrow> map_of st' m = Some x) \<and>
     (\<forall>m. map_of st' m = Some Visiting \<longrightarrow> map_of st m = Some Visiting) \<and>
     (\<forall>n \<in> set ns. map_of st' n \<noteq> None)"

lemma visit_framedD:
  assumes "visit_framed st st' ns"
  shows "map_of st m = Some x \<Longrightarrow> map_of st' m = Some x"
    and "map_of st' m = Some Visiting \<Longrightarrow> map_of st m = Some Visiting"
    and "m \<in> set ns \<Longrightarrow> map_of st' m \<noteq> None"
  using assms unfolding visit_framed_def by blast+

lemma visit_framed_seen:
  assumes "visit_framed st st' ns" and "map_of st n = Some x"
  shows "visit_framed st st' (n # ns)"
  unfolding visit_framed_def
proof (intro conjI allI impI ballI)
  fix k
  assume "k \<in> set (n # ns)"
  then show "map_of st' k \<noteq> None"
    using visit_framedD(1) [OF assms(1,2)] visit_framedD(3) [OF assms(1), of k] by (cases "k = n") auto
qed (use visit_framedD(1,2) [OF assms(1)] in blast)+

lemma visit_framed_new:
  assumes "map_of st n = None" and "visit_framed ((n, Visiting) # st) st1 ms"
    and "visit_framed ((n, VisitDone) # st1) st2 ns"
  shows "visit_framed st st2 (n # ns)"
  unfolding visit_framed_def
proof (intro conjI allI impI ballI)
  fix m x
  assume m: "map_of st m = Some x"
  then have n: "m \<noteq> n" using assms(1) by auto
  then have "map_of st1 m = Some x" using visit_framedD(1) [OF assms(2), of m x] m by simp
  then show "map_of st2 m = Some x" using visit_framedD(1) [OF assms(3), of m x] n by simp
next
  fix m
  assume "map_of st2 m = Some Visiting"
  then have "map_of ((n, VisitDone) # st1) m = Some Visiting" by (rule visit_framedD(2) [OF assms(3)])
  then have n: "m \<noteq> n" "map_of st1 m = Some Visiting" by (auto split: if_splits)
  then have "map_of ((n, Visiting) # st) m = Some Visiting" by (intro visit_framedD(2) [OF assms(2)])
  then show "map_of st m = Some Visiting" using n(1) by simp
next
  fix k
  assume "k \<in> set (n # ns)"
  then show "map_of st2 k \<noteq> None"
    using visit_framedD(1) [OF assms(3), of n VisitDone] visit_framedD(3) [OF assms(3), of k] by (cases "k = n") auto
qed

lemma visit_frame: "visit_framed st (fst (visit g stack st ns)) ns"
proof (induction g stack st ns rule: visit.induct)
  case (1 g stack st)
  then show ?case by (simp add: visit_framed_def)
next
  case (2 g stack st n ns)
  show ?case
  proof (cases "map_of st n")
    case None
    obtain st1 out1 st2 out2 where
      inner: "visit g (stack @ [n]) ((n, Visiting) # st) (children g n) = (st1, out1)"
      and rest: "visit g stack ((n, VisitDone) # st1) ns = (st2, out2)"
      and all: "visit g stack st (n # ns) = (st2, out1 @ out2)"
      using None by (rule visit_new)
    note IH1 = 2(1) [OF None, unfolded inner fst_conv]
    note IH2 = 2(2) [OF None refl, unfolded inner fst_conv rest]
    show ?thesis unfolding all fst_conv by (rule visit_framed_new [OF None IH1 IH2])
  next
    case (Some x)
    show ?thesis
    proof (cases x)
      case Visiting
      show ?thesis
        using visit_framed_seen [OF 2(3) [OF Some Visiting] Some] visit_unfold(2) [of st n g stack ns] Some Visiting
        by simp
    next
      case VisitDone
      show ?thesis
        using visit_framed_seen [OF 2(4) [OF Some VisitDone] Some] visit_unfold(1) [of st n g stack ns] Some VisitDone
        by simp
    qed
  qed
qed

lemma visit_accessible:
  assumes "snd (visit g stack st ns) = []"
    and "\<forall>m. map_of st m = Some VisitDone \<longrightarrow> Wellfounded.accp (\<lambda>b a. dep_step g a b) m"
  shows "(\<forall>m. map_of (fst (visit g stack st ns)) m = Some VisitDone \<longrightarrow> Wellfounded.accp (\<lambda>b a. dep_step g a b) m) \<and>
    (\<forall>n \<in> set ns. map_of (fst (visit g stack st ns)) n = Some VisitDone)"
  using assms
proof (induction g stack st ns rule: visit.induct)
  case (1 g stack st)
  then show ?case by simp
next
  case (2 g stack st n ns)
  show ?case
  proof (cases "map_of st n")
    case None
    obtain st1 out1 st2 out2 where
      inner: "visit g (stack @ [n]) ((n, Visiting) # st) (children g n) = (st1, out1)"
      and rest: "visit g stack ((n, VisitDone) # st1) ns = (st2, out2)"
      and all: "visit g stack st (n # ns) = (st2, out1 @ out2)"
      using None by (rule visit_new)
    have outs: "out1 = []" "out2 = []" using 2(5) all by simp_all
    have IH1: "(\<forall>m. map_of st1 m = Some VisitDone \<longrightarrow> Wellfounded.accp (\<lambda>b a. dep_step g a b) m) \<and>
        (\<forall>k \<in> set (children g n). map_of st1 k = Some VisitDone)"
    proof (rule 2(1) [OF None, unfolded inner fst_conv snd_conv])
      show "\<forall>m. map_of ((n, Visiting) # st) m = Some VisitDone \<longrightarrow> Wellfounded.accp (\<lambda>b a. dep_step g a b) m"
      proof (intro allI impI)
        fix m
        assume "map_of ((n, Visiting) # st) m = Some VisitDone"
        then have "map_of st m = Some VisitDone" by (auto split: if_splits)
        then show "Wellfounded.accp (\<lambda>b a. dep_step g a b) m" using 2(6) by blast
      qed
    qed (rule outs)
    have "Wellfounded.accp (\<lambda>b a. dep_step g a b) n"
    proof (rule accp.accI)
      fix k
      assume "dep_step g n k"
      then show "Wellfounded.accp (\<lambda>b a. dep_step g a b) k" using IH1 unfolding dep_step_def by blast
    qed
    then have closed: "\<forall>m. map_of ((n, VisitDone) # st1) m = Some VisitDone \<longrightarrow> Wellfounded.accp (\<lambda>b a. dep_step g a b) m"
      using IH1 by simp
    have "(\<forall>m. map_of st2 m = Some VisitDone \<longrightarrow> Wellfounded.accp (\<lambda>b a. dep_step g a b) m) \<and>
        (\<forall>k \<in> set ns. map_of st2 k = Some VisitDone)"
      using 2(2) [OF None refl, unfolded inner fst_conv snd_conv rest] outs closed by blast
    moreover have "map_of st2 n = Some VisitDone"
      using visit_framedD(1) [OF visit_frame [of "(n, VisitDone) # st1" g stack ns], of n] rest by simp
    ultimately show ?thesis unfolding all by simp
  next
    case (Some x)
    have "x = VisitDone" using Some 2(5) visit_unfold(2) [of st n g stack ns] by (cases x) auto
    then have vis: "visit g stack st (n # ns) = visit g stack st ns"
      using visit_unfold(1) [of st n g stack ns] Some by simp
    have "map_of (fst (visit g stack st ns)) n = Some VisitDone"
      using visit_framedD(1) [OF visit_frame, of st n] Some \<open>x = VisitDone\<close> by blast
    moreover have "(\<forall>m. map_of (fst (visit g stack st ns)) m = Some VisitDone \<longrightarrow> Wellfounded.accp (\<lambda>b a. dep_step g a b) m) \<and>
        (\<forall>k \<in> set ns. map_of (fst (visit g stack st ns)) k = Some VisitDone)"
      using 2(4) [OF Some \<open>x = VisitDone\<close>] 2(5,6) unfolding vis by blast
    ultimately show ?thesis unfolding vis by (metis set_ConsD)
  qed
qed

lemma path_reaches: "successively R (n # ys) \<Longrightarrow> R\<^sup>*\<^sup>* n (last (n # ys))"
proof (induction ys arbitrary: n)
  case (Cons y ys)
  then have "R n y" "R\<^sup>*\<^sup>* y (last (y # ys))" by auto
  then show ?case by (simp add: converse_rtranclp_into_rtranclp)
qed simp

lemma back_edge_cycle:
  assumes "successively R stack" and "n \<in> set stack" and "R (last stack) n"
  shows "R\<^sup>+\<^sup>+ n n"
proof -
  obtain xs ys where stack: "stack = xs @ n # ys" using assms(2) by (auto dest: split_list)
  then have "R\<^sup>*\<^sup>* n (last (n # ys))"
    using assms(1) by (intro path_reaches) (auto simp: successively_append_iff)
  then show ?thesis using assms(3) stack by (simp add: rtranclp_into_tranclp1)
qed

lemma visit_reports_cycles:
  assumes "snd (visit g stack st ns) \<noteq> []"
    and "\<forall>m. map_of st m = Some Visiting \<longleftrightarrow> m \<in> set stack" and "successively (dep_step g) stack"
    and "\<forall>n \<in> set ns. stack = [] \<or> dep_step g (last stack) n"
  shows "\<exists>m. (dep_step g)\<^sup>+\<^sup>+ m m"
  using assms
proof (induction g stack st ns rule: visit.induct)
  case (1 g stack st)
  then show ?case by simp
next
  case (2 g stack st n ns)
  show ?case
  proof (cases "map_of st n")
    case None
    obtain st1 out1 st2 out2 where
      inner: "visit g (stack @ [n]) ((n, Visiting) # st) (children g n) = (st1, out1)"
      and rest: "visit g stack ((n, VisitDone) # st1) ns = (st2, out2)"
      and all: "visit g stack st (n # ns) = (st2, out1 @ out2)"
      using None by (rule visit_new)
    have path: "successively (dep_step g) (stack @ [n])"
      using 2(7,8) by (auto simp: successively_append_iff)
    show ?thesis
    proof (cases "out1 = []")
      case False
      show ?thesis
      proof (rule 2(1) [OF None])
        show "snd (visit g (stack @ [n]) ((n, Visiting) # st) (children g n)) \<noteq> []"
          using False inner by simp
        show "\<forall>m. (map_of ((n, Visiting) # st) m = Some Visiting) = (m \<in> set (stack @ [n]))"
          using 2(6) by auto
      qed (use path in \<open>auto simp: dep_step_def\<close>)
    next
      case True
      have "n \<notin> set stack" using 2(6) None by force
      moreover have "map_of st1 m = Some Visiting \<longleftrightarrow> m \<in> set stack" if "m \<noteq> n" for m
        using visit_framedD(1) [OF visit_frame, of "(n, Visiting) # st" m Visiting g "stack @ [n]" "children g n"]
          visit_framedD(2) [OF visit_frame, of g "stack @ [n]" "(n, Visiting) # st" "children g n" m]
          inner 2(6) that by auto
      ultimately have visiting: "map_of ((n, VisitDone) # st1) m = Some Visiting \<longleftrightarrow> m \<in> set stack" for m
        by (cases "m = n") auto
      show ?thesis
      proof (rule 2(2) [OF None refl])
        show "snd (visit g stack ((n, VisitDone) # fst (visit g (stack @ [n]) ((n, Visiting) # st) (children g n))) ns) \<noteq> []"
          using True inner rest all 2(5) by simp
        show "\<forall>m. (map_of ((n, VisitDone) # fst (visit g (stack @ [n]) ((n, Visiting) # st) (children g n))) m =
            Some Visiting) = (m \<in> set stack)"
          unfolding inner fst_conv using visiting by blast
      qed (use 2(7,8) in auto)
    qed
  next
    case (Some x)
    show ?thesis
    proof (cases x)
      case VisitDone
      then have vis: "visit g stack st (n # ns) = visit g stack st ns"
        using visit_unfold(1) [of st n g stack ns] Some by simp
      show ?thesis using 2(4) [OF Some VisitDone] 2(5-8) unfolding vis by simp
    next
      case Visiting
      then have on: "n \<in> set stack" using Some 2(6) by simp
      then have "dep_step g (last stack) n" using 2(8) by auto
      with back_edge_cycle [OF 2(7) on] show ?thesis by blast
    qed
  qed
qed

lemma find_cycles_Nil: "find_cycles g = [] \<longleftrightarrow> \<not> (\<exists>m. (dep_step g)\<^sup>+\<^sup>+ m m)"
proof
  assume none: "find_cycles g = []"
  show "\<not> (\<exists>m. (dep_step g)\<^sup>+\<^sup>+ m m)"
  proof
    assume "\<exists>m. (dep_step g)\<^sup>+\<^sup>+ m m"
    then obtain m where m: "(dep_step g)\<^sup>+\<^sup>+ m m" by blast
    then obtain y where "dep_step g m y" by (meson tranclpD)
    then have "m \<in> set (map fst g)"
      using children_known [of m g] unfolding dep_step_def by (metis empty_iff list.set(1))
    moreover have "(\<forall>m. map_of (fst (visit g [] [] (map fst g))) m = Some VisitDone \<longrightarrow>
          Wellfounded.accp (\<lambda>b a. dep_step g a b) m) \<and>
        (\<forall>n \<in> set (map fst g). map_of (fst (visit g [] [] (map fst g))) n = Some VisitDone)"
      by (rule visit_accessible) (use none in \<open>simp_all add: find_cycles_def\<close>)
    ultimately have "Wellfounded.accp (\<lambda>b a. dep_step g a b) m" by blast
    then show False using accessible_no_cycle m by fast
  qed
next
  assume "\<not> (\<exists>m. (dep_step g)\<^sup>+\<^sup>+ m m)"
  then show "find_cycles g = []"
    using visit_reports_cycles [of g "[]" "[]" "map fst g"] by (auto simp: find_cycles_def)
qed

end
