(* ===== verification/Linka_Check_Spec.thy ===== *)
theory Linka_Check_Spec
  imports Linka_Check
begin

text \<open>
  What a clean check promises (\<open>linka/src/ops/check.rs\<close>): a declarative description of a sound
  store, one predicate per group of problems, and the equivalence of an empty problem list with it.
\<close>

section \<open>Sound records\<close>

definition sound_artifact :: "string option \<Rightarrow> artifact_ref \<Rightarrow> bool" where
  "sound_artifact repository artifact \<longleftrightarrow>
     ar_scheme artifact = ''git-commit'' \<and>
     length (ar_repository artifact) = 40 \<and> list_all is_ascii_hexdigit (ar_repository artifact) \<and>
     (\<forall>expected. repository = Some expected \<longrightarrow> ar_repository artifact = expected)"

definition sound_pin :: "node_meta \<Rightarrow> result_outcome \<Rightarrow> string option \<Rightarrow> consumed_node \<Rightarrow> bool" where
  "sound_pin meta x repository pin \<longleftrightarrow>
     cn_id pin \<in> set (nm_depends_on meta) \<union> set (nm_derived_from meta) \<and>
     (cn_id pin \<in> set (nm_depends_on meta) \<longrightarrow> outcome_requires_full_pins x \<longrightarrow>
        cn_result pin \<noteq> None \<and> (\<exists>y. cn_outcome pin = Some y \<and> result_satisfies_dependency y)) \<and>
     (\<forall>artifact. cn_output pin = Some artifact \<longrightarrow> sound_artifact repository artifact)"

definition sound_result :: "node_meta \<Rightarrow> result_meta \<Rightarrow> string option \<Rightarrow> bool" where
  "sound_result meta result repository \<longleftrightarrow>
     rm_schema result = RESULT_SCHEMA \<and>
     outcome_kind_matches (nm_verifies meta \<noteq> None) (rm_outcome result) \<and>
     (nm_verifies meta \<noteq> None \<longrightarrow> rm_output result = None) \<and>
     distinct (map cn_id (rm_consumed result)) \<and>
     (\<forall>pin \<in> set (rm_consumed result). sound_pin meta (rm_outcome result) repository pin) \<and>
     (outcome_requires_full_pins (rm_outcome result) \<longrightarrow>
        set (nm_depends_on meta) \<union> set (nm_derived_from meta) = cn_id ` set (rm_consumed result)) \<and>
     distinct (map cp_path (rm_context result)) \<and>
     (\<forall>artifact. rm_output result = Some artifact \<longrightarrow> sound_artifact repository artifact)"

definition sound_edges :: "codec \<Rightarrow> store \<Rightarrow> node_id \<Rightarrow> node_id list \<Rightarrow> bool" where
  "sound_edges c s i deps \<longleftrightarrow>
     distinct deps \<and> i \<notin> set deps \<and> (\<forall>dep \<in> set deps. is_ok (read_node c s dep))"

definition sound_verifies :: "codec \<Rightarrow> store \<Rightarrow> node_id \<Rightarrow> node_meta \<Rightarrow> bool" where
  "sound_verifies c s i meta \<longleftrightarrow>
     (\<forall>k. nm_verifies meta = Some k \<longrightarrow>
        (\<exists>candidate. candidate_load c s k = Inr candidate \<and> cr_node candidate \<in> set (nm_derived_from meta) \<and>
          (\<forall>result v. read_result c s i = Inr (Some (result, v)) \<longrightarrow>
             decision_matches i (rm_outcome result) (cr_state candidate))))"

definition sound_node :: "codec \<Rightarrow> store \<Rightarrow> string option \<Rightarrow> node_id \<Rightarrow> node_meta \<Rightarrow> bool" where
  "sound_node c s repository i meta \<longleftrightarrow>
     nm_schema meta = DEFINITION_SCHEMA \<and>
     (\<exists>found. read_result c s i = Inr found \<and>
        (\<forall>result v. found = Some (result, v) \<longrightarrow> sound_result meta result repository)) \<and>
     (\<exists>observations. read_context_observations c s i = Inr observations \<and>
        (\<forall>ob \<in> set observations. co_schema ob = OBSERVATION_SCHEMA)) \<and>
     is_ok (list_node_attachments c s i) \<and>
     sound_edges c s i (nm_depends_on meta) \<and> sound_edges c s i (nm_derived_from meta) \<and>
     sound_verifies c s i meta"

text \<open>Every listed node is readable and sound, and no chain of required dependencies closes.\<close>

definition sound_store :: "codec \<Rightarrow> store \<Rightarrow> bool" where
  "sound_store c s \<longleftrightarrow>
     (\<exists>pairing ids. pairing_load c s = Inr pairing \<and> list_ids s = Inr ids \<and>
        (\<forall>i \<in> set ids. \<exists>meta v. read_node c s i = Inr (meta, v) \<and>
           sound_node c s (map_option pa_root_commit pairing) i meta) \<and>
        \<not> (\<exists>i. (dep_edge c s)\<^sup>+\<^sup>+ i i))"

section \<open>Each group of problems\<close>

lemma validate_artifact_Nil: "validate_artifact i artifact repository = [] \<longleftrightarrow> sound_artifact repository artifact"
  by (auto simp: validate_artifact_def sound_artifact_def split: option.splits)

lemma check_pin_Nil: "check_pin i meta x repository pin = [] \<longleftrightarrow> sound_pin meta x repository pin"
  by (auto simp: check_pin_def sound_pin_def validate_artifact_Nil Let_def split: option.splits)

lemma check_pins_Nil:
  "check_pins i meta x repository seen pins = [] \<longleftrightarrow>
     distinct (map cn_id pins) \<and> set seen \<inter> cn_id ` set pins = {} \<and>
     (\<forall>pin \<in> set pins. sound_pin meta x repository pin)"
  by (induction i meta x repository seen pins rule: check_pins.induct) (auto simp: check_pin_Nil)

lemma duplicate_context_Nil:
  "duplicate_context i seen paths = [] \<longleftrightarrow> distinct paths \<and> set seen \<inter> set paths = {}"
  by (induction i seen paths rule: duplicate_context.induct) auto

lemma validate_result_semantics_Nil:
  "validate_result_semantics i meta result repository = [] \<longleftrightarrow> sound_result meta result repository"
  unfolding validate_result_semantics_def sound_result_def
  by (cases "rm_output result")
    (auto simp: check_pins_Nil duplicate_context_Nil validate_artifact_Nil filter_empty_conv sound_pin_def
      split: option.splits if_splits)

lemma check_edges_Nil:
  "check_edges c s i kind seen deps = [] \<longleftrightarrow> sound_edges c s i deps \<and> set seen \<inter> set deps = {}"
  by (induction c s i kind seen deps rule: check_edges.induct) (auto simp: sound_edges_def)

lemma check_meta_Nil: "check_meta c s repository i meta = [] \<longleftrightarrow> sound_node c s repository i meta"
proof -
  have result: "check_result c s repository i meta = [] \<longleftrightarrow>
      (\<exists>found. read_result c s i = Inr found \<and>
        (\<forall>result v. found = Some (result, v) \<longrightarrow>
           sound_result meta result repository \<and> validate_verification_decision c s i meta result = []))"
    by (auto simp: check_result_def validate_result_semantics_Nil split: sum.splits option.splits)
  have decision: "validate_verification_decision c s i meta result = [] \<longleftrightarrow>
      (\<forall>k candidate. nm_verifies meta = Some k \<longrightarrow> candidate_load c s k = Inr candidate \<longrightarrow>
         decision_matches i (rm_outcome result) (cr_state candidate))" for result
    by (auto simp: validate_verification_decision_def split: sum.splits option.splits)
  have verifies: "check_verifies c s i meta = [] \<longleftrightarrow>
      (\<forall>k. nm_verifies meta = Some k \<longrightarrow>
         (\<exists>candidate. candidate_load c s k = Inr candidate \<and> cr_node candidate \<in> set (nm_derived_from meta)))"
    by (auto simp: check_verifies_def split: sum.splits option.splits)
  have observations: "check_observations c s i = [] \<longleftrightarrow>
      (\<exists>observations. read_context_observations c s i = Inr observations \<and>
        (\<forall>ob \<in> set observations. co_schema ob = OBSERVATION_SCHEMA))"
    by (auto simp: check_observations_def filter_empty_conv split: sum.splits)
  have attachments: "check_attachments c s i = [] \<longleftrightarrow> is_ok (list_node_attachments c s i)"
    by (auto simp: check_attachments_def split: sum.splits)
  have schema: "(if nm_schema meta \<noteq> DEFINITION_SCHEMA
      then [problem i ''unsupported definition schema {}'' [show_nat (nm_schema meta)]] else []) = [] \<longleftrightarrow>
      nm_schema meta = DEFINITION_SCHEMA" by simp
  show ?thesis
    unfolding check_meta_def append_is_Nil_conv result decision verifies observations attachments schema
      check_edges_Nil sound_node_def sound_verifies_def
    by (cases "nm_verifies meta"; cases "read_result c s i") auto
qed

lemma check_nodes_Nil:
  "fst (check_nodes c s repository is) = [] \<longleftrightarrow>
     (\<forall>i \<in> set is. \<exists>meta v. read_node c s i = Inr (meta, v) \<and> check_meta c s repository i meta = [])"
  by (induction "is") (auto simp: Let_def split: sum.splits)

lemma check_nodes_graph:
  "map_of (snd (check_nodes c s repository is)) i =
     (if i \<in> set is then (case read_node c s i of Inl _ \<Rightarrow> None | Inr (meta, _) \<Rightarrow> Some (nm_depends_on meta))
      else None)"
  by (induction "is") (auto simp: Let_def split: sum.splits)

section \<open>The dependency graph\<close>

text \<open>An edge of the graph as written, whether or not its target is a listed node.\<close>

definition listed_edge :: "dep_graph \<Rightarrow> node_id \<Rightarrow> node_id \<Rightarrow> bool" where
  "listed_edge g a b \<longleftrightarrow> (\<exists>deps. map_of g a = Some deps \<and> b \<in> set deps)"

lemma dep_step_iff: "dep_step g a b \<longleftrightarrow> listed_edge g a b \<and> b \<in> set (map fst g)"
  by (cases "map_of g a") (auto simp: dep_step_def listed_edge_def children_def)

lemma edge_chain:
  assumes "(listed_edge g)\<^sup>+\<^sup>+ a b" and "b \<in> set (map fst g)"
  shows "(dep_step g)\<^sup>+\<^sup>+ a b"
  using assms
proof (induction rule: converse_tranclp_induct)
  case (base y)
  then show ?case by (simp add: dep_step_iff tranclp.r_into_trancl)
next
  case (step y z)
  have rest: "(dep_step g)\<^sup>+\<^sup>+ z b" using step by blast
  have "z \<in> set (map fst g)"
    using step.hyps(2) by (meson listed_edge_def map_of_in_keys tranclpD)
  then have "dep_step g y z" using step.hyps(1) by (simp add: dep_step_iff)
  then show ?case using rest by (rule tranclp_into_tranclp2)
qed

lemma dep_step_edge: "(dep_step g)\<^sup>+\<^sup>+ a b \<Longrightarrow> (listed_edge g)\<^sup>+\<^sup>+ a b"
  by (induction rule: tranclp_induct) (auto simp: dep_step_iff intro: tranclp.intros)

lemma closed_edge_chain: "(dep_step g)\<^sup>+\<^sup>+ i i \<longleftrightarrow> (listed_edge g)\<^sup>+\<^sup>+ i i"
proof
  assume edges: "(listed_edge g)\<^sup>+\<^sup>+ i i"
  then have "i \<in> set (map fst g)" by (meson listed_edge_def map_of_in_keys tranclpD)
  with edges show "(dep_step g)\<^sup>+\<^sup>+ i i" by (rule edge_chain)
qed (rule dep_step_edge)

lemma checked_graph_edges:
  assumes "list_ids s = Inr ids" and "\<forall>i \<in> set ids. \<exists>meta v. read_node c s i = Inr (meta, v)"
  shows "dep_step (snd (check_nodes c s repository ids)) = dep_edge c s"
proof (intro ext)
  fix a b
  let ?g = "snd (check_nodes c s repository ids)"
  have listed: "exists_node s n \<Longrightarrow> n \<in> set ids" for n
    using list_ids_set [OF assms(1)] exists_node_dom by simp
  have readable: "exists_node s n" if "load_definition c s n = Inr d" for n d
    using that by (rule load_definition_exists)
  have keys: "n \<in> set (map fst ?g) \<longleftrightarrow> n \<in> set ids" for n
    using assms(2) unfolding keys_iff_map_of check_nodes_graph by (cases "n \<in> set ids") force+
  have edge: "listed_edge ?g a b \<longleftrightarrow>
      a \<in> set ids \<and> (\<exists>d. load_definition c s a = Inr d \<and> b \<in> set (nm_depends_on (ld_meta d)))"
    unfolding listed_edge_def check_nodes_graph read_node_def
    by (cases "load_definition c s a") simp_all
  have "b \<in> set ids \<longleftrightarrow> exists_node s b"
    using listed [of b] assms(2) readable by (auto simp: read_node_def result_simps)
  then show "dep_step ?g a b = dep_edge c s a b"
    unfolding dep_step_iff edge dep_edge_def keys using listed [of a] readable by blast
qed

section \<open>The promises\<close>

text \<open>
  Cycle reports. The cycle search reports nothing exactly when the dependency lists form no
  cycle, whichever edges lead out of the listed nodes and in whichever order they are visited.
\<close>

theorem cycles_reported_exactly:
  "find_cycles g = [] \<longleftrightarrow> \<not> (\<exists>i. (listed_edge g)\<^sup>+\<^sup>+ i i)"
  by (simp add: find_cycles_Nil closed_edge_chain)

lemma check_exact: "check c s = Inr [] \<longleftrightarrow> sound_store c s"
proof (cases "\<exists>pairing ids. pairing_load c s = Inr pairing \<and> list_ids s = Inr ids")
  case False
  then show ?thesis by (auto simp: check_def sound_store_def Let_def result_simps)
next
  case True
  then obtain pairing ids where loaded: "pairing_load c s = Inr pairing" "list_ids s = Inr ids" by blast
  let ?r = "map_option pa_root_commit pairing"
  have cycles: "find_cycles (snd (check_nodes c s ?r ids)) = [] \<longleftrightarrow> \<not> (\<exists>i. (dep_edge c s)\<^sup>+\<^sup>+ i i)"
    if "\<forall>i \<in> set ids. \<exists>meta v. read_node c s i = Inr (meta, v) \<and> sound_node c s ?r i meta"
    using checked_graph_edges [OF loaded(2), of c ?r] that find_cycles_Nil by fastforce
  have "check c s = Inr [] \<longleftrightarrow>
      fst (check_nodes c s ?r ids) = [] \<and> find_cycles (snd (check_nodes c s ?r ids)) = []"
    using loaded by (simp add: check_def Let_def)
  then show ?thesis
    using cycles loaded unfolding check_nodes_Nil check_meta_Nil sound_store_def by auto
qed

text \<open>
  C38. A clean check. \<open>check\<close> returns no problem exactly for the stores described by
  \<open>sound_store\<close>: every listed node is readable, its edges are distinct, name readable nodes and
  never the node itself, its result has the kind of the node and the pins its outcome demands, a
  verification agrees with its candidate's decision, and no chain of dependencies closes. A damaged
  node never makes the check itself fail: it fails only on the pairing and on the listing.
\<close>

theorem check_is_exact:
  "(check c s = Inr [] \<longleftrightarrow> sound_store c s) \<and>
   (is_ok (check c s) \<longleftrightarrow> is_ok (pairing_load c s) \<and> is_ok (list_ids s))"
proof
  show "is_ok (check c s) \<longleftrightarrow> is_ok (pairing_load c s) \<and> is_ok (list_ids s)"
    by (auto simp: check_def Let_def result_simps)
qed (rule check_exact)

lemma collect_Nils: "(\<exists>ys. collect f xs = Inr ys \<and> concat ys = []) \<longleftrightarrow> (\<forall>x \<in> set xs. f x = Inr [])"
proof (induction xs)
  case (Cons x xs)
  have "(\<exists>ys. collect f (x # xs) = Inr ys \<and> concat ys = []) \<longleftrightarrow>
      f x = Inr [] \<and> (\<exists>ys. collect f xs = Inr ys \<and> concat ys = [])"
    by (auto simp: result_simps)
  then show ?case using Cons.IH by simp
qed simp

text \<open>Every Git commit a result names: its own output and the outputs it was built against.\<close>

definition result_artifacts :: "result_meta \<Rightarrow> artifact_ref set" where
  "result_artifacts result =
     {artifact. rm_output result = Some artifact \<or> (\<exists>pin \<in> set (rm_consumed result). cn_output pin = Some artifact)}"

definition retained_artifacts :: "codec \<Rightarrow> 'v vcs \<Rightarrow> 'v workbench \<Rightarrow> node_id \<Rightarrow> bool" where
  "retained_artifacts c V w i \<longleftrightarrow>
     (\<exists>found. read_result c (wb_store w) i = Inr found \<and>
        (\<forall>result v. found = Some (result, v) \<longrightarrow>
           (\<forall>artifact \<in> result_artifacts result. ar_scheme artifact = ''git-commit'' \<longrightarrow>
              v_commit_exists V (wb_vcs w) (ar_id artifact) = Inr True) \<and>
           (\<forall>artifact. rm_output result = Some artifact \<longrightarrow> ar_scheme artifact = ''git-commit'' \<longrightarrow>
              v_ref_commit V (wb_vcs w) (output_ref i) = Inr (Some (ar_id artifact)))))"

lemma artifact_problem_Nil:
  "artifact_problem V v i artifact = Inr [] \<longleftrightarrow>
     (ar_scheme artifact = ''git-commit'' \<longrightarrow> v_commit_exists V v (ar_id artifact) = Inr True)"
  by (auto simp: artifact_problem_def result_simps)

lemma retention_problem_Nil:
  "retention_problem V v i artifact = Inr [] \<longleftrightarrow>
     (ar_scheme artifact = ''git-commit'' \<longrightarrow> v_ref_commit V v (output_ref i) = Inr (Some (ar_id artifact)))"
  by (auto simp: retention_problem_def result_simps split: option.splits if_splits)

lemma node_artifact_problems_Nil: "node_artifact_problems c V w i = Inr [] \<longleftrightarrow> retained_artifacts c V w i"
proof (cases "read_result c (wb_store w) i")
  case (Inl e)
  then show ?thesis by (simp add: node_artifact_problems_def retained_artifacts_def)
next
  case (Inr found)
  show ?thesis
  proof (cases found)
    case None
    then show ?thesis using Inr by (simp add: node_artifact_problems_def retained_artifacts_def)
  next
    case (Some rv)
    obtain result v where rv: "rv = (result, v)" by fastforce
    let ?all = "(case rm_output result of None \<Rightarrow> [] | Some artifact \<Rightarrow> [artifact]) @
        concat (map (\<lambda>pin. case cn_output pin of None \<Rightarrow> [] | Some artifact \<Rightarrow> [artifact]) (rm_consumed result))"
    have all: "set ?all = result_artifacts result"
      by (auto simp: result_artifacts_def split: option.splits)
    have "node_artifact_problems c V w i = Inr [] \<longleftrightarrow>
        (case rm_output result of None \<Rightarrow> Inr [] | Some artifact \<Rightarrow> retention_problem V (wb_vcs w) i artifact) = Inr [] \<and>
        (\<exists>missing. collect (artifact_problem V (wb_vcs w) i) ?all = Inr missing \<and> concat missing = [])"
      using Inr Some rv by (auto simp: node_artifact_problems_def result_simps)
    then show ?thesis
      using Inr Some rv unfolding collect_Nils all artifact_problem_Nil retained_artifacts_def
      by (cases "rm_output result") (auto simp: retention_problem_Nil)
  qed
qed

text \<open>
  A clean artifact check. \<open>check_artifacts\<close> returns no problem exactly when the store is
  sound, nothing in it is uncommitted, every Git commit a result names is still in the repository,
  and every recorded output is the commit its node's retention ref names.
\<close>

theorem artifact_check_is_exact:
  "check_artifacts c V w = Inr [] \<longleftrightarrow>
     sound_store c (wb_store w) \<and> store_clean V w \<and>
     (\<exists>ids. list_ids (wb_store w) = Inr ids \<and> list_all (retained_artifacts c V w) ids)"
proof -
  have clean: "check_workbench c V w = Inr [] \<longleftrightarrow> check c (wb_store w) = Inr [] \<and> store_clean V w"
    by (auto simp: check_workbench_def store_clean_def result_simps split: sum.splits)
  have "check_artifacts c V w = Inr [] \<longleftrightarrow>
      check_workbench c V w = Inr [] \<and>
      (\<exists>ids. list_ids (wb_store w) = Inr ids \<and>
         (\<exists>more. collect (node_artifact_problems c V w) ids = Inr more \<and> concat more = []))"
    by (auto simp: check_artifacts_def result_simps)
  then show ?thesis
    unfolding clean collect_Nils node_artifact_problems_Nil list_all_iff
    by (simp add: conj_assoc sound_store_def [symmetric] check_exact)
qed

text \<open>
  Unpaired outputs. An output captured while the store is unpaired is recorded with an empty repository, which the
  check then reports.
\<close>

theorem unpaired_output_fails_check:
  assumes "pairing_load c s = Inr None" and "git_artifact c s commit = Inr artifact"
  shows "validate_artifact i artifact repository \<noteq> []"
  using assms by (auto simp: git_artifact_def paired_repository_def validate_artifact_def result_simps)

theorem unpaired_output_fails_check_witness:
  "validate_artifact ''a'' \<lparr>ar_scheme = ''git-commit'', ar_repository = [], ar_id = ''c1''\<rparr> None \<noteq> []"
proof (rule unpaired_output_fails_check)
  show "pairing_load wb_codec sample_store = Inr None" by code_simp
  show "git_artifact wb_codec sample_store ''c1'' =
      Inr \<lparr>ar_scheme = ''git-commit'', ar_repository = [], ar_id = ''c1''\<rparr>" by code_simp
qed

end
