(* ===== verification/Linka_Pairing.thy ===== *)
theory Linka_Pairing
  imports Linka_Check_Spec
begin

text \<open>
  Recording and verifying which project a store describes (\<open>linka/src/ops/pairing_ops.rs\<close>). The
  clock of \<open>now_millis\<close> is an argument.
\<close>

section \<open>Operations\<close>

definition em_dash :: string where "em_dash = [CHR 0xE2, CHR 0x80, CHR 0x94]"

text \<open>The informational fields of a re-pair: a given name wins, a present remote wins.\<close>

definition refreshed :: "pairing \<Rightarrow> string option \<Rightarrow> string option \<Rightarrow> pairing" where
  "refreshed existing name remote =
     existing\<lparr>pa_name := (case name of None \<Rightarrow> pa_name existing | Some n \<Rightarrow> Some n),
              pa_remote := (case remote of None \<Rightarrow> pa_remote existing | Some r \<Rightarrow> Some r)\<rparr>"

definition save_and_commit :: "codec \<Rightarrow> 'v vcs \<Rightarrow> pairing \<Rightarrow> string \<Rightarrow> ('v, pairing) wb_op" where
  "save_and_commit c V p message =
     st_then (on_store (pairing_save c p)) (\<lambda>_.
     st_then (mutation_commit V message) (\<lambda>_. st_return p))"

definition pair_locked ::
  "codec \<Rightarrow> 'v vcs \<Rightarrow> int \<Rightarrow> string option \<Rightarrow> bool \<Rightarrow> ('v, pairing) wb_op" where
  "pair_locked c V now name force =
     st_then (st_read (\<lambda>w. v_root_commit V (wb_vcs w))) (\<lambda>found.
     case found of
       None \<Rightarrow> st_fail (Bail ''the project repository has no commits yet {} nothing to pair to'' [em_dash])
     | Some root \<Rightarrow>
         st_then (st_read (\<lambda>w. v_remote_url V (wb_vcs w))) (\<lambda>remote.
         st_then (st_read (\<lambda>w. pairing_load c (wb_store w))) (\<lambda>recorded.
         let fresh = save_and_commit c V
               \<lparr>pa_schema = 1, pa_root_commit = root, pa_paired_at = now, pa_name = name, pa_remote = remote\<rparr>
               ''linka: pair project''
         in case recorded of
              None \<Rightarrow> fresh
            | Some existing \<Rightarrow>
                if pa_root_commit existing = root
                then (let updated = refreshed existing name remote in
                      if pa_name updated = pa_name existing \<and> pa_remote updated = pa_remote existing
                      then st_return existing
                      else save_and_commit c V updated ''linka: pair project (update info)'')
                else if \<not> force
                then st_fail (Bail (''store is paired to project root {} but the project's root is {} {} '' @
                         ''wrong project in the workbench, or a rewritten history '' @
                         ''(re-pair with --force if this is intentional)'')
                       [short (pa_root_commit existing), short root, em_dash])
                else fresh)))"

definition pair ::
  "codec \<Rightarrow> 'v vcs \<Rightarrow> int \<Rightarrow> string option \<Rightarrow> bool \<Rightarrow> ('v, pairing) wb_op" where
  "pair c V now name force = with_mutation V (pair_locked c V now name force)"

definition root_problems :: "pairing \<Rightarrow> string option \<Rightarrow> string list" where
  "root_problems p found =
     (case found of
        None \<Rightarrow> [fill ''project repository has no commits, but the store is paired to root {}''
                  [short (pa_root_commit p)]]
      | Some actual \<Rightarrow>
          if actual \<noteq> pa_root_commit p
          then [fill (''project root commit is {} but the store is paired to {} {} '' @
                      ''wrong project in the workbench, or a rewritten history '' @
                      ''(`linka pair --force` re-pairs deliberately)'')
                  [short actual, short (pa_root_commit p), em_dash]]
          else [])"

definition missing_commit :: "'v vcs \<Rightarrow> 'v \<Rightarrow> string \<Rightarrow> string \<Rightarrow> string list res" where
  "missing_commit V v commit message =
     and_then (v_commit_exists V v commit) (\<lambda>found. Inr (if found then [] else [message]))"

definition deep_problems :: "codec \<Rightarrow> 'v vcs \<Rightarrow> 'v workbench \<Rightarrow> node_id \<Rightarrow> string list res" where
  "deep_problems c V w i =
     and_then (read_result c (wb_store w) i) (\<lambda>found.
     case found of
       None \<Rightarrow> Inr []
     | Some (result, _) \<Rightarrow>
         and_then (case rm_output result of
                     None \<Rightarrow> Inr []
                   | Some artifact \<Rightarrow> missing_commit V (wb_vcs w) (ar_id artifact)
                       (problem i ''output commit {} does not exist in the project repository''
                          [short (ar_id artifact)])) (\<lambda>own.
         and_then (collect (\<lambda>pin. case cn_output pin of
                     None \<Rightarrow> Inr []
                   | Some artifact \<Rightarrow> missing_commit V (wb_vcs w) (ar_id artifact)
                       (problem i ''built-against output {} (of {}) does not exist in the project repository''
                          [short (ar_id artifact), cn_id pin])) (rm_consumed result)) (\<lambda>built.
         Inr (own @ concat built))))"

definition verify_pairing ::
  "codec \<Rightarrow> 'v vcs \<Rightarrow> bool \<Rightarrow> 'v workbench \<Rightarrow> (pairing option \<times> string list) res" where
  "verify_pairing c V deep w =
     and_then (pairing_load c (wb_store w)) (\<lambda>found.
     case found of
       None \<Rightarrow> Inr (None, [])
     | Some p \<Rightarrow>
         and_then (v_root_commit V (wb_vcs w)) (\<lambda>root.
         if \<not> deep then Inr (Some p, root_problems p root)
         else
         and_then (list_ids (wb_store w)) (\<lambda>ids.
         and_then (collect (deep_problems c V w) ids) (\<lambda>more.
         Inr (Some p, root_problems p root @ concat more)))))"

section \<open>Facts\<close>

lemma load_saved_pairing:
  assumes "codec_faithful c" and "pairing_save c p s = (Inr (), t)"
  shows "pairing_load c t = Inr (Some p) \<and> store_nodes t = store_nodes s \<and>
    store_candidates t = store_candidates s"
proof -
  obtain data where "pairing_to_toml c p = Some data" "t = s\<lparr>store_pairing := Bytes data\<rparr>"
      "pa_schema p = PAIRING_SCHEMA"
    using assms(2) by (auto simp: pairing_save_def split: option.splits if_splits)
  moreover have "pairing_of_toml c data = Some p" "utf8_valid data"
    if "pairing_to_toml c p = Some data" for data
    using assms(1) that unfolding codec_faithful_def by blast+
  ultimately show ?thesis
    by (simp add: pairing_load_def with_context_def utf8_text_def parse_with_def)
qed

lemma save_and_commit_Inr:
  assumes "codec_faithful c" and "save_and_commit c V p message w = (Inr q, w')"
  shows "q = p \<and> pairing_load c (wb_store w') = Inr (Some p) \<and> store_nodes (wb_store w') = store_nodes (wb_store w) \<and>
    store_candidates (wb_store w') = store_candidates (wb_store w) \<and> store_clean V w'"
proof -
  obtain s w1 where "pairing_save c p (wb_store w) = (Inr (), s)"
    and commit: "mutation_commit V message (w\<lparr>wb_store := s\<rparr>) = (Inr (), w')" and "q = p"
    using assms(2) by (auto simp: save_and_commit_def result_simps)
  then show ?thesis
    using load_saved_pairing [OF assms(1)] mutation_commit_store(1) [OF commit] mutation_commit_clean [OF commit]
    by simp
qed

lemma refreshed_same:
  assumes "pa_name (refreshed e name remote) = pa_name e" and "pa_remote (refreshed e name remote) = pa_remote e"
  shows "refreshed e name remote = e"
  using assms by (cases e) (simp add: refreshed_def)

section \<open>The promises\<close>

text \<open>
  Pairing records the project's root. A pairing that returns has the recorded pairing name the
  project's root commit. A store paired to that root keeps its pairing, time of pairing included, up to
  the name given and the remote found; a store paired to another root is paired anew only by force.
  Nodes and candidates stay as they were, and the store is committed.
\<close>

theorem pair_records_the_root:
  assumes "codec_faithful c" and "pair c V now name force w = (Inr p, w')"
  shows "v_root_commit V (wb_vcs w) = Inr (Some (pa_root_commit p)) \<and>
    pairing_load c (wb_store w') = Inr (Some p) \<and>
    store_nodes (wb_store w') = store_nodes (wb_store w) \<and>
    store_candidates (wb_store w') = store_candidates (wb_store w) \<and>
    \<not> wb_locked w' \<and>
    (\<exists>remote. v_remote_url V (wb_vcs w) = Inr remote \<and>
      (case pairing_load c (wb_store w) of
         Inr (Some existing) \<Rightarrow>
           (if pa_root_commit existing = pa_root_commit p then p = refreshed existing name remote
            else force \<and> pa_paired_at p = now \<and> pa_name p = name \<and> pa_remote p = remote)
       | Inr None \<Rightarrow> pa_paired_at p = now \<and> pa_name p = name \<and> pa_remote p = remote
       | Inl _ \<Rightarrow> False))"
proof -
  obtain w2 where body: "pair_locked c V now name force (w\<lparr>wb_locked := True\<rparr>) = (Inr p, w2)"
    and w': "w' = w2\<lparr>wb_locked := False\<rparr>"
    using assms(2) by (auto simp: pair_def with_mutation_Inr)
  obtain root remote recorded where
    reads: "v_root_commit V (wb_vcs w) = Inr (Some root)" "v_remote_url V (wb_vcs w) = Inr remote"
      "pairing_load c (wb_store w) = Inr recorded"
    using body by (auto simp: pair_locked_def result_simps split: option.splits)
  let ?fresh = "\<lparr>pa_schema = 1, pa_root_commit = root, pa_paired_at = now, pa_name = name, pa_remote = remote\<rparr>"
  let ?w = "w\<lparr>wb_locked := True\<rparr>"
  have same_root: "pa_root_commit (refreshed e name remote) = pa_root_commit e" for e
    by (simp add: refreshed_def)
  have step: "pair_locked c V now name force ?w =
     (case recorded of
        None \<Rightarrow> save_and_commit c V ?fresh ''linka: pair project'' ?w
      | Some existing \<Rightarrow>
          if pa_root_commit existing = root
          then (if pa_name (refreshed existing name remote) = pa_name existing \<and>
                   pa_remote (refreshed existing name remote) = pa_remote existing
                then (Inr existing, ?w)
                else save_and_commit c V (refreshed existing name remote) ''linka: pair project (update info)'' ?w)
          else if \<not> force
          then (Inl (Bail (''store is paired to project root {} but the project's root is {} {} '' @
                         ''wrong project in the workbench, or a rewritten history '' @
                         ''(re-pair with --force if this is intentional)'')
                       [short (pa_root_commit existing), short root, em_dash]), ?w)
          else save_and_commit c V ?fresh ''linka: pair project'' ?w)"
    using reads by (simp add: pair_locked_def st_then_def st_read_def st_return_def st_fail_def Let_def split: option.splits)
  consider (unpaired) m where "recorded = None" "save_and_commit c V ?fresh m ?w = (Inr p, w2)"
    | (kept) "recorded = Some p" "pa_root_commit p = root" "w2 = ?w" "refreshed p name remote = p"
    | (updated) existing m where "recorded = Some existing" "pa_root_commit existing = root"
        "save_and_commit c V (refreshed existing name remote) m ?w = (Inr p, w2)"
    | (forced) existing m where "recorded = Some existing" "pa_root_commit existing \<noteq> root" force
        "save_and_commit c V ?fresh m ?w = (Inr p, w2)"
  proof (cases recorded)
    case None
    then show ?thesis using body step unpaired by simp
  next
    case (Some existing)
    show ?thesis
    proof (cases "pa_root_commit existing = root")
      case True
      then show ?thesis
        using body step Some kept updated refreshed_same [of existing name remote] by (simp split: if_splits)
    next
      case False
      then show ?thesis using body step Some forced by (simp split: if_splits)
    qed
  qed
  then show ?thesis
  proof cases
    case unpaired
    then show ?thesis using save_and_commit_Inr [OF assms(1) unpaired(2)] reads w' by auto
  next
    case kept
    then show ?thesis using reads w' by auto
  next
    case updated
    then show ?thesis using save_and_commit_Inr [OF assms(1) updated(3)] reads w' same_root by auto
  next
    case forced
    then show ?thesis using save_and_commit_Inr [OF assms(1) forced(4)] reads w' by auto
  qed
qed

text \<open>A project with root \<open>c0\<close>, paired, re-paired with a name, and then a project with another root.\<close>

definition pairing_old :: pairing where
  "pairing_old = \<lparr>pa_schema = 1, pa_root_commit = ''c0'', pa_paired_at = 3, pa_name = None, pa_remote = None\<rparr>"

definition pairing_named :: pairing where
  "pairing_named = pairing_old\<lparr>pa_name := Some ''demo''\<rparr>"

definition pair_codec :: codec where
  "pair_codec = table_codec [meta_a] [result_a] [] [] [] [pairing_old, pairing_named]"

definition paired_wb :: "fake_vcs workbench" where
  "paired_wb = \<lparr>wb_store = sample_store\<lparr>store_pairing := Bytes []\<rparr>, wb_vcs = sample_vcs, wb_locked = False,
     wb_files = (\<lambda>_. PMissing)\<rparr>"

definition wrong_wb :: "fake_vcs workbench" where
  "wrong_wb = paired_wb\<lparr>wb_vcs := sample_vcs\<lparr>fk_root := Some ''d0''\<rparr>\<rparr>"

theorem pair_records_the_root_witness:
  "\<exists>w'. pair pair_codec fake_ops 9 (Some ''demo'') False paired_wb = (Inr pairing_named, w') \<and>
     pairing_load pair_codec (wb_store w') = Inr (Some pairing_named) \<and> pa_paired_at pairing_named = 3"
proof -
  let ?run = "pair pair_codec fake_ops 9 (Some ''demo'') False paired_wb"
  have "fst ?run = Inr pairing_named" by code_simp
  then have run: "?run = (Inr pairing_named, snd ?run)" by (metis prod.collapse)
  have c: "codec_faithful pair_codec" by (simp add: pair_codec_def table_codec_faithful)
  have "pa_paired_at pairing_named = 3" by (simp add: pairing_named_def pairing_old_def)
  then show ?thesis using pair_records_the_root [OF c run] run by blast
qed

text \<open>
  The wrong project is caught. When the store is paired to a root that is not the project's,
  pairing without force fails and changes nothing, and verification, shallow or deep, never returns an
  empty list of problems.
\<close>

theorem wrong_project_is_caught:
  assumes "pairing_load c (wb_store w) = Inr (Some existing)"
    and "v_root_commit V (wb_vcs w) = Inr (Some root)" and "root \<noteq> pa_root_commit existing"
  shows "(\<exists>e. pair c V now name False w = (Inl e, w)) \<and> verify_pairing c V deep w \<noteq> Inr (Some existing, [])"
proof
  show "\<exists>e. pair c V now name False w = (Inl e, w)"
  proof (cases rule: mutation_lock_cases [of V w])
    case (refused e)
    then show ?thesis by (simp add: pair_def with_mutation_as_def)
  next
    case held
    have "\<exists>e. pair_locked c V now name False (w\<lparr>wb_locked := True\<rparr>) = (Inl e, w\<lparr>wb_locked := True\<rparr>)"
      using assms by (cases "v_remote_url V (wb_vcs w)")
        (auto simp: pair_locked_def st_then_def st_read_def st_fail_def)
    then show ?thesis using held by (auto simp: pair_def with_mutation_as_def)
  qed
  show "verify_pairing c V deep w \<noteq> Inr (Some existing, [])"
    using assms by (auto simp: verify_pairing_def root_problems_def result_simps)
qed

theorem wrong_project_is_caught_witness:
  "(\<exists>e. pair pair_codec fake_ops 9 None False wrong_wb = (Inl e, wrong_wb)) \<and>
   verify_pairing pair_codec fake_ops True wrong_wb \<noteq> Inr (Some pairing_old, [])"
proof (rule wrong_project_is_caught)
  show "pairing_load pair_codec (wb_store wrong_wb) = Inr (Some pairing_old)" by code_simp
  show "v_root_commit fake_ops (wb_vcs wrong_wb) = Inr (Some ''d0'')" by code_simp
  show "''d0'' \<noteq> pa_root_commit pairing_old" by code_simp
qed

lemma missing_commit_Nil:
  "missing_commit V v commit message = Inr [] \<longleftrightarrow> v_commit_exists V v commit = Inr True"
  by (auto simp: missing_commit_def result_simps)

text \<open>Every commit the node's result names exists.\<close>

definition commits_exist :: "codec \<Rightarrow> 'v vcs \<Rightarrow> 'v workbench \<Rightarrow> node_id \<Rightarrow> bool" where
  "commits_exist c V w i \<longleftrightarrow>
     (\<exists>found. read_result c (wb_store w) i = Inr found \<and>
        (\<forall>result v. found = Some (result, v) \<longrightarrow>
           (\<forall>artifact \<in> result_artifacts result. v_commit_exists V (wb_vcs w) (ar_id artifact) = Inr True)))"

lemma deep_problems_Nil: "deep_problems c V w i = Inr [] \<longleftrightarrow> commits_exist c V w i"
proof (cases "read_result c (wb_store w) i")
  case (Inl e)
  then show ?thesis by (simp add: deep_problems_def commits_exist_def)
next
  case (Inr found)
  show ?thesis
  proof (cases found)
    case None
    then show ?thesis using Inr by (simp add: deep_problems_def commits_exist_def)
  next
    case (Some rv)
    obtain result v where rv: "rv = (result, v)" by fastforce
    let ?own = "case rm_output result of None \<Rightarrow> Inr [] | Some artifact \<Rightarrow> missing_commit V (wb_vcs w) (ar_id artifact)
        (problem i ''output commit {} does not exist in the project repository'' [short (ar_id artifact)])"
    let ?pin = "\<lambda>pin. case cn_output pin of None \<Rightarrow> Inr [] | Some artifact \<Rightarrow> missing_commit V (wb_vcs w) (ar_id artifact)
        (problem i ''built-against output {} (of {}) does not exist in the project repository''
           [short (ar_id artifact), cn_id pin])"
    have "deep_problems c V w i = Inr [] \<longleftrightarrow>
        ?own = Inr [] \<and> (\<exists>built. collect ?pin (rm_consumed result) = Inr built \<and> concat built = [])"
      using Inr Some rv by (auto simp: deep_problems_def result_simps)
    moreover have "?own = Inr [] \<longleftrightarrow>
        (\<forall>artifact. rm_output result = Some artifact \<longrightarrow> v_commit_exists V (wb_vcs w) (ar_id artifact) = Inr True)"
      by (cases "rm_output result") (simp_all add: missing_commit_Nil)
    moreover have "?pin pin = Inr [] \<longleftrightarrow>
        (\<forall>artifact. cn_output pin = Some artifact \<longrightarrow> v_commit_exists V (wb_vcs w) (ar_id artifact) = Inr True)" for pin
      by (cases "cn_output pin") (simp_all add: missing_commit_Nil)
    ultimately show ?thesis
      using Inr Some rv unfolding collect_Nils commits_exist_def result_artifacts_def by auto
  qed
qed

text \<open>
  Verification is exact. It returns a pairing without problems exactly when that pairing is the
  recorded one, the project's root is the recorded root and, in a deep check, every commit named by a
  recorded result, as its output or as an output it was built against, exists in the project.
\<close>

theorem verify_pairing_is_exact:
  "verify_pairing c V deep w = Inr (Some p, []) \<longleftrightarrow>
     pairing_load c (wb_store w) = Inr (Some p) \<and>
     v_root_commit V (wb_vcs w) = Inr (Some (pa_root_commit p)) \<and>
     (if deep then \<exists>ids. list_ids (wb_store w) = Inr ids \<and> list_all (commits_exist c V w) ids else True)"
proof -
  have root: "root_problems p found = [] \<longleftrightarrow> found = Some (pa_root_commit p)" for found
    by (auto simp: root_problems_def split: option.splits)
  have more: "list_all (commits_exist c V w) ids \<longleftrightarrow>
      (\<exists>more. collect (deep_problems c V w) ids = Inr more \<and> concat more = [])" for ids
    unfolding collect_Nils deep_problems_Nil list_all_iff ..
  show ?thesis
  proof (cases "\<exists>found. pairing_load c (wb_store w) = Inr (Some p) \<and> v_root_commit V (wb_vcs w) = Inr found")
    case False
    then show ?thesis by (auto simp: verify_pairing_def result_simps split: option.splits if_splits)
  next
    case True
    then obtain found where found: "pairing_load c (wb_store w) = Inr (Some p)" "v_root_commit V (wb_vcs w) = Inr found"
      by blast
    show ?thesis
    proof (cases deep)
      case False
      then show ?thesis using found root by (simp add: verify_pairing_def)
    next
      case True
      have "verify_pairing c V deep w = Inr (Some p, []) \<longleftrightarrow> root_problems p found = [] \<and>
          (\<exists>ids. list_ids (wb_store w) = Inr ids \<and>
             (\<exists>more. collect (deep_problems c V w) ids = Inr more \<and> concat more = []))"
        using found True by (simp add: verify_pairing_def result_simps del: concat_eq_Nil_conv) blast
      then show ?thesis using found True unfolding more root by simp
    qed
  qed
qed

end
