(* ===== verification/Rust_Path.thy ===== *)
theory Rust_Path
  imports Rust_Str
begin

text \<open>
  What the code uses of Rust's \<open>Path\<close> on Unix. A path is its byte string; equality, prefixes and
  depth are those of its components, which skip repeated separators and inner \<open>.\<close> but keep
  \<open>..\<close>, while printing and joining work on the text.
\<close>

section \<open>Components\<close>

datatype component = RootDir | CurDir | ParentDir | Normal string

text \<open>A piece between separators that is no component.\<close>

definition no_component :: "string \<Rightarrow> bool" where
  "no_component q \<longleftrightarrow> q = [] \<or> q = ''.''"

definition component_of :: "string \<Rightarrow> component" where
  "component_of q = (if q = ''..'' then ParentDir else Normal q)"

definition body_components :: "string \<Rightarrow> component list" where
  "body_components p = map component_of (filter (\<lambda>q. \<not> no_component q) (split_on (CHR ''/'') p))"

definition is_absolute :: "string \<Rightarrow> bool" where
  "is_absolute p \<longleftrightarrow> prefix ''/'' p"

definition components :: "string \<Rightarrow> component list" where
  "components p =
     (if is_absolute p then [RootDir]
      else if hd (split_on (CHR ''/'') p) = ''.'' then [CurDir] else []) @ body_components p"

text \<open>\<open>Path::eq\<close> and \<open>Path::starts_with\<close>.\<close>

definition path_eq :: "string \<Rightarrow> string \<Rightarrow> bool" where
  "path_eq p q \<longleftrightarrow> components p = components q"

definition path_starts_with :: "string \<Rightarrow> string \<Rightarrow> bool" where
  "path_starts_with p q \<longleftrightarrow> prefix (components q) (components p)"

definition depth :: "string \<Rightarrow> nat" where
  "depth p = length (components p)"

section \<open>Taking paths apart and joining them\<close>

text \<open>The text that is left when the first \<open>n\<close> body components were consumed, trimmed of separators
  and \<open>.\<close> on both sides (\<open>Components::as_path\<close>).\<close>

fun drop_pieces :: "nat \<Rightarrow> string list \<Rightarrow> string list" where
  "drop_pieces n [] = []"
| "drop_pieces n (q # qs) =
     (if no_component q then drop_pieces n qs
      else (case n of 0 \<Rightarrow> q # qs | Suc m \<Rightarrow> drop_pieces m qs))"

definition trim_pieces :: "string list \<Rightarrow> string list" where
  "trim_pieces ps = rev (dropWhile no_component (rev ps))"

definition strip_path_prefix :: "string \<Rightarrow> string \<Rightarrow> string option" where
  "strip_path_prefix p q =
     (if path_starts_with p q
      then Some (join_with ''/''
        (trim_pieces (drop_pieces (length (body_components q)) (split_on (CHR ''/'') p))))
      else None)"

definition path_join :: "string \<Rightarrow> string \<Rightarrow> string" where
  "path_join p q =
     (if is_absolute q then q
      else if p = [] \<or> last p = CHR ''/'' then p @ q else p @ ''/'' @ q)"

section \<open>Facts\<close>

lemma path_eq_refl [simp]: "path_eq p p"
  by (simp add: path_eq_def)

lemma path_starts_with_refl [simp]: "path_starts_with p p"
  by (simp add: path_starts_with_def)

lemma path_starts_with_trans: "path_starts_with p q \<Longrightarrow> path_starts_with q r \<Longrightarrow> path_starts_with p r"
  by (auto simp: path_starts_with_def)

lemma depth_mono: "path_starts_with p q \<Longrightarrow> depth q \<le> depth p"
  by (simp add: path_starts_with_def depth_def prefix_length_le)

lemma starts_with_both:
  assumes "path_starts_with p q" and "path_starts_with p r" and "depth q \<le> depth r"
  shows "path_starts_with r q"
  using assms by (auto simp: path_starts_with_def depth_def intro: prefix_length_prefix)

lemma starts_with_depth_eq:
  assumes "path_starts_with p q" and "path_starts_with p r" and "depth q = depth r"
  shows "path_eq q r"
  using assms unfolding path_starts_with_def depth_def path_eq_def
  by (metis prefix_length_prefix prefix_order.antisym order_refl)

lemma components_absolute: "RootDir \<in> set (components p) \<longleftrightarrow> is_absolute p"
  by (auto simp: components_def body_components_def component_of_def)

lemma absolute_starts_with: "is_absolute p \<Longrightarrow> path_starts_with p ''/''"
  by (simp add: path_starts_with_def components_def is_absolute_def body_components_def no_component_def)

lemma no_component_root [simp]: "no_component []" "no_component ''.''"
  by (simp_all add: no_component_def)

text \<open>What is left after a prefix has exactly the remaining components.\<close>

lemma filter_drop_pieces:
  "filter (\<lambda>q. \<not> no_component q) (drop_pieces n ps) = drop n (filter (\<lambda>q. \<not> no_component q) ps)"
  by (induction n ps rule: drop_pieces.induct) (auto split: nat.splits)

lemma filter_trim_pieces: "filter (\<lambda>q. \<not> no_component q) (trim_pieces ps) = filter (\<lambda>q. \<not> no_component q) ps"
proof -
  have "filter (\<lambda>q. \<not> no_component q) (dropWhile no_component qs) = filter (\<lambda>q. \<not> no_component q) qs" for qs
    by (induction qs) auto
  then have "rev (filter (\<lambda>q. \<not> no_component q) (dropWhile no_component (rev ps))) =
      rev (filter (\<lambda>q. \<not> no_component q) (rev ps))" by simp
  then show ?thesis unfolding trim_pieces_def rev_filter by simp
qed

end
