(* ===== verification/BTree_Map.thy ===== *)
theory BTree_Map
  imports Prelude
begin

text \<open>
  \<open>BTreeMap\<close>: an association list in key order, so that iteration is the list itself.
\<close>

section \<open>Operations\<close>

fun bt_insert :: "'k::linorder \<Rightarrow> 'v \<Rightarrow> ('k \<times> 'v) list \<Rightarrow> ('k \<times> 'v) list" where
  "bt_insert k v [] = [(k, v)]"
| "bt_insert k v ((k', v') # m) =
     (if k < k' then (k, v) # (k', v') # m
      else if k = k' then (k, v) # m
      else (k', v') # bt_insert k v m)"

text \<open>\<open>entry(k).or_insert(v)\<close> and \<open>extend\<close>; \<open>collect\<close> is \<open>extend\<close> of the empty map.\<close>

definition bt_or_insert :: "'k::linorder \<Rightarrow> 'v \<Rightarrow> ('k \<times> 'v) list \<Rightarrow> ('k \<times> 'v) list" where
  "bt_or_insert k v m = (case map_of m k of None \<Rightarrow> bt_insert k v m | Some _ \<Rightarrow> m)"

fun bt_extend :: "('k::linorder \<times> 'v) list \<Rightarrow> ('k \<times> 'v) list \<Rightarrow> ('k \<times> 'v) list" where
  "bt_extend m [] = m"
| "bt_extend m ((k, v) # xs) = bt_extend (bt_insert k v m) xs"

definition bt_wf :: "('k::linorder \<times> 'v) list \<Rightarrow> bool" where
  "bt_wf m \<longleftrightarrow> sorted_wrt (<) (map fst m)"

section \<open>Facts\<close>

lemma bt_wf_Nil [simp]: "bt_wf []"
  by (simp add: bt_wf_def)

lemma bt_wf_Cons: "bt_wf ((k, v) # m) \<longleftrightarrow> (\<forall>k' \<in> set (map fst m). k < k') \<and> bt_wf m"
  by (simp add: bt_wf_def)

lemma bt_insert_keys [simp]: "set (map fst (bt_insert k v m)) = insert k (set (map fst m))"
  by (induction m rule: bt_insert.induct) auto

lemma bt_insert_wf [simp]: "bt_wf m \<Longrightarrow> bt_wf (bt_insert k v m)"
proof (induction m)
  case (Cons x m)
  then show ?case
    using bt_insert_keys [of k v m] by (cases x) (auto simp: bt_wf_Cons simp del: bt_insert_keys)
qed (simp add: bt_wf_def)

lemma map_of_bt_insert [simp]: "bt_wf m \<Longrightarrow> map_of (bt_insert k v m) = (map_of m)(k \<mapsto> v)"
proof (induction m)
  case (Cons x m)
  obtain k' v' where x: "x = (k', v')" by fastforce
  have "map_of m k = None" if "k < k'" using Cons.prems that
    by (auto simp: x bt_wf_Cons map_of_eq_None_iff)
  then show ?case using Cons by (auto simp: x bt_wf_Cons fun_eq_iff)
qed simp

lemma bt_or_insert_wf [simp]: "bt_wf m \<Longrightarrow> bt_wf (bt_or_insert k v m)"
  by (simp add: bt_or_insert_def split: option.splits)

lemma map_of_bt_or_insert:
  "bt_wf m \<Longrightarrow> map_of (bt_or_insert k v m) = (if map_of m k = None then (map_of m)(k \<mapsto> v) else map_of m)"
  by (auto simp: bt_or_insert_def split: option.splits)

lemma bt_extend_wf [simp]: "bt_wf m \<Longrightarrow> bt_wf (bt_extend m xs)"
  by (induction m xs rule: bt_extend.induct) auto

lemma map_of_bt_extend [simp]: "bt_wf m \<Longrightarrow> map_of (bt_extend m xs) = map_of m ++ map_of (rev xs)"
  by (induction m xs rule: bt_extend.induct) (auto simp: map_add_def fun_eq_iff split: option.splits)

lemma bt_wf_distinct: "bt_wf m \<Longrightarrow> distinct (map fst m)"
  by (simp add: bt_wf_def strict_sorted_iff)

lemma bt_wf_map_of_rev: "bt_wf m \<Longrightarrow> map_of (rev m) = map_of m"
  by (subst map_of_inject_set) (simp_all add: bt_wf_distinct flip: rev_map)

end
