(* ===== verification/Driva_Policy.thy ===== *)
theory Driva_Policy
  imports Rust_Path BTree_Map Anyhow
begin

text \<open>
  The portable policy of an isolated command (\<open>driva/src/lib.rs\<close>): requests, mounts, their
  validation, and the reports a backend gives. What the code asks of the machine (its environment,
  the file system as the standard library shows it) is the record \<open>host\<close>, an argument.
\<close>

section \<open>The host\<close>

datatype link_metadata = MetaMissing | MetaError | MetaSymlink | MetaOther

record host =
  h_var :: "string \<Rightarrow> string option"
  h_canonicalize :: "string \<Rightarrow> string res"
  h_symlink_metadata :: "string \<Rightarrow> link_metadata"
  h_read_link :: "string \<Rightarrow> string res"
  h_is_dir :: "string \<Rightarrow> bool"
  h_is_file :: "string \<Rightarrow> bool"
  h_temp_dir :: string
  h_pid :: nat

section \<open>Requests\<close>

definition DEFAULT_PATH :: string where
  "DEFAULT_PATH = ''/usr/local/sbin:/usr/local/bin:/usr/sbin:/usr/bin:/sbin:/bin''"

datatype mount_access = ReadOnly | ReadWrite

datatype mount =
    Bind (mount_source: string) (mount_destination: string) (mount_access: mount_access)
  | Temporary (mount_destination: string)
  | Overlay (mount_source: string) (mount_destination: string)

datatype writable_mount_mode = DirectWrites | OverlayWrites

type_synonym environment = "(string \<times> string) list"

record execution_request =
  rq_command :: "string list"
  rq_working_directory :: string
  rq_mounts :: "mount list"
  rq_writable_mounts :: writable_mount_mode
  rq_environment :: environment
  rq_network :: bool
  rq_interactive :: bool
  rq_new_session :: bool

fun make_read_only :: "mount \<Rightarrow> mount" where
  "make_read_only (Bind source destination access) = Bind source destination ReadOnly"
| "make_read_only (Temporary destination) = Temporary destination"
| "make_read_only (Overlay source destination) = Overlay source destination"

section \<open>What a backend reports\<close>

datatype floor_kind = PrivateRoot | Tmpfs | RootFs | Proc | Devices | Directory

record floor_entry =
  fe_kind :: floor_kind
  fe_path :: string
  fe_source :: "string option"

fun floor_description :: "floor_kind \<Rightarrow> string" where
  "floor_description PrivateRoot = ''empty, in memory, read-only once the mounts are in place''"
| "floor_description Tmpfs = ''empty, writable, in memory, discarded when the run ends''"
| "floor_description RootFs = ''the prepared root filesystem, read-only''"
| "floor_description Proc = ''this sandbox's own process table''"
| "floor_description Devices = ''a private /dev, not the host's devices''"
| "floor_description Directory = ''created so the run has a working directory, read-only unless a mount makes it writable''"

definition floor_writable :: "floor_kind \<Rightarrow> bool" where
  "floor_writable kind \<longleftrightarrow> kind = Tmpfs \<or> kind = Devices"

datatype environment_origin = BackendOrigin | BaseOrigin | RequestOrigin

record environment_entry =
  ee_name :: string
  ee_value :: string
  ee_origin :: environment_origin

record effective_policy =
  ep_working_directory :: string
  ep_mounts :: "mount list"
  ep_writable_mounts :: writable_mount_mode
  ep_network :: bool
  ep_interactive :: bool

definition effective_policy_of :: "execution_request \<Rightarrow> effective_policy" where
  "effective_policy_of request =
     \<lparr>ep_working_directory = rq_working_directory request, ep_mounts = rq_mounts request,
      ep_writable_mounts = rq_writable_mounts request, ep_network = rq_network request,
      ep_interactive = rq_interactive request\<rparr>"

datatype process_exit = ExitCode int | Signaled

fun exit_code :: "process_exit \<Rightarrow> int" where
  "exit_code (ExitCode code) = code"
| "exit_code Signaled = 128"

text \<open>\<open>From<ExitStatus>\<close>: a status has no code when a signal ended the process.\<close>

definition process_exit_of :: "int option \<Rightarrow> process_exit" where
  "process_exit_of code = (case code of Some x \<Rightarrow> ExitCode x | None \<Rightarrow> Signaled)"

section \<open>The control of a running backend\<close>

text \<open>The two atomics; each operation is one load or store. Process id zero means none.\<close>

record execution_control =
  ec_terminate :: bool
  ec_process :: nat

definition terminate_control :: "execution_control \<Rightarrow> execution_control" where
  "terminate_control ctl = ctl\<lparr>ec_terminate := True\<rparr>"

definition termination_requested :: "execution_control \<Rightarrow> bool" where
  "termination_requested ctl = ec_terminate ctl"

definition set_process_id :: "nat option \<Rightarrow> execution_control \<Rightarrow> execution_control" where
  "set_process_id pid ctl = ctl\<lparr>ec_process := (case pid of None \<Rightarrow> 0 | Some p \<Rightarrow> p)\<rparr>"

definition process_id :: "execution_control \<Rightarrow> nat option" where
  "process_id ctl = (if ec_process ctl = 0 then None else Some (ec_process ctl))"

section \<open>Validation\<close>

definition expand_home :: "host \<Rightarrow> string \<Rightarrow> string \<Rightarrow> string res" where
  "expand_home h label p =
     (if path_eq p ''~'' \<or> path_starts_with p ''~/''
      then (case h_var h ''HOME'' of
              None \<Rightarrow> bail ''HOME is not set; cannot expand {}'' [label]
            | Some home \<Rightarrow>
                (case strip_path_prefix p ''~'' of
                   None \<Rightarrow> Inl (panic ''prefix checked'')
                 | Some rest \<Rightarrow> Inr (path_join home rest)))
      else Inr p)"

definition canonicalize_mount :: "host \<Rightarrow> string \<Rightarrow> string res" where
  "canonicalize_mount h p = and_then (expand_home h ''mount source'' p) (h_canonicalize h)"

definition expanded_destination :: "host \<Rightarrow> mount \<Rightarrow> mount res" where
  "expanded_destination h m =
     (case m of
        Temporary destination \<Rightarrow> map_ok Temporary (expand_home h ''temporary mount destination'' destination)
      | Bind _ _ _ \<Rightarrow> Inr m
      | Overlay _ _ \<Rightarrow> Inr m)"

definition resolved_source :: "host \<Rightarrow> mount \<Rightarrow> mount res" where
  "resolved_source h m =
     (let resolve = (\<lambda>source. with_context ''invalid mount source {}'' [source] (canonicalize_mount h source)) in
      case m of
        Bind source destination access \<Rightarrow> map_ok (\<lambda>s. Bind s destination access) (resolve source)
      | Overlay source destination \<Rightarrow> map_ok (\<lambda>s. Overlay s destination) (resolve source)
      | Temporary destination \<Rightarrow> Inr m)"

fun validate_mounts :: "host \<Rightarrow> string list \<Rightarrow> mount list \<Rightarrow> mount list res" where
  "validate_mounts h seen [] = Inr []"
| "validate_mounts h seen (m # ms) =
     and_then (expanded_destination h m) (\<lambda>m1.
     let destination = mount_destination m1 in
     if \<not> is_absolute destination then bail ''mount destination must be absolute: {}'' [destination]
     else if list_ex (path_eq destination) seen
     then bail ''conflicting mount destination: {}'' [destination]
     else
     and_then (resolved_source h m1) (\<lambda>m2.
     and_then (validate_mounts h (destination # seen) ms) (\<lambda>rest. Inr (m2 # rest))))"

definition validate_request :: "host \<Rightarrow> execution_request \<Rightarrow> execution_request res" where
  "validate_request h request =
     (case rq_command request of
        [] \<Rightarrow> bail ''an executable command is required'' []
      | program # _ \<Rightarrow>
          if program = [] then bail ''an executable command is required'' []
          else if \<not> is_absolute (rq_working_directory request)
          then bail ''isolated working directory must be absolute: {}'' [rq_working_directory request]
          else map_ok (\<lambda>mounts. request\<lparr>rq_mounts := mounts\<rparr>) (validate_mounts h [] (rq_mounts request)))"

section \<open>Environment and search path\<close>

definition expand_environment_home :: "host \<Rightarrow> environment \<Rightarrow> environment res" where
  "expand_environment_home h env =
     collect (\<lambda>(key, val). map_ok (\<lambda>v. (key, v)) (expand_home h (''environment value '' @ key) val)) env"

definition path_directory :: "host \<Rightarrow> string \<Rightarrow> string res" where
  "path_directory h directory =
     and_then (expand_home h ''PATH directory'' directory) (\<lambda>expanded.
     and_then (with_context ''invalid PATH directory {}'' [directory] (h_canonicalize h expanded)) (\<lambda>source.
     if \<not> h_is_dir h source then bail ''PATH addition is not a directory: {}'' [directory] else Inr source))"

definition path_mounts ::
  "host \<Rightarrow> string list \<Rightarrow> mount list \<Rightarrow> environment \<Rightarrow> (mount list \<times> environment) res" where
  "path_mounts h directories mounts env =
     (if directories = [] then Inr (mounts, env)
      else
      and_then (collect (path_directory h) directories) (\<lambda>sources.
      let path = join_with '':'' sources @
            (case map_of env ''PATH'' of
               Some configured \<Rightarrow> if configured \<noteq> [] then '':'' @ configured else []
             | None \<Rightarrow> '':'' @ DEFAULT_PATH)
      in Inr (mounts @ map (\<lambda>source. Bind source source ReadOnly) sources, bt_insert ''PATH'' path env)))"

section \<open>Facts about validation\<close>

text \<open>What validation makes of one mount: the destination of a temporary mount with the home directory
  in place of \<open>~\<close>, the source of any other resolved.\<close>

fun validated_mount :: "host \<Rightarrow> mount \<Rightarrow> mount \<Rightarrow> bool" where
  "validated_mount h (Temporary d) v \<longleftrightarrow>
     (\<exists>d'. expand_home h ''temporary mount destination'' d = Inr d' \<and> v = Temporary d')"
| "validated_mount h (Bind s d access) v \<longleftrightarrow> (\<exists>s'. canonicalize_mount h s = Inr s' \<and> v = Bind s' d access)"
| "validated_mount h (Overlay s d) v \<longleftrightarrow> (\<exists>s'. canonicalize_mount h s = Inr s' \<and> v = Overlay s' d)"

definition valid_destinations :: "mount list \<Rightarrow> bool" where
  "valid_destinations ms \<longleftrightarrow>
     list_all (\<lambda>m. is_absolute (mount_destination m)) ms \<and>
     distinct (map (\<lambda>m. components (mount_destination m)) ms)"

lemma resolved_destination:
  "resolved_source h m = Inr v \<Longrightarrow> mount_destination v = mount_destination m"
  by (cases m) (auto simp: resolved_source_def result_simps)

lemma validate_mount_Inr:
  "expanded_destination h m = Inr m1 \<Longrightarrow> resolved_source h m1 = Inr v \<Longrightarrow> validated_mount h m v"
  by (cases m) (auto simp: expanded_destination_def resolved_source_def result_simps)

lemma validate_mounts_Inr:
  "validate_mounts h seen ms = Inr vs \<Longrightarrow>
     list_all2 (validated_mount h) ms vs \<and> valid_destinations vs \<and>
     (\<forall>v \<in> set vs. \<forall>q \<in> set seen. \<not> path_eq (mount_destination v) q)"
proof (induction h seen ms arbitrary: vs rule: validate_mounts.induct)
  case (1 h seen)
  then show ?case by (simp add: valid_destinations_def)
next
  case (2 h seen m ms)
  obtain m1 v rest where m1: "expanded_destination h m = Inr m1" "is_absolute (mount_destination m1)"
      "\<not> list_ex (path_eq (mount_destination m1)) seen"
    and v: "resolved_source h m1 = Inr v"
    and rest: "validate_mounts h (mount_destination m1 # seen) ms = Inr rest" and vs: "vs = v # rest"
    using 2(2) by (auto simp: Let_def result_simps split: if_splits)
  have IH: "list_all2 (validated_mount h) ms rest" "valid_destinations rest"
      "\<forall>v \<in> set rest. \<forall>q \<in> set (mount_destination m1 # seen). \<not> path_eq (mount_destination v) q"
    using 2(1) [OF refl _ m1(3) rest] m1(2) by blast+
  have dest: "mount_destination v = mount_destination m1" using v by (rule resolved_destination)
  have "components (mount_destination v) \<notin> (\<lambda>m. components (mount_destination m)) ` set rest"
    using IH(3) dest by (auto simp: path_eq_def)
  then show ?case
    using IH m1 dest vs validate_mount_Inr [OF m1(1) v]
    by (auto simp: valid_destinations_def list_ex_iff)
qed

lemma validate_request_Inr:
  assumes "validate_request h request = Inr v"
  shows "\<exists>program arguments. rq_command request = program # arguments \<and> program \<noteq> []"
    and "is_absolute (rq_working_directory request)"
    and "v = request\<lparr>rq_mounts := rq_mounts v\<rparr>"
    and "list_all2 (validated_mount h) (rq_mounts request) (rq_mounts v)"
    and "valid_destinations (rq_mounts v)"
proof -
  obtain program arguments mounts where p: "rq_command request = program # arguments" "program \<noteq> []"
      "is_absolute (rq_working_directory request)" "validate_mounts h [] (rq_mounts request) = Inr mounts"
      "v = request\<lparr>rq_mounts := mounts\<rparr>"
    using assms by (auto simp: validate_request_def result_simps split: list.splits if_splits)
  show "\<exists>program arguments. rq_command request = program # arguments \<and> program \<noteq> []"
    "is_absolute (rq_working_directory request)" "v = request\<lparr>rq_mounts := rq_mounts v\<rparr>"
    "list_all2 (validated_mount h) (rq_mounts request) (rq_mounts v)" "valid_destinations (rq_mounts v)"
    using p validate_mounts_Inr [OF p(4)] by auto
qed

end
