(* ===== verification/Driva_Runtime.thy ===== *)
theory Driva_Runtime
  imports Driva_Policy
begin

text \<open>
  Installed runtimes (\<open>driva/src/runtime.rs\<close>): selectors, and the store with its current links. The
  container build is the work of other programs; what it reports is a parameter.
\<close>

section \<open>Selectors\<close>

record runtime_spec =
  rs_name :: string
  rs_version :: string

definition is_ascii_digit :: "char \<Rightarrow> bool" where
  "is_ascii_digit x \<longleftrightarrow> CHR ''0'' \<le> x \<and> x \<le> CHR ''9''"

definition is_ascii_alphanumeric :: "char \<Rightarrow> bool" where
  "is_ascii_alphanumeric x \<longleftrightarrow> is_ascii_digit x \<or> CHR ''a'' \<le> x \<and> x \<le> CHR ''z'' \<or> CHR ''A'' \<le> x \<and> x \<le> CHR ''Z''"

definition is_pinned_version :: "string \<Rightarrow> bool" where
  "is_pinned_version version \<longleftrightarrow>
     version \<noteq> [] \<and> is_ascii_digit (hd version) \<and>
     list_all (\<lambda>x. is_ascii_alphanumeric x \<or> x = CHR ''.'' \<or> x = CHR ''-'' \<or> x = CHR ''+'') version"

definition parse_runtime_spec :: "string \<Rightarrow> runtime_spec res" where
  "parse_runtime_spec x =
     (case split_once (CHR ''@'') x of
        None \<Rightarrow> bail ''runtime must be NAME@VERSION, got {}'' [x]
      | Some (name, version) \<Rightarrow>
          if name \<noteq> ''codex''
          then bail ''unsupported runtime {}; only codex@VERSION is currently supported'' [name]
          else if version \<noteq> ''latest'' \<and> \<not> is_pinned_version version
          then bail ''runtime version must be an exact version or latest, got {}'' [version]
          else Inr \<lparr>rs_name = name, rs_version = version\<rparr>)"

definition display_spec :: "runtime_spec \<Rightarrow> string" where
  "display_spec spec = rs_name spec @ ''@'' @ rs_version spec"

definition is_floating :: "runtime_spec \<Rightarrow> bool" where
  "is_floating spec \<longleftrightarrow> rs_version spec = ''latest''"

definition resolved_spec :: "string \<Rightarrow> string \<Rightarrow> runtime_spec res" where
  "resolved_spec name version =
     (if \<not> is_pinned_version version then bail ''npm resolved an invalid runtime version {}'' [version]
      else Inr \<lparr>rs_name = name, rs_version = version\<rparr>)"

definition spec_rootfs :: "string \<Rightarrow> runtime_spec \<Rightarrow> string" where
  "spec_rootfs root spec = path_join (path_join (path_join root (rs_name spec)) (rs_version spec)) ''rootfs''"

definition current_rootfs :: "string \<Rightarrow> string \<Rightarrow> string" where
  "current_rootfs root name = path_join (path_join root name) ''current/rootfs''"

section \<open>The store\<close>

text \<open>The entries of one family directory. A directory has a \<open>rootfs\<close> directory in it or not.\<close>

datatype node = DirNode bool | LinkNode string | FileNode

type_synonym family = "(string \<times> node) list"

text \<open>The store is its family directories (\<open>None\<close>: not created yet).\<close>

type_synonym store = "(string \<times> family) list"

text \<open>Where a name leads. The store's own links lead to an entry of their family that is no link.\<close>

definition followed :: "family \<Rightarrow> string \<Rightarrow> node option" where
  "followed fam name =
     (case map_of fam name of
        Some (LinkNode target) \<Rightarrow> (case map_of fam target of Some (LinkNode _) \<Rightarrow> None | found \<Rightarrow> found)
      | found \<Rightarrow> found)"

definition exists_in :: "family \<Rightarrow> string \<Rightarrow> bool" where
  "exists_in fam name \<longleftrightarrow> followed fam name \<noteq> None"

definition has_rootfs :: "family \<Rightarrow> string \<Rightarrow> bool" where
  "has_rootfs fam name \<longleftrightarrow> followed fam name = Some (DirNode True)"

definition is_dir_in :: "family \<Rightarrow> string \<Rightarrow> bool" where
  "is_dir_in fam name \<longleftrightarrow> (case followed fam name of Some (DirNode _) \<Rightarrow> True | _ \<Rightarrow> False)"

definition read_link_in :: "family \<Rightarrow> string \<Rightarrow> string option" where
  "read_link_in fam name = (case map_of fam name of Some (LinkNode target) \<Rightarrow> Some target | _ \<Rightarrow> None)"

definition remove_path_if_present :: "string \<Rightarrow> family \<Rightarrow> family" where
  "remove_path_if_present name fam = AList.delete name fam"

definition temporary_link :: "host \<Rightarrow> string" where
  "temporary_link h = ''.current-'' @ show_nat (h_pid h)"

text \<open>File system calls on an existing family are taken to succeed.\<close>

definition activate :: "host \<Rightarrow> runtime_spec \<Rightarrow> (family, error, unit) st_op" where
  "activate h spec fam =
     (if \<not> has_rootfs fam (rs_version spec) then (bail ''runtime {} is not installed'' [display_spec spec], fam)
      else
        let temporary = temporary_link h;
            linked = AList.update temporary (LinkNode (rs_version spec)) (remove_path_if_present temporary fam)
        in case map_of linked ''current'' of
             Some (DirNode _) \<Rightarrow>
               (bail ''runtime current path is not a symlink: {}'' [''current''], remove_path_if_present temporary linked)
           | Some FileNode \<Rightarrow>
               (bail ''runtime current path is not a symlink: {}'' [''current''], remove_path_if_present temporary linked)
           | _ \<Rightarrow> (Inr (), AList.update ''current'' (LinkNode (rs_version spec)) (AList.delete temporary linked)))"

definition remove_runtime :: "runtime_spec \<Rightarrow> (family, error, unit) st_op" where
  "remove_runtime spec fam =
     (if \<not> is_dir_in fam (rs_version spec) then (bail ''runtime {} is not installed'' [display_spec spec], fam)
      else
        let unlinked =
          (case read_link_in fam ''current'' of
             Some target \<Rightarrow> if path_eq target (rs_version spec) then remove_path_if_present ''current'' fam else fam
           | None \<Rightarrow> fam)
        in (Inr (), AList.delete (rs_version spec) unlinked))"

definition is_active :: "family \<Rightarrow> string \<Rightarrow> bool" where
  "is_active fam version \<longleftrightarrow>
     (case read_link_in fam ''current'' of Some target \<Rightarrow> path_eq target version | None \<Rightarrow> False)"

definition list_family :: "string \<Rightarrow> family \<Rightarrow> (runtime_spec \<times> bool) list" where
  "list_family name fam =
     concat (map (\<lambda>(version, node).
       if node = DirNode True \<and> version \<noteq> ''current'' \<and> \<not> prefix ''.'' version
       then [(\<lparr>rs_name = name, rs_version = version\<rparr>,
              is_active fam version)]
       else []) fam)"

definition list_runtimes :: "store \<Rightarrow> (runtime_spec \<times> bool) list" where
  "list_runtimes store =
     sort_key (\<lambda>x. display_spec (fst x)) (concat (map (\<lambda>(name, fam). list_family name fam) store))"

section \<open>Installing\<close>

text \<open>What the build and the file system answer: the version text the container reports (or why the
  build failed), whether preparing the mount targets of a version works, and creating, renaming and removing
  directories.\<close>

record install_calls =
  ic_create_family :: "unit res"
  ic_staging :: string
  ic_build :: "runtime_spec \<Rightarrow> string res"
  ic_prepare :: "string \<Rightarrow> unit res"
  ic_create_staging :: "unit res"
  ic_remove_staging :: "unit res"
  ic_rename :: "unit res"

definition built_version :: "install_calls \<Rightarrow> runtime_spec \<Rightarrow> runtime_spec res" where
  "built_version ic spec = and_then (ic_build ic spec) (\<lambda>reported. resolved_spec (rs_name spec) (trim reported))"

definition adopt_installed :: "host \<Rightarrow> install_calls \<Rightarrow> runtime_spec \<Rightarrow> (family, error, runtime_spec) st_op" where
  "adopt_installed h ic spec =
     st_then (st_read (\<lambda>_. ic_prepare ic (rs_version spec))) (\<lambda>_.
     st_then (activate h spec) (\<lambda>_. st_return spec))"

text \<open>The staging directory is hidden from every other operation and is gone or renamed when the
  installation returns, so it is left out of the family.\<close>

definition install_codex :: "host \<Rightarrow> install_calls \<Rightarrow> runtime_spec \<Rightarrow> (family, error, runtime_spec) st_op" where
  "install_codex h ic spec fam =
     (if rs_name spec \<noteq> ''codex'' then (bail ''unsupported runtime {}'' [rs_name spec], fam)
      else case with_context ''failed to create runtime store {}'' [rs_name spec] (ic_create_family ic) of
        Inl e \<Rightarrow> (Inl e, fam)
      | Inr _ \<Rightarrow>
      if \<not> is_floating spec \<and> exists_in fam (rs_version spec) then adopt_installed h ic spec fam
      else case with_context ''failed to create staging directory {}'' [ic_staging ic] (ic_create_staging ic) of
        Inl e \<Rightarrow> (Inl e, fam)
      | Inr _ \<Rightarrow>
          (case built_version ic spec of
             Inl e \<Rightarrow> (Inl e, fam)
           | Inr resolved \<Rightarrow>
               if exists_in fam (rs_version resolved)
               then st_then (st_read (\<lambda>_. ic_remove_staging ic)) (\<lambda>_. adopt_installed h ic resolved) fam
               else case with_context ''failed to publish runtime {} to {}''
                      [display_spec resolved, rs_version resolved] (ic_rename ic) of
                 Inl e \<Rightarrow> (Inl e, fam)
               | Inr _ \<Rightarrow>
                   st_then (activate h resolved) (\<lambda>_. st_return resolved)
                     (AList.update (rs_version resolved) (DirNode True) fam)))"

section \<open>Selectors stay inside the store\<close>

lemma pinned_component:
  assumes "is_pinned_version v"
  shows "CHR ''/'' \<notin> set v" and "v \<noteq> []" and "v \<noteq> ''.''" and "v \<noteq> ''..''" and "v \<noteq> ''current''" and "\<not> prefix ''.'' v"
proof -
  have "is_ascii_digit (hd v)" "v \<noteq> []" using assms by (simp_all add: is_pinned_version_def)
  then show "v \<noteq> []" "v \<noteq> ''.''" "v \<noteq> ''..''" "v \<noteq> ''current''" "\<not> prefix ''.'' v"
    by (auto simp: is_ascii_digit_def less_eq_char_def prefix_def)
  show "CHR ''/'' \<notin> set v"
    using assms by (auto simp: is_pinned_version_def list_all_iff is_ascii_alphanumeric_def is_ascii_digit_def
        less_eq_char_def)
qed

text \<open>
  A selector is read as what it displays: a text is accepted exactly when it is the display form
  of a runtime of the supported name whose version is \<open>latest\<close> or pinned.
\<close>

theorem selector_roundtrip:
  "parse_runtime_spec x = Inr spec \<longleftrightarrow>
     x = display_spec spec \<and> rs_name spec = ''codex'' \<and> (is_floating spec \<or> is_pinned_version (rs_version spec))"
proof -
  have "parse_runtime_spec x = Inr spec \<longleftrightarrow>
      (\<exists>v. split_once (CHR ''@'') x = Some (''codex'', v) \<and> (v = ''latest'' \<or> is_pinned_version v) \<and>
        spec = \<lparr>rs_name = ''codex'', rs_version = v\<rparr>)"
    by (auto simp: parse_runtime_spec_def split: option.splits if_splits)
  also have "\<dots> \<longleftrightarrow> (\<exists>v. x = ''codex@'' @ v \<and> (v = ''latest'' \<or> is_pinned_version v) \<and>
        spec = \<lparr>rs_name = ''codex'', rs_version = v\<rparr>)"
    by (simp add: split_once_Some)
  also have "\<dots> \<longleftrightarrow> x = display_spec spec \<and> rs_name spec = ''codex'' \<and>
      (is_floating spec \<or> is_pinned_version (rs_version spec))"
    by (cases spec) (auto simp: display_spec_def is_floating_def)
  finally show ?thesis .
qed

section \<open>The store keeps its current runtime\<close>

definition family_ok :: "family \<Rightarrow> bool" where
  "family_ok fam \<longleftrightarrow>
     (\<forall>name node. map_of fam name = Some node \<longrightarrow>
        is_pinned_version name \<and> node = DirNode True \<or>
        name = ''current'' \<and> (\<exists>v. node = LinkNode v \<and> is_pinned_version v \<and> map_of fam v = Some (DirNode True)))"

lemma not_pinned: "\<not> is_pinned_version ''current''" "\<not> is_pinned_version (temporary_link h)"
proof -
  have "prefix ''.'' (temporary_link h)" by (simp add: temporary_link_def prefix_def)
  then show "\<not> is_pinned_version (temporary_link h)" using pinned_component(6) by blast
qed (use pinned_component(5) in blast)

lemma family_ok_followed:
  assumes "family_ok fam" and "is_pinned_version v"
  shows "followed fam v = (if map_of fam v = None then None else Some (DirNode True))"
  using assms not_pinned(1) by (auto simp: followed_def family_ok_def split: option.splits node.splits)

text \<open>Activating an installed version of a sound family.\<close>

lemma activate_ok:
  assumes "family_ok fam" and "is_pinned_version (rs_version spec)"
  shows "activate h spec fam =
    (if map_of fam (rs_version spec) = None then (bail ''runtime {} is not installed'' [display_spec spec], fam)
     else (Inr (), snd (activate h spec fam)))"
    and "map_of fam (rs_version spec) \<noteq> None \<Longrightarrow>
      map_of (snd (activate h spec fam)) = (map_of fam)(''current'' \<mapsto> LinkNode (rs_version spec))"
proof -
  let ?t = "temporary_link h"
  have t: "?t \<noteq> ''current''" by (simp add: temporary_link_def)
  then have t': "map_of fam ?t = None"
    using assms(1) not_pinned(2) [of h] unfolding family_ok_def by (cases "map_of fam ?t") blast+
  have current: "map_of fam ''current'' \<noteq> Some (DirNode b)" "map_of fam ''current'' \<noteq> Some FileNode" for b
    using assms(1) not_pinned(1) by (auto simp: family_ok_def)
  let ?linked = "AList.update ?t (LinkNode (rs_version spec)) (AList.delete ?t fam)"
  have linked: "map_of ?linked ''current'' = map_of fam ''current''"
    using t by (simp add: delete_conv')
  have run: "activate h spec fam = (Inr (), AList.update ''current'' (LinkNode (rs_version spec)) (AList.delete ?t ?linked))"
    if "map_of fam (rs_version spec) \<noteq> None"
    using that current family_ok_followed [OF assms]
    by (simp add: activate_def has_rootfs_def remove_path_if_present_def Let_def linked
        split: option.splits node.splits)
  show "activate h spec fam =
    (if map_of fam (rs_version spec) = None then (bail ''runtime {} is not installed'' [display_spec spec], fam)
     else (Inr (), snd (activate h spec fam)))"
    using run family_ok_followed [OF assms] by (auto simp: activate_def has_rootfs_def)
  show "map_of (snd (activate h spec fam)) = (map_of fam)(''current'' \<mapsto> LinkNode (rs_version spec))"
    if "map_of fam (rs_version spec) \<noteq> None"
    using run [OF that] t t' by (auto simp: delete_conv' fun_eq_iff)
qed

lemma family_ok_current:
  assumes "family_ok fam" and "is_pinned_version v" and "map_of fam v \<noteq> None"
    and "map_of fam' = (map_of fam)(''current'' \<mapsto> LinkNode v)"
  shows "family_ok fam'"
  using assms not_pinned(1) unfolding family_ok_def by auto

lemma activate_frame:
  assumes "family_ok fam" and "is_pinned_version (rs_version spec)" and "activate h spec fam = (r, fam')"
  shows "family_ok fam' \<and> (r = Inr () \<longrightarrow> map_of fam (rs_version spec) \<noteq> None \<and>
    map_of fam' = (map_of fam)(''current'' \<mapsto> LinkNode (rs_version spec)))"
  using activate_ok [OF assms(1,2), of h] assms(3) family_ok_current [OF assms(1,2)] assms(1)
  by (cases "map_of fam (rs_version spec)") auto

lemma adopt_frame:
  assumes "family_ok fam" and "is_pinned_version (rs_version spec)" and "adopt_installed h ic spec fam = (r, fam')"
  shows "family_ok fam' \<and> (\<forall>x. r = Inr x \<longrightarrow> x = spec \<and> map_of fam (rs_version spec) \<noteq> None \<and>
    map_of fam' = (map_of fam)(''current'' \<mapsto> LinkNode (rs_version spec)))"
proof -
  obtain r' u where act: "activate h spec fam = (r', u)" by fastforce
  then show ?thesis
    using activate_frame [OF assms(1,2) act] assms(1,3)
    by (auto simp: adopt_installed_def st_then_def st_read_def st_return_def split: sum.splits)
qed

lemma family_ok_publish:
  assumes "family_ok fam" and "is_pinned_version v"
  shows "family_ok (AList.update v (DirNode True) fam)"
  using assms not_pinned(1) unfolding family_ok_def by auto

lemma family_ok_present:
  assumes "family_ok fam" and "is_pinned_version v" and "map_of fam v \<noteq> None"
  shows "map_of fam v = Some (DirNode True)"
proof -
  obtain node where "map_of fam v = Some node" using assms(3) by blast
  moreover from this have "node = DirNode True \<or> v = ''current''"
    using assms(1) unfolding family_ok_def by blast
  ultimately show ?thesis using assms(2) not_pinned(1) by auto
qed

text \<open>How an installation ends: with an error and no change, by adopting an installed version, or by
  publishing a new one.\<close>

lemma built_version_Inr:
  "built_version ic spec = Inr s \<Longrightarrow> rs_name s = rs_name spec \<and> is_pinned_version (rs_version s)"
  by (auto simp: built_version_def resolved_spec_def result_simps split: if_splits)

lemma install_cases:
  assumes "install_codex h ic spec fam = (r, fam')" and "is_floating spec \<or> is_pinned_version (rs_version spec)"
  obtains (failed) e where "r = Inl e" "fam' = fam"
  | (adopted) s where "adopt_installed h ic s fam = (r, fam')" "is_pinned_version (rs_version s)" "rs_name s = ''codex''"
  | (published) s r' where "activate h s (AList.update (rs_version s) (DirNode True) fam) = (r', fam')"
      "r = map_ok (\<lambda>_. s) r'" "is_pinned_version (rs_version s)" "rs_name s = ''codex''"
proof -
  consider (name) "rs_name spec \<noteq> ''codex''"
    | (family) e where "rs_name spec = ''codex''" "ic_create_family ic = Inl e"
    | (same) "rs_name spec = ''codex''" "ic_create_family ic = Inr ()" "\<not> is_floating spec" "exists_in fam (rs_version spec)"
    | (staging) e where "rs_name spec = ''codex''" "ic_create_family ic = Inr ()"
        "is_floating spec \<or> \<not> exists_in fam (rs_version spec)" "ic_create_staging ic = Inl e"
    | (build) e where "rs_name spec = ''codex''" "ic_create_family ic = Inr ()"
        "is_floating spec \<or> \<not> exists_in fam (rs_version spec)"
        "ic_create_staging ic = Inr ()" "built_version ic spec = Inl e"
    | (built) s where "rs_name spec = ''codex''" "ic_create_family ic = Inr ()"
        "is_floating spec \<or> \<not> exists_in fam (rs_version spec)"
        "ic_create_staging ic = Inr ()" "built_version ic spec = Inr s"
    by (cases "ic_create_family ic"; cases "ic_create_staging ic"; cases "built_version ic spec"; simp; blast)
  then show thesis
  proof cases
    case built
    note s = built_version_Inr [OF built(5)]
    consider (there) "exists_in fam (rs_version s)" "ic_remove_staging ic = Inr ()"
      | (stuck) e where "exists_in fam (rs_version s)" "ic_remove_staging ic = Inl e"
      | (unnamed) e where "\<not> exists_in fam (rs_version s)" "ic_rename ic = Inl e"
      | (new) "\<not> exists_in fam (rs_version s)" "ic_rename ic = Inr ()"
      by (cases "ic_rename ic"; cases "ic_remove_staging ic"; simp; blast)
    then show thesis
    proof cases
      case there
      then have "adopt_installed h ic s fam = (r, fam')"
        using assms(1) built by (auto simp: install_codex_def st_then_def st_read_def split: if_splits)
      then show thesis using adopted s built(1) by metis
    next
      case stuck
      then have "r = Inl e" "fam' = fam"
        using assms(1) built by (auto simp: install_codex_def st_then_def st_read_def split: if_splits)
      then show thesis by (rule failed)
    next
      case new
      obtain r' u where act: "activate h s (AList.update (rs_version s) (DirNode True) fam) = (r', u)" by fastforce
      then have "fam' = u" "r = map_ok (\<lambda>_. s) r'"
        using assms(1) built new by (auto simp: install_codex_def st_then_def st_return_def split: sum.splits if_splits)
      then show thesis using published act s built(1) by metis
    qed (use assms(1) built s in \<open>auto simp: install_codex_def intro: failed\<close>)
  next
    case (build e)
    then have "r = Inl e" "fam' = fam" using assms(1) by (auto simp: install_codex_def)
    then show thesis by (rule failed)
  qed (use assms in \<open>auto simp: install_codex_def intro: failed adopted\<close>)
qed

lemma install_frame:
  assumes ok: "family_ok fam" and "is_floating spec \<or> is_pinned_version (rs_version spec)"
    and run: "install_codex h ic spec fam = (r, fam')"
  shows "family_ok fam' \<and> (\<forall>x. r = Inr x \<longrightarrow> is_pinned_version (rs_version x) \<and> rs_name x = ''codex'' \<and>
    map_of fam' = (map_of fam)(rs_version x \<mapsto> DirNode True, ''current'' \<mapsto> LinkNode (rs_version x)))"
  using run assms(2)
proof (cases rule: install_cases)
  case failed
  then show ?thesis using ok by simp
next
  case (adopted s)
  note frame = adopt_frame [OF ok adopted(2,1)]
  show ?thesis
  proof (cases r)
    case (Inl e)
    then show ?thesis using frame by simp
  next
    case (Inr x)
    then have x: "x = s" "map_of fam (rs_version s) \<noteq> None"
        "map_of fam' = (map_of fam)(''current'' \<mapsto> LinkNode (rs_version s))"
      using frame by simp_all
    have "(map_of fam)(rs_version s \<mapsto> DirNode True) = map_of fam"
      using family_ok_present [OF ok adopted(2) x(2)] by (simp add: fun_upd_idem)
    then have "map_of fam' = (map_of fam)(rs_version s \<mapsto> DirNode True, ''current'' \<mapsto> LinkNode (rs_version s))"
      using x(3) by simp
    moreover have "family_ok fam'" using frame by blast
    ultimately show ?thesis using adopted(2,3) x(1) unfolding Inr by blast
  qed
next
  case (published s r')
  note frame = activate_frame [OF family_ok_publish [OF ok published(3)] published(3,1)]
  then have "family_ok fam'" by blast
  moreover have "is_pinned_version (rs_version x) \<and> rs_name x = ''codex'' \<and>
      map_of fam' = (map_of fam)(rs_version x \<mapsto> DirNode True, ''current'' \<mapsto> LinkNode (rs_version x))"
    if "r = Inr x" for x
  proof -
    have x: "r' = Inr ()" "x = s" using that published(2) by (simp_all add: map_ok_Inr_iff)
    then have "map_of fam' = (map_of (AList.update (rs_version s) (DirNode True) fam))(''current'' \<mapsto> LinkNode (rs_version s))"
      using frame by blast
    then show ?thesis using published(3,4) x(2) by simp
  qed
  ultimately show ?thesis by blast
qed

lemma remove_frame:
  assumes ok: "family_ok fam" and v: "is_pinned_version (rs_version spec)" and run: "remove_runtime spec fam = (r, fam')"
  shows "family_ok fam' \<and> (r = Inr () \<longrightarrow> map_of fam (rs_version spec) \<noteq> None \<and>
    (\<forall>n. n \<noteq> ''current'' \<longrightarrow> map_of fam' n = (if n = rs_version spec then None else map_of fam n)))"
proof (cases "is_dir_in fam (rs_version spec)")
  case False
  then show ?thesis using run ok by (auto simp: remove_runtime_def)
next
  case True
  then have there: "map_of fam (rs_version spec) \<noteq> None"
    using family_ok_followed [OF ok v] by (auto simp: is_dir_in_def split: if_splits)
  define gone where "gone = (case read_link_in fam ''current'' of Some target \<Rightarrow> path_eq target (rs_version spec) | None \<Rightarrow> False)"
  have "remove_runtime spec fam =
      (Inr (), AList.delete (rs_version spec) (if gone then AList.delete ''current'' fam else fam))"
    using True by (simp add: remove_runtime_def gone_def remove_path_if_present_def split: option.splits)
  then have fam': "r = Inr ()" "map_of fam' = (if gone then (map_of fam)(''current'' := None) else map_of fam)(rs_version spec := None)"
    using run by (auto simp: delete_conv')
  have "family_ok fam'"
    unfolding family_ok_def
  proof (intro allI impI)
    fix name node
    assume found: "map_of fam' name = Some node"
    then have old: "map_of fam name = Some node" and name: "name \<noteq> rs_version spec" "gone \<Longrightarrow> name \<noteq> ''current''"
      by (auto simp: fam'(2) split: if_splits)
    show "is_pinned_version name \<and> node = DirNode True \<or>
        name = ''current'' \<and> (\<exists>v. node = LinkNode v \<and> is_pinned_version v \<and> map_of fam' v = Some (DirNode True))"
    proof (cases "name = ''current''")
      case True
      then obtain target where t: "node = LinkNode target" "is_pinned_version target" "map_of fam target = Some (DirNode True)"
        using ok old not_pinned(1) unfolding family_ok_def by blast
      then have "target \<noteq> rs_version spec" using name(2) old True by (auto simp: gone_def read_link_in_def)
      moreover have "target \<noteq> ''current''" using t(2) not_pinned(1) by auto
      ultimately show ?thesis using t True by (simp add: fam'(2))
    next
      case False
      then show ?thesis using ok old unfolding family_ok_def by blast
    qed
  qed
  then show ?thesis using fam' there by auto
qed

section \<open>Every reachable store\<close>

text \<open>One command line run on the family of a runtime: an installation or a removal, with any outcome of
  the programs it calls.\<close>

inductive runtime_step :: "host \<Rightarrow> family \<Rightarrow> family \<Rightarrow> bool" for h where
  install: "parse_runtime_spec x = Inr spec \<Longrightarrow> install_codex h ic spec fam = (r, fam') \<Longrightarrow> runtime_step h fam fam'"
| remove: "parse_runtime_spec x = Inr spec \<Longrightarrow> \<not> is_floating spec \<Longrightarrow> remove_runtime spec fam = (r, fam') \<Longrightarrow>
    runtime_step h fam fam'"

lemma parsed_spec: "parse_runtime_spec x = Inr spec \<Longrightarrow>
    rs_name spec = ''codex'' \<and> (is_floating spec \<or> is_pinned_version (rs_version spec))"
  by (auto simp: parse_runtime_spec_def is_floating_def split: option.splits if_splits)

lemma step_family:
  assumes "runtime_step h fam fam'" and "family_ok fam"
  shows "family_ok fam'"
  using assms(1)
proof cases
  case (install x spec ic r)
  then show ?thesis using install_frame [OF assms(2)] parsed_spec [OF install(1)] by blast
next
  case (remove x spec r)
  then have "is_pinned_version (rs_version spec)" using parsed_spec [OF remove(1)] by blast
  then show ?thesis using remove_frame [OF assms(2)] remove(3) by blast
qed

lemma reachable_family: "(runtime_step h)\<^sup>*\<^sup>* [] fam \<Longrightarrow> family_ok fam"
proof (induction rule: rtranclp_induct)
  case base
  show ?case by (simp add: family_ok_def)
qed (rule step_family)

text \<open>
  The current runtime is always an installed one. After any sequence of installations and removals,
  whatever the programs they call answer, the store holds complete runtimes with pinned versions and at
  most one link, \<open>current\<close>, which leads to one of them.
\<close>

theorem current_runtime_is_installed:
  assumes "(runtime_step h)\<^sup>*\<^sup>* [] fam"
  shows "family_ok fam"
  by (rule reachable_family [OF assms])

section \<open>What is listed\<close>

lemma pinned_components: "is_pinned_version v \<Longrightarrow> components v = [Normal v]"
  using pinned_component [of v]
  by (auto simp: components_def body_components_def split_on_single component_of_def no_component_def
      is_absolute_def prefix_def)

lemma pinned_path_eq: "is_pinned_version v \<Longrightarrow> is_pinned_version w \<Longrightarrow> path_eq v w \<longleftrightarrow> v = w"
  by (simp add: path_eq_def pinned_components)

lemma activate_distinct: "distinct (map fst fam) \<Longrightarrow> distinct (map fst (snd (activate h spec fam)))"
  by (simp add: activate_def Let_def remove_path_if_present_def distinct_update distinct_delete
      split: option.splits node.splits)

lemma adopt_snd: "snd (adopt_installed h ic s fam) = fam \<or> snd (adopt_installed h ic s fam) = snd (activate h s fam)"
  by (auto simp: adopt_installed_def st_then_def st_read_def st_return_def split: sum.splits prod.splits)

lemma step_distinct:
  assumes "runtime_step h fam fam'" and "distinct (map fst fam)"
  shows "distinct (map fst fam')"
  using assms(1)
proof cases
  case (install x spec ic r)
  show ?thesis
    using install(2) parsed_spec [OF install(1), THEN conjunct2]
  proof (cases rule: install_cases)
    case failed
    then show ?thesis using assms(2) by simp
  next
    case (adopted s)
    then show ?thesis using adopt_snd [of h ic s fam] activate_distinct [OF assms(2), of h s] assms(2)
      by (metis snd_conv)
  next
    case (published s r')
    then show ?thesis
      using activate_distinct [OF distinct_update [OF assms(2)], of h s "rs_version s" "DirNode True"] by simp
  qed
next
  case (remove x spec r)
  then have "fam' = snd (remove_runtime spec fam)" by simp
  then show ?thesis using assms(2)
    by (simp add: remove_runtime_def Let_def remove_path_if_present_def distinct_delete split: option.splits)
qed

lemma reachable_distinct: "(runtime_step h)\<^sup>*\<^sup>* [] fam \<Longrightarrow> distinct (map fst fam)"
  by (induction rule: rtranclp_induct) (auto intro: step_distinct)

lemma listed_iff:
  assumes ok: "family_ok fam" and "distinct (map fst fam)"
  shows "(s, b) \<in> set (list_family name fam) \<longleftrightarrow>
    rs_name s = name \<and> is_pinned_version (rs_version s) \<and> map_of fam (rs_version s) \<noteq> None \<and>
    b = (map_of fam ''current'' = Some (LinkNode (rs_version s)))"
proof -
  have entry: "(v, node) \<in> set fam \<longleftrightarrow> map_of fam v = Some node" for v node
    using assms(2) by simp
  have link: "is_active fam v \<longleftrightarrow>
      map_of fam ''current'' = Some (LinkNode v)" if "is_pinned_version v" for v
  proof (cases "map_of fam ''current''")
    case (Some node)
    then obtain target where "node = LinkNode target" "is_pinned_version target"
      using ok not_pinned(1) unfolding family_ok_def by blast
    then show ?thesis using Some that by (simp add: is_active_def read_link_in_def pinned_path_eq)
  qed (simp add: is_active_def read_link_in_def)
  have pinned: "map_of fam v = Some (DirNode True) \<longleftrightarrow> is_pinned_version v \<and> map_of fam v \<noteq> None" for v
    using ok family_ok_present [OF ok, of v] unfolding family_ok_def by blast
  have "(s, b) \<in> set (list_family name fam) \<longleftrightarrow>
      rs_name s = name \<and> map_of fam (rs_version s) = Some (DirNode True) \<and>
      rs_version s \<noteq> ''current'' \<and> \<not> prefix ''.'' (rs_version s) \<and>
      b = is_active fam (rs_version s)"
    by (cases s) (auto simp: list_family_def entry split: if_splits)
  then show ?thesis using pinned link pinned_component(5,6) by blast
qed

text \<open>
  What was installed is current. After a successful installation on any reachable store exactly the
  returned runtime is listed as current, and it is listed beside all that were listed before.
\<close>

theorem installed_is_current:
  assumes "(runtime_step h)\<^sup>*\<^sup>* [] fam" and "parse_runtime_spec x = Inr spec"
    and "install_codex h ic spec fam = (Inr s, fam')"
  shows "{y. (y, True) \<in> set (list_family ''codex'' fam')} = {s} \<and>
    fst ` set (list_family ''codex'' fam') = insert s (fst ` set (list_family ''codex'' fam))"
proof -
  have ok: "family_ok fam" "distinct (map fst fam)" using reachable_family reachable_distinct assms(1) by blast+
  have step: "runtime_step h fam fam'" using assms(2,3) by (rule runtime_step.install)
  have ok': "family_ok fam'" "distinct (map fst fam')"
    using step_family [OF step ok(1)] step_distinct [OF step ok(2)] by blast+
  have s: "is_pinned_version (rs_version s)" "rs_name s = ''codex''"
      "map_of fam' = (map_of fam)(rs_version s \<mapsto> DirNode True, ''current'' \<mapsto> LinkNode (rs_version s))"
    using install_frame [OF ok(1) _ assms(3)] parsed_spec [OF assms(2)] by blast+
  have "rs_version s \<noteq> ''current''" using s(1) not_pinned(1) by auto
  then have "(y, b) \<in> set (list_family ''codex'' fam') \<longleftrightarrow>
      rs_name y = ''codex'' \<and> is_pinned_version (rs_version y) \<and>
      (y = s \<or> map_of fam (rs_version y) \<noteq> None) \<and> b = (y = s)" for y b
    using listed_iff [OF ok', of y b "''codex''"] s not_pinned(1) by (cases y; cases s) auto
  moreover have "(\<exists>b. (y, b) \<in> set (list_family ''codex'' fam)) \<longleftrightarrow>
      rs_name y = ''codex'' \<and> is_pinned_version (rs_version y) \<and> map_of fam (rs_version y) \<noteq> None" for y
    using listed_iff [OF ok] by simp
  ultimately show ?thesis using s(1,2) by (auto simp: image_iff) (metis fst_conv)+
qed

section \<open>A concrete store\<close>

definition runtime_host :: host where
  "runtime_host =
     \<lparr>h_var = (\<lambda>_. None), h_canonicalize = Inr, h_symlink_metadata = (\<lambda>_. MetaMissing), h_read_link = Inr,
      h_is_dir = (\<lambda>_. False), h_is_file = (\<lambda>_. False), h_temp_dir = ''/tmp'', h_pid = 7\<rparr>"

definition runtime_calls :: install_calls where
  "runtime_calls =
     \<lparr>ic_create_family = Inr (), ic_staging = ''.install-7-1'', ic_build = (\<lambda>spec. Inr (if is_floating spec then '' 1.10.0 '' else rs_version spec)),
      ic_prepare = (\<lambda>_. Inr ()), ic_create_staging = Inr (),
      ic_remove_staging = Inr (), ic_rename = Inr ()\<rparr>"

definition one_runtime :: family where
  "one_runtime = [(''1.10.0'', DirNode True), (''current'', LinkNode ''1.10.0'')]"

definition two_runtimes :: family where
  "two_runtimes = [(''1.10.0'', DirNode True), (''current'', LinkNode ''1.9.0''), (''1.9.0'', DirNode True)]"

lemma runtime_selectors:
  "parse_runtime_spec ''codex@latest'' = Inr \<lparr>rs_name = ''codex'', rs_version = ''latest''\<rparr>"
  "parse_runtime_spec ''codex@1.9.0'' = Inr \<lparr>rs_name = ''codex'', rs_version = ''1.9.0''\<rparr>"
  by code_simp+

lemma install_latest:
  "install_codex runtime_host runtime_calls \<lparr>rs_name = ''codex'', rs_version = ''latest''\<rparr> [] =
     (Inr \<lparr>rs_name = ''codex'', rs_version = ''1.10.0''\<rparr>, one_runtime)"
  by code_simp

lemma install_pinned:
  "install_codex runtime_host runtime_calls \<lparr>rs_name = ''codex'', rs_version = ''1.9.0''\<rparr> one_runtime =
     (Inr \<lparr>rs_name = ''codex'', rs_version = ''1.9.0''\<rparr>, two_runtimes)"
  by code_simp

lemma one_runtime_reachable: "(runtime_step runtime_host)\<^sup>*\<^sup>* [] one_runtime"
  by (rule r_into_rtranclp) (rule runtime_step.install [OF runtime_selectors(1) install_latest])

theorem current_runtime_is_installed_witness: "family_ok one_runtime"
  by (rule current_runtime_is_installed [OF one_runtime_reachable])

theorem installed_is_current_witness:
  "{y. (y, True) \<in> set (list_family ''codex'' two_runtimes)} = {\<lparr>rs_name = ''codex'', rs_version = ''1.9.0''\<rparr>} \<and>
   fst ` set (list_family ''codex'' two_runtimes) =
     insert \<lparr>rs_name = ''codex'', rs_version = ''1.9.0''\<rparr> (fst ` set (list_family ''codex'' one_runtime))"
  by (rule installed_is_current [OF one_runtime_reachable runtime_selectors(2) install_pinned])

end
