(* ===== verification/Driva_Base.thy ===== *)
theory Driva_Base
  imports Driva_Policy
begin

text \<open>
  The base system of a private root (\<open>driva/src/base.rs\<close>): the built-in capabilities, and their
  resolution against the host.
\<close>

section \<open>Capabilities\<close>

datatype capability = Core | Identity | Certificates | Dns | Timezone

fun capability_as_str :: "capability \<Rightarrow> string" where
  "capability_as_str Core = ''core''"
| "capability_as_str Identity = ''identity''"
| "capability_as_str Certificates = ''certificates''"
| "capability_as_str Dns = ''dns''"
| "capability_as_str Timezone = ''timezone''"

text \<open>The derived \<open>Debug\<close> form, which error messages use.\<close>

fun capability_debug :: "capability \<Rightarrow> string" where
  "capability_debug Core = ''Core''"
| "capability_debug Identity = ''Identity''"
| "capability_debug Certificates = ''Certificates''"
| "capability_debug Dns = ''Dns''"
| "capability_debug Timezone = ''Timezone''"

definition DEFAULT_CAPABILITIES :: "capability list" where
  "DEFAULT_CAPABILITIES = [Core, Identity, Certificates, Dns, Timezone]"

text \<open>\<open>BaseConfig\<close> is its \<open>include\<close> list.\<close>

definition include_capability :: "capability \<Rightarrow> capability list \<Rightarrow> capability list" where
  "include_capability x xs = (if x \<in> set xs then xs else xs @ [x])"

definition exclude_capability :: "capability \<Rightarrow> capability list \<Rightarrow> capability list" where
  "exclude_capability x xs = filter (\<lambda>y. y \<noteq> x) xs"

datatype probe = ProbeResolve string | ProbeConnect string | ProbeRun "string list"

record base_path =
  en_at :: string
  en_optional :: bool
  en_doc :: string

record capability_info =
  ci_description :: string
  ci_paths :: "base_path list"
  ci_environment :: "string list"
  ci_probe :: "probe option"

definition core_info :: capability_info where
  "core_info =
     \<lparr>ci_description = ''Run a program: the host's executables, libraries, and loader'',
      ci_paths = [
        \<lparr>en_at = ''/usr'', en_optional = False,
         en_doc = ''Binaries, shared libraries, and their read-only data''\<rparr>,
        \<lparr>en_at = ''/bin'', en_optional = False,
         en_doc = ''The shell and core tools, or the symlink standing in for them''\<rparr>,
        \<lparr>en_at = ''/sbin'', en_optional = True,
         en_doc = ''Administrative tools, where the host still separates them''\<rparr>,
        \<lparr>en_at = ''/lib'', en_optional = True,
         en_doc = ''The dynamic linker and shared libraries, or the link to them''\<rparr>,
        \<lparr>en_at = ''/lib64'', en_optional = True,
         en_doc = ''The 64-bit dynamic linker a binary names in its own headers''\<rparr>,
        \<lparr>en_at = ''/etc/ld.so.cache'', en_optional = True,
         en_doc = ''The loader's index of installed libraries''\<rparr>,
        \<lparr>en_at = ''/etc/ld.so.conf'', en_optional = True,
         en_doc = ''Extra library directories the loader searches''\<rparr>,
        \<lparr>en_at = ''/etc/ld.so.conf.d'', en_optional = True,
         en_doc = ''Per-package additions to the loader's search path''\<rparr>,
        \<lparr>en_at = ''/etc/alternatives'', en_optional = True,
         en_doc = ''Where a Debian host's generic command names point''\<rparr>],
      ci_environment = [],
      ci_probe = Some (ProbeRun [''/bin/sh'', ''-c'', ''exit 0''])\<rparr>"

definition identity_info :: capability_info where
  "identity_info =
     \<lparr>ci_description = ''Name the user and group a program runs as'',
      ci_paths = [
        \<lparr>en_at = ''/etc/passwd'', en_optional = False,
         en_doc = ''The user database a program's own identity comes from''\<rparr>,
        \<lparr>en_at = ''/etc/group'', en_optional = False,
         en_doc = ''The group database, for group names and membership''\<rparr>,
        \<lparr>en_at = ''/etc/nsswitch.conf'', en_optional = True,
         en_doc = ''Which sources answer the user, group, and host databases''\<rparr>],
      ci_environment = [],
      ci_probe = Some (ProbeRun [''/usr/bin/id'', ''-u''])\<rparr>"

definition certificates_info :: capability_info where
  "certificates_info =
     \<lparr>ci_description = ''Verify TLS certificates and reach a network through a proxy'',
      ci_paths = [
        \<lparr>en_at = ''/etc/ssl'', en_optional = True,
         en_doc = ''The usual certificate authority store''\<rparr>,
        \<lparr>en_at = ''/etc/pki'', en_optional = True,
         en_doc = ''The Red Hat family's certificate authority store''\<rparr>,
        \<lparr>en_at = ''/etc/ca-certificates'', en_optional = True,
         en_doc = ''Certificate store configuration and sources''\<rparr>,
        \<lparr>en_at = ''/usr/local/share/ca-certificates'', en_optional = True,
         en_doc = ''Locally added certificate authorities''\<rparr>],
      ci_environment = [''SSL_CERT_FILE'', ''SSL_CERT_DIR'', ''CURL_CA_BUNDLE'', ''REQUESTS_CA_BUNDLE'', ''NODE_EXTRA_CA_CERTS'', ''HTTP_PROXY'', ''HTTPS_PROXY'', ''ALL_PROXY'', ''NO_PROXY'', ''http_proxy'', ''https_proxy'', ''all_proxy'', ''no_proxy''],
      ci_probe = Some (ProbeRun [''/usr/bin/curl'', ''-sS'', ''-o'', ''/dev/null'', ''https://example.com''])\<rparr>"

definition dns_info :: capability_info where
  "dns_info =
     \<lparr>ci_description = ''Turn a host name into an address when networking is permitted'',
      ci_paths = [
        \<lparr>en_at = ''/etc/resolv.conf'', en_optional = False,
         en_doc = ''The nameservers and search domains a DNS lookup uses''\<rparr>,
        \<lparr>en_at = ''/etc/nsswitch.conf'', en_optional = True,
         en_doc = ''Which sources answer a host name, and in what order''\<rparr>,
        \<lparr>en_at = ''/etc/hosts'', en_optional = True,
         en_doc = ''Names answered locally before DNS''\<rparr>,
        \<lparr>en_at = ''/etc/services'', en_optional = True,
         en_doc = ''Port numbers by service name''\<rparr>,
        \<lparr>en_at = ''/etc/protocols'', en_optional = True,
         en_doc = ''Protocol numbers by name''\<rparr>,
        \<lparr>en_at = ''/run/systemd/resolve'', en_optional = True,
         en_doc = ''The systemd-resolved socket and resolver file''\<rparr>],
      ci_environment = [],
      ci_probe = Some (ProbeResolve ''one.one.one.one'')\<rparr>"

definition timezone_info :: capability_info where
  "timezone_info =
     \<lparr>ci_description = ''Report local time as the host does'',
      ci_paths = [
        \<lparr>en_at = ''/etc/localtime'', en_optional = True,
         en_doc = ''The host's time zone as the C library reads it''\<rparr>],
      ci_environment = [''TZ''],
      ci_probe = None\<rparr>"

fun capability_info_of :: "capability \<Rightarrow> capability_info" where
  "capability_info_of Core = core_info"
| "capability_info_of Identity = identity_info"
| "capability_info_of Certificates = certificates_info"
| "capability_info_of Dns = dns_info"
| "capability_info_of Timezone = timezone_info"

section \<open>Resolution against the host\<close>

datatype runtime_entry =
    HostEntry (re_source: string) (re_path: string)
  | SymlinkEntry (re_target: string) (re_path: string)

record resolved_capability =
  rc_name :: capability
  rc_description :: string
  rc_entries :: "runtime_entry list"
  rc_environment :: "string list"
  rc_probe :: "probe option"

type_synonym base = "resolved_capability list"

definition base_entries :: "base \<Rightarrow> runtime_entry list" where
  "base_entries base = concat (map rc_entries base)"

definition base_environment :: "host \<Rightarrow> base \<Rightarrow> environment" where
  "base_environment h base =
     bt_extend [] (concat (map (\<lambda>name. case h_var h name of None \<Rightarrow> [] | Some val \<Rightarrow> [(name, val)])
       (concat (map rc_environment base))))"

definition carried :: "base \<Rightarrow> runtime_entry list \<Rightarrow> string \<Rightarrow> bool" where
  "carried base pending p =
     list_ex (\<lambda>entry. case entry of HostEntry source _ \<Rightarrow> path_starts_with p source | SymlinkEntry _ _ \<Rightarrow> False)
       (base_entries base @ pending)"

definition resolve_entry ::
  "host \<Rightarrow> base_path \<Rightarrow> base \<Rightarrow> runtime_entry list \<Rightarrow> runtime_entry option res" where
  "resolve_entry h entry base pending =
     (let p = en_at entry in
      case h_symlink_metadata h p of
        MetaMissing \<Rightarrow> if en_optional entry then Inr None else bail ''{} is not on this host'' [p]
      | MetaError \<Rightarrow> with_context ''failed to inspect {}'' [p] (Inl io_error)
      | MetaOther \<Rightarrow> Inr (Some (HostEntry p p))
      | MetaSymlink \<Rightarrow>
          and_then (with_context ''failed to read the link at {}'' [p] (h_read_link h p)) (\<lambda>target.
          Inr (Some (case h_canonicalize h p of
                       Inr resolved \<Rightarrow>
                         if \<not> carried base pending resolved then HostEntry resolved p else SymlinkEntry target p
                     | Inl _ \<Rightarrow> SymlinkEntry target p))))"

fun resolve_paths ::
  "host \<Rightarrow> capability \<Rightarrow> base \<Rightarrow> runtime_entry list \<Rightarrow> base_path list \<Rightarrow> runtime_entry list res" where
  "resolve_paths h name base pending [] = Inr pending"
| "resolve_paths h name base pending (entry # rest) =
     and_then (with_context ''resolving capability {} for the sandbox base'' [capability_debug name]
       (resolve_entry h entry base pending)) (\<lambda>found.
     resolve_paths h name base (case found of None \<Rightarrow> pending | Some r \<Rightarrow> pending @ [r]) rest)"

fun resolve_capabilities :: "host \<Rightarrow> base \<Rightarrow> capability list \<Rightarrow> base res" where
  "resolve_capabilities h base [] = Inr base"
| "resolve_capabilities h base (name # names) =
     (let info = capability_info_of name in
      and_then (resolve_paths h name base [] (ci_paths info)) (\<lambda>entries.
      resolve_capabilities h (base @
        [\<lparr>rc_name = name, rc_description = ci_description info, rc_entries = entries,
          rc_environment = filter (\<lambda>v. h_var h v \<noteq> None) (ci_environment info),
          rc_probe = ci_probe info\<rparr>]) names))"

definition resolve_base :: "host \<Rightarrow> capability list \<Rightarrow> base res" where
  "resolve_base h names = resolve_capabilities h [] names"

section \<open>What is resolved\<close>

text \<open>How a declared path that the host has is laid down, among all entries of the base: itself when
  it is no link; a link as a link while it leads into the base (or nowhere), as its content
  otherwise.\<close>

definition leads_into :: "runtime_entry set \<Rightarrow> string \<Rightarrow> bool" where
  "leads_into laid p \<longleftrightarrow> (\<exists>source at. HostEntry source at \<in> laid \<and> path_starts_with p source)"

definition entry_for :: "host \<Rightarrow> runtime_entry set \<Rightarrow> base_path \<Rightarrow> runtime_entry \<Rightarrow> bool" where
  "entry_for h laid entry r \<longleftrightarrow>
     (case r of
        HostEntry source p \<Rightarrow> p = en_at entry \<and>
          (h_symlink_metadata h p = MetaOther \<and> source = p \<or>
           h_symlink_metadata h p = MetaSymlink \<and> h_canonicalize h p = Inr source)
      | SymlinkEntry target p \<Rightarrow> p = en_at entry \<and>
          h_symlink_metadata h p = MetaSymlink \<and> h_read_link h p = Inr target \<and>
          (\<forall>resolved. h_canonicalize h p = Inr resolved \<longrightarrow> leads_into laid resolved))"

definition present :: "host \<Rightarrow> base_path \<Rightarrow> bool" where
  "present h entry \<longleftrightarrow> h_symlink_metadata h (en_at entry) \<noteq> MetaMissing"

definition capability_laid :: "host \<Rightarrow> runtime_entry set \<Rightarrow> resolved_capability \<Rightarrow> bool" where
  "capability_laid h laid r \<longleftrightarrow>
     (let info = capability_info_of (rc_name r) in
      list_all2 (entry_for h laid) (filter (present h) (ci_paths info)) (rc_entries r) \<and>
      (\<forall>entry \<in> set (ci_paths info). present h entry \<or> en_optional entry) \<and>
      rc_environment r = filter (\<lambda>v. h_var h v \<noteq> None) (ci_environment info))"

lemma carried_leads:
  assumes "carried base pending p" and "set (base_entries base @ pending) \<subseteq> laid"
  shows "leads_into laid p"
proof -
  obtain e where e: "e \<in> set (base_entries base @ pending)"
      "case e of HostEntry source _ \<Rightarrow> path_starts_with p source | SymlinkEntry _ _ \<Rightarrow> False"
    using assms(1) unfolding carried_def list_ex_iff by blast
  then obtain source at where "e = HostEntry source at" "path_starts_with p source"
    by (metis runtime_entry.exhaust runtime_entry.simps(5,6))
  then show ?thesis using assms(2) e(1) unfolding leads_into_def by blast
qed

lemma resolve_entry_Some:
  assumes "resolve_entry h entry base pending = Inr (Some r)" and "set (base_entries base @ pending) \<subseteq> laid"
  shows "entry_for h laid entry r \<and> present h entry"
proof (cases "h_symlink_metadata h (en_at entry)")
  case MetaSymlink
  then obtain target where "h_read_link h (en_at entry) = Inr target"
    using assms(1) by (auto simp: resolve_entry_def Let_def result_simps)
  then show ?thesis
    using assms MetaSymlink carried_leads [of base pending _ laid]
    by (cases "h_canonicalize h (en_at entry)")
      (auto simp: resolve_entry_def entry_for_def present_def Let_def split: if_splits)
qed (use assms in \<open>auto simp: resolve_entry_def entry_for_def present_def Let_def split: if_splits\<close>)

lemma resolve_entry_None:
  "resolve_entry h entry base pending = Inr None \<Longrightarrow> en_optional entry \<and> \<not> present h entry"
  by (auto simp: resolve_entry_def present_def Let_def result_simps split: link_metadata.splits if_splits)

lemma resolve_paths_Inr:
  "resolve_paths h name base pending entries = Inr rs \<Longrightarrow>
     \<exists>new. rs = pending @ new \<and> (\<forall>entry \<in> set entries. present h entry \<or> en_optional entry) \<and>
       (\<forall>laid. set (base_entries base @ rs) \<subseteq> laid \<longrightarrow>
          list_all2 (entry_for h laid) (filter (present h) entries) new)"
proof (induction h name base pending entries rule: resolve_paths.induct)
  case (1 h name base pending)
  then show ?case by simp
next
  case (2 h name base pending entry rest)
  then obtain found where found: "resolve_entry h entry base pending = Inr found"
    and rec: "resolve_paths h name base (case found of None \<Rightarrow> pending | Some r \<Rightarrow> pending @ [r]) rest = Inr rs"
    by (auto simp: result_simps)
  obtain new where new: "rs = (case found of None \<Rightarrow> pending | Some r \<Rightarrow> pending @ [r]) @ new"
      "\<forall>entry \<in> set rest. present h entry \<or> en_optional entry"
      "\<forall>laid. set (base_entries base @ rs) \<subseteq> laid \<longrightarrow> list_all2 (entry_for h laid) (filter (present h) rest) new"
    using 2(1) [OF rec] by blast
  show ?case
  proof (cases found)
    case None
    then have "\<not> present h entry" "en_optional entry" using resolve_entry_None found by auto
    then show ?thesis using new None by auto
  next
    case (Some r)
    have "entry_for h laid entry r \<and> present h entry" if "set (base_entries base @ rs) \<subseteq> laid" for laid
      using resolve_entry_Some [of h entry base pending r laid] found Some that new(1) by auto
    then show ?thesis using new Some by (intro exI [of _ "r # new"]) auto
  qed
qed

lemma resolve_capabilities_Inr:
  "resolve_capabilities h base names = Inr all \<Longrightarrow>
     \<exists>new. all = base @ new \<and> map rc_name new = names \<and>
       (\<forall>r \<in> set new. capability_laid h (set (base_entries all)) r)"
proof (induction h base names rule: resolve_capabilities.induct)
  case (1 h base)
  then show ?case by simp
next
  case (2 h base name names)
  let ?info = "capability_info_of name"
  obtain entries where entries: "resolve_paths h name base [] (ci_paths ?info) = Inr entries"
    using 2(2) by (auto simp: Let_def result_simps)
  let ?r = "\<lparr>rc_name = name, rc_description = ci_description ?info, rc_entries = entries,
      rc_environment = filter (\<lambda>v. h_var h v \<noteq> None) (ci_environment ?info), rc_probe = ci_probe ?info\<rparr>"
  have rec: "resolve_capabilities h (base @ [?r]) names = Inr all"
    using 2(2) entries by (auto simp: Let_def)
  then obtain new where new: "all = (base @ [?r]) @ new" "map rc_name new = names"
      "\<forall>r \<in> set new. capability_laid h (set (base_entries all)) r"
    using 2(1) [OF refl rec] by blast
  have "set (base_entries base @ entries) \<subseteq> set (base_entries all)"
    using new(1) by (auto simp: base_entries_def)
  then have "capability_laid h (set (base_entries all)) ?r"
    using resolve_paths_Inr [OF entries] by (auto simp: capability_laid_def Let_def)
  then show ?case using new by (intro exI [of _ "?r # new"]) auto
qed

text \<open>
  The base. A resolved base has exactly the capabilities asked for, in their order; each lays
  down every path it declares that the host has, in the declared order and in no other form than the
  host gives it, and no required path is missing; a link is reproduced only while it leads to
  something the base lays down. Its variables are exactly the declared ones the host sets.
\<close>

theorem base_is_exact:
  assumes "resolve_base h names = Inr base"
  shows "map rc_name base = names \<and> (\<forall>r \<in> set base. capability_laid h (set (base_entries base)) r)"
  using resolve_capabilities_Inr [of h "[]" names base] assms by (auto simp: resolve_base_def)

text \<open>A host with a merged \<open>/usr\<close>: \<open>/bin\<close> is a link into it, \<open>/etc/resolv.conf\<close> one out of it.\<close>

definition merged_host :: host where
  "merged_host =
     \<lparr>h_var = (\<lambda>name. if name = ''HOME'' then Some ''/home/me'' else None),
      h_canonicalize = (\<lambda>p. if p = ''/bin'' then Inr ''/usr/bin''
         else if p = ''/etc/resolv.conf'' then Inr ''/run/resolve/stub'' else Inr p),
      h_symlink_metadata = (\<lambda>p. if p = ''/bin'' \<or> p = ''/etc/resolv.conf'' then MetaSymlink
         else if p = ''/usr'' \<or> p = ''/etc/hosts'' then MetaOther else MetaMissing),
      h_read_link = (\<lambda>p. if p = ''/bin'' then Inr ''usr/bin'' else Inr ''../run/resolve/stub''),
      h_is_dir = (\<lambda>p. True), h_is_file = (\<lambda>p. False), h_temp_dir = ''/tmp'', h_pid = 7\<rparr>"

definition merged_base :: base where
  "merged_base =
     [\<lparr>rc_name = Core, rc_description = ci_description core_info,
       rc_entries = [HostEntry ''/usr'' ''/usr'', SymlinkEntry ''usr/bin'' ''/bin''],
       rc_environment = [], rc_probe = ci_probe core_info\<rparr>,
      \<lparr>rc_name = Dns, rc_description = ci_description dns_info,
       rc_entries = [HostEntry ''/run/resolve/stub'' ''/etc/resolv.conf'', HostEntry ''/etc/hosts'' ''/etc/hosts''],
       rc_environment = [], rc_probe = ci_probe dns_info\<rparr>]"

theorem base_is_exact_witness:
  "resolve_base merged_host [Core, Dns] = Inr merged_base \<and>
   (case merged_base of [] \<Rightarrow> False | r # _ \<Rightarrow> capability_laid merged_host (set (base_entries merged_base)) r)"
proof -
  have run: "resolve_base merged_host [Core, Dns] = Inr merged_base" by code_simp
  show ?thesis using base_is_exact [OF run] run by (simp add: merged_base_def)
qed

end
