(* ===== verification/Driva_Bwrap.thy ===== *)
theory Driva_Bwrap
  imports Driva_Base
begin

text \<open>
  The Bubblewrap backend (\<open>driva/src/bwrap.rs\<close>): the mount plan, the floor, the environment and the
  argument list of one invocation, the checks of a prepared rootfs, and the private copies of
  overlaid files.
\<close>

section \<open>The mount plan\<close>

fun plan_mount :: "writable_mount_mode \<Rightarrow> mount \<Rightarrow> mount" where
  "plan_mount OverlayWrites (Bind source destination ReadWrite) = Overlay source destination"
| "plan_mount mode m = m"

definition with_nested_mounts_last :: "mount list \<Rightarrow> mount list" where
  "with_nested_mounts_last mounts = sort_key (\<lambda>m. depth (mount_destination m)) mounts"

definition mount_plan :: "execution_request \<Rightarrow> mount list" where
  "mount_plan request =
     with_nested_mounts_last (map (plan_mount (rq_writable_mounts request)) (rq_mounts request))"

text \<open>The destinations of the temporary mounts: each once, nested ones last.\<close>

fun temporary_destinations :: "host \<Rightarrow> string list \<Rightarrow> mount list \<Rightarrow> string list res" where
  "temporary_destinations h found [] = Inr found"
| "temporary_destinations h found (m # ms) =
     (case m of
        Temporary destination \<Rightarrow>
          and_then (expand_home h ''temporary mount destination'' destination) (\<lambda>d.
          temporary_destinations h (if list_ex (path_eq d) found then found else found @ [d]) ms)
      | Bind _ _ _ \<Rightarrow> temporary_destinations h found ms
      | Overlay _ _ \<Rightarrow> temporary_destinations h found ms)"

definition collect_temporary_mounts :: "host \<Rightarrow> mount list \<Rightarrow> string list res" where
  "collect_temporary_mounts h mounts = map_ok (sort_key depth) (temporary_destinations h [] mounts)"

section \<open>The backend\<close>

record bwrap_isolation =
  bw_executable :: string
  bw_rootfs :: "string option"
  bw_base :: "capability list"

definition expand_rootfs :: "host \<Rightarrow> string \<Rightarrow> string res" where
  "expand_rootfs h p =
     (if path_eq p ''~'' \<or> path_starts_with p ''~/''
      then (case h_var h ''HOME'' of
              None \<Rightarrow> bail ''HOME is not set; cannot expand rootfs'' []
            | Some home \<Rightarrow>
                (case strip_path_prefix p ''~'' of
                   None \<Rightarrow> Inl (panic ''prefix checked'')
                 | Some rest \<Rightarrow> Inr (path_join home rest)))
      else Inr p)"

definition resolve_rootfs :: "host \<Rightarrow> bwrap_isolation \<Rightarrow> string option res" where
  "resolve_rootfs h b =
     (case bw_rootfs b of
        None \<Rightarrow> Inr None
      | Some configured \<Rightarrow>
          and_then (expand_rootfs h configured) (\<lambda>expanded.
          and_then (with_context ''invalid Bubblewrap rootfs {}'' [expanded] (h_canonicalize h expanded)) (\<lambda>rootfs.
          if \<not> h_is_dir h rootfs then bail ''Bubblewrap rootfs is not a directory: {}'' [rootfs]
          else Inr (Some rootfs))))"

definition is_nested_beneath :: "string \<Rightarrow> string \<Rightarrow> bool" where
  "is_nested_beneath p base =
     (case strip_path_prefix p base of
        None \<Rightarrow> False
      | Some relative \<Rightarrow>
          components relative \<noteq> [] \<and>
          list_all (\<lambda>x. case x of Normal _ \<Rightarrow> True | RootDir \<Rightarrow> False | CurDir \<Rightarrow> False | ParentDir \<Rightarrow> False)
            (components relative))"

definition require_rootfs_path :: "host \<Rightarrow> string \<Rightarrow> string \<Rightarrow> string \<Rightarrow> string res" where
  "require_rootfs_path h rootfs p label =
     (case strip_path_prefix p ''/'' of
        None \<Rightarrow> bail ''Bubblewrap {} must be absolute: {}'' [label, p]
      | Some relative \<Rightarrow>
          and_then (with_context ''Bubblewrap {} does not exist in the rootfs: {}'' [label, p]
            (h_canonicalize h (path_join rootfs relative))) (\<lambda>resolved.
          if \<not> path_starts_with resolved rootfs
          then bail ''Bubblewrap {} escapes the rootfs through a symlink: {}'' [label, p]
          else Inr resolved))"

definition require_rootfs_directory :: "host \<Rightarrow> string \<Rightarrow> string \<Rightarrow> string \<Rightarrow> unit res" where
  "require_rootfs_directory h rootfs p label =
     and_then (require_rootfs_path h rootfs p label) (\<lambda>resolved.
     if \<not> h_is_dir h resolved then bail ''Bubblewrap {} is not a directory in the rootfs: {}'' [label, p]
     else Inr ())"

definition require_rootfs_path_or_temporary ::
  "host \<Rightarrow> string \<Rightarrow> string list \<Rightarrow> string \<Rightarrow> string \<Rightarrow> unit res" where
  "require_rootfs_path_or_temporary h rootfs temporary p label =
     (if is_nested_beneath p ''/tmp'' \<or> list_ex (is_nested_beneath p) temporary then Inr ()
      else map_ok (\<lambda>_. ()) (require_rootfs_path h rootfs p label))"

definition validate_rootfs_runtime :: "host \<Rightarrow> string \<Rightarrow> unit res" where
  "validate_rootfs_runtime h rootfs =
     and_then (require_rootfs_directory h rootfs ''/proc'' ''proc mount point'') (\<lambda>_.
     and_then (require_rootfs_directory h rootfs ''/dev'' ''device mount point'') (\<lambda>_.
     require_rootfs_directory h rootfs ''/tmp'' ''temporary directory''))"

definition validate_rootfs_paths ::
  "host \<Rightarrow> string \<Rightarrow> execution_request \<Rightarrow> mount list \<Rightarrow> string list \<Rightarrow> unit res" where
  "validate_rootfs_paths h rootfs request mounts temporary =
     and_then (collect (\<lambda>d. require_rootfs_directory h rootfs d ''temporary mount point'') temporary) (\<lambda>_.
     and_then (require_rootfs_path_or_temporary h rootfs temporary (rq_working_directory request)
       ''working directory'') (\<lambda>_.
     map_ok (\<lambda>_. ()) (collect (\<lambda>m.
       case m of
         Temporary _ \<Rightarrow> Inr ()
       | Bind _ destination _ \<Rightarrow> require_rootfs_path_or_temporary h rootfs temporary destination ''mount destination''
       | Overlay _ destination \<Rightarrow> require_rootfs_path_or_temporary h rootfs temporary destination ''mount destination'')
       mounts)))"

section \<open>Floor and environment\<close>

definition floor_of :: "string option \<Rightarrow> execution_request \<Rightarrow> string list \<Rightarrow> floor_entry list" where
  "floor_of rootfs request temporary =
     [case rootfs of
        Some r \<Rightarrow> \<lparr>fe_kind = RootFs, fe_path = ''/'', fe_source = Some r\<rparr>
      | None \<Rightarrow> \<lparr>fe_kind = PrivateRoot, fe_path = ''/'', fe_source = None\<rparr>,
      \<lparr>fe_kind = Proc, fe_path = ''/proc'', fe_source = None\<rparr>,
      \<lparr>fe_kind = Devices, fe_path = ''/dev'', fe_source = None\<rparr>,
      \<lparr>fe_kind = Tmpfs, fe_path = ''/tmp'', fe_source = None\<rparr>] @
     map (\<lambda>d. \<lparr>fe_kind = Tmpfs, fe_path = d, fe_source = None\<rparr>)
       (filter (\<lambda>d. \<not> path_eq d ''/tmp'') temporary) @
     (if rootfs = None
      then [\<lparr>fe_kind = Directory, fe_path = rq_working_directory request, fe_source = None\<rparr>] else [])"

definition environment_of ::
  "host \<Rightarrow> execution_request \<Rightarrow> base option \<Rightarrow> (string \<times> string \<times> environment_origin) list" where
  "environment_of h request base =
     (let requested = rq_environment request in
      (if map_of requested ''PATH'' = None then [(''PATH'', DEFAULT_PATH, BackendOrigin)] else []) @
      (case base of
         None \<Rightarrow> []
       | Some b \<Rightarrow> map (\<lambda>(name, val). (name, val, BaseOrigin))
           (filter (\<lambda>(name, _). map_of requested name = None) (base_environment h b))) @
      map (\<lambda>(name, val). (name, val, RequestOrigin)) requested)"

section \<open>Private copies\<close>

definition private_copy_root :: "host \<Rightarrow> string" where
  "private_copy_root h = path_join (h_temp_dir h) (''driva-overlay-'' @ show_nat (h_pid h))"

definition escape_separator :: "char \<Rightarrow> string" where
  "escape_separator x = (if x = CHR ''%'' then ''%%'' else if x = CHR ''/'' then ''%'' else [x])"

definition private_copy_path :: "host \<Rightarrow> string \<Rightarrow> string" where
  "private_copy_path h destination = path_join (private_copy_root h) (concat (map escape_separator destination))"

definition overlaid_files :: "host \<Rightarrow> mount list \<Rightarrow> (string \<times> string) list" where
  "overlaid_files h mounts =
     concat (map (\<lambda>m. case m of
        Overlay source destination \<Rightarrow> if h_is_file h source then [(source, destination)] else []
      | Bind _ _ _ \<Rightarrow> []
      | Temporary _ \<Rightarrow> []) mounts)"

text \<open>The private directories that exist, and which source's content each private copy holds. Whether
  a file system call succeeds is a parameter.\<close>

record private_files =
  pf_roots :: "string list"
  pf_copies :: "string \<Rightarrow> string option"

record file_calls =
  fc_create_dir :: "string \<Rightarrow> unit res"
  fc_set_permissions :: "string \<Rightarrow> unit res"
  fc_copy :: "string \<Rightarrow> string \<Rightarrow> unit res"
  fc_metadata :: "string \<Rightarrow> unit res"

definition restrict_to_owner :: "file_calls \<Rightarrow> string \<Rightarrow> unit res" where
  "restrict_to_owner fc p = with_context ''failed to restrict {}'' [p] (fc_set_permissions fc p)"

definition make_owner_writable :: "file_calls \<Rightarrow> string \<Rightarrow> unit res" where
  "make_owner_writable fc p =
     and_then (with_context ''failed to inspect {}'' [p] (fc_metadata fc p)) (\<lambda>_.
     with_context ''failed to make {} writable'' [p] (fc_set_permissions fc p))"

definition copy_file ::
  "host \<Rightarrow> file_calls \<Rightarrow> string \<times> string \<Rightarrow> (private_files, error, unit) st_op" where
  "copy_file h fc file s =
     (case file of (source, destination) \<Rightarrow>
        let copy = private_copy_path h destination in
        case with_context ''failed to copy {} for a discarded-write overlay'' [source] (fc_copy fc source copy) of
          Inl e \<Rightarrow> (Inl e, s)
        | Inr _ \<Rightarrow> (make_owner_writable fc copy, s\<lparr>pf_copies := (pf_copies s)(copy \<mapsto> source)\<rparr>))"

definition create_private_root :: "host \<Rightarrow> file_calls \<Rightarrow> (private_files, error, unit) st_op" where
  "create_private_root h fc s =
     (let root = private_copy_root h in
      case with_context ''failed to create overlay directory {}'' [root] (fc_create_dir fc root) of
        Inl e \<Rightarrow> (Inl e, s)
      | Inr _ \<Rightarrow> (restrict_to_owner fc root, s\<lparr>pf_roots := root # pf_roots s\<rparr>))"

definition materialize_private_copies ::
  "host \<Rightarrow> file_calls \<Rightarrow> mount list \<Rightarrow> (private_files, error, string option) st_op" where
  "materialize_private_copies h fc mounts =
     (let files = overlaid_files h mounts in
      if files = [] then st_return None
      else st_then (create_private_root h fc) (\<lambda>_.
           st_then (st_for (copy_file h fc) files) (\<lambda>_.
           st_return (Some (private_copy_root h)))))"

text \<open>\<open>remove_dir_all\<close>, its failure ignored by the caller. The copies are direct children.\<close>

definition remove_private_copies :: "string \<Rightarrow> private_files \<Rightarrow> private_files" where
  "remove_private_copies root s =
     s\<lparr>pf_roots := filter (\<lambda>r. r \<noteq> root) (pf_roots s),
       pf_copies := (\<lambda>p. if path_starts_with p root then None else pf_copies s p)\<rparr>"

section \<open>The invocation\<close>

definition isolation_options ::
  "execution_request \<Rightarrow> (string \<times> string \<times> environment_origin) list \<Rightarrow> string list" where
  "isolation_options request env =
     [''--unshare-all''] @
     (if rq_new_session request then [''--new-session''] else []) @
     [''--die-with-parent''] @
     (if rq_network request then [''--share-net''] else []) @
     [''--clearenv''] @
     concat (map (\<lambda>(name, val, _). [''--setenv'', name, val]) env)"

definition base_arguments :: "base \<Rightarrow> string list" where
  "base_arguments base =
     concat (map (\<lambda>entry. case entry of
        HostEntry source p \<Rightarrow> [''--ro-bind'', source, p]
      | SymlinkEntry target p \<Rightarrow> [''--symlink'', target, p]) (base_entries base))"

fun floor_entry_arguments :: "floor_entry \<Rightarrow> string list" where
  "floor_entry_arguments entry =
     (case fe_kind entry of
        PrivateRoot \<Rightarrow> [''--tmpfs'', fe_path entry]
      | Tmpfs \<Rightarrow> [''--tmpfs'', fe_path entry]
      | RootFs \<Rightarrow> [''--ro-bind'', the (fe_source entry), fe_path entry]
      | Proc \<Rightarrow> [''--proc'', fe_path entry]
      | Devices \<Rightarrow> [''--dev'', fe_path entry]
      | Directory \<Rightarrow> [''--dir'', fe_path entry])"

definition floor_arguments :: "floor_entry list \<Rightarrow> base option \<Rightarrow> string list" where
  "floor_arguments entries base =
     concat (map (\<lambda>entry. floor_entry_arguments entry @
       (if path_eq (fe_path entry) ''/'' then (case base of None \<Rightarrow> [] | Some b \<Rightarrow> base_arguments b) else []))
       entries)"

definition mount_arguments :: "host \<Rightarrow> mount list \<Rightarrow> string list" where
  "mount_arguments h mounts =
     concat (map (\<lambda>m. case m of
        Bind source destination access \<Rightarrow>
          [case access of ReadOnly \<Rightarrow> ''--ro-bind'' | ReadWrite \<Rightarrow> ''--bind'', source, destination]
      | Overlay source destination \<Rightarrow>
          if h_is_file h source then [''--bind'', private_copy_path h destination, destination]
          else [''--overlay-src'', source, ''--tmp-overlay'', destination]
      | Temporary _ \<Rightarrow> []) mounts)"

definition seal_arguments :: "floor_entry list \<Rightarrow> string list" where
  "seal_arguments entries =
     (if list_ex (\<lambda>entry. fe_kind entry = PrivateRoot) entries then [''--remount-ro'', ''/''] else [])"

text \<open>The whole layout: rootfs, base, floor and environment, or why there is none.\<close>

record layout =
  ly_rootfs :: "string option"
  ly_base :: "base option"
  ly_floor :: "floor_entry list"

definition sandbox_layout ::
  "host \<Rightarrow> bwrap_isolation \<Rightarrow> execution_request \<Rightarrow> mount list \<Rightarrow> layout res" where
  "sandbox_layout h b request mounts =
     and_then (resolve_rootfs h b) (\<lambda>rootfs.
     and_then (collect_temporary_mounts h mounts) (\<lambda>temporary.
     and_then (case rootfs of
                 None \<Rightarrow> Inr ()
               | Some r \<Rightarrow> and_then (validate_rootfs_runtime h r) (\<lambda>_.
                           validate_rootfs_paths h r request mounts temporary)) (\<lambda>_.
     and_then (case rootfs of Some _ \<Rightarrow> Inr None | None \<Rightarrow> map_ok Some (resolve_base h (bw_base b))) (\<lambda>base.
     Inr \<lparr>ly_rootfs = rootfs, ly_base = base, ly_floor = floor_of rootfs request temporary\<rparr>))))"

definition command_with_mounts ::
  "host \<Rightarrow> bwrap_isolation \<Rightarrow> execution_request \<Rightarrow> mount list \<Rightarrow> (string \<times> string list) res" where
  "command_with_mounts h b request mounts =
     and_then (sandbox_layout h b request mounts) (\<lambda>l.
     Inr (bw_executable b,
       isolation_options request (environment_of h request (ly_base l)) @
       floor_arguments (ly_floor l) (ly_base l) @
       mount_arguments h mounts @
       seal_arguments (ly_floor l) @
       [''--chdir'', rq_working_directory request, ''--''] @ rq_command request))"

definition bwrap_command ::
  "host \<Rightarrow> bwrap_isolation \<Rightarrow> execution_request \<Rightarrow> (string \<times> string list) res" where
  "bwrap_command h b request = command_with_mounts h b request (mount_plan request)"

definition bwrap_floor :: "host \<Rightarrow> bwrap_isolation \<Rightarrow> execution_request \<Rightarrow> floor_entry list res" where
  "bwrap_floor h b request =
     and_then (resolve_rootfs h b) (\<lambda>rootfs.
     and_then (collect_temporary_mounts h (mount_plan request)) (\<lambda>temporary.
     Inr (floor_of rootfs request temporary)))"

definition bwrap_environment ::
  "host \<Rightarrow> bwrap_isolation \<Rightarrow> execution_request \<Rightarrow> environment_entry list res" where
  "bwrap_environment h b request =
     and_then (resolve_rootfs h b) (\<lambda>rootfs.
     and_then (case rootfs of Some _ \<Rightarrow> Inr None | None \<Rightarrow> map_ok Some (resolve_base h (bw_base b))) (\<lambda>base.
     Inr (map (\<lambda>(name, val, origin). \<lparr>ee_name = name, ee_value = val, ee_origin = origin\<rparr>)
       (environment_of h request base))))"

section \<open>Running\<close>

text \<open>One run, given how spawning the program ends (its process id) and what waiting for it returns (its
  exit code, none when a signal ended it). The clock readings of the evidence are left out.\<close>

definition run_inner ::
  "host \<Rightarrow> file_calls \<Rightarrow> bwrap_isolation \<Rightarrow> (string \<times> string list \<Rightarrow> nat res) \<Rightarrow> (nat \<Rightarrow> int option res) \<Rightarrow>
   execution_request \<Rightarrow> (private_files, error, process_exit \<times> effective_policy) st_op" where
  "run_inner h fc b spawn await request =
     (let mounts = mount_plan request in
      st_then (materialize_private_copies h fc mounts) (\<lambda>private_copies.
      st_then (st_read (\<lambda>_. command_with_mounts h b request mounts)) (\<lambda>invocation.
      let child = with_context ''failed to start {}'' [bw_executable b] (spawn invocation);
          status = and_then child await
      in (\<lambda>s. (map_ok (\<lambda>code. (process_exit_of code, (effective_policy_of request)\<lparr>ep_mounts := mounts\<rparr>)) status,
           case private_copies of None \<Rightarrow> s | Some root \<Rightarrow> remove_private_copies root s)))))"

definition execute ::
  "host \<Rightarrow> file_calls \<Rightarrow> bwrap_isolation \<Rightarrow> (string \<times> string list \<Rightarrow> nat res) \<Rightarrow> (nat \<Rightarrow> int option res) \<Rightarrow>
   execution_request \<Rightarrow> (private_files, error, process_exit \<times> effective_policy) st_op" where
  "execute h fc b spawn await request =
     st_then (st_read (\<lambda>_. validate_request h request)) (run_inner h fc b spawn await)"

text \<open>The wait for a controlled child. \<open>try_wait n\<close> and \<open>requested n\<close> are what the \<open>n\<close>-th round of
  the loop finds; \<open>kill\<close> and \<open>wait\<close> what the calls return after a request. A child that never
  exits and is never asked to end keeps the loop going, which is the value \<open>None\<close>.\<close>

partial_function (option) wait_for_controlled_child ::
  "(nat \<Rightarrow> int option option res) \<Rightarrow> (nat \<Rightarrow> bool) \<Rightarrow> unit res \<Rightarrow> int option res \<Rightarrow> int option option res \<Rightarrow> nat \<Rightarrow>
   int option res option" where
  "wait_for_controlled_child try_wait requested kill wait after n =
     (case with_context ''checking Bubblewrap status'' [] (try_wait n) of
        Inl e \<Rightarrow> Some (Inl e)
      | Inr (Some status) \<Rightarrow> Some (Inr status)
      | Inr None \<Rightarrow>
          if requested n
          then Some (case kill of
                 Inr _ \<Rightarrow> with_context ''waiting for terminated Bubblewrap'' [] wait
               | Inl e \<Rightarrow>
                   and_then (with_context ''checking Bubblewrap after termination failed'' [] after) (\<lambda>found.
                   case found of Some status \<Rightarrow> Inr status
                   | None \<Rightarrow> with_context ''terminating Bubblewrap'' [] (Inl e)))
          else wait_for_controlled_child try_wait requested kill wait after (Suc n))"

declare wait_for_controlled_child.simps [code]

text \<open>\<open>wait_for_child\<close>, beside its result the process id the control shows when it has returned. Without
  a control the wait is the blocking one. The flag of the control is stored to by others: \<open>requested\<close>.\<close>

definition wait_for_child ::
  "nat \<Rightarrow> (nat \<Rightarrow> int option option res) \<Rightarrow> (nat \<Rightarrow> bool) \<Rightarrow> unit res \<Rightarrow> int option res \<Rightarrow> int option option res \<Rightarrow>
   execution_control option \<Rightarrow> (int option res \<times> execution_control option) option" where
  "wait_for_child pid try_wait requested kill wait after ctl =
     (case ctl of
        None \<Rightarrow> Some (with_context ''waiting for Bubblewrap'' [] wait, None)
      | Some c \<Rightarrow>
          let running = set_process_id (Some pid) c in
          map_option (\<lambda>status. (status, Some (set_process_id None running)))
            (wait_for_controlled_child try_wait requested kill wait after 0))"

section \<open>Facts\<close>

lemma floor_sources: "entry \<in> set (floor_of rootfs request temporary) \<Longrightarrow> fe_kind entry = RootFs \<Longrightarrow> fe_source entry \<noteq> None"
  by (auto simp: floor_of_def split: option.splits if_splits)

lemma set_mount_plan: "set (mount_plan request) = plan_mount (rq_writable_mounts request) ` set (rq_mounts request)"
  by (simp add: mount_plan_def with_nested_mounts_last_def)

lemma plan_mount_destination [simp]: "mount_destination (plan_mount mode m) = mount_destination m"
  by (cases "(mode, m)" rule: plan_mount.cases) simp_all

lemma mount_plan_sorted: "sorted (map (\<lambda>m. depth (mount_destination m)) (mount_plan request))"
  by (simp add: mount_plan_def with_nested_mounts_last_def)

end
