(* ===== verification/Driva_Sample.thy ===== *)
theory Driva_Sample
  imports Driva_Bwrap
begin

text \<open>A small host and a request with nested, temporary and writable mounts, for concrete examples.\<close>

definition sample_host :: host where
  "sample_host =
     \<lparr>h_var = (\<lambda>v. if v = ''HOME'' then Some ''/h'' else if v = ''TZ'' then Some ''UTC'' else None),
      h_canonicalize = (\<lambda>p. if p = ''/h/link'' then Inr ''/h/project'' else Inr p),
      h_symlink_metadata = (\<lambda>p. if p = ''/etc/localtime'' then MetaOther else MetaMissing),
      h_read_link = (\<lambda>p. Inl io_error),
      h_is_dir = (\<lambda>p. p \<noteq> ''/h/.rc''),
      h_is_file = (\<lambda>p. p = ''/h/.rc''),
      h_temp_dir = ''/tmp'', h_pid = 7\<rparr>"

definition sample_isolation :: bwrap_isolation where
  "sample_isolation = \<lparr>bw_executable = ''bwrap'', bw_rootfs = None, bw_base = [Timezone]\<rparr>"

definition sample_raw :: execution_request where
  "sample_raw =
     \<lparr>rq_command = [''sh''], rq_working_directory = ''/work'',
      rq_mounts = [Bind ''/h/b'' ''/work/sub'' ReadOnly, Bind ''~/link'' ''/work'' ReadWrite, Temporary ''~/v''],
      rq_writable_mounts = DirectWrites, rq_environment = [(''A'', ''--'')], rq_network = False,
      rq_interactive = False, rq_new_session = True\<rparr>"

definition sample_request :: execution_request where
  "sample_request = sample_raw\<lparr>rq_mounts :=
     [Bind ''/h/b'' ''/work/sub'' ReadOnly, Bind ''/h/project'' ''/work'' ReadWrite, Temporary ''/h/v'']\<rparr>"

definition sample_args :: "string list" where
  "sample_args =
     [''--unshare-all'', ''--new-session'', ''--die-with-parent'', ''--clearenv'',
      ''--setenv'', ''PATH'', DEFAULT_PATH, ''--setenv'', ''TZ'', ''UTC'', ''--setenv'', ''A'', ''--'',
      ''--tmpfs'', ''/'', ''--ro-bind'', ''/etc/localtime'', ''/etc/localtime'',
      ''--proc'', ''/proc'', ''--dev'', ''/dev'', ''--tmpfs'', ''/tmp'', ''--tmpfs'', ''/h/v'', ''--dir'', ''/work'',
      ''--bind'', ''/h/project'', ''/work'', ''--ro-bind'', ''/h/b'', ''/work/sub'',
      ''--remount-ro'', ''/'', ''--chdir'', ''/work'', ''--'', ''sh'']"

lemma sample_validated: "validate_request sample_host sample_raw = Inr sample_request"
  by code_simp

lemma sample_command: "bwrap_command sample_host sample_isolation sample_request = Inr (''bwrap'', sample_args)"
  by code_simp

text \<open>The same machine with a file to overlay, every file system call succeeding.\<close>

definition overlay_request :: execution_request where
  "overlay_request = sample_request\<lparr>
     rq_mounts := [Overlay ''/h/.rc'' ''/h/.rc'', Bind ''/h/project'' ''/work'' ReadWrite],
     rq_writable_mounts := OverlayWrites\<rparr>"

definition sample_calls :: file_calls where
  "sample_calls =
     \<lparr>fc_create_dir = (\<lambda>_. Inr ()), fc_set_permissions = (\<lambda>_. Inr ()), fc_copy = (\<lambda>_ _. Inr ()),
      fc_metadata = (\<lambda>_. Inr ())\<rparr>"

definition no_files :: private_files where
  "no_files = \<lparr>pf_roots = [], pf_copies = (\<lambda>_. None)\<rparr>"

definition bad_isolation :: bwrap_isolation where
  "bad_isolation = sample_isolation\<lparr>bw_rootfs := Some ''/h/.rc''\<rparr>"

end
