(* ===== verification/Driva_Sandbox.thy ===== *)
theory Driva_Sandbox
  imports Driva_Sample
begin

text \<open>
  What an invocation says. Bubblewrap is not part of the program; this theory states the documented
  reading of its command line: options take a fixed number of arguments, \<open>--\<close> starts the command.
  Against that reading the argument list of the backend is exactly the intended one.
\<close>

section \<open>The options of an invocation\<close>

datatype setup_op =
    MountTmpfs string
  | MountProc string
  | MountDev string
  | MakeDir string
  | MakeSymlink string string
  | BindReadOnly string string
  | BindWritable string string
  | MountOverlay string string
  | RemountReadOnly string

datatype bwrap_option = Switch string | SetEnv string string | Setup setup_op | ChangeDir string

definition switches :: "string list" where
  "switches = [''--unshare-all'', ''--new-session'', ''--die-with-parent'', ''--share-net'', ''--clearenv'']"

definition one_argument :: "string \<Rightarrow> string \<Rightarrow> bwrap_option option" where
  "one_argument a x =
     (if a = ''--tmpfs'' then Some (Setup (MountTmpfs x))
      else if a = ''--proc'' then Some (Setup (MountProc x))
      else if a = ''--dev'' then Some (Setup (MountDev x))
      else if a = ''--dir'' then Some (Setup (MakeDir x))
      else if a = ''--remount-ro'' then Some (Setup (RemountReadOnly x))
      else if a = ''--chdir'' then Some (ChangeDir x)
      else None)"

definition two_arguments :: "string \<Rightarrow> string \<Rightarrow> string \<Rightarrow> bwrap_option option" where
  "two_arguments a x y =
     (if a = ''--setenv'' then Some (SetEnv x y)
      else if a = ''--ro-bind'' then Some (Setup (BindReadOnly x y))
      else if a = ''--bind'' then Some (Setup (BindWritable x y))
      else if a = ''--symlink'' then Some (Setup (MakeSymlink x y))
      else None)"

definition cons_option ::
  "bwrap_option \<Rightarrow> (bwrap_option list \<times> string list) option \<Rightarrow> (bwrap_option list \<times> string list) option" where
  "cons_option x r = map_option (\<lambda>(xs, command). (x # xs, command)) r"

fun parse_options :: "string list \<Rightarrow> (bwrap_option list \<times> string list) option" where
  "parse_options [] = None"
| "parse_options (a # rest) =
     (if a = ''--'' then Some ([], rest)
      else if a \<in> set switches then cons_option (Switch a) (parse_options rest)
      else (case rest of
              [] \<Rightarrow> None
            | x # rest1 \<Rightarrow>
                (case one_argument a x of
                   Some opt \<Rightarrow> cons_option opt (parse_options rest1)
                 | None \<Rightarrow>
                     (case rest1 of
                        [] \<Rightarrow> None
                      | y # rest2 \<Rightarrow>
                          (case two_arguments a x y of
                             Some opt \<Rightarrow> cons_option opt (parse_options rest2)
                           | None \<Rightarrow>
                               (case rest2 of
                                  [] \<Rightarrow> None
                                | z # rest3 \<Rightarrow>
                                    if a = ''--overlay-src'' \<and> y = ''--tmp-overlay''
                                    then cons_option (Setup (MountOverlay x z)) (parse_options rest3)
                                    else None))))))"

section \<open>The intended options\<close>

definition environment_options :: "(string \<times> string \<times> environment_origin) list \<Rightarrow> bwrap_option list" where
  "environment_options env = map (\<lambda>(name, val, _). SetEnv name val) env"

fun base_setup :: "runtime_entry \<Rightarrow> setup_op" where
  "base_setup (HostEntry source p) = BindReadOnly source p"
| "base_setup (SymlinkEntry target p) = MakeSymlink target p"

definition floor_setup :: "floor_entry \<Rightarrow> setup_op" where
  "floor_setup entry =
     (case fe_kind entry of
        PrivateRoot \<Rightarrow> MountTmpfs (fe_path entry)
      | Tmpfs \<Rightarrow> MountTmpfs (fe_path entry)
      | RootFs \<Rightarrow> BindReadOnly (the (fe_source entry)) (fe_path entry)
      | Proc \<Rightarrow> MountProc (fe_path entry)
      | Devices \<Rightarrow> MountDev (fe_path entry)
      | Directory \<Rightarrow> MakeDir (fe_path entry))"

definition floor_setups :: "layout \<Rightarrow> setup_op list" where
  "floor_setups l =
     concat (map (\<lambda>entry. floor_setup entry #
       (if path_eq (fe_path entry) ''/''
        then (case ly_base l of None \<Rightarrow> [] | Some b \<Rightarrow> map base_setup (base_entries b)) else []))
       (ly_floor l))"

definition mount_setups :: "host \<Rightarrow> mount list \<Rightarrow> setup_op list" where
  "mount_setups h mounts =
     concat (map (\<lambda>m. case m of
        Bind source destination ReadOnly \<Rightarrow> [BindReadOnly source destination]
      | Bind source destination ReadWrite \<Rightarrow> [BindWritable source destination]
      | Overlay source destination \<Rightarrow>
          [if h_is_file h source then BindWritable (private_copy_path h destination) destination
           else MountOverlay source destination]
      | Temporary _ \<Rightarrow> []) mounts)"

definition seal_setups :: "layout \<Rightarrow> setup_op list" where
  "seal_setups l =
     (if list_ex (\<lambda>entry. fe_kind entry = PrivateRoot) (ly_floor l) then [RemountReadOnly ''/''] else [])"

definition sandbox_setups :: "host \<Rightarrow> layout \<Rightarrow> mount list \<Rightarrow> setup_op list" where
  "sandbox_setups h l mounts = floor_setups l @ mount_setups h mounts @ seal_setups l"

definition sandbox_options :: "host \<Rightarrow> execution_request \<Rightarrow> layout \<Rightarrow> mount list \<Rightarrow> bwrap_option list" where
  "sandbox_options h request l mounts =
     [Switch ''--unshare-all''] @
     (if rq_new_session request then [Switch ''--new-session''] else []) @
     [Switch ''--die-with-parent''] @
     (if rq_network request then [Switch ''--share-net''] else []) @
     [Switch ''--clearenv''] @
     environment_options (environment_of h request (ly_base l)) @
     map Setup (sandbox_setups h l mounts) @
     [ChangeDir (rq_working_directory request)]"

section \<open>Reading the arguments back\<close>

definition append_options ::
  "bwrap_option list \<Rightarrow> (bwrap_option list \<times> string list) option \<Rightarrow> (bwrap_option list \<times> string list) option" where
  "append_options xs r = map_option (\<lambda>(ys, command). (xs @ ys, command)) r"

lemma append_options_simps [simp]:
  "append_options [] r = r"
  "append_options (x # xs) r = cons_option x (append_options xs r)"
  "append_options xs (Some (ys, command)) = Some (xs @ ys, command)"
  by (cases r; auto simp: append_options_def cons_option_def)+

lemma append_options_append: "append_options (xs @ ys) r = append_options xs (append_options ys r)"
  by (induction xs) auto

text \<open>A chunk of arguments that reads as the given options whatever follows.\<close>

definition reads_as :: "string list \<Rightarrow> bwrap_option list \<Rightarrow> bool" where
  "reads_as args options \<longleftrightarrow> (\<forall>rest. parse_options (args @ rest) = append_options options (parse_options rest))"

lemma reads_as_Nil [simp]: "reads_as [] []"
  by (simp add: reads_as_def)

lemma reads_as_append: "reads_as xs os \<Longrightarrow> reads_as ys ps \<Longrightarrow> reads_as (xs @ ys) (os @ ps)"
  by (simp add: reads_as_def append_options_append)

lemma reads_as_concat:
  "(\<And>x. x \<in> set xs \<Longrightarrow> reads_as (f x) (g x)) \<Longrightarrow> reads_as (concat (map f xs)) (concat (map g xs))"
  by (induction xs) (auto intro: reads_as_append)

lemmas option_defs = reads_as_def switches_def one_argument_def two_arguments_def

lemma reads_as_options:
  "reads_as [''--unshare-all''] [Switch ''--unshare-all'']"
  "reads_as [''--new-session''] [Switch ''--new-session'']"
  "reads_as [''--die-with-parent''] [Switch ''--die-with-parent'']"
  "reads_as [''--share-net''] [Switch ''--share-net'']"
  "reads_as [''--clearenv''] [Switch ''--clearenv'']"
  "reads_as [''--setenv'', x, y] [SetEnv x y]"
  "reads_as [''--tmpfs'', x] [Setup (MountTmpfs x)]"
  "reads_as [''--proc'', x] [Setup (MountProc x)]"
  "reads_as [''--dev'', x] [Setup (MountDev x)]"
  "reads_as [''--dir'', x] [Setup (MakeDir x)]"
  "reads_as [''--remount-ro'', x] [Setup (RemountReadOnly x)]"
  "reads_as [''--chdir'', x] [ChangeDir x]"
  "reads_as [''--ro-bind'', x, y] [Setup (BindReadOnly x y)]"
  "reads_as [''--bind'', x, y] [Setup (BindWritable x y)]"
  "reads_as [''--symlink'', x, y] [Setup (MakeSymlink x y)]"
  "reads_as [''--overlay-src'', x, ''--tmp-overlay'', y] [Setup (MountOverlay x y)]"
  by (simp_all add: option_defs)

lemma reads_as_environment:
  "reads_as (concat (map (\<lambda>(name, val, _). [''--setenv'', name, val]) env)) (environment_options env)"
proof -
  have "reads_as (concat (map (\<lambda>(name, val, _). [''--setenv'', name, val]) env))
      (concat (map (\<lambda>(name, val, _). [SetEnv name val]) env))"
    by (rule reads_as_concat) (auto intro: reads_as_options)
  moreover have "concat (map (\<lambda>(name, val, _). [SetEnv name val]) env) = environment_options env"
    by (induction env) (auto simp: environment_options_def)
  ultimately show ?thesis by simp
qed

lemma reads_as_base: "reads_as (base_arguments base) (map Setup (map base_setup (base_entries base)))"
proof -
  have "reads_as (base_arguments base) (concat (map (\<lambda>e. [Setup (base_setup e)]) (base_entries base)))"
    unfolding base_arguments_def
    by (rule reads_as_concat) (auto intro: reads_as_options split: runtime_entry.splits)
  then show ?thesis by (simp add: map_concat comp_def)
qed

lemma reads_as_floor: "reads_as (floor_arguments (ly_floor l) (ly_base l)) (map Setup (floor_setups l))"
proof -
  have entry: "reads_as (floor_entry_arguments e) [Setup (floor_setup e)]" for e
    by (cases "fe_kind e") (simp_all add: floor_setup_def reads_as_options)
  have "reads_as (floor_arguments (ly_floor l) (ly_base l))
      (concat (map (\<lambda>e. [Setup (floor_setup e)] @
        (if path_eq (fe_path e) ''/''
         then (case ly_base l of None \<Rightarrow> [] | Some b \<Rightarrow> map Setup (map base_setup (base_entries b))) else []))
        (ly_floor l)))"
    unfolding floor_arguments_def
    by (intro reads_as_concat reads_as_append entry) (auto simp: reads_as_base [simplified] split: option.splits)
  moreover have "concat (map (\<lambda>e. [Setup (floor_setup e)] @
        (if path_eq (fe_path e) ''/''
         then (case ly_base l of None \<Rightarrow> [] | Some b \<Rightarrow> map Setup (map base_setup (base_entries b))) else []))
        es) =
      map Setup (concat (map (\<lambda>e. floor_setup e #
        (if path_eq (fe_path e) ''/''
         then (case ly_base l of None \<Rightarrow> [] | Some b \<Rightarrow> map base_setup (base_entries b)) else [])) es))" for es
    by (induction es) (auto split: option.splits)
  ultimately show ?thesis by (simp add: floor_setups_def)
qed

lemma reads_as_mounts: "reads_as (mount_arguments h mounts) (map Setup (mount_setups h mounts))"
proof -
  have "reads_as (mount_arguments h mounts) (concat (map (\<lambda>m. map Setup (mount_setups h [m])) mounts))"
    unfolding mount_arguments_def
    by (rule reads_as_concat)
      (auto simp: mount_setups_def intro: reads_as_options split: mount.splits mount_access.splits)
  moreover have "concat (map (\<lambda>m. map Setup (mount_setups h [m])) mounts) = map Setup (mount_setups h mounts)"
    by (induction mounts) (auto simp: mount_setups_def)
  ultimately show ?thesis by simp
qed

lemma reads_as_seal: "reads_as (seal_arguments (ly_floor l)) (map Setup (seal_setups l))"
  by (simp add: seal_arguments_def seal_setups_def reads_as_options)

lemma command_with_mounts_Inr:
  "command_with_mounts h b request mounts = Inr (program, args) \<longleftrightarrow>
     (\<exists>l. sandbox_layout h b request mounts = Inr l \<and> program = bw_executable b \<and>
       args = isolation_options request (environment_of h request (ly_base l)) @
         floor_arguments (ly_floor l) (ly_base l) @ mount_arguments h mounts @ seal_arguments (ly_floor l) @
         [''--chdir'', rq_working_directory request, ''--''] @ rq_command request)"
  by (auto simp: command_with_mounts_def result_simps)

lemma parsed_invocation:
  assumes "bwrap_command h b request = Inr (program, args)"
  shows "\<exists>l. sandbox_layout h b request (mount_plan request) = Inr l \<and> program = bw_executable b \<and>
    parse_options args = Some (sandbox_options h request l (mount_plan request), rq_command request)"
proof -
  obtain l where l: "sandbox_layout h b request (mount_plan request) = Inr l" "program = bw_executable b"
    and args: "args = isolation_options request (environment_of h request (ly_base l)) @
         floor_arguments (ly_floor l) (ly_base l) @ mount_arguments h (mount_plan request) @
         seal_arguments (ly_floor l) @ [''--chdir'', rq_working_directory request, ''--''] @ rq_command request"
    using assms unfolding bwrap_command_def command_with_mounts_Inr by blast
  let ?options = "sandbox_options h request l (mount_plan request)"
  have session: "reads_as (if rq_new_session request then [''--new-session''] else [])
      (if rq_new_session request then [Switch ''--new-session''] else [])"
    and net: "reads_as (if rq_network request then [''--share-net''] else [])
      (if rq_network request then [Switch ''--share-net''] else [])"
    by (simp_all add: reads_as_options)
  have "reads_as (isolation_options request (environment_of h request (ly_base l)) @
         floor_arguments (ly_floor l) (ly_base l) @ mount_arguments h (mount_plan request) @
         seal_arguments (ly_floor l) @ [''--chdir'', rq_working_directory request]) ?options"
    unfolding isolation_options_def sandbox_options_def sandbox_setups_def map_append append_assoc
    by (intro reads_as_append reads_as_options session net reads_as_environment reads_as_floor
        reads_as_mounts reads_as_seal)
  then have "parse_options args = append_options ?options (parse_options (''--'' # rq_command request))"
    unfolding args reads_as_def by (metis append.assoc append_Cons append_Nil)
  then show ?thesis using l by simp
qed

text \<open>
  C28. No argument is taken for another. Whatever the paths, the environment values and the command
  are (a path may well begin with two dashes), the argument list of an invocation reads back as
  exactly the intended options, in the intended order, followed by exactly the requested command.
\<close>

theorem invocation_reads_back:
  assumes "bwrap_command h b request = Inr (program, args)"
  shows "\<exists>l. sandbox_layout h b request (mount_plan request) = Inr l \<and> program = bw_executable b \<and>
    parse_options args = Some (sandbox_options h request l (mount_plan request), rq_command request)"
  by (rule parsed_invocation [OF assms])

theorem invocation_reads_back_witness:
  "\<exists>l. sandbox_layout sample_host sample_isolation sample_request (mount_plan sample_request) = Inr l \<and>
    ''bwrap'' = bw_executable sample_isolation \<and>
    parse_options sample_args =
      Some (sandbox_options sample_host sample_request l (mount_plan sample_request), rq_command sample_request)"
  by (rule invocation_reads_back [OF sample_command])

end
