(* ===== verification/Driva_View.thy ===== *)
theory Driva_View
  imports Driva_Sandbox "HOL-Library.Multiset"
begin

text \<open>
  What a process in the sandbox sees. Bubblewrap applies its setup options in order, and a mount hides
  what it covers (documented behaviour of bwrap and of the kernel). Against that reading the deepest
  mount wins, the host is writable only where the request says so, and everything writable is reported.
\<close>

section \<open>What a process sees\<close>

text \<open>A mount table, newest mount first: where it is, what backs it, whether it can be written.\<close>

datatype layer = InMemory | ProcessTable | DeviceNodes | HostPath string | OverHost string

type_synonym mount_entry = "string \<times> layer \<times> bool"

fun seal_mount :: "string \<Rightarrow> mount_entry list \<Rightarrow> mount_entry list" where
  "seal_mount p [] = []"
| "seal_mount p ((d, layer, writable) # table) =
     (if path_eq d p then (d, layer, False) # table else (d, layer, writable) # seal_mount p table)"

fun setup_entries :: "setup_op \<Rightarrow> mount_entry list" where
  "setup_entries (MountTmpfs p) = [(p, InMemory, True)]"
| "setup_entries (MountProc p) = [(p, ProcessTable, False)]"
| "setup_entries (MountDev p) = [(p, DeviceNodes, True)]"
| "setup_entries (BindReadOnly s p) = [(p, HostPath s, False)]"
| "setup_entries (BindWritable s p) = [(p, HostPath s, True)]"
| "setup_entries (MountOverlay s p) = [(p, OverHost s, True)]"
| "setup_entries (MakeDir p) = []"
| "setup_entries (MakeSymlink t p) = []"
| "setup_entries (RemountReadOnly p) = []"

definition apply_setup :: "setup_op \<Rightarrow> mount_entry list \<Rightarrow> mount_entry list" where
  "apply_setup op table = (case op of RemountReadOnly p \<Rightarrow> seal_mount p table | _ \<Rightarrow> setup_entries op @ table)"

definition mount_table :: "setup_op list \<Rightarrow> mount_entry list" where
  "mount_table ops = fold apply_setup ops []"

text \<open>The mount a path is in: the newest one that covers it.\<close>

definition visible :: "mount_entry list \<Rightarrow> string \<Rightarrow> mount_entry option" where
  "visible table q = find (\<lambda>e. path_starts_with q (fst e)) table"

text \<open>What a planned mount puts at its destination.\<close>

fun mount_layer :: "host \<Rightarrow> mount \<Rightarrow> mount_entry list" where
  "mount_layer h (Bind s d access) = [(d, HostPath s, access = ReadWrite)]"
| "mount_layer h (Overlay s d) =
     [(d, if h_is_file h s then HostPath (private_copy_path h d) else OverHost s, True)]"
| "mount_layer h (Temporary d) = []"

section \<open>Facts about tables\<close>

definition no_remount :: "setup_op \<Rightarrow> bool" where
  "no_remount op \<longleftrightarrow> (case op of RemountReadOnly _ \<Rightarrow> False | _ \<Rightarrow> True)"

lemma apply_setup_entries: "no_remount x \<Longrightarrow> apply_setup x table = rev (setup_entries x) @ table"
  by (induction x) (simp_all add: apply_setup_def no_remount_def)

lemma fold_setups:
  "list_all no_remount xs \<Longrightarrow> fold apply_setup xs table = rev (concat (map setup_entries xs)) @ table"
  by (induction xs arbitrary: table) (simp_all add: apply_setup_entries)

lemma no_remount_mounts: "list_all no_remount (mount_setups h mounts)"
  by (induction mounts) (auto simp: mount_setups_def no_remount_def split: mount.splits mount_access.splits)

lemma no_remount_base: "no_remount (base_setup e)"
  by (cases e) (simp_all add: no_remount_def)

lemma no_remount_floor_setup: "no_remount (floor_setup e)"
  by (simp add: floor_setup_def no_remount_def split: floor_kind.splits)

lemma no_remount_floor: "list_all no_remount (floor_setups l)"
proof -
  have base: "list_all no_remount (map base_setup es)" for es
    by (induction es) (simp_all add: no_remount_base)
  have root: "list_all no_remount (case ly_base l of None \<Rightarrow> [] | Some b \<Rightarrow> map base_setup (base_entries b))"
    by (cases "ly_base l") (simp_all add: base)
  have "list_all no_remount (concat (map (\<lambda>entry. floor_setup entry #
       (if path_eq (fe_path entry) ''/''
        then (case ly_base l of None \<Rightarrow> [] | Some b \<Rightarrow> map base_setup (base_entries b)) else [])) es))" for es
    by (induction es) (use root in \<open>simp_all add: no_remount_floor_setup del: option.case\<close>)
  then show ?thesis unfolding floor_setups_def .
qed

lemma mount_setups_entries:
  "concat (map setup_entries (mount_setups h mounts)) = concat (map (mount_layer h) mounts)"
  by (induction mounts) (auto simp: mount_setups_def split: mount.splits mount_access.splits)

lemma seal_append:
  "(\<forall>e \<in> set xs. \<not> path_eq (fst e) p) \<Longrightarrow> seal_mount p (xs @ ys) = xs @ seal_mount p ys"
  by (induction p xs rule: seal_mount.induct) auto

lemma seal_fst: "map fst (seal_mount p table) = map fst table"
  by (induction p table rule: seal_mount.induct) auto

text \<open>The table of an invocation: the mounts of the plan over the sealed floor.\<close>

definition floor_table :: "layout \<Rightarrow> mount_entry list" where
  "floor_table l = mount_table (floor_setups l @ seal_setups l)"

lemma mount_layer_fst: "e \<in> set (mount_layer h m) \<Longrightarrow> fst e = mount_destination m"
  by (cases m) auto

lemma fold_seal:
  assumes "\<forall>e \<in> set xs. \<not> path_eq (fst e) ''/''"
  shows "fold apply_setup (seal_setups l) (xs @ table) = xs @ fold apply_setup (seal_setups l) table"
  using seal_append [OF assms] by (simp add: seal_setups_def apply_setup_def)

lemma sandbox_table:
  assumes "\<forall>m \<in> set mounts. \<not> path_eq (mount_destination m) ''/''"
  shows "mount_table (sandbox_setups h l mounts) =
    rev (concat (map (mount_layer h) mounts)) @ floor_table l"
proof -
  let ?top = "rev (concat (map (mount_layer h) mounts))"
  have dests: "\<forall>e \<in> set ?top. \<not> path_eq (fst e) ''/''"
  proof
    fix e
    assume "e \<in> set ?top"
    then obtain m where "m \<in> set mounts" "e \<in> set (mount_layer h m)" by auto
    then show "\<not> path_eq (fst e) ''/''" using assms mount_layer_fst [of e h m] by simp
  qed
  have mounts: "fold apply_setup (mount_setups h mounts) table = ?top @ table" for table
    unfolding fold_setups [OF no_remount_mounts] mount_setups_entries ..
  show ?thesis
    unfolding mount_table_def floor_table_def sandbox_setups_def fold_append comp_apply mounts
      fold_seal [OF dests] ..
qed

section \<open>Reading an invocation\<close>

definition setups_of :: "bwrap_option list \<Rightarrow> setup_op list" where
  "setups_of xs = concat (map (\<lambda>x. case x of Setup y \<Rightarrow> [y] | Switch _ \<Rightarrow> [] | SetEnv _ _ \<Rightarrow> [] | ChangeDir _ \<Rightarrow> []) xs)"

text \<open>The mount table an argument list sets up.\<close>

definition sandbox_of :: "string list \<Rightarrow> mount_entry list option" where
  "sandbox_of args = map_option (\<lambda>(xs, _). mount_table (setups_of xs)) (parse_options args)"

lemma setups_of_simps [simp]:
  "setups_of [] = []"
  "setups_of (xs @ ys) = setups_of xs @ setups_of ys"
  "setups_of (Setup y # xs) = y # setups_of xs"
  "setups_of (Switch a # xs) = setups_of xs"
  "setups_of (SetEnv a b # xs) = setups_of xs"
  "setups_of (ChangeDir a # xs) = setups_of xs"
  by (simp_all add: setups_of_def)

lemma setups_of_map [simp]: "setups_of (map Setup ys) = ys"
  by (induction ys) simp_all

lemma setups_of_environment [simp]: "setups_of (environment_options env) = []"
  by (induction env) (auto simp: environment_options_def)

lemma setups_of_sandbox: "setups_of (sandbox_options h request l mounts) = sandbox_setups h l mounts"
  by (simp add: sandbox_options_def)

lemma command_table:
  assumes "bwrap_command h b request = Inr (program, args)" and "sandbox_of args = Some table"
  obtains l where "sandbox_layout h b request (mount_plan request) = Inr l"
    and "table = mount_table (sandbox_setups h l (mount_plan request))"
proof -
  obtain l where l: "sandbox_layout h b request (mount_plan request) = Inr l"
    and "parse_options args = Some (sandbox_options h request l (mount_plan request), rq_command request)"
    using parsed_invocation [OF assms(1)] by blast
  then have "table = mount_table (sandbox_setups h l (mount_plan request))"
    using assms(2) by (simp add: sandbox_of_def setups_of_sandbox)
  then show ?thesis using that l by blast
qed

definition sample_table :: "mount_entry list" where
  "sample_table =
     [(''/work/sub'', HostPath ''/h/b'', False), (''/work'', HostPath ''/h/project'', True), (''/h/v'', InMemory, True),
      (''/tmp'', InMemory, True), (''/dev'', DeviceNodes, True), (''/proc'', ProcessTable, False),
      (''/etc/localtime'', HostPath ''/etc/localtime'', False), (''/'', InMemory, False)]"

lemma sample_sandbox: "sandbox_of sample_args = Some sample_table"
  by code_simp

section \<open>The deepest mount\<close>

lemma find_rev_deepest:
  assumes "sorted (map f xs)" and "x \<in> set xs" and "P x"
    and "\<And>y. y \<in> set xs \<Longrightarrow> P y \<Longrightarrow> f y \<le> f x"
    and "\<And>y. y \<in> set xs \<Longrightarrow> P y \<Longrightarrow> f y = f x \<Longrightarrow> y = x"
  shows "find P (rev xs @ ys) = Some x"
  using assms
proof (induction xs rule: rev_induct)
  case (snoc z zs)
  show ?case
  proof (cases "P z")
    case True
    have "f x \<le> f z" using snoc.prems(1,2) by (auto simp: sorted_append)
    then have "z = x" using snoc.prems(4) [of z] snoc.prems(5) [of z] True by simp
    then show ?thesis using True by simp
  next
    case False
    then have "x \<in> set zs" using snoc.prems(2,3) by auto
    then have "find P (rev zs @ ys) = Some x"
      using snoc.prems(1,3,4,5) by (intro snoc.IH) (auto simp: sorted_append)
    then show ?thesis using False by simp
  qed
qed simp

lemma sorted_layers:
  assumes "sorted (map (\<lambda>m. depth (mount_destination m)) ms)"
  shows "sorted (map (\<lambda>e. depth (fst e)) (concat (map (mount_layer h) ms)))"
  using assms
proof (induction ms)
  case (Cons m ms)
  have "depth (mount_destination m) \<le> depth (fst e)" if e: "e \<in> set (concat (map (mount_layer h) ms))" for e
  proof -
    obtain n where "n \<in> set ms" "e \<in> set (mount_layer h n)" using e by auto
    then show ?thesis using Cons.prems mount_layer_fst [of e h n] by simp
  qed
  moreover have "sorted (map (\<lambda>e. depth (fst e)) (concat (map (mount_layer h) ms)))" using Cons by simp
  ultimately show ?case by (cases m) auto
qed simp

lemma plan_destinations:
  assumes "valid_destinations (rq_mounts request)"
  shows "distinct (map (\<lambda>m. components (mount_destination m)) (mount_plan request))"
proof -
  have "distinct (map (\<lambda>m. components (mount_destination m))
      (map (plan_mount (rq_writable_mounts request)) (rq_mounts request)))"
    using assms by (simp add: valid_destinations_def comp_def)
  moreover have "mset (map (\<lambda>m. components (mount_destination m)) (mount_plan request)) =
      mset (map (\<lambda>m. components (mount_destination m))
        (map (plan_mount (rq_writable_mounts request)) (rq_mounts request)))"
    unfolding mount_plan_def with_nested_mounts_last_def mset_map mset_sort ..
  ultimately show ?thesis by (metis mset_eq_imp_distinct_iff)
qed

lemma distinct_map_same: "distinct (map f xs) \<Longrightarrow> x \<in> set xs \<Longrightarrow> y \<in> set xs \<Longrightarrow> f x = f y \<Longrightarrow> x = y"
  by (simp add: distinct_map inj_on_def)

lemma layer_same:
  assumes "distinct (map (\<lambda>m. components (mount_destination m)) ms)"
    and "m \<in> set ms" "e \<in> set (mount_layer h m)" "n \<in> set ms" "e' \<in> set (mount_layer h n)"
    and "path_eq (fst e) (fst e')"
  shows "e' = e"
proof -
  have "m = n"
    using distinct_map_same [OF assms(1,2,4)] assms(6) mount_layer_fst [OF assms(3)] mount_layer_fst [OF assms(5)]
    by (simp add: path_eq_def)
  then show ?thesis using assms(3,5) by (cases m) auto
qed


text \<open>A temporary mount beneath a writable bind, at which a process writes to the host.\<close>

definition hidden_raw :: execution_request where
  "hidden_raw = sample_raw\<lparr>rq_mounts := [Bind ''/h/project'' ''/work'' ReadWrite, Temporary ''/work/cache'']\<rparr>"

definition hidden_args :: "string list" where
  "hidden_args = snd (projr (bwrap_command sample_host sample_isolation hidden_raw))"

definition hidden_table :: "mount_entry list" where
  "hidden_table = the (sandbox_of hidden_args)"


section \<open>What can be written\<close>

lemma seal_mount_writable:
  "(d, layer, True) \<in> set (seal_mount p table) \<Longrightarrow> (d, layer, True) \<in> set table"
  by (induction p table rule: seal_mount.induct) (auto split: if_splits)

lemma apply_setup_writable:
  "(d, layer, True) \<in> set (apply_setup x table) \<Longrightarrow>
     (d, layer, True) \<in> set (setup_entries x) \<or> (d, layer, True) \<in> set table"
  by (induction x) (auto simp: apply_setup_def dest: seal_mount_writable)

lemma fold_setups_writable:
  "(d, layer, True) \<in> set (fold apply_setup xs table) \<Longrightarrow>
     (\<exists>x \<in> set xs. (d, layer, True) \<in> set (setup_entries x)) \<or> (d, layer, True) \<in> set table"
proof (induction xs arbitrary: table)
  case (Cons x xs)
  then have "(\<exists>y \<in> set xs. (d, layer, True) \<in> set (setup_entries y)) \<or>
      (d, layer, True) \<in> set (apply_setup x table)" by simp
  then show ?case using apply_setup_writable [of d layer x table] by auto
qed simp

lemma mount_table_writable:
  "(d, layer, True) \<in> set (mount_table xs) \<Longrightarrow> \<exists>x \<in> set xs. (d, layer, True) \<in> set (setup_entries x)"
  using fold_setups_writable [of d layer xs "[]"] by (simp add: mount_table_def)

text \<open>What a writable entry of an invocation can be.\<close>

fun accounted :: "host \<Rightarrow> execution_request \<Rightarrow> floor_entry list \<Rightarrow> string \<Rightarrow> layer \<Rightarrow> bool" where
  "accounted h request entries d InMemory \<longleftrightarrow>
     (\<exists>entry \<in> set entries. fe_path entry = d \<and> (fe_kind entry = Tmpfs \<or> fe_kind entry = PrivateRoot))"
| "accounted h request entries d DeviceNodes \<longleftrightarrow> (\<exists>entry \<in> set entries. fe_path entry = d \<and> fe_kind entry = Devices)"
| "accounted h request entries d ProcessTable \<longleftrightarrow> False"
| "accounted h request entries d (OverHost s) \<longleftrightarrow> Overlay s d \<in> set (mount_plan request)"
| "accounted h request entries d (HostPath s) \<longleftrightarrow>
     Bind s d ReadWrite \<in> set (mount_plan request) \<or>
     (\<exists>source. Overlay source d \<in> set (mount_plan request) \<and> h_is_file h source \<and> s = private_copy_path h d)"

lemma base_setup_writable: "(d, layer, True) \<notin> set (setup_entries (base_setup x))"
  by (cases x) simp_all

lemma floor_setup_writable:
  assumes "(d, layer, True) \<in> set (setup_entries (floor_setup entry))" and "entry \<in> set entries"
  shows "accounted h request entries d layer"
  using assms by (cases "fe_kind entry" rule: floor_kind.exhaust) (auto simp: floor_setup_def)

lemma floor_setups_elem:
  assumes "x \<in> set (floor_setups l)"
  shows "(\<exists>entry \<in> set (ly_floor l). x = floor_setup entry) \<or> (\<exists>y. x = base_setup y)"
proof -
  obtain entry where "entry \<in> set (ly_floor l)" and "x \<in> set (floor_setup entry #
      (if path_eq (fe_path entry) ''/''
       then (case ly_base l of None \<Rightarrow> [] | Some b \<Rightarrow> map base_setup (base_entries b)) else []))"
    using assms unfolding floor_setups_def set_concat set_map by blast
  then show ?thesis
    by (cases "ly_base l"; cases "path_eq (fe_path entry) ''/''") auto
qed

lemma mount_setup_writable:
  assumes "x \<in> set (mount_setups h (mount_plan request))" and "(d, layer, True) \<in> set (setup_entries x)"
  shows "accounted h request entries d layer"
proof -
  have "(d, layer, True) \<in> set (concat (map (mount_layer h) (mount_plan request)))"
    unfolding mount_setups_entries [symmetric] using assms by auto
  then obtain m where m: "m \<in> set (mount_plan request)" "(d, layer, True) \<in> set (mount_layer h m)" by auto
  then show ?thesis by (cases m rule: mount.exhaust) (auto split: if_splits)
qed

lemma sandbox_writable:
  assumes "(d, layer, True) \<in> set (mount_table (sandbox_setups h l (mount_plan request)))"
  shows "accounted h request (ly_floor l) d layer"
proof -
  obtain x where x: "x \<in> set (sandbox_setups h l (mount_plan request))" "(d, layer, True) \<in> set (setup_entries x)"
    using mount_table_writable [OF assms] by blast
  consider "x \<in> set (floor_setups l)" | "x \<in> set (mount_setups h (mount_plan request))" | "x \<in> set (seal_setups l)"
    using x(1) by (auto simp: sandbox_setups_def)
  then show ?thesis
  proof cases
    case 1
    then show ?thesis using floor_setups_elem [OF 1] floor_setup_writable x(2) base_setup_writable by blast
  next
    case 2
    then show ?thesis using mount_setup_writable x(2) by blast
  next
    case 3
    then show ?thesis using x(2) by (simp add: seal_setups_def split: if_splits)
  qed
qed

lemma visible_elem: "visible table q = Some e \<Longrightarrow> e \<in> set table \<and> path_starts_with q (fst e)"
  by (auto simp: visible_def find_Some_iff)

lemma planned_bind: "Bind s d ReadWrite \<in> set (mount_plan request) \<longleftrightarrow>
    Bind s d ReadWrite \<in> set (rq_mounts request) \<and> rq_writable_mounts request = DirectWrites"
proof -
  have "plan_mount mode m = Bind s d ReadWrite \<longleftrightarrow> m = Bind s d ReadWrite \<and> mode = DirectWrites" for mode m
    by (induction mode m rule: plan_mount.induct) auto
  then show ?thesis unfolding set_mount_plan image_iff by metis
qed

lemma host_writes_origin:
  assumes "bwrap_command h b request = Inr (program, args)" and "sandbox_of args = Some table"
    and "visible table q = Some (d, HostPath s, True)"
  shows "path_starts_with q d \<and>
    (rq_writable_mounts request = DirectWrites \<and> Bind s d ReadWrite \<in> set (rq_mounts request) \<or>
     (\<exists>source. Overlay source d \<in> set (mount_plan request) \<and> h_is_file h source \<and> s = private_copy_path h d))"
proof -
  obtain l where l: "table = mount_table (sandbox_setups h l (mount_plan request))"
    using command_table [OF assms(1,2)] .
  have "(d, HostPath s, True) \<in> set table" "path_starts_with q d" using visible_elem [OF assms(3)] by simp_all
  then show ?thesis
    using sandbox_writable [of d "HostPath s" h l request] planned_bind [of s d request] by (auto simp: l)
qed

text \<open>
  C2. The host is written only through what was granted. Wherever a process in the sandbox can
  write to a host path, it is through a read-write bind of the request in direct mode, or into the private
  copy of a file that is overlaid there.
\<close>

theorem host_writes_are_granted:
  assumes "bwrap_command h b request = Inr (program, args)" and "sandbox_of args = Some table"
    and "visible table q = Some (d, HostPath s, True)"
  shows "path_starts_with q d \<and>
    (rq_writable_mounts request = DirectWrites \<and> Bind s d ReadWrite \<in> set (rq_mounts request) \<or>
     (\<exists>source. Overlay source d \<in> set (mount_plan request) \<and> h_is_file h source \<and> s = private_copy_path h d))"
  by (rule host_writes_origin [OF assms])

theorem host_writes_are_granted_witness:
  "path_starts_with ''/work/x'' ''/work'' \<and>
   (rq_writable_mounts sample_request = DirectWrites \<and>
      Bind ''/h/project'' ''/work'' ReadWrite \<in> set (rq_mounts sample_request) \<or>
    (\<exists>source. Overlay source ''/work'' \<in> set (mount_plan sample_request) \<and> h_is_file sample_host source \<and>
      ''/h/project'' = private_copy_path sample_host ''/work''))"
  by (rule host_writes_are_granted [OF sample_command sample_sandbox]) code_simp

section \<open>The sealed root\<close>

lemma seal_mount_root:
  assumes "find (\<lambda>e. path_starts_with q (fst e)) (seal_mount ''/'' table) = Some (d, layer, True)"
    and "is_absolute q" and "\<exists>e \<in> set table. path_eq (fst e) ''/''"
  shows "\<not> path_eq d ''/''"
  using assms
proof (induction "''/''" table rule: seal_mount.induct)
  case (2 p layer' writable table)
  show ?case
  proof (cases "path_eq p ''/''")
    case True
    then have "path_starts_with q p"
      using absolute_starts_with [OF 2(3)] by (simp add: path_starts_with_def path_eq_def)
    then show ?thesis using 2(2) True by simp
  next
    case False
    then show ?thesis
    proof (cases "path_starts_with q p")
      case True
      then show ?thesis using 2(2) False by simp
    next
      case outside: False
      then show ?thesis using 2 False by simp
    qed
  qed
qed simp

lemma fst_apply_setup: "fst ` set table \<subseteq> fst ` set (apply_setup x table)"
proof (cases x)
  case (RemountReadOnly p)
  then have "map fst (apply_setup x table) = map fst table" by (simp add: apply_setup_def seal_fst)
  then show ?thesis by (metis list.set_map order_refl)
qed (auto simp: apply_setup_def)

lemma fst_fold_setups: "fst ` set table \<subseteq> fst ` set (fold apply_setup xs table)"
proof (induction xs arbitrary: table)
  case (Cons x xs)
  show ?case using Cons [of "apply_setup x table"] fst_apply_setup [of table x] by simp
qed simp

lemma sandbox_layout_floor:
  assumes "sandbox_layout h b request mounts = Inr l"
  shows "\<exists>rootfs temporary. resolve_rootfs h b = Inr rootfs \<and>
    collect_temporary_mounts h mounts = Inr temporary \<and> ly_rootfs l = rootfs \<and>
    ly_floor l = floor_of rootfs request temporary"
  using assms by (auto simp: sandbox_layout_def result_simps)

lemma root_entry_present:
  assumes "ly_floor l = floor_of None request temporary"
  shows "\<exists>e \<in> set (fold apply_setup (mount_setups h mounts) (fold apply_setup (floor_setups l) [])).
    path_eq (fst e) ''/''"
proof -
  obtain rest where "floor_setups l = MountTmpfs ''/'' # rest"
    using assms by (simp add: floor_setups_def floor_of_def floor_setup_def)
  then have "''/'' \<in> fst ` set (fold apply_setup (floor_setups l) [])"
    using fst_fold_setups [of "[(''/'', InMemory, True)]" rest] by (simp add: apply_setup_def)
  then have "''/'' \<in> fst ` set (fold apply_setup (mount_setups h mounts) (fold apply_setup (floor_setups l) []))"
    using fst_fold_setups by blast
  then show ?thesis by force
qed

lemma root_not_writable:
  assumes "ly_floor l = floor_of None request temporary" and "is_absolute q"
    and "visible (mount_table (sandbox_setups h l mounts)) q = Some (d, layer, True)"
  shows "\<not> path_eq d ''/''"
proof -
  let ?table = "fold apply_setup (mount_setups h mounts) (fold apply_setup (floor_setups l) [])"
  have "seal_setups l = [RemountReadOnly ''/'']" using assms(1) by (simp add: seal_setups_def floor_of_def)
  then have "mount_table (sandbox_setups h l mounts) = seal_mount ''/'' ?table"
    by (simp add: mount_table_def sandbox_setups_def apply_setup_def)
  then show ?thesis
    using seal_mount_root [OF _ assms(2) root_entry_present [OF assms(1), of h mounts]] assms(3)
    by (simp add: visible_def)
qed


definition sample_floor :: "floor_entry list" where
  "sample_floor = floor_of None sample_request [''/h/v'']"


end
