(* ===== verification/Driva_Run.thy ===== *)
theory Driva_Run
  imports Driva_View
begin

text \<open>
  Running a request (\<open>driva/src/bwrap.rs\<close>, \<open>driva/src/lib.rs\<close>): what validation promises, the
  environment of the command, the private copies of overlaid files, and the wait for the child.
\<close>

section \<open>Validated requests\<close>

text \<open>
  C40. Validation changes only what it must. A validated request has a program, an absolute working
  directory and absolute, pairwise different destinations; each mount is the given one with its source
  resolved (a temporary one: its home directory filled in), and everything else is as it was.
\<close>

theorem validated_request:
  assumes "validate_request h request = Inr v"
  shows "(\<exists>program arguments. rq_command v = program # arguments \<and> program \<noteq> []) \<and>
    is_absolute (rq_working_directory v) \<and> v = request\<lparr>rq_mounts := rq_mounts v\<rparr> \<and>
    list_all2 (validated_mount h) (rq_mounts request) (rq_mounts v) \<and> valid_destinations (rq_mounts v)"
proof -
  note facts = validate_request_Inr [OF assms]
  have "rq_command v = rq_command request" "rq_working_directory v = rq_working_directory request"
    using facts(3) by (metis execution_request.ext_inject execution_request.surjective
        execution_request.update_convs(3))+
  then show ?thesis using facts by metis
qed

theorem validated_request_witness:
  "(\<exists>program arguments. rq_command sample_request = program # arguments \<and> program \<noteq> []) \<and>
   is_absolute (rq_working_directory sample_request) \<and>
   sample_request = sample_raw\<lparr>rq_mounts := rq_mounts sample_request\<rparr> \<and>
   list_all2 (validated_mount sample_host) (rq_mounts sample_raw) (rq_mounts sample_request) \<and>
   valid_destinations (rq_mounts sample_request)"
  by (rule validated_request [OF sample_validated])

section \<open>The environment\<close>

fun variables_of :: "bwrap_option list \<Rightarrow> (string \<times> string) list" where
  "variables_of [] = []"
| "variables_of (SetEnv name val # xs) = (name, val) # variables_of xs"
| "variables_of (Switch a # xs) = variables_of xs"
| "variables_of (Setup y # xs) = variables_of xs"
| "variables_of (ChangeDir a # xs) = variables_of xs"

lemma variables_of_append [simp]: "variables_of (xs @ ys) = variables_of xs @ variables_of ys"
  by (induction xs rule: variables_of.induct) auto

lemma variables_of_setups [simp]: "variables_of (map Setup ys) = []"
  by (induction ys) auto

lemma variables_of_environment [simp]: "variables_of (environment_options env) = map (\<lambda>(name, val, _). (name, val)) env"
  by (induction env) (auto simp: environment_options_def)

lemma variables_of_sandbox:
  "variables_of (sandbox_options h request l mounts) =
     map (\<lambda>(name, val, _). (name, val)) (environment_of h request (ly_base l))"
  by (simp add: sandbox_options_def)

text \<open>The variables a base may forward.\<close>

definition forwarded :: "bwrap_isolation \<Rightarrow> string set" where
  "forwarded b =
     (if bw_rootfs b = None then \<Union> ((\<lambda>c. set (ci_environment (capability_info_of c))) ` set (bw_base b)) else {})"

definition intended_environment :: "host \<Rightarrow> bwrap_isolation \<Rightarrow> execution_request \<Rightarrow> string \<Rightarrow> string option" where
  "intended_environment h b request name =
     (case map_of (rq_environment request) name of
        Some val \<Rightarrow> Some val
      | None \<Rightarrow> if name = ''PATH'' then Some DEFAULT_PATH
                else if name \<in> forwarded b then h_var h name else None)"

lemma no_forwarded_path: "''PATH'' \<notin> set (ci_environment (capability_info_of c))"
  by (cases c) (simp_all add: core_info_def identity_info_def certificates_info_def dns_info_def timezone_info_def)

lemma forwarded_pairs:
  "map_of (rev (concat (map (\<lambda>name. case g name of None \<Rightarrow> [] | Some val \<Rightarrow> [(name, val)]) ns))) x =
     (if x \<in> set ns then g x else None)"
  by (induction ns) (auto simp: map_add_def split: option.splits)

lemma base_environment_wf: "bt_wf (base_environment h base)"
  by (simp add: base_environment_def)

lemma map_of_base_environment:
  assumes "resolve_base h names = Inr base"
  shows "map_of (base_environment h base) x =
    (if \<exists>c \<in> set names. x \<in> set (ci_environment (capability_info_of c)) then h_var h x else None)"
proof -
  have base: "map rc_name base = names" "\<And>r. r \<in> set base \<Longrightarrow> capability_laid h (set (base_entries base)) r"
    using resolve_capabilities_Inr [of h "[]" names base] assms by (auto simp: resolve_base_def)
  have env: "rc_environment r = filter (\<lambda>v. h_var h v \<noteq> None) (ci_environment (capability_info_of (rc_name r)))"
    if "r \<in> set base" for r
    using base(2) [OF that] by (simp add: capability_laid_def Let_def)
  have "x \<in> set (concat (map rc_environment base)) \<longleftrightarrow>
      (\<exists>c \<in> set names. x \<in> set (ci_environment (capability_info_of c)) \<and> h_var h x \<noteq> None)"
    unfolding base(1) [symmetric] by (auto simp: env)
  then show ?thesis by (auto simp: base_environment_def forwarded_pairs)
qed

definition layered :: "environment \<Rightarrow> environment \<Rightarrow> environment" where
  "layered requested m =
     (if map_of requested ''PATH'' = None then [(''PATH'', DEFAULT_PATH)] else []) @
     filter (\<lambda>(name, _). map_of requested name = None) m @ requested"

lemma environment_of_layered:
  "map (\<lambda>(name, val, _). (name, val)) (environment_of h request base) =
     layered (rq_environment request) (case base of None \<Rightarrow> [] | Some b \<Rightarrow> base_environment h b)"
  by (cases base) (simp_all add: environment_of_def layered_def Let_def comp_def case_prod_unfold)

lemma map_of_filter_missing:
  "map_of (filter (\<lambda>(name, _). map_of requested name = None) m) x =
     (if map_of requested x = None then map_of m x else None)"
  by (induction m) auto

lemma map_of_layered:
  assumes "map_of m ''PATH'' = None"
  shows "map_of (layered requested m) x =
    (case map_of requested x of
       Some val \<Rightarrow> Some val
     | None \<Rightarrow> if x = ''PATH'' then Some DEFAULT_PATH else map_of m x)"
  using assms by (auto simp: layered_def map_add_def map_of_filter_missing split: option.splits)

lemma distinct_layered:
  assumes "bt_wf requested" and "bt_wf m" and "map_of m ''PATH'' = None"
  shows "distinct (map fst (layered requested m))"
proof -
  have d: "distinct (map fst requested)" "distinct (map fst m)" using assms(1,2) by (simp_all add: bt_wf_distinct)
  have "distinct (map fst (filter (\<lambda>(name, _). map_of requested name = None) m))"
    using d(2) by (simp add: distinct_map_filter)
  moreover have "''PATH'' \<notin> fst ` set m" using assms(3) by (simp add: map_of_eq_None_iff)
  ultimately show ?thesis
    using d(1) by (auto simp: layered_def map_of_eq_None_iff) (metis fst_conv imageI)+
qed

lemma map_of_layout_base:
  assumes "sandbox_layout h b request mounts = Inr l"
  shows "map_of (case ly_base l of None \<Rightarrow> [] | Some bs \<Rightarrow> base_environment h bs) x =
    (if x \<in> forwarded b then h_var h x else None)"
proof (cases "bw_rootfs b")
  case None
  then obtain bs where "resolve_base h (bw_base b) = Inr bs" "ly_base l = Some bs"
    using assms by (auto simp: sandbox_layout_def resolve_rootfs_def result_simps)
  then show ?thesis using map_of_base_environment [of h "bw_base b" bs x] None by (auto simp: forwarded_def)
next
  case (Some r)
  then have "ly_base l = None"
    using assms by (auto simp: sandbox_layout_def resolve_rootfs_def result_simps split: if_splits)
  then show ?thesis using Some by (simp add: forwarded_def)
qed

lemma layout_environment:
  assumes "sandbox_layout h b request mounts = Inr l"
  shows "bwrap_environment h b request =
    Inr (map (\<lambda>(name, val, origin). \<lparr>ee_name = name, ee_value = val, ee_origin = origin\<rparr>)
      (environment_of h request (ly_base l)))"
  using assms by (auto simp: sandbox_layout_def bwrap_environment_def result_simps)

text \<open>
  The environment is what is reported and nothing else. The variables an invocation sets are
  the reported ones, each name once; a name has the value the request gives it, else the default search
  path for \<open>PATH\<close>, else the host's value if a capability of the base forwards it, else none.
\<close>

theorem environment_is_exact:
  assumes "bt_wf (rq_environment request)"
    and "bwrap_command h b request = Inr (program, args)"
    and "parse_options args = Some (found, rest)"
  shows "(\<exists>entries. bwrap_environment h b request = Inr entries \<and>
      variables_of found = map (\<lambda>e. (ee_name e, ee_value e)) entries) \<and>
    distinct (map fst (variables_of found)) \<and>
    map_of (variables_of found) = intended_environment h b request"
proof -
  obtain l where l: "sandbox_layout h b request (mount_plan request) = Inr l"
    and "found = sandbox_options h request l (mount_plan request)"
    using parsed_invocation [OF assms(2)] assms(3) by auto
  then have vars: "variables_of found = map (\<lambda>(name, val, _). (name, val)) (environment_of h request (ly_base l))"
    by (simp add: variables_of_sandbox)
  let ?m = "case ly_base l of None \<Rightarrow> [] | Some bs \<Rightarrow> base_environment h bs"
  have lookup: "map_of ?m x = (if x \<in> forwarded b then h_var h x else None)" for x
    by (rule map_of_layout_base [OF l])
  have "''PATH'' \<notin> forwarded b" using no_forwarded_path by (auto simp: forwarded_def)
  then have path: "map_of ?m ''PATH'' = None" using lookup by simp
  have "bt_wf ?m" by (simp add: base_environment_wf split: option.splits)
  then have "distinct (map fst (variables_of found))"
    unfolding vars environment_of_layered using distinct_layered assms(1) path by blast
  moreover have "map_of (variables_of found) x = intended_environment h b request x" for x
    unfolding vars environment_of_layered map_of_layered [OF path] intended_environment_def lookup ..
  moreover have "variables_of found = map (\<lambda>e. (ee_name e, ee_value e))
      (map (\<lambda>(name, val, origin). \<lparr>ee_name = name, ee_value = val, ee_origin = origin\<rparr>)
        (environment_of h request (ly_base l)))"
    unfolding vars by (simp add: comp_def case_prod_unfold)
  ultimately show ?thesis
    by (intro conjI exI [of _ "map (\<lambda>(name, val, origin). \<lparr>ee_name = name, ee_value = val, ee_origin = origin\<rparr>)
        (environment_of h request (ly_base l))"] layout_environment [OF l] ext) simp_all
qed

definition sample_options :: "bwrap_option list" where
  "sample_options = fst (the (parse_options sample_args))"

theorem environment_is_exact_witness:
  "variables_of sample_options = [(''PATH'', DEFAULT_PATH), (''TZ'', ''UTC''), (''A'', ''--'')] \<and>
   distinct (map fst (variables_of sample_options)) \<and>
   map_of (variables_of sample_options) = intended_environment sample_host sample_isolation sample_request"
proof -
  have wf: "bt_wf (rq_environment sample_request)"
    by (simp add: sample_request_def sample_raw_def bt_wf_def)
  have parsed: "parse_options sample_args = Some (sample_options, [''sh''])" by code_simp
  have "variables_of sample_options = [(''PATH'', DEFAULT_PATH), (''TZ'', ''UTC''), (''A'', ''--'')]" by code_simp
  then show ?thesis using environment_is_exact [OF wf sample_command parsed] by simp
qed

section \<open>The wait for the child\<close>

text \<open>A round in which the wait ends, and what it then returns.\<close>

definition wait_ends :: "(nat \<Rightarrow> int option option res) \<Rightarrow> (nat \<Rightarrow> bool) \<Rightarrow> nat \<Rightarrow> bool" where
  "wait_ends try_wait requested n \<longleftrightarrow> try_wait n \<noteq> Inr None \<or> requested n"

definition wait_result ::
  "int option option res \<Rightarrow> unit res \<Rightarrow> int option res \<Rightarrow> int option option res \<Rightarrow> int option res" where
  "wait_result found kill wait after =
     (case with_context ''checking Bubblewrap status'' [] found of
        Inl e \<Rightarrow> Inl e
      | Inr (Some status) \<Rightarrow> Inr status
      | Inr None \<Rightarrow>
          (case kill of
             Inr _ \<Rightarrow> with_context ''waiting for terminated Bubblewrap'' [] wait
           | Inl e \<Rightarrow>
               and_then (with_context ''checking Bubblewrap after termination failed'' [] after) (\<lambda>status.
               case status of Some s \<Rightarrow> Inr s | None \<Rightarrow> with_context ''terminating Bubblewrap'' [] (Inl e))))"

lemma wait_step:
  "wait_for_controlled_child try_wait requested kill wait after n =
     (if wait_ends try_wait requested n then Some (wait_result (try_wait n) kill wait after)
      else wait_for_controlled_child try_wait requested kill wait after (Suc n))"
  by (subst wait_for_controlled_child.simps)
    (cases "try_wait n"; auto simp: wait_ends_def wait_result_def split: sum.splits option.splits)

lemma wait_returns_only:
  assumes "wait_for_controlled_child try_wait requested kill wait after n = Some r"
  shows "\<exists>m \<ge> n. wait_ends try_wait requested m"
  using assms
proof (induction try_wait requested kill wait after n r rule: wait_for_controlled_child.raw_induct
    [rotated 1, consumes 1, case_names step])
  case (step f try_wait requested kill wait after n r)
  show ?case
  proof (cases "wait_ends try_wait requested n")
    case False
    then have "f try_wait requested kill wait after (Suc n) = Some r"
      using step(2) by (simp add: wait_ends_def)
    then have "\<exists>m \<ge> Suc n. wait_ends try_wait requested m" by (rule step(1))
    then show ?thesis using Suc_leD by blast
  qed auto
qed

lemma wait_skips:
  "n \<le> m \<Longrightarrow> (\<And>i. n \<le> i \<Longrightarrow> i < m \<Longrightarrow> \<not> wait_ends try_wait requested i) \<Longrightarrow>
     wait_for_controlled_child try_wait requested kill wait after n =
     wait_for_controlled_child try_wait requested kill wait after m"
proof (induction m rule: dec_induct)
  case (step m)
  then show ?case using wait_step [of try_wait requested kill wait after m] by simp
qed simp

text \<open>
  The wait ends exactly when it should. It returns in the first round in which the child is
  found to have ended (or its status cannot be read) or termination was requested, with what that round
  gives; without such a round it never returns.
\<close>

theorem wait_returns_at_first_event:
  "wait_for_controlled_child try_wait requested kill wait after 0 =
     (if \<exists>n. wait_ends try_wait requested n
      then Some (wait_result (try_wait (LEAST n. wait_ends try_wait requested n)) kill wait after)
      else None)"
proof (cases "\<exists>n. wait_ends try_wait requested n")
  case True
  let ?n = "LEAST n. wait_ends try_wait requested n"
  have "wait_ends try_wait requested ?n" using True by (rule LeastI_ex)
  then have "wait_for_controlled_child try_wait requested kill wait after ?n =
      Some (wait_result (try_wait ?n) kill wait after)"
    by (subst wait_step) (simp only: if_True)
  moreover have "wait_for_controlled_child try_wait requested kill wait after 0 =
      wait_for_controlled_child try_wait requested kill wait after ?n"
    by (rule wait_skips) (use not_less_Least in blast)+
  ultimately have "wait_for_controlled_child try_wait requested kill wait after 0 =
      Some (wait_result (try_wait ?n) kill wait after)" by (rule trans [rotated])
  then show ?thesis by (simp only: True if_True)
next
  case False
  then show ?thesis
    using wait_returns_only [of try_wait requested kill wait after 0]
    by (cases "wait_for_controlled_child try_wait requested kill wait after 0") auto
qed

section \<open>Private copies\<close>

text \<open>The doubling of \<open>%\<close> does not keep copies apart: these two destinations share one.\<close>

lemma private_copies_collide: "private_copy_path h ''/a/%b'' = private_copy_path h ''/a%/b''"
  by (simp add: private_copy_path_def escape_separator_def)

lemma escape_plain: "CHR ''%'' \<notin> set p \<Longrightarrow> concat (map escape_separator p) =
    map (\<lambda>x. if x = CHR ''/'' then CHR ''%'' else x) p"
  by (induction p) (auto simp: escape_separator_def)

lemma escape_no_separator: "CHR ''/'' \<notin> set (concat (map escape_separator p))"
  by (induction p) (auto simp: escape_separator_def)

lemma escape_inj:
  assumes "CHR ''%'' \<notin> set p" and "CHR ''%'' \<notin> set q"
    and "concat (map escape_separator p) = concat (map escape_separator q)"
  shows "p = q"
proof -
  let ?f = "\<lambda>x. if x = CHR ''/'' then CHR ''%'' else x"
  have "inj_on ?f (set p \<union> set q)" using assms(1,2) by (auto simp: inj_on_def split: if_splits)
  moreover have "map ?f p = map ?f q" using assms(3) unfolding escape_plain [OF assms(1)] escape_plain [OF assms(2)] .
  ultimately show ?thesis using map_inj_on by blast
qed

lemma private_copy_inj:
  assumes "CHR ''%'' \<notin> set p" and "CHR ''%'' \<notin> set q" and "private_copy_path h p = private_copy_path h q"
  shows "p = q"
proof -
  have "is_absolute x \<Longrightarrow> CHR ''/'' \<in> set x" for x by (cases x) (auto simp: is_absolute_def)
  then have "\<not> is_absolute (concat (map escape_separator x))" for x using escape_no_separator by blast
  then have "concat (map escape_separator p) = concat (map escape_separator q)"
    using assms(3) by (auto simp: private_copy_path_def path_join_def split: if_splits)
  then show ?thesis using escape_inj assms(1,2) by blast
qed

lemma copy_file_Inr:
  assumes "copy_file h fc (source, destination) s = (Inr x, t)"
  shows "pf_copies t = (pf_copies s)(private_copy_path h destination \<mapsto> source) \<and> pf_roots t = pf_roots s"
  using assms by (auto simp: copy_file_def Let_def split: sum.splits)

lemma copies_other:
  assumes "st_for (copy_file h fc) files s = (Inr x, t)"
    and "\<forall>entry \<in> set files. private_copy_path h (snd entry) \<noteq> p"
  shows "pf_copies t p = pf_copies s p"
  using assms
proof (induction files arbitrary: s)
  case (Cons entry files)
  obtain y u where "copy_file h fc entry s = (Inr y, u)" "st_for (copy_file h fc) files u = (Inr x, t)"
    using Cons.prems(1) by (auto simp: result_simps)
  then show ?case using Cons.IH [of u] Cons.prems(2) copy_file_Inr [of h fc "fst entry" "snd entry" s y u] by auto
qed simp

lemma copies_made:
  assumes "st_for (copy_file h fc) files s = (Inr x, t)"
    and "distinct (map (\<lambda>entry. private_copy_path h (snd entry)) files)" and "(source, destination) \<in> set files"
  shows "pf_copies t (private_copy_path h destination) = Some source"
  using assms
proof (induction files arbitrary: s)
  case (Cons entry files)
  obtain y u where step: "copy_file h fc entry s = (Inr y, u)" "st_for (copy_file h fc) files u = (Inr x, t)"
    using Cons.prems(1) by (auto simp: result_simps)
  show ?case
  proof (cases "entry = (source, destination)")
    case True
    then have "\<forall>f \<in> set files. private_copy_path h (snd f) \<noteq> private_copy_path h destination"
      using Cons.prems(2) by (simp add: image_iff) metis
    then show ?thesis using copies_other [OF step(2)] copy_file_Inr [of h fc source destination s y u] step(1) True by simp
  next
    case False
    then show ?thesis using Cons step by simp
  qed
qed simp

lemma overlaid_elem:
  "(source, destination) \<in> set (overlaid_files h ms) \<longleftrightarrow> Overlay source destination \<in> set ms \<and> h_is_file h source"
  by (auto simp: overlaid_files_def split: mount.splits if_splits)

lemma overlaid_distinct:
  assumes "distinct (map (\<lambda>m. components (mount_destination m)) ms)"
  shows "distinct (map (\<lambda>x. components (snd x)) (overlaid_files h ms))"
  using assms
proof (induction ms)
  case (Cons m ms)
  have rest: "components (snd x) \<in> (\<lambda>n. components (mount_destination n)) ` set ms"
    if "x \<in> set (overlaid_files h ms)" for x
    using that overlaid_elem [of "fst x" "snd x" h ms] by (force simp: image_iff)
  have step: "overlaid_files h (m # ms) = (case m of
        Overlay source destination \<Rightarrow> if h_is_file h source then [(source, destination)] else []
      | Bind _ _ _ \<Rightarrow> [] | Temporary _ \<Rightarrow> []) @ overlaid_files h ms"
    by (simp add: overlaid_files_def)
  show ?case using Cons rest unfolding step by (cases m) auto
qed (simp add: overlaid_files_def)

lemma copies_distinct:
  assumes "distinct (map (\<lambda>x. components (snd x)) files)" and "\<forall>x \<in> set files. CHR ''%'' \<notin> set (snd x)"
  shows "distinct (map (\<lambda>x. private_copy_path h (snd x)) files)"
  using assms
proof (induction files)
  case (Cons x xs)
  have "private_copy_path h (snd x) \<noteq> private_copy_path h (snd y)" if "y \<in> set xs" for y
  proof
    assume "private_copy_path h (snd x) = private_copy_path h (snd y)"
    then have "snd x = snd y" using private_copy_inj Cons.prems(2) that by auto
    then show False using Cons.prems(1) that by (auto simp: image_iff)
  qed
  then show ?case using Cons by (auto simp: image_iff)
qed simp

lemma materialize_Inr:
  assumes "materialize_private_copies h fc mounts s = (Inr x, t)"
  shows "x = (if overlaid_files h mounts = [] then None else Some (private_copy_root h)) \<and>
    (if overlaid_files h mounts = [] then t = s
     else \<exists>u. create_private_root h fc s = (Inr (), u) \<and>
       st_for (copy_file h fc) (overlaid_files h mounts) u = (Inr (), t))"
  using assms by (auto simp: materialize_private_copies_def Let_def result_simps split: if_splits)

text \<open>
  An overlaid file is a copy of its own source. Once the private copies of a validated plan are
  made, the file bound at each overlaid destination holds the content of that destination's source, as
  long as no destination contains a percent sign.
\<close>

theorem private_copies_hold:
  assumes "valid_destinations (rq_mounts request)"
    and "\<forall>m \<in> set (rq_mounts request). CHR ''%'' \<notin> set (mount_destination m)"
    and "materialize_private_copies h fc (mount_plan request) s = (Inr x, t)"
    and "Overlay source destination \<in> set (mount_plan request)" and "h_is_file h source"
  shows "pf_copies t (private_copy_path h destination) = Some source"
proof -
  let ?files = "overlaid_files h (mount_plan request)"
  have elem: "(source, destination) \<in> set ?files" using assms(4,5) by (simp add: overlaid_elem)
  have plain: "\<forall>x \<in> set ?files. CHR ''%'' \<notin> set (snd x)"
  proof
    fix x
    assume "x \<in> set ?files"
    then have "Overlay (fst x) (snd x) \<in> set (mount_plan request)"
      using overlaid_elem [of "fst x" "snd x" h] by simp
    then obtain m where "m \<in> set (rq_mounts request)" "mount_destination m = snd x"
      unfolding set_mount_plan image_iff by (metis mount.sel(5) plan_mount_destination)
    then show "CHR ''%'' \<notin> set (snd x)" using assms(2) by metis
  qed
  obtain u where "st_for (copy_file h fc) ?files u = (Inr (), t)"
    using materialize_Inr [OF assms(3)] elem by (auto split: if_splits)
  then show ?thesis
    using copies_made [OF _ copies_distinct [OF overlaid_distinct [OF plan_destinations [OF assms(1)]] plain] elem] by blast
qed

definition overlay_copies :: private_files where
  "overlay_copies = snd (materialize_private_copies sample_host sample_calls (mount_plan overlay_request) no_files)"

lemma overlay_materialized:
  "materialize_private_copies sample_host sample_calls (mount_plan overlay_request) no_files =
     (Inr (Some ''/tmp/driva-overlay-7''), overlay_copies)"
proof -
  have "fst (materialize_private_copies sample_host sample_calls (mount_plan overlay_request) no_files) =
      Inr (Some ''/tmp/driva-overlay-7'')" by code_simp
  then show ?thesis by (simp add: overlay_copies_def prod_eq_iff)
qed

theorem private_copies_hold_witness:
  "pf_copies overlay_copies ''/tmp/driva-overlay-7/%h%.rc'' = Some ''/h/.rc''"
proof -
  have "private_copy_path sample_host ''/h/.rc'' = ''/tmp/driva-overlay-7/%h%.rc''" by code_simp
  moreover have "pf_copies overlay_copies (private_copy_path sample_host ''/h/.rc'') = Some ''/h/.rc''"
  proof (rule private_copies_hold [OF _ _ overlay_materialized])
    show "valid_destinations (rq_mounts overlay_request)" by code_simp
    show "\<forall>m \<in> set (rq_mounts overlay_request). CHR ''%'' \<notin> set (mount_destination m)" by code_simp
    show "Overlay ''/h/.rc'' ''/h/.rc'' \<in> set (mount_plan overlay_request)" by code_simp
    show "h_is_file sample_host ''/h/.rc''" by code_simp
  qed
  ultimately show ?thesis by simp
qed

section \<open>Running and cleaning up\<close>

lemma copies_roots: "st_for (copy_file h fc) files s = (r, t) \<Longrightarrow> pf_roots t = pf_roots s"
proof (rule st_for_rel [where R = "\<lambda>s t. pf_roots t = pf_roots s"])
  show "pf_roots t = pf_roots s" if "copy_file h fc x s = (r, t)" for x s r t
    using that by (auto simp: copy_file_def Let_def split: sum.splits prod.splits)
qed auto

lemma materialize_roots:
  assumes "materialize_private_copies h fc mounts s = (Inr x, t)" and "overlaid_files h mounts \<noteq> []"
  shows "pf_roots t = private_copy_root h # pf_roots s"
proof -
  obtain u where "create_private_root h fc s = (Inr (), u)"
      "st_for (copy_file h fc) (overlaid_files h mounts) u = (Inr (), t)"
    using materialize_Inr [OF assms(1)] assms(2) by auto
  then show ?thesis
    using copies_roots [of h fc "overlaid_files h mounts" u "Inr ()" t]
    by (auto simp: create_private_root_def Let_def split: sum.splits)
qed

text \<open>
  When private copies stay behind. A run that made private copies removes them again whether the
  command succeeded, failed or could not be started; they stay exactly when building the command failed.
\<close>

theorem copies_outlive_failed_construction:
  assumes "overlaid_files h (mount_plan request) \<noteq> []"
    and "materialize_private_copies h fc (mount_plan request) s = (Inr x, u)"
    and "run_inner h fc b spawn await request s = (r, t)"
  shows "private_copy_root h \<in> set (pf_roots t) \<longleftrightarrow> \<not> is_ok (bwrap_command h b request)"
proof -
  have x: "x = Some (private_copy_root h)" using materialize_Inr [OF assms(2)] assms(1) by simp
  have u: "pf_roots u = private_copy_root h # pf_roots s" using materialize_roots assms(1,2) by blast
  show ?thesis
  proof (cases "bwrap_command h b request")
    case (Inl e)
    then have "t = u"
      using assms(2,3) by (auto simp: run_inner_def Let_def st_then_def st_read_def bwrap_command_def)
    then show ?thesis using u Inl by simp
  next
    case (Inr invocation)
    then have "t = remove_private_copies (private_copy_root h) u"
      using assms(2,3) x by (auto simp: run_inner_def Let_def st_then_def st_read_def bwrap_command_def)
    then show ?thesis using Inr by (simp add: remove_private_copies_def)
  qed
qed

theorem copies_outlive_failed_construction_witness:
  "private_copy_root sample_host \<in> set (pf_roots
     (snd (run_inner sample_host sample_calls bad_isolation (\<lambda>_. Inr 42) (\<lambda>_. Inr (Some 0)) overlay_request no_files)))"
proof -
  have files: "overlaid_files sample_host (mount_plan overlay_request) \<noteq> []" by code_simp
  have fails: "is_ok (bwrap_command sample_host bad_isolation overlay_request) = False" by code_simp
  show ?thesis
    using copies_outlive_failed_construction [OF files overlay_materialized prod.collapse [symmetric],
        of bad_isolation "\<lambda>_. Inr 42" "\<lambda>_. Inr (Some 0)"] fails by simp
qed

end
