(* ===== verification/Driva_Config.thy ===== *)
theory Driva_Config
  imports Driva_Bwrap "HOL-Library.Multiset"
begin

text \<open>
  Configuration and templates (\<open>driva/src/config.rs\<close>): mounts as written, and templates that are
  laid over each other. Parsing TOML is the work of a library; a parsed file is a value here, and so
  are the built-in templates, which are files read by that library.
\<close>

section \<open>Mounts\<close>

datatype mount_kind = BindKind | TemporaryKind | OverlayKind

record mount_config =
  mc_kind :: mount_kind
  mc_source :: "string option"
  mc_destination :: "string option"
  mc_access :: "mount_access option"

definition resolve_source :: "host \<Rightarrow> string \<Rightarrow> string option \<Rightarrow> string res" where
  "resolve_source h missing source =
     (case source of
        None \<Rightarrow> bail missing []
      | Some s \<Rightarrow> with_context ''invalid mount source {}'' [s] (canonicalize_mount h s))"

definition resolve_mount :: "host \<Rightarrow> mount_config \<Rightarrow> mount res" where
  "resolve_mount h m =
     (case mc_kind m of
        BindKind \<Rightarrow>
          and_then (resolve_source h ''bind mount requires a source'' (mc_source m)) (\<lambda>source.
          Inr (Bind source (case mc_destination m of Some d \<Rightarrow> d | None \<Rightarrow> source)
            (case mc_access m of Some a \<Rightarrow> a | None \<Rightarrow> ReadOnly)))
      | TemporaryKind \<Rightarrow>
          if mc_source m \<noteq> None then bail ''temporary mount does not accept a source'' []
          else if mc_access m \<noteq> None then bail ''temporary mount does not accept an access mode'' []
          else (case mc_destination m of
                  None \<Rightarrow> bail ''temporary mount requires a destination'' []
                | Some d \<Rightarrow> Inr (Temporary d))
      | OverlayKind \<Rightarrow>
          and_then (resolve_source h ''overlay mount requires a source'' (mc_source m)) (\<lambda>source.
          if mc_access m \<noteq> None then bail ''overlay mount does not accept an access mode'' []
          else Inr (Overlay source (case mc_destination m of Some d \<Rightarrow> d | None \<Rightarrow> source))))"

section \<open>Templates\<close>

record template_config =
  tc_description :: string
  tc_command :: "string list"
  tc_backend :: "string option"
  tc_rootfs :: "string option"
  tc_workspace_mounts :: "mount_config list"
  tc_workdir :: "string option"
  tc_mounts :: "mount_config list"
  tc_paths :: "string list"
  tc_capabilities :: "capability list"
  tc_network :: "bool option"
  tc_interactive :: "bool option"
  tc_new_session :: "bool option"
  tc_environment :: environment
  tc_run :: "string option"
  tc_test :: "string option"

definition or_later :: "'a option \<Rightarrow> 'a option \<Rightarrow> 'a option" where
  "or_later earlier later = (if later \<noteq> None then later else earlier)"

definition overlay_template :: "template_config \<Rightarrow> template_config \<Rightarrow> template_config" where
  "overlay_template t later =
     (let moved = tc_workdir later \<noteq> None \<or> tc_workspace_mounts later \<noteq> [];
          mounts = (if moved then tc_mounts t @ tc_workspace_mounts t else tc_mounts t);
          workspace = (if moved then [] else tc_workspace_mounts t)
      in \<lparr>tc_description = (if tc_description later \<noteq> [] then tc_description later else tc_description t),
          tc_command = (if tc_command later \<noteq> [] then tc_command later else tc_command t),
          tc_backend = or_later (tc_backend t) (tc_backend later),
          tc_rootfs = or_later (tc_rootfs t) (tc_rootfs later),
          tc_workspace_mounts = (if tc_workspace_mounts later \<noteq> [] then tc_workspace_mounts later else workspace),
          tc_workdir = or_later (tc_workdir t) (tc_workdir later),
          tc_mounts = mounts @ tc_mounts later,
          tc_paths = tc_paths t @ tc_paths later,
          tc_capabilities = tc_capabilities t @ tc_capabilities later,
          tc_network = or_later (tc_network t) (tc_network later),
          tc_interactive = or_later (tc_interactive t) (tc_interactive later),
          tc_new_session = or_later (tc_new_session t) (tc_new_session later),
          tc_environment = bt_extend (tc_environment t) (tc_environment later),
          tc_run = or_later (tc_run t) (tc_run later),
          tc_test = or_later (tc_test t) (tc_test later)\<rparr>)"

section \<open>Configuration\<close>

record bwrap_config =
  bc_rootfs :: "string option"
  bc_workdir :: "string option"
  bc_executable :: string

record config =
  cf_backend :: string
  cf_bwrap :: bwrap_config
  cf_mounts :: "mount_config list"
  cf_network :: bool
  cf_environment :: environment
  cf_templates :: "(string \<times> template_config) list"
  cf_base :: "capability list"

definition default_config :: config where
  "default_config =
     \<lparr>cf_backend = ''bwrap'',
      cf_bwrap = \<lparr>bc_rootfs = None, bc_workdir = None, bc_executable = ''bwrap''\<rparr>,
      cf_mounts = [], cf_network = False, cf_environment = [], cf_templates = [],
      cf_base = DEFAULT_CAPABILITIES\<rparr>"

text \<open>\<open>read\<close> and \<open>parse\<close> are the file system and the TOML library.\<close>

definition load_config :: "(string \<Rightarrow> string res) \<Rightarrow> (string \<Rightarrow> config res) \<Rightarrow> string \<Rightarrow> config res" where
  "load_config read parse p =
     and_then (with_context ''failed to read {}'' [p] (read p)) (\<lambda>content.
     with_context ''failed to parse {}'' [p] (parse content))"

definition discover_config ::
  "(string \<Rightarrow> bool) \<Rightarrow> (string \<Rightarrow> string res) \<Rightarrow> (string \<Rightarrow> config res) \<Rightarrow> config res" where
  "discover_config exists read parse =
     (if exists ''driva.toml'' then load_config read parse ''driva.toml'' else Inr default_config)"

definition find_template ::
  "(string \<times> template_config) list \<Rightarrow> config \<Rightarrow> string \<Rightarrow> template_config option" where
  "find_template builtin_templates c name =
     (case map_of (cf_templates c) name of Some t \<Rightarrow> Some t | None \<Rightarrow> map_of builtin_templates name)"

definition effective_templates ::
  "(string \<times> template_config) list \<Rightarrow> config \<Rightarrow> (string \<times> template_config) list" where
  "effective_templates builtin_templates c = bt_extend builtin_templates (cf_templates c)"

section \<open>Facts\<close>

text \<open>What a template grants beside its scalar settings.\<close>

definition mount_grants :: "template_config \<Rightarrow> mount_config multiset" where
  "mount_grants t = mset (tc_mounts t) + mset (tc_workspace_mounts t)"

lemma or_later_Some: "or_later x (Some y) = Some y" "or_later x None = x"
  by (simp_all add: or_later_def)

lemma overlay_grants: "mount_grants (overlay_template t later) = mount_grants t + mount_grants later"
  by (auto simp: overlay_template_def mount_grants_def Let_def)

text \<open>
  Laying a template over another loses no grant. The mounts of both remain (a workspace mount that
  is superseded as an ordinary mount), each with the multiplicity it had; search directories and
  capabilities follow each other, the environment is the union in which the later wins; and there is at
  most one workspace mount when that held of both.
\<close>

theorem overlay_keeps_grants:
  assumes "bt_wf (tc_environment t)" and "bt_wf (tc_environment later)"
    and "length (tc_workspace_mounts t) \<le> 1" and "length (tc_workspace_mounts later) \<le> 1"
  shows "mount_grants (overlay_template t later) = mount_grants t + mount_grants later \<and>
    tc_paths (overlay_template t later) = tc_paths t @ tc_paths later \<and>
    tc_capabilities (overlay_template t later) = tc_capabilities t @ tc_capabilities later \<and>
    bt_wf (tc_environment (overlay_template t later)) \<and>
    map_of (tc_environment (overlay_template t later)) =
      map_of (tc_environment t) ++ map_of (tc_environment later) \<and>
    length (tc_workspace_mounts (overlay_template t later)) \<le> 1"
proof -
  have "map_of (rev (tc_environment later)) = map_of (tc_environment later)"
    using assms(2) by (rule bt_wf_map_of_rev)
  then show ?thesis
    using assms overlay_grants [of t later] by (simp add: overlay_template_def Let_def)
qed

text \<open>
  The templates that are listed are the ones that are found: a project's definition replaces the
  built-in one of its name.
\<close>

theorem templates_listed_are_found:
  assumes "bt_wf builtin_templates" and "bt_wf (cf_templates c)"
  shows "map_of (effective_templates builtin_templates c) name = find_template builtin_templates c name"
proof -
  have "map_of (rev (cf_templates c)) = map_of (cf_templates c)"
    using assms(2) by (rule bt_wf_map_of_rev)
  then show ?thesis
    using assms by (simp add: effective_templates_def find_template_def map_add_def)
qed

end
