(* ===== verification/Driva_Main.thy ===== *)
theory Driva_Main
  imports Driva_Run Driva_Config
begin

text \<open>
  The command line (\<open>driva/src/main.rs\<close>): how the configuration, the templates and the flags make
  one request. Parsing the command line is the work of a library; its result is a record here.
\<close>

section \<open>The command line\<close>

record policy_args =
  po_template :: "string list"
  po_reads :: "string list"
  po_writes :: "string list"
  po_overlays :: "string list"
  po_no_write :: bool
  po_overlay_writes :: bool
  po_paths :: "string list"
  po_capabilities :: "capability list"
  po_no_capabilities :: "capability list"
  po_no_base :: bool
  po_backend :: "string option"
  po_network :: bool
  po_no_network :: bool
  po_interactive :: bool
  po_no_interactive :: bool
  po_new_session :: bool
  po_no_new_session :: bool
  po_rootfs :: "string option"
  po_temporary :: "string list"
  po_workdir :: "string option"
  po_inherit_env :: bool
  po_environment :: "(string \<times> string) list"

text \<open>What \<open>run\<close> and \<open>shell\<close> have in common once the subcommand is taken apart.\<close>

record invocation =
  in_policy :: policy_args
  in_command_override :: "string option"
  in_command :: "string list"
  in_shell :: bool

definition run_invocation :: "policy_args \<Rightarrow> string option \<Rightarrow> string list \<Rightarrow> invocation" where
  "run_invocation policy command_override command =
     \<lparr>in_policy = policy, in_command_override = command_override, in_command = command, in_shell = False\<rparr>"

definition shell_invocation :: "policy_args \<Rightarrow> invocation" where
  "shell_invocation policy =
     \<lparr>in_policy = policy\<lparr>po_interactive := True\<rparr>, in_command_override = None, in_command = [''/bin/sh''],
      in_shell = True\<rparr>"

definition parse_environment :: "string \<Rightarrow> string + string \<times> string" where
  "parse_environment x =
     (case split_once (CHR ''='') x of
        None \<Rightarrow> Inl ''expected NAME=VALUE''
      | Some (key, val) \<Rightarrow>
          if key = [] then Inl ''environment variable name cannot be empty'' else Inr (key, val))"

definition parse_mount_spec :: "string \<Rightarrow> string \<Rightarrow> (string \<times> string) res" where
  "parse_mount_spec spec workdir =
     (let (source, explicit) =
        (case split_once (CHR '':'') spec of
           Some (s, d) \<Rightarrow> if d \<noteq> [] then (s, Some d) else (spec, None)
         | None \<Rightarrow> (spec, None))
      in if source = [] then bail ''mount source cannot be empty'' []
         else Inr (source,
           case explicit of
             Some d \<Rightarrow> d
           | None \<Rightarrow> if path_eq source ''.'' then workdir
                     else if is_absolute source then source
                     else path_join workdir source))"

definition parse_mount :: "string \<Rightarrow> mount_access \<Rightarrow> string \<Rightarrow> mount res" where
  "parse_mount spec access workdir =
     map_ok (\<lambda>(source, destination). Bind source destination access) (parse_mount_spec spec workdir)"

definition parse_overlay_mount :: "string \<Rightarrow> string \<Rightarrow> mount res" where
  "parse_overlay_mount spec workdir =
     map_ok (\<lambda>(source, destination). Overlay source destination) (parse_mount_spec spec workdir)"

section \<open>Templates and the base\<close>

definition validate_workspace_mounts :: "template_config \<Rightarrow> unit res" where
  "validate_workspace_mounts t =
     (if length (tc_workspace_mounts t) > 1
      then bail ''a template may contain at most one workspace-mount'' [] else Inr ())"

fun apply_templates ::
  "(string \<times> template_config) list \<Rightarrow> config \<Rightarrow> template_config option \<Rightarrow> string list \<Rightarrow> template_config option res" where
  "apply_templates builtin_templates c t [] = Inr t"
| "apply_templates builtin_templates c t (name # names) =
     (case find_template builtin_templates c name of
        None \<Rightarrow> bail ''unknown template {}; run `driva templates` to list available templates'' [name]
      | Some later \<Rightarrow>
          and_then (validate_workspace_mounts later) (\<lambda>_.
          apply_templates builtin_templates c
            (Some (case t of Some t \<Rightarrow> overlay_template t later | None \<Rightarrow> later)) names))"

definition resolve_workspace_mount :: "host \<Rightarrow> template_config \<Rightarrow> (mount option \<times> template_config) res" where
  "resolve_workspace_mount h t =
     (if tc_workspace_mounts t = [] then Inr (None, t)
      else
      and_then (resolve_mount h (last (tc_workspace_mounts t))) (\<lambda>m.
      case m of
        Bind _ destination _ \<Rightarrow>
          Inr (Some m, t\<lparr>tc_workspace_mounts := butlast (tc_workspace_mounts t), tc_workdir := Some destination\<rparr>)
      | Temporary _ \<Rightarrow> bail ''workspace-mount must be a bind mount'' []
      | Overlay _ _ \<Rightarrow> bail ''workspace-mount must be a bind mount'' []))"

definition resolve_default_workspace :: "host \<Rightarrow> mount res" where
  "resolve_default_workspace h =
     with_context ''failed to resolve the current directory as the default workspace'' []
       (resolve_mount h \<lparr>mc_kind = BindKind, mc_source = Some ''.'', mc_destination = None,
          mc_access = Some ReadWrite\<rparr>)"

definition effective_base :: "config \<Rightarrow> template_config option \<Rightarrow> policy_args \<Rightarrow> capability list" where
  "effective_base c t policy =
     (if po_no_base policy then []
      else fold exclude_capability (po_no_capabilities policy)
        (fold include_capability (po_capabilities policy)
          (fold include_capability (case t of None \<Rightarrow> [] | Some t \<Rightarrow> tc_capabilities t) (cf_base c))))"

text \<open>The root file system of the only backend, and which backend is asked for.\<close>

definition resolve_backend ::
  "string \<Rightarrow> policy_args \<Rightarrow> template_config option \<Rightarrow> config \<Rightarrow> string option res" where
  "resolve_backend name policy t c =
     (if name = ''bwrap''
      then Inr (case po_rootfs policy of
             Some r \<Rightarrow> Some r
           | None \<Rightarrow> (case (case t of None \<Rightarrow> None | Some t \<Rightarrow> tc_rootfs t) of
               Some r \<Rightarrow> Some r
             | None \<Rightarrow> bc_rootfs (cf_bwrap c)))
      else bail ''unsupported isolation backend {}'' [name])"

definition requested_backend :: "policy_args \<Rightarrow> template_config option \<Rightarrow> config \<Rightarrow> string" where
  "requested_backend policy t c =
     (case po_backend policy of
        Some b \<Rightarrow> b
      | None \<Rightarrow> (case (case t of None \<Rightarrow> None | Some t \<Rightarrow> tc_backend t) of Some b \<Rightarrow> b | None \<Rightarrow> cf_backend c))"

section \<open>The parts of a request\<close>

definition request_command :: "invocation \<Rightarrow> template_config option \<Rightarrow> string list" where
  "request_command i t =
     (if in_shell i then in_command i
      else (case in_command_override i of
              Some x \<Rightarrow> x # in_command i
            | None \<Rightarrow> (case t of Some t \<Rightarrow> tc_command t @ in_command i | None \<Rightarrow> in_command i)))"

definition configured_workdir :: "policy_args \<Rightarrow> template_config option \<Rightarrow> config \<Rightarrow> string option" where
  "configured_workdir policy t c =
     (case po_workdir policy of
        Some w \<Rightarrow> Some w
      | None \<Rightarrow> (case (case t of None \<Rightarrow> None | Some t \<Rightarrow> tc_workdir t) of
          Some w \<Rightarrow> Some w
        | None \<Rightarrow> bc_workdir (cf_bwrap c)))"

definition request_mounts ::
  "host \<Rightarrow> policy_args \<Rightarrow> template_config option \<Rightarrow> mount option \<Rightarrow> config \<Rightarrow> string \<Rightarrow> mount list res" where
  "request_mounts h policy t workspace c workdir =
     and_then (collect (resolve_mount h) (cf_mounts c)) (\<lambda>configured.
     and_then (collect (resolve_mount h) (case t of None \<Rightarrow> [] | Some t \<Rightarrow> tc_mounts t)) (\<lambda>granted.
     and_then (collect (\<lambda>spec. parse_mount spec ReadOnly workdir) (po_reads policy)) (\<lambda>reads.
     and_then (collect (\<lambda>spec. parse_mount spec ReadWrite workdir) (po_writes policy)) (\<lambda>writes.
     and_then (collect (\<lambda>spec. parse_overlay_mount spec workdir) (po_overlays policy)) (\<lambda>overlays.
     Inr (configured @ granted @ (case workspace of None \<Rightarrow> [] | Some m \<Rightarrow> [m]) @ reads @ writes @ overlays @
       map Temporary (po_temporary policy)))))))"

text \<open>\<open>inherited\<close> is the environment of the process.\<close>

definition request_environment ::
  "host \<Rightarrow> environment \<Rightarrow> policy_args \<Rightarrow> template_config option \<Rightarrow> config \<Rightarrow> environment res" where
  "request_environment h inherited policy t c =
     (let configured = bt_extend (if po_inherit_env policy then bt_extend [] inherited else []) (cf_environment c) in
      and_then (case t of
          None \<Rightarrow> Inr configured
        | Some t \<Rightarrow>
            and_then (expand_environment_home h (bt_extend [] (tc_environment t))) (\<lambda>expanded.
            let env = bt_extend configured expanded in
            Inr (case h_var h ''HOME'' of None \<Rightarrow> env | Some home \<Rightarrow> bt_or_insert ''HOME'' home env))) (\<lambda>env.
      Inr (bt_extend
        (case h_var h ''TERM'' of None \<Rightarrow> env | Some term \<Rightarrow> bt_or_insert ''TERM'' term env)
        (po_environment policy))))"

definition with_default_workspace :: "string \<Rightarrow> mount option \<Rightarrow> mount list \<Rightarrow> mount list" where
  "with_default_workspace workdir workspace mounts =
     (case workspace of
        None \<Rightarrow> mounts
      | Some m \<Rightarrow> if list_ex (\<lambda>x. path_eq (mount_destination x) workdir) mounts then mounts else mounts @ [m])"

definition shell_environment :: "bool \<Rightarrow> environment \<Rightarrow> environment" where
  "shell_environment shell env =
     (if shell then bt_or_insert ''TERM'' ''xterm-256color'' (bt_or_insert ''HOME'' ''/tmp'' env) else env)"

text \<open>A pair of flags over the template's setting over a default.\<close>

definition flag_over :: "bool \<Rightarrow> bool \<Rightarrow> bool option \<Rightarrow> bool \<Rightarrow> bool" where
  "flag_over off on setting otherwise =
     (if off then False else if on then True else (case setting of Some x \<Rightarrow> x | None \<Rightarrow> otherwise))"

section \<open>The request\<close>

text \<open>Everything before validation, and the backend the request is for.\<close>

definition compose_request ::
  "host \<Rightarrow> environment \<Rightarrow> (string \<times> template_config) list \<Rightarrow> config \<Rightarrow> invocation \<Rightarrow>
   (execution_request \<times> bwrap_isolation) res" where
  "compose_request h inherited builtin_templates c i =
     (let policy = in_policy i; shell = in_shell i in
      and_then (apply_templates builtin_templates c None (po_template policy)) (\<lambda>selected.
      and_then (case selected of
          None \<Rightarrow> Inr (None, None)
        | Some t \<Rightarrow> map_ok (\<lambda>(m, t). (m, Some t)) (resolve_workspace_mount h t)) (\<lambda>(workspace, t).
      and_then (resolve_backend (requested_backend policy t c) policy t c) (\<lambda>rootfs.
      and_then (case configured_workdir policy t c of
          None \<Rightarrow> map_ok (\<lambda>m. (mount_destination m, Some m)) (resolve_default_workspace h)
        | Some w \<Rightarrow> Inr (w, None)) (\<lambda>(workdir, default_workspace).
      and_then (request_mounts h policy t workspace c workdir) (\<lambda>mounts.
      and_then (request_environment h inherited policy t c) (\<lambda>env.
      and_then (path_mounts h ((case t of None \<Rightarrow> [] | Some t \<Rightarrow> tc_paths t) @ po_paths policy) mounts env)
        (\<lambda>(mounts, env).
      let mounts = with_default_workspace workdir default_workspace mounts;
          mounts = (if po_no_write policy then map make_read_only mounts else mounts)
      in Inr
        (\<lparr>rq_command = request_command i t, rq_working_directory = workdir, rq_mounts = mounts,
          rq_writable_mounts = (if po_overlay_writes policy then OverlayWrites else DirectWrites),
          rq_environment = shell_environment shell env,
          rq_network = flag_over (po_no_network policy) (po_network policy)
            (case t of None \<Rightarrow> None | Some t \<Rightarrow> tc_network t) (cf_network c),
          rq_interactive = (shell \<or> flag_over (po_no_interactive policy) (po_interactive policy)
            (case t of None \<Rightarrow> None | Some t \<Rightarrow> tc_interactive t) False),
          rq_new_session = flag_over (po_no_new_session policy) (po_new_session policy)
            (case t of None \<Rightarrow> None | Some t \<Rightarrow> tc_new_session t) (\<not> shell)\<rparr>,
         \<lparr>bw_executable = bc_executable (cf_bwrap c), bw_rootfs = rootfs,
          bw_base = effective_base c t policy\<rparr>)))))))))"

text \<open>The validated request, the backend, and the invocation that would be printed by a dry run.\<close>

definition prepare_run ::
  "host \<Rightarrow> environment \<Rightarrow> (string \<times> template_config) list \<Rightarrow> config \<Rightarrow> invocation \<Rightarrow>
   (execution_request \<times> bwrap_isolation \<times> string \<times> string list) res" where
  "prepare_run h inherited builtin_templates c i =
     and_then (compose_request h inherited builtin_templates c i) (\<lambda>(raw, b).
     and_then (validate_request h raw) (\<lambda>request.
     and_then (with_context
         (if ''codex-runtime'' \<in> set (po_template (in_policy i))
          then ''Codex runtime is unavailable; run `driva runtime install codex@VERSION`''
          else ''failed to construct Bubblewrap invocation'') [] (bwrap_command h b request)) (\<lambda>(program, args).
     Inr (request, b, program, args))))"

section \<open>What the flags promise\<close>

lemma compose_request_Inr:
  assumes "compose_request h inherited builtin_templates c i = Inr (raw, b)"
  obtains selected workspace t mounts env mounts' env' where
    "apply_templates builtin_templates c None (po_template (in_policy i)) = Inr selected"
    "(case selected of None \<Rightarrow> Inr (None, None)
      | Some t \<Rightarrow> map_ok (\<lambda>(m, t). (m, Some t)) (resolve_workspace_mount h t)) = Inr (workspace, t)"
    "request_environment h inherited (in_policy i) t c = Inr env"
    "path_mounts h ((case t of None \<Rightarrow> [] | Some t \<Rightarrow> tc_paths t) @ po_paths (in_policy i)) mounts env =
      Inr (mounts', env')"
    "rq_environment raw = shell_environment (in_shell i) env'"
    "rq_network raw = flag_over (po_no_network (in_policy i)) (po_network (in_policy i))
        (case t of None \<Rightarrow> None | Some t \<Rightarrow> tc_network t) (cf_network c)"
  using assms by (auto simp: compose_request_def Let_def result_simps)

lemma compose_writes:
  assumes "compose_request h inherited builtin_templates c i = Inr (raw, b)"
  shows "po_no_write (in_policy i) \<Longrightarrow> \<forall>m \<in> set (rq_mounts raw). make_read_only m = m"
    and "rq_writable_mounts raw = (if po_overlay_writes (in_policy i) then OverlayWrites else DirectWrites)"
proof -
  have idem: "make_read_only (make_read_only m) = make_read_only m" for m
    by (cases m) simp_all
  show "po_no_write (in_policy i) \<Longrightarrow> \<forall>m \<in> set (rq_mounts raw). make_read_only m = m"
    and "rq_writable_mounts raw = (if po_overlay_writes (in_policy i) then OverlayWrites else DirectWrites)"
    using assms by (auto simp: compose_request_def Let_def result_simps idem)
qed

lemma validated_read_only:
  assumes "list_all2 (validated_mount h) raw mounts" and "\<forall>m \<in> set raw. make_read_only m = m"
  shows "Bind s d ReadWrite \<notin> set mounts"
proof
  assume "Bind s d ReadWrite \<in> set mounts"
  then obtain m where m: "m \<in> set raw" "validated_mount h m (Bind s d ReadWrite)"
    using list_all2_source [OF assms(1)] by blast
  obtain source where "m = Bind source d ReadWrite" using m(2) by (cases m) auto
  then show False using assms(2) m(1) by auto
qed

lemma prepare_run_Inr:
  assumes "prepare_run h inherited builtin_templates c i = Inr (request, b, program, args)"
  obtains raw where "compose_request h inherited builtin_templates c i = Inr (raw, b)"
    and "validate_request h raw = Inr request" and "bwrap_command h b request = Inr (program, args)"
  using assms by (auto simp: prepare_run_def result_simps)

text \<open>
  C11. With \<open>--no-write\<close> or \<open>--overlay-writes\<close> nothing on the host is written, whatever the
  configuration, the templates and the other flags say: where the invocation that is built lets a process
  write to a host path at all, it is the private copy of a file that is overlaid there.
\<close>

theorem no_write_keeps_the_host:
  assumes "po_no_write (in_policy i) \<or> po_overlay_writes (in_policy i)"
    and "prepare_run h inherited builtin_templates c i = Inr (request, b, program, args)"
    and "sandbox_of args = Some table" and "visible table q = Some (d, HostPath s, True)"
  shows "\<exists>source. Overlay source d \<in> set (mount_plan request) \<and> h_is_file h source \<and> s = private_copy_path h d"
proof -
  obtain raw where raw: "compose_request h inherited builtin_templates c i = Inr (raw, b)"
      "validate_request h raw = Inr request" "bwrap_command h b request = Inr (program, args)"
    using prepare_run_Inr [OF assms(2)] .
  note valid = validate_request_Inr [OF raw(2)]
  have mode: "rq_writable_mounts request = rq_writable_mounts raw"
    using valid(3) by (metis execution_request.ext_inject execution_request.surjective
        execution_request.update_convs(3))
  have "\<not> (rq_writable_mounts request = DirectWrites \<and> Bind s d ReadWrite \<in> set (rq_mounts request))"
    using assms(1) compose_writes [OF raw(1)] validated_read_only [OF valid(4)] mode by auto
  then show ?thesis using host_writes_origin [OF raw(3) assms(3,4)] by blast
qed

section \<open>The base and the environment\<close>

lemma fold_include: "set (fold include_capability xs base) = set base \<union> set xs"
  by (induction xs arbitrary: base) (auto simp: include_capability_def)

lemma fold_exclude: "set (fold exclude_capability xs base) = set base - set xs"
  by (induction xs arbitrary: base) (auto simp: exclude_capability_def)

lemma fold_include_distinct: "distinct base \<Longrightarrow> distinct (fold include_capability xs base)"
  by (induction xs arbitrary: base) (auto simp: include_capability_def)

lemma fold_exclude_distinct: "distinct base \<Longrightarrow> distinct (fold exclude_capability xs base)"
  by (induction xs arbitrary: base) (auto simp: exclude_capability_def)

text \<open>
  The base of an invocation: what the configuration, the template and the flags ask for, without
  what a flag excludes; nothing at all with \<open>--no-base\<close>; and no capability twice if the configuration
  names none twice.
\<close>

theorem effective_base_is_exact:
  assumes "distinct (cf_base c)"
  shows "set (effective_base c t policy) =
     (if po_no_base policy then {}
      else (set (cf_base c) \<union> (case t of None \<Rightarrow> {} | Some t \<Rightarrow> set (tc_capabilities t)) \<union> set (po_capabilities policy)) -
           set (po_no_capabilities policy)) \<and>
   distinct (effective_base c t policy)"
  using assms by (cases t) (auto simp: effective_base_def fold_include fold_exclude
      intro!: fold_exclude_distinct fold_include_distinct)

lemma expand_environment_keys:
  "expand_environment_home h env = Inr expanded \<Longrightarrow> map fst expanded = map fst env"
proof -
  assume "expand_environment_home h env = Inr expanded"
  then have "list_all2 (\<lambda>x y. (case x of (key, val) \<Rightarrow>
      map_ok (\<lambda>v. (key, v)) (expand_home h (''environment value '' @ key) val)) = Inr y) env expanded"
    by (simp add: expand_environment_home_def collect_Inr_iff)
  then show ?thesis
    by (induction rule: list_all2_induct) (auto simp: result_simps)
qed

lemma path_mounts_Inr:
  assumes "path_mounts h directories mounts env = Inr (mounts', env')"
  shows "env' = env \<or> (\<exists>path. env' = bt_insert ''PATH'' path env)"
  using assms by (auto simp: path_mounts_def Let_def result_simps split: if_splits)

lemma request_environment_Inr:
  assumes "request_environment h inherited policy t c = Inr env"
    and "bt_wf (cf_environment c)"
  shows "bt_wf env \<and> (\<exists>m. map_of env = m ++ map_of (rev (po_environment policy)))"
proof -
  have wf: "bt_wf (bt_extend (if po_inherit_env policy then bt_extend [] inherited else []) (cf_environment c))"
    by simp
  obtain e where e: "(case t of
      None \<Rightarrow> Inr (bt_extend (if po_inherit_env policy then bt_extend [] inherited else []) (cf_environment c))
    | Some t \<Rightarrow>
        and_then (expand_environment_home h (bt_extend [] (tc_environment t))) (\<lambda>expanded.
        let env = bt_extend (bt_extend (if po_inherit_env policy then bt_extend [] inherited else [])
          (cf_environment c)) expanded in
        Inr (case h_var h ''HOME'' of None \<Rightarrow> env | Some home \<Rightarrow> bt_or_insert ''HOME'' home env))) = Inr e"
    and env: "env = bt_extend (case h_var h ''TERM'' of None \<Rightarrow> e | Some term \<Rightarrow> bt_or_insert ''TERM'' term e)
      (po_environment policy)"
    using assms(1) by (auto simp: request_environment_def Let_def result_simps)
  have "bt_wf e" using e wf by (cases t) (auto simp: Let_def result_simps split: option.splits)
  then have "bt_wf (case h_var h ''TERM'' of None \<Rightarrow> e | Some term \<Rightarrow> bt_or_insert ''TERM'' term e)"
    by (simp split: option.splits)
  then show ?thesis using env by auto
qed

text \<open>
  The command line has the last word on the environment. The environment of a request is a map in
  key order, and a variable given with \<open>--env\<close> has the value last given there; only \<open>PATH\<close> may be
  extended by search directories.
\<close>

theorem command_line_environment_wins:
  assumes "bt_wf (cf_environment c)"
    and "compose_request h inherited builtin_templates c i = Inr (raw, b)"
    and "map_of (rev (po_environment (in_policy i))) name = Some val" and "name \<noteq> ''PATH''"
  shows "bt_wf (rq_environment raw) \<and> map_of (rq_environment raw) name = Some val"
proof -
  obtain t mounts env mounts' env' where
    env: "request_environment h inherited (in_policy i) t c = Inr env"
    and path: "path_mounts h ((case t of None \<Rightarrow> [] | Some t \<Rightarrow> tc_paths t) @ po_paths (in_policy i)) mounts env =
      Inr (mounts', env')"
    and raw: "rq_environment raw = shell_environment (in_shell i) env'"
    using compose_request_Inr [OF assms(2)] by metis
  obtain m where m: "bt_wf env" "map_of env = m ++ map_of (rev (po_environment (in_policy i)))"
    using request_environment_Inr [OF env assms(1)] by blast
  have env': "bt_wf env'" "name \<noteq> ''PATH'' \<Longrightarrow> map_of env' name = map_of env name" for name
    using path_mounts_Inr [OF path] m(1) by auto
  have "bt_wf (rq_environment raw)" using env'(1) by (simp add: raw shell_environment_def)
  moreover have "map_of (rq_environment raw) name = Some val"
  proof -
    have "map_of env' name = Some val" using env'(2) [OF assms(4)] m(2) assms(3) by simp
    then show ?thesis using env'(1) by (auto simp: raw shell_environment_def map_of_bt_or_insert)
  qed
  ultimately show ?thesis by blast
qed

section \<open>Templates named on the command line\<close>

text \<open>A setting of the templates named: what one of them says.\<close>

lemma apply_templates_setting:
  assumes overlay: "\<And>x y. f (overlay_template x y) = or_later (f x) (f y)"
  shows "apply_templates builtin_templates c t names = Inr (Some r) \<Longrightarrow> f r = Some v \<Longrightarrow>
    (\<exists>x. t = Some x \<and> f x = Some v) \<or>
    (\<exists>name \<in> set names. \<exists>x. find_template builtin_templates c name = Some x \<and> f x = Some v)"
proof (induction builtin_templates c t names rule: apply_templates.induct)
  case (2 builtin_templates c t name names)
  obtain later where later: "find_template builtin_templates c name = Some later"
      "validate_workspace_mounts later = Inr ()"
      "apply_templates builtin_templates c (Some (case t of Some t \<Rightarrow> overlay_template t later | None \<Rightarrow> later)) names =
        Inr (Some r)"
    using 2(2) by (auto simp: result_simps split: option.splits)
  consider (first) "f (case t of Some t \<Rightarrow> overlay_template t later | None \<Rightarrow> later) = Some v"
    | (rest) "\<exists>n \<in> set names. \<exists>x. find_template builtin_templates c n = Some x \<and> f x = Some v"
    using 2(1) [OF later(1) later(3) 2(3)] by auto
  then show ?case
  proof cases
    case first
    then show ?thesis using later(1) overlay by (cases t) (auto simp: or_later_def split: if_splits)
  qed auto
qed auto

lemma workspace_setting:
  assumes "resolve_workspace_mount h t = Inr (m, t')"
  shows "tc_network t' = tc_network t"
proof (cases "tc_workspace_mounts t = []")
  case False
  then obtain x where x: "resolve_mount h (last (tc_workspace_mounts t)) = Inr x"
    using assms by (auto simp: resolve_workspace_mount_def result_simps)
  then show ?thesis using assms False by (cases x) (auto simp: resolve_workspace_mount_def)
qed (use assms in \<open>simp add: resolve_workspace_mount_def\<close>)

text \<open>
  No network by default. The invocation that is built shares the network only if it is not refused
  by a flag, and a flag, a template named on the command line or the configuration grants it.
\<close>

theorem network_needs_a_grant:
  assumes "prepare_run h inherited builtin_templates c i = Inr (request, b, program, args)"
    and "parse_options args = Some (found, rest)" and "Switch ''--share-net'' \<in> set found"
  shows "\<not> po_no_network (in_policy i) \<and>
    (po_network (in_policy i) \<or> cf_network c \<or>
     (\<exists>name \<in> set (po_template (in_policy i)). \<exists>t.
        find_template builtin_templates c name = Some t \<and> tc_network t = Some True))"
proof -
  obtain raw where raw: "compose_request h inherited builtin_templates c i = Inr (raw, b)"
      "validate_request h raw = Inr request" "bwrap_command h b request = Inr (program, args)"
    using prepare_run_Inr [OF assms(1)] .
  obtain l where "found = sandbox_options h request l (mount_plan request)"
    using parsed_invocation [OF raw(3)] assms(2) by auto
  then have "rq_network request"
    using assms(3) by (auto simp: sandbox_options_def environment_options_def split: if_splits)
  then have net: "rq_network raw"
    using validate_request_Inr(3) [OF raw(2)] by (metis execution_request.ext_inject
        execution_request.surjective execution_request.update_convs(3))
  obtain selected workspace t where
    selected: "apply_templates builtin_templates c None (po_template (in_policy i)) = Inr selected"
    and taken: "(case selected of None \<Rightarrow> Inr (None, None)
      | Some t \<Rightarrow> map_ok (\<lambda>(m, t). (m, Some t)) (resolve_workspace_mount h t)) = Inr (workspace, t)"
    and flag: "rq_network raw = flag_over (po_no_network (in_policy i)) (po_network (in_policy i))
        (case t of None \<Rightarrow> None | Some t \<Rightarrow> tc_network t) (cf_network c)"
    using compose_request_Inr [OF raw(1)] by metis
  have t: "(case t of None \<Rightarrow> None | Some t \<Rightarrow> tc_network t) =
      (case selected of None \<Rightarrow> None | Some t \<Rightarrow> tc_network t)"
    using taken workspace_setting by (cases selected) (auto simp: result_simps)
  have "tc_network r = Some True \<Longrightarrow> selected = Some r \<Longrightarrow>
      \<exists>name \<in> set (po_template (in_policy i)). \<exists>t.
        find_template builtin_templates c name = Some t \<and> tc_network t = Some True" for r
    using apply_templates_setting [of tc_network builtin_templates c None "po_template (in_policy i)" r True] selected
    by (auto simp: overlay_template_def Let_def)
  then show ?thesis using net unfolding flag flag_over_def t
    by (cases selected) (auto split: if_splits option.splits)
qed

lemma apply_templates_grants:
  "apply_templates builtin_templates c t names = Inr r \<Longrightarrow>
     (case t of None \<Rightarrow> {#} | Some x \<Rightarrow> mount_grants x) +
     sum_list (map (\<lambda>name. case find_template builtin_templates c name of None \<Rightarrow> {#} | Some x \<Rightarrow> mount_grants x) names) =
     (case r of None \<Rightarrow> {#} | Some x \<Rightarrow> mount_grants x)"
proof (induction builtin_templates c t names rule: apply_templates.induct)
  case (2 builtin_templates c t name names)
  obtain later where later: "find_template builtin_templates c name = Some later"
      "validate_workspace_mounts later = Inr ()"
      "apply_templates builtin_templates c (Some (case t of Some t \<Rightarrow> overlay_template t later | None \<Rightarrow> later)) names = Inr r"
    using 2(2) by (auto simp: result_simps split: option.splits)
  have "(case t of None \<Rightarrow> {#} | Some x \<Rightarrow> mount_grants x) + mount_grants later =
      mount_grants (case t of Some t \<Rightarrow> overlay_template t later | None \<Rightarrow> later)"
    by (cases t) (simp_all add: overlay_grants)
  then show ?case using 2(1) [OF later(1) later(3)] later(1) by (simp flip: add.assoc)
qed simp

text \<open>
  The templates named on the command line add up: the mounts of the effective template are exactly
  those of all templates named, each as often as it was named.
\<close>

theorem templates_accumulate:
  assumes "apply_templates builtin_templates c None names = Inr r"
  shows "(case r of None \<Rightarrow> {#} | Some t \<Rightarrow> mount_grants t) =
    sum_list (map (\<lambda>name. case find_template builtin_templates c name of
        None \<Rightarrow> {#} | Some t \<Rightarrow> mount_grants t) names)"
  using apply_templates_grants [OF assms] by simp

section \<open>A sample invocation\<close>

definition sample_template :: template_config where
  "sample_template =
     \<lparr>tc_description = ''sample'', tc_command = [''tool''], tc_backend = None, tc_rootfs = None,
      tc_workspace_mounts = [\<lparr>mc_kind = BindKind, mc_source = Some ''/h/project'', mc_destination = Some ''/work'',
        mc_access = Some ReadWrite\<rparr>],
      tc_workdir = None,
      tc_mounts = [\<lparr>mc_kind = TemporaryKind, mc_source = None, mc_destination = Some ''/h'', mc_access = None\<rparr>],
      tc_paths = [], tc_capabilities = [Core], tc_network = Some True, tc_interactive = None,
      tc_new_session = None, tc_environment = [(''A'', ''~'')], tc_run = None, tc_test = None\<rparr>"

definition sample_policy :: policy_args where
  "sample_policy =
     \<lparr>po_template = [''sample''], po_reads = [], po_writes = [''/h/b:/b''], po_overlays = [''/h/.rc''],
      po_no_write = True, po_overlay_writes = False, po_paths = [], po_capabilities = [],
      po_no_capabilities = [], po_no_base = True, po_backend = None, po_network = False,
      po_no_network = False, po_interactive = False, po_no_interactive = False, po_new_session = False,
      po_no_new_session = False, po_rootfs = None, po_temporary = [], po_workdir = None,
      po_inherit_env = False, po_environment = [(''B'', ''1''), (''B'', ''2'')]\<rparr>"

definition sample_invocation :: invocation where
  "sample_invocation = run_invocation sample_policy None [''--flag'']"

definition prepared :: "execution_request \<times> bwrap_isolation \<times> string \<times> string list" where
  "prepared = projr (prepare_run sample_host [] [(''sample'', sample_template)] default_config sample_invocation)"

definition prepared_args :: "string list" where
  "prepared_args = snd (snd (snd prepared))"

lemma sample_prepared:
  "prepare_run sample_host [] [(''sample'', sample_template)] default_config sample_invocation =
     Inr (fst prepared, fst (snd prepared), fst (snd (snd prepared)), prepared_args)"
proof -
  have "is_ok (prepare_run sample_host [] [(''sample'', sample_template)] default_config sample_invocation)"
    by code_simp
  then show ?thesis by (auto simp: is_ok_iff prepared_def prepared_args_def)
qed

definition prepared_table :: "mount_entry list" where
  "prepared_table = the (sandbox_of prepared_args)"

lemma prepared_sandbox: "sandbox_of prepared_args = Some prepared_table"
proof -
  have "sandbox_of prepared_args \<noteq> None" by code_simp
  then show ?thesis by (auto simp: prepared_table_def)
qed

theorem no_write_keeps_the_host_witness:
  "\<exists>source. Overlay source ''/h/.rc'' \<in> set (mount_plan (fst prepared)) \<and> h_is_file sample_host source \<and>
     ''/tmp/driva-overlay-7/%h%.rc'' = private_copy_path sample_host ''/h/.rc''"
proof (rule no_write_keeps_the_host [OF _ sample_prepared prepared_sandbox])
  show "po_no_write (in_policy sample_invocation) \<or> po_overlay_writes (in_policy sample_invocation)"
    by (simp add: sample_invocation_def run_invocation_def sample_policy_def)
  show "visible prepared_table ''/h/.rc'' = Some (''/h/.rc'', HostPath ''/tmp/driva-overlay-7/%h%.rc'', True)"
    by code_simp
qed

definition composed :: "execution_request \<times> bwrap_isolation" where
  "composed = projr (compose_request sample_host [] [(''sample'', sample_template)] default_config sample_invocation)"

theorem command_line_environment_wins_witness:
  "bt_wf (rq_environment (fst composed)) \<and> map_of (rq_environment (fst composed)) ''B'' = Some ''2''"
proof (rule command_line_environment_wins)
  have "is_ok (compose_request sample_host [] [(''sample'', sample_template)] default_config sample_invocation)"
    by code_simp
  then show "compose_request sample_host [] [(''sample'', sample_template)] default_config sample_invocation =
      Inr (fst composed, snd composed)" by (auto simp: is_ok_iff composed_def)
qed (simp_all add: default_config_def sample_invocation_def run_invocation_def sample_policy_def)

theorem effective_base_is_exact_witness:
  "set (effective_base default_config (Some sample_template) (sample_policy\<lparr>po_no_base := False, po_no_capabilities := [Dns]\<rparr>)) =
     {Core, Identity, Certificates, Timezone}"
proof -
  have "distinct (cf_base default_config)" by (simp add: default_config_def DEFAULT_CAPABILITIES_def)
  from effective_base_is_exact [OF this, of "Some sample_template" "sample_policy\<lparr>po_no_base := False, po_no_capabilities := [Dns]\<rparr>"]
  show ?thesis by (auto simp: default_config_def DEFAULT_CAPABILITIES_def sample_template_def sample_policy_def)
qed

theorem network_needs_a_grant_witness:
  "\<not> po_no_network (in_policy sample_invocation) \<and>
   (po_network (in_policy sample_invocation) \<or> cf_network default_config \<or>
    list_ex (\<lambda>name. \<exists>t. find_template [(''sample'', sample_template)] default_config name = Some t \<and>
        tc_network t = Some True) (po_template (in_policy sample_invocation)))"
proof -
  have "parse_options prepared_args = Some (fst (the (parse_options prepared_args)), snd (the (parse_options prepared_args)))"
  proof -
    have "parse_options prepared_args \<noteq> None" by code_simp
    then show ?thesis by auto
  qed
  moreover have "Switch ''--share-net'' \<in> set (fst (the (parse_options prepared_args)))" by code_simp
  ultimately show ?thesis
    unfolding list_ex_iff by (rule network_needs_a_grant [OF sample_prepared])
qed

theorem templates_accumulate_witness:
  "mount_grants (overlay_template sample_template sample_template) =
     mount_grants sample_template + mount_grants sample_template"
proof -
  have "apply_templates [(''sample'', sample_template)] default_config None [''sample'', ''sample''] =
      Inr (Some (overlay_template sample_template sample_template))"
    by (simp add: find_template_def default_config_def validate_workspace_mounts_def sample_template_def)
  from templates_accumulate [OF this] show ?thesis by (simp add: find_template_def default_config_def)
qed

end
