(* ===== verification/Driva_Probe.thy ===== *)
theory Driva_Probe
  imports Driva_Main
begin

text \<open>
  Checking a capability by using it (\<open>driva/src/probe.rs\<close>, \<open>doctor_command\<close> of
  \<open>driva/src/main.rs\<close>): the request one capability is probed with, the side that answers inside the
  sandbox, and the classification of what came back. Name resolution and connections are parameters.
\<close>

section \<open>The isolated side\<close>

definition PROBE_ENV :: string where
  "PROBE_ENV = ''DRIVA_PROBE''"

text \<open>\<open>lookup\<close> lists the addresses of a name or of a \<open>host:port\<close> target; \<open>dial\<close> connects to one.\<close>

record network =
  nw_lookup :: "string \<Rightarrow> string list res"
  nw_lookup_target :: "string \<Rightarrow> string list res"
  nw_dial :: "string \<Rightarrow> unit res"

definition run_resolve :: "network \<Rightarrow> string \<Rightarrow> unit res" where
  "run_resolve net name =
     and_then (with_context ''resolving {}'' [name] (nw_lookup net name)) (\<lambda>addresses.
     if addresses = [] then bail ''resolving {}: no addresses'' [name] else Inr ())"

definition run_connect :: "network \<Rightarrow> string \<Rightarrow> unit res" where
  "run_connect net target =
     and_then (with_context ''resolving {}'' [target] (nw_lookup_target net target)) (\<lambda>addresses.
     case addresses of
       [] \<Rightarrow> bail ''resolving {}: no addresses'' [target]
     | address # _ \<Rightarrow> with_context ''connecting to {}'' [target] (nw_dial net address))"

definition run_in_isolation :: "network \<Rightarrow> string \<Rightarrow> unit res" where
  "run_in_isolation net request =
     (case split_once (CHR '':'') request of
        Some (kind, argument) \<Rightarrow>
          if kind = ''resolve'' then run_resolve net argument
          else if kind = ''connect'' then run_connect net argument
          else bail ''unknown probe request {}'' [request]
      | None \<Rightarrow> bail ''unknown probe request {}'' [request])"

text \<open>What the process does when it starts: nothing without the sentinel, else it ends with a status.\<close>

definition exit_if_requested :: "host \<Rightarrow> network \<Rightarrow> int option" where
  "exit_if_requested h net =
     (case h_var h PROBE_ENV of
        None \<Rightarrow> None
      | Some request \<Rightarrow> Some (case run_in_isolation net request of Inr _ \<Rightarrow> 0 | Inl _ \<Rightarrow> 1))"

section \<open>The probing side\<close>

datatype probe_outcome = Passed | ProbeFailed string | Unprobed string | NoProbe

fun outcome_label :: "probe_outcome \<Rightarrow> string" where
  "outcome_label Passed = ''ok''"
| "outcome_label (ProbeFailed reason) = ''FAILED''"
| "outcome_label (Unprobed reason) = ''unprobed''"
| "outcome_label NoProbe = ''no probe''"

fun needs_network :: "probe \<Rightarrow> bool" where
  "needs_network (ProbeResolve name) = True"
| "needs_network (ProbeConnect target) = True"
| "needs_network (ProbeRun command) = False"

text \<open>\<open>current_exe\<close> is the path of the running program.\<close>

fun probe_command :: "string res \<Rightarrow> probe \<Rightarrow> (string list \<times> mount list) res" where
  "probe_command current_exe (ProbeRun command) = Inr (command, [])"
| "probe_command current_exe probe =
     and_then (with_context ''locating the Driva binary to answer the probe inside the sandbox'' [] current_exe)
       (\<lambda>executable. Inr ([executable], [Bind executable executable ReadOnly]))"

fun probe_environment :: "probe \<Rightarrow> environment" where
  "probe_environment (ProbeResolve name) = [(PROBE_ENV, ''resolve:'' @ name)]"
| "probe_environment (ProbeConnect target) = [(PROBE_ENV, ''connect:'' @ target)]"
| "probe_environment (ProbeRun command) = []"

definition probe_backend :: "string \<Rightarrow> resolved_capability \<Rightarrow> bwrap_isolation" where
  "probe_backend executable capability =
     \<lparr>bw_executable = executable, bw_rootfs = None,
      bw_base = Core # (if rc_name capability \<noteq> Core then [rc_name capability] else [])\<rparr>"

definition probe_request :: "string list \<Rightarrow> mount list \<Rightarrow> probe \<Rightarrow> execution_request" where
  "probe_request command mounts probe =
     \<lparr>rq_command = command, rq_working_directory = ''/tmp'', rq_mounts = mounts,
      rq_writable_mounts = DirectWrites, rq_environment = probe_environment probe,
      rq_network = needs_network probe, rq_interactive = False, rq_new_session = True\<rparr>"

definition read_back :: "string \<Rightarrow> string" where
  "read_back content =
     (let t = trim content in
      if t = [] then ''no output'' else (case lines t of [] \<Rightarrow> t | ls \<Rightarrow> last ls))"

fun is_run :: "probe \<Rightarrow> bool" where
  "is_run (ProbeRun command) = True"
| "is_run (ProbeResolve name) = False"
| "is_run (ProbeConnect target) = False"

definition classify :: "probe \<Rightarrow> (process_exit \<times> string) res \<Rightarrow> probe_outcome" where
  "classify probe executed =
     (case executed of
        Inl e \<Rightarrow> ProbeFailed (error_chain e)
      | Inr (ended, written) \<Rightarrow>
          if exit_code ended = 0 then Passed
          else if is_run probe \<and> exit_code ended = 127 then Unprobed (read_back written)
          else ProbeFailed (read_back written))"

text \<open>\<open>run\<close> is the backend executing a request: how the process exited, and what it wrote.\<close>

definition probe_capability ::
  "string res \<Rightarrow> (bwrap_isolation \<Rightarrow> execution_request \<Rightarrow> (process_exit \<times> string) res) \<Rightarrow> string \<Rightarrow>
   resolved_capability \<Rightarrow> probe_outcome res" where
  "probe_capability current_exe run executable capability =
     (case rc_probe capability of
        None \<Rightarrow> Inr NoProbe
      | Some probe \<Rightarrow>
          map_ok (\<lambda>(command, mounts).
            classify probe (run (probe_backend executable capability) (probe_request command mounts probe)))
            (probe_command current_exe probe))"

section \<open>The doctor\<close>

text \<open>The outcomes in the order they are reported, and whether the command ends in an error.\<close>

definition doctor_command ::
  "host \<Rightarrow> string res \<Rightarrow> (bwrap_isolation \<Rightarrow> execution_request \<Rightarrow> (process_exit \<times> string) res) \<Rightarrow> config \<Rightarrow>
   policy_args \<Rightarrow> (capability \<times> probe_outcome) list res" where
  "doctor_command h current_exe run c policy =
     and_then (resolve_base h (effective_base c None policy)) (\<lambda>base.
     and_then (collect (\<lambda>r. map_ok (\<lambda>x. (rc_name r, x))
         (probe_capability current_exe run (bc_executable (cf_bwrap c)) r)) base) (\<lambda>outcomes.
     if list_ex (\<lambda>(_, x). case x of ProbeFailed _ \<Rightarrow> True | _ \<Rightarrow> False) outcomes
     then bail ''a capability of the sandbox base does not work on this host'' []
     else Inr outcomes))"

section \<open>Both sides agree\<close>

text \<open>
  The two sides of a probe agree. The variable the probing side sets in the sandbox makes the program
  there perform exactly the check the capability declares.
\<close>

theorem probe_is_answered:
  "exit_if_requested (h\<lparr>h_var := map_of (probe_environment probe)\<rparr>) net =
     (case probe of
        ProbeResolve name \<Rightarrow> Some (if is_ok (run_resolve net name) then 0 else 1)
      | ProbeConnect target \<Rightarrow> Some (if is_ok (run_connect net target) then 0 else 1)
      | ProbeRun command \<Rightarrow> None)"
  by (cases probe) (auto simp: exit_if_requested_def run_in_isolation_def is_ok_iff split: sum.splits)

lemma classify_NoProbe: "classify probe executed \<noteq> NoProbe"
  by (simp add: classify_def split: sum.splits prod.splits)

lemma resolved_probe:
  "resolve_capabilities h base names = Inr all \<Longrightarrow>
     \<exists>new. all = base @ new \<and> map rc_name new = names \<and>
       (\<forall>r \<in> set new. rc_probe r = ci_probe (capability_info_of (rc_name r)))"
proof (induction h base names rule: resolve_capabilities.induct)
  case (2 h base name names)
  obtain entries where entries: "resolve_paths h name base [] (ci_paths (capability_info_of name)) = Inr entries"
    using 2(2) by (auto simp: Let_def result_simps)
  define r where "r = \<lparr>rc_name = name, rc_description = ci_description (capability_info_of name),
      rc_entries = entries,
      rc_environment = filter (\<lambda>v. h_var h v \<noteq> None) (ci_environment (capability_info_of name)),
      rc_probe = ci_probe (capability_info_of name)\<rparr>"
  have rest: "resolve_capabilities h (base @ [r]) names = Inr all"
    using 2(2) entries by (auto simp: Let_def r_def)
  obtain new where "all = (base @ [r]) @ new" "map rc_name new = names"
      "\<forall>r \<in> set new. rc_probe r = ci_probe (capability_info_of (rc_name r))"
    using 2(1) [OF refl rest [unfolded r_def]] unfolding r_def by blast
  then show ?case by (intro exI [of _ "r # new"]) (auto simp: r_def)
qed simp

definition harmless :: "capability \<times> probe_outcome \<Rightarrow> bool" where
  "harmless p \<longleftrightarrow> (snd p = NoProbe) = (ci_probe (capability_info_of (fst p)) = None) \<and>
     outcome_label (snd p) \<noteq> ''FAILED''"

text \<open>
  A successful doctor means what it says. Every capability of the effective base was looked at, in
  order; exactly those without a check went unchecked; and none came back as failed.
\<close>

theorem doctor_is_complete:
  assumes "doctor_command h current_exe run c policy = Inr outcomes"
  shows "map fst outcomes = effective_base c None policy \<and> list_all harmless outcomes"
proof -
  obtain base where base: "resolve_base h (effective_base c None policy) = Inr base"
    and outcomes: "collect (\<lambda>r. map_ok (\<lambda>x. (rc_name r, x))
         (probe_capability current_exe run (bc_executable (cf_bwrap c)) r)) base = Inr outcomes"
    and fine: "\<not> list_ex (\<lambda>(_, x). case x of ProbeFailed _ \<Rightarrow> True | _ \<Rightarrow> False) outcomes"
    using assms by (auto simp: doctor_command_def result_simps split: if_splits)
  have probes: "map rc_name base = effective_base c None policy"
      "\<forall>r \<in> set base. rc_probe r = ci_probe (capability_info_of (rc_name r))"
    using resolved_probe [of h "[]" "effective_base c None policy" base] base by (auto simp: resolve_base_def)
  have rel: "list_all2 (\<lambda>r p. fst p = rc_name r \<and>
      probe_capability current_exe run (bc_executable (cf_bwrap c)) r = Inr (snd p)) base outcomes"
    using outcomes unfolding collect_Inr_iff by (rule list_all2_mono) (auto simp: result_simps)
  then have "map fst outcomes = map rc_name base"
    by (induction rule: list_all2_induct) auto
  moreover have "harmless p" if p: "p \<in> set outcomes" for p
  proof -
    obtain r where r: "r \<in> set base" "fst p = rc_name r"
        "probe_capability current_exe run (bc_executable (cf_bwrap c)) r = Inr (snd p)"
      using list_all2_source [OF rel p] by blast
    have "(snd p = NoProbe) = (rc_probe r = None)"
      using r(3) classify_NoProbe [symmetric] by (auto simp: probe_capability_def result_simps split: option.splits)
    moreover have "outcome_label (snd p) \<noteq> ''FAILED''"
      using fine p by (cases "snd p") (auto simp: list_ex_iff)
    ultimately show ?thesis using probes(2) r(1,2) by (simp add: harmless_def)
  qed
  ultimately show ?thesis using probes(1) by (simp add: list_all_iff)
qed

theorem doctor_is_complete_witness:
  "map fst [(Timezone, NoProbe)] = effective_base (default_config\<lparr>cf_base := [Timezone]\<rparr>) None (sample_policy\<lparr>po_no_base := False\<rparr>) \<and>
   list_all harmless [(Timezone, NoProbe)]"
proof (rule doctor_is_complete)
  show "doctor_command sample_host (Inr ''/bin/driva'') (\<lambda>_ _. Inr (ExitCode 0, []))
      (default_config\<lparr>cf_base := [Timezone]\<rparr>) (sample_policy\<lparr>po_no_base := False\<rparr>) = Inr [(Timezone, NoProbe)]"
    by code_simp
qed

end
