(* ===== verification/Orka_Model.thy ===== *)
theory Orka_Model
  imports Linka_Model Anyhow BTree_Map Rust_Path
begin

text \<open>
  The data of orka, the orchestrator of agent attempts (\<open>orka/src\<close>): the attempt input
  (\<open>input.rs\<close>), the execution request and its report (\<open>executor.rs\<close>), the output formats
  (\<open>agent.rs\<close>), prepared workspaces and what is observed of them (\<open>workspace.rs\<close>), the outcome
  an agent declares and the decision taken on it (\<open>outcome.rs\<close>), and the records an attempt
  leaves (\<open>attempt.rs\<close>). The \<open>toml\<close> and \<open>serde_json\<close> crates are the fields of one codec.
\<close>

section \<open>Displaying numbers\<close>

definition show_int :: "int \<Rightarrow> string" where
  "show_int i = (if i < 0 then ''-'' @ show_nat (nat (- i)) else show_nat (nat i))"

section \<open>Output formats (agent.rs)\<close>

datatype protocol = CodexJsonl | CodexAppServer | ClaudeJsonl

datatype output_format = Plain | Agent protocol

fun is_agent :: "output_format \<Rightarrow> bool" where
  "is_agent Plain = False"
| "is_agent (Agent p) = True"

definition records_file_changes :: "output_format \<Rightarrow> bool" where
  "records_file_changes f \<longleftrightarrow> f = Agent CodexJsonl"

definition PLAIN_OUTPUT_MEDIA_TYPE :: string where
  "PLAIN_OUTPUT_MEDIA_TYPE = ''text/plain; charset=utf-8''"

definition CODEX_JSONL_OUTPUT_MEDIA_TYPE :: string where
  "CODEX_JSONL_OUTPUT_MEDIA_TYPE = ''application/vnd.orka.codex.v1+ndjson''"

fun output_media_type :: "output_format \<Rightarrow> string" where
  "output_media_type Plain = PLAIN_OUTPUT_MEDIA_TYPE"
| "output_media_type (Agent CodexJsonl) = CODEX_JSONL_OUTPUT_MEDIA_TYPE"
| "output_media_type (Agent CodexAppServer) = ''application/vnd.orka.codex-app-server.v1+ndjson''"
| "output_media_type (Agent ClaudeJsonl) = ''application/vnd.orka.claude.v1+ndjson''"

definition from_output_media_type :: "string \<Rightarrow> output_format option" where
  "from_output_media_type media =
     (if media = PLAIN_OUTPUT_MEDIA_TYPE then Some Plain
      else if media = CODEX_JSONL_OUTPUT_MEDIA_TYPE then Some (Agent CodexJsonl)
      else if media = ''application/vnd.orka.codex-app-server.v1+ndjson'' then Some (Agent CodexAppServer)
      else if media = ''application/vnd.orka.claude.v1+ndjson'' then Some (Agent ClaudeJsonl)
      else None)"

lemma media_type_roundtrip: "from_output_media_type (output_media_type f) = Some f"
  by (cases f rule: output_media_type.cases)
    (simp_all add: from_output_media_type_def PLAIN_OUTPUT_MEDIA_TYPE_def CODEX_JSONL_OUTPUT_MEDIA_TYPE_def)

section \<open>The attempt input (input.rs)\<close>

record dependency_context =
  dc_node :: node_id
  dc_title :: string
  dc_result_notes :: string

record attempt_input =
  ai_snapshot :: work_snapshot
  ai_target_branch :: string
  ai_description :: string
  ai_dependency_context :: "dependency_context list"
  ai_lineage_context :: "dependency_context list"

definition input_commit :: "attempt_input \<Rightarrow> string" where
  "input_commit input = ps_revision (ws_project (ai_snapshot input))"

definition input_node :: "attempt_input \<Rightarrow> node_id" where
  "input_node input = ws_node (ai_snapshot input)"

section \<open>Execution (executor.rs)\<close>

record mount_spec =
  ms_source :: string
  ms_destination :: string
  ms_writable :: bool

record execution_spec =
  es_command :: "string list"
  es_protocol :: output_format
  es_working_directory :: string
  es_mounts :: "mount_spec list"
  es_environment :: "(string \<times> string) list"
  es_network :: bool

record execution_artifacts =
  ea_transcript :: string
  ea_diagnostics :: string
  ea_raw_events :: "string option"
  ea_file_changes :: "string option"
  ea_file_change_ref :: "string option"
  ea_accesses :: string

record execution_report =
  er_backend :: string
  er_exit_code :: int
  er_started_at_ms :: int
  er_finished_at_ms :: int

section \<open>Workspaces (workspace.rs)\<close>

definition WORKSPACE_SCHEMA :: nat where "WORKSPACE_SCHEMA = 2"

record repository_audit =
  ra_refs :: "(string \<times> string) list"
  ra_protected_files :: "(string \<times> string) list"
  ra_worktrees :: string
  ra_object_format :: string

record prepared_workspace =
  pw_schema :: nat
  pw_path :: string
  pw_git_dir :: string
  pw_branch :: string
  pw_input_commit :: string
  pw_identity :: string
  pw_audit :: repository_audit

record validated_workspace =
  vw_workspace :: prepared_workspace
  vw_head :: string
  vw_tree :: string

datatype cleanup_outcome =
  Removed | RetainedDirty | RetainedUnpublished | RetainedIntegrityFailure | AlreadyAbsent

datatype discard_outcome = Discarded | RetainedChanged

section \<open>The outcome contract (outcome.rs)\<close>

datatype declared_kind = DeclaredSucceeded | DeclaredFailed

record declared_outcome =
  do_outcome :: declared_kind
  do_message :: "string option"
  do_notes :: string

datatype agent_outcome =
    AgentSucceeded (succeeded_message: "string option") (succeeded_notes: string)
  | AgentFailed (failed_notes: string)

datatype decision =
    Submit (submit_outcome: agent_outcome) (submit_backend_failed: bool)
  | DecideViolation (violation_reason: string)
  | DecideInterrupted (interrupted_reason: string)

definition decide :: "declared_outcome option \<Rightarrow> int \<Rightarrow> decision" where
  "decide declared exit_code =
     (case declared of
        Some d \<Rightarrow>
          (case do_outcome d of
             DeclaredSucceeded \<Rightarrow>
               if exit_code = 0 then Submit (AgentSucceeded (do_message d) (do_notes d)) False
               else DecideInterrupted (''command exited '' @ show_int exit_code @ '' after declaring success'')
           | DeclaredFailed \<Rightarrow>
               Submit (AgentFailed (if do_notes d = [] then ''agent declared failure without notes''
                                    else do_notes d)) (exit_code \<noteq> 0))
      | None \<Rightarrow>
          if exit_code = 0 then DecideViolation ''command exited zero without declaring an outcome''
          else DecideInterrupted (''command exited '' @ show_int exit_code @ '' without declaring an outcome''))"

section \<open>Attempt records (attempt.rs)\<close>

definition ATTEMPT_SCHEMA :: nat where "ATTEMPT_SCHEMA = 2"
definition SEAL_SCHEMA :: nat where "SEAL_SCHEMA = 1"

type_synonym attempt_id = string

record attempt_record =
  at_schema :: nat
  at_id :: attempt_id
  at_created_at_ms :: int
  at_input :: attempt_input

datatype sealed_state =
    Submitted (sealed_output: "string option")
  | StaleAtSubmit (sealed_conflicts: "submission_conflict list")
  | FailureRecorded
  | Interrupted (sealed_reason: string)
  | WorkspaceIntegrityFailure (sealed_reason: string)
  | ContractViolation (sealed_reason: string)

record seal_record =
  sr_schema :: nat
  sr_sealed_at_ms :: int
  sr_state :: sealed_state

datatype attempt_phase = Created | WorkspacePlanned | Prepared | Requested | Executed | Sealed

record attempt_snapshot =
  an_record :: attempt_record
  an_workspace :: "prepared_workspace option"
  an_prepared :: bool
  an_request :: "execution_spec option"
  an_evidence :: "execution_report option"
  an_seal :: "seal_record option"

definition phase :: "attempt_snapshot \<Rightarrow> attempt_phase" where
  "phase n =
     (if an_seal n \<noteq> None then Sealed
      else if an_evidence n \<noteq> None then Executed
      else if an_request n \<noteq> None then Requested
      else if an_prepared n then Prepared
      else if an_workspace n \<noteq> None then WorkspacePlanned
      else Created)"

text \<open>The states that mean Linka accepted the conclusion of the attempt.\<close>

fun registered :: "sealed_state \<Rightarrow> bool" where
  "registered (Submitted commit) = True"
| "registered FailureRecorded = True"
| "registered _ = False"

section \<open>Journals (access.rs, file-changes.rs)\<close>

datatype access_event =
    TrackingStarted nat string
  | FileRead string int
  | TrackingFinished bool "string option"

record file_change_checkpoint =
  fc_schema :: nat
  fc_sequence :: nat
  fc_event_id :: string
  fc_paths :: "string list"
  fc_commit :: "string option"
  fc_error :: "string option"

record orka_codec =
  attempt_to_toml :: "attempt_record \<Rightarrow> string option"
  attempt_of_toml :: "string \<Rightarrow> attempt_record option"
  workspace_to_toml :: "prepared_workspace \<Rightarrow> string option"
  workspace_of_toml :: "string \<Rightarrow> prepared_workspace option"
  request_to_toml :: "execution_spec \<Rightarrow> string option"
  request_of_toml :: "string \<Rightarrow> execution_spec option"
  report_to_toml :: "execution_report \<Rightarrow> string option"
  report_of_toml :: "string \<Rightarrow> execution_report option"
  seal_to_toml :: "seal_record \<Rightarrow> string option"
  seal_of_toml :: "string \<Rightarrow> seal_record option"
  outcome_of_toml :: "string \<Rightarrow> declared_outcome option"
  access_to_json :: "access_event \<Rightarrow> string option"
  access_of_json :: "string \<Rightarrow> access_event option"
  checkpoint_of_json :: "string \<Rightarrow> file_change_checkpoint option"
  ulid_ok :: "string \<Rightarrow> bool"

text \<open>What the crates document: a serialised value is a UTF-8 text that parses back to it, and
  \<open>serde_json\<close> writes a value on one line.\<close>

definition prints_back :: "('a \<Rightarrow> string option) \<Rightarrow> (string \<Rightarrow> 'a option) \<Rightarrow> bool" where
  "prints_back p q \<longleftrightarrow> (\<forall>x t. p x = Some t \<longrightarrow> utf8_valid t \<and> q t = Some x)"

definition line_prints_back :: "('a \<Rightarrow> string option) \<Rightarrow> (string \<Rightarrow> 'a option) \<Rightarrow> bool" where
  "line_prints_back p q \<longleftrightarrow>
     prints_back p q \<and> (\<forall>x t. p x = Some t \<longrightarrow> t \<noteq> [] \<and> CHR 0x0A \<notin> set t \<and> CHR 0x0D \<notin> set t)"

definition orka_codec_faithful :: "orka_codec \<Rightarrow> bool" where
  "orka_codec_faithful k \<longleftrightarrow>
     prints_back (attempt_to_toml k) (attempt_of_toml k) \<and>
     prints_back (workspace_to_toml k) (workspace_of_toml k) \<and>
     prints_back (request_to_toml k) (request_of_toml k) \<and>
     prints_back (report_to_toml k) (report_of_toml k) \<and>
     prints_back (seal_to_toml k) (seal_of_toml k) \<and>
     line_prints_back (access_to_json k) (access_of_json k)"

section \<open>Facts\<close>

lemma registered_iff: "registered s \<longleftrightarrow> s = FailureRecorded \<or> (\<exists>commit. s = Submitted commit)"
  by (cases s) auto

lemma decide_success:
  "decide declared exit_code = Submit (AgentSucceeded m n) failed \<longleftrightarrow>
     (\<exists>d. declared = Some d \<and> do_outcome d = DeclaredSucceeded \<and> exit_code = 0 \<and>
       m = do_message d \<and> n = do_notes d \<and> \<not> failed)"
  by (auto simp: decide_def split: option.splits declared_kind.splits)

end
