(* ===== verification/Git_Command.thy ===== *)
theory Git_Command
  imports Rust_Str Anyhow
begin

text \<open>
  What a finished command answers: it could not be started, or it ended with a status (none when a
  signal killed it) and the text of its two streams.
\<close>

datatype command_output = NotStarted | Output (status: "int option") (stdout: string) (stderr: string)

fun exited_zero :: "command_output \<Rightarrow> bool" where
  "exited_zero NotStarted = False"
| "exited_zero (Output s out err) = (s = Some 0)"

end
