(* ===== verification/Orka_Workspace.thy ===== *)
theory Orka_Workspace
  imports Orka_Model Git_Command
begin

text \<open>
  Attempt workspaces (\<open>orka/src/workspace.rs\<close>): the trait \<open>WorkspaceManager\<close> as a record of
  operations over a repository state, and \<open>GitWorkspaces\<close>, its implementation by Git worktrees. Git
  and the file system are the record \<open>git_host\<close>: a command that only inspects is a query, a command
  that changes the repository an update. A command answers with an exit code and its two streams, or
  could not be started. A directory tree lists its entries in the order of their names, the order in
  which the code visits them.
\<close>

section \<open>The trait\<close>

record 'v workspaces =
  wm_plan :: "'v \<Rightarrow> string \<Rightarrow> string \<Rightarrow> prepared_workspace"
  wm_prepare :: "'v \<Rightarrow> string \<Rightarrow> string \<Rightarrow> prepared_workspace res \<times> 'v"
  wm_is_clean :: "'v \<Rightarrow> prepared_workspace \<Rightarrow> bool res"
  wm_validate :: "'v \<Rightarrow> prepared_workspace \<Rightarrow> validated_workspace res"
  wm_promote :: "'v \<Rightarrow> validated_workspace \<Rightarrow> string \<Rightarrow> unit res \<times> 'v"
  wm_cleanup :: "'v \<Rightarrow> prepared_workspace \<Rightarrow> cleanup_outcome res \<times> 'v"
  wm_discard_unchanged :: "'v \<Rightarrow> prepared_workspace \<Rightarrow> discard_outcome res \<times> 'v"
  wm_exists :: "'v \<Rightarrow> string \<Rightarrow> bool"

text \<open>
  What the lifecycle of an attempt relies on: a validation attests the very workspace it was asked
  about; only a valid workspace is clean; only the validated head is promoted; a workspace is removed
  only after it validated, and a workspace that is retained is left as it was.
\<close>

locale workspace_contract =
  fixes W :: "'v workspaces"
  assumes validate_attests: "wm_validate W g w = Inr v \<Longrightarrow> vw_workspace v = w"
    and clean_is_valid: "wm_is_clean W g w = Inr b \<Longrightarrow> \<exists>v. wm_validate W g w = Inr v"
    and promote_validated: "wm_promote W g v commit = (Inr (), g') \<Longrightarrow> vw_head v = commit"
    and removed_was_valid: "wm_cleanup W g w = (Inr Removed, g') \<Longrightarrow> \<exists>v. wm_validate W g w = Inr v"
    and retained_unchanged: "wm_cleanup W g w = (Inr x, g') \<Longrightarrow> x \<noteq> Removed \<Longrightarrow> g' = g"

section \<open>Git and the file system\<close>

datatype fs_tree = TFile string | TLink string | TOther | TDir "(string \<times> fs_tree) list"

record 'g git_host =
  gh_query :: "'g \<Rightarrow> string \<Rightarrow> string list \<Rightarrow> command_output"
  gh_update :: "'g \<Rightarrow> string \<Rightarrow> string list \<Rightarrow> command_output \<times> 'g"
  gh_exists :: "'g \<Rightarrow> string \<Rightarrow> bool"
  gh_canonicalize :: "'g \<Rightarrow> string \<Rightarrow> string res"
  gh_tree :: "'g \<Rightarrow> string \<Rightarrow> fs_tree option"
  gh_hash :: "'g \<Rightarrow> string \<Rightarrow> string res"
  gh_create_parent :: "'g \<Rightarrow> string \<Rightarrow> unit res \<times> 'g"

text \<open>\<open>checked\<close>: the trimmed standard output of a command that exited with zero.\<close>

definition checked_output :: "string list \<Rightarrow> command_output \<Rightarrow> string res" where
  "checked_output args answer =
     (case answer of
        NotStarted \<Rightarrow> bail ''failed to run `git {}`'' [join_with '' '' args]
      | Output code out err \<Rightarrow>
          if code \<noteq> Some 0 then bail ''`git {}` failed: {}'' [join_with '' '' args, trim err]
          else Inr (trim out))"

definition checked :: "'g git_host \<Rightarrow> 'g \<Rightarrow> string \<Rightarrow> string list \<Rightarrow> string res" where
  "checked G g base args = checked_output args (gh_query G g base args)"

definition checked_update :: "'g git_host \<Rightarrow> string \<Rightarrow> string list \<Rightarrow> ('g, error, unit) st_op" where
  "checked_update G base args g =
     (case gh_update G g base args of (answer, g') \<Rightarrow> (map_ok (\<lambda>_. ()) (checked_output args answer), g'))"

definition resolve_ref_optional :: "'g git_host \<Rightarrow> 'g \<Rightarrow> string \<Rightarrow> string \<Rightarrow> string option res" where
  "resolve_ref_optional G g project reference =
     (case gh_query G g project [''rev-parse'', ''--verify'', ''--quiet'', reference] of
        NotStarted \<Rightarrow> bail ''failed to resolve Git ref `{}`'' [reference]
      | Output code out err \<Rightarrow>
          if code = Some 0 then Inr (Some (trim out))
          else if code = Some 1 then Inr None
          else bail ''resolving Git ref `{}` failed: {}'' [reference, trim err])"

definition zero_oid :: "'g git_host \<Rightarrow> 'g \<Rightarrow> string \<Rightarrow> string res" where
  "zero_oid G g project =
     and_then (checked G g project [''rev-parse'', ''--show-object-format'']) (\<lambda>format.
     if format = ''sha1'' then Inr (replicate 40 (CHR ''0''))
     else if format = ''sha256'' then Inr (replicate 64 (CHR ''0''))
     else bail ''unsupported Git object format `{}`'' [format])"

definition common_git_dir :: "'g git_host \<Rightarrow> 'g \<Rightarrow> string \<Rightarrow> string res" where
  "common_git_dir G g base =
     and_then (checked G g base [''rev-parse'', ''--git-common-dir'']) (\<lambda>reported.
     with_context ''canonicalising shared Git directory'' []
       (gh_canonicalize G g (if is_absolute reported then reported else path_join base reported)))"

definition repository_clean :: "'g git_host \<Rightarrow> 'g \<Rightarrow> string \<Rightarrow> bool res" where
  "repository_clean G g path = map_ok (\<lambda>out. out = []) (checked G g path [''status'', ''--porcelain''])"

section \<open>References\<close>

definition branch_ref_of :: "prepared_workspace \<Rightarrow> string" where
  "branch_ref_of w = ''refs/heads/'' @ pw_branch w"

definition promoted_ref :: "prepared_workspace \<Rightarrow> string" where
  "promoted_ref w = ''refs/orka/promoted/'' @ pw_identity w"

definition checkpoint_ref :: "prepared_workspace \<Rightarrow> string" where
  "checkpoint_ref w =
     (let marker = ''orka/attempts/'' in
      ''refs/orka/file-changes/'' @
        (if prefix marker (pw_branch w) then drop (length marker) (pw_branch w) else pw_identity w))"

definition allowed_refs :: "prepared_workspace \<Rightarrow> string list" where
  "allowed_refs w = [branch_ref_of w, checkpoint_ref w, promoted_ref w]"

section \<open>The audit of the shared repository\<close>

definition refs_of :: "'g git_host \<Rightarrow> 'g \<Rightarrow> string \<Rightarrow> (string \<times> string) list res" where
  "refs_of G g base =
     map_ok (\<lambda>out. bt_extend [] (List.map_filter (split_once (CHR 0x09)) (lines out)))
       (checked G g base [''for-each-ref'', ''--format=%(refname)%09%(objectname)%09%(symref)''])"

text \<open>The loop over the porcelain listing, with the flag that says whose block is being read.\<close>

fun normalize_lines :: "(string \<Rightarrow> string res) \<Rightarrow> string \<Rightarrow> bool \<Rightarrow> string list \<Rightarrow> string list" where
  "normalize_lines canon attempt current [] = []"
| "normalize_lines canon attempt current (line # rest) =
     (let here = (if prefix ''worktree '' line
                  then (case canon (drop (length ''worktree '') line) of
                          Inl e \<Rightarrow> False | Inr p \<Rightarrow> path_eq p attempt)
                  else current)
      in (if here \<and> prefix ''HEAD '' line then ''HEAD <attempt>'' else line)
         # normalize_lines canon attempt here rest)"

definition normalized_worktrees :: "'g git_host \<Rightarrow> 'g \<Rightarrow> string \<Rightarrow> string \<Rightarrow> string res" where
  "normalized_worktrees G g base attempt_path =
     and_then (with_context ''canonicalising attempt worktree {}'' [attempt_path]
       (gh_canonicalize G g attempt_path)) (\<lambda>attempt.
     and_then (checked G g base [''worktree'', ''list'', ''--porcelain'']) (\<lambda>raw.
     Inr (join_with [CHR 0x0A] (normalize_lines (gh_canonicalize G g) attempt False (lines raw)))))"

text \<open>Fingerprints: every file below a path by its relative name, hashed; links by their target.\<close>

fun fingerprint_path ::
  "(string \<Rightarrow> string res) \<Rightarrow> string \<Rightarrow> fs_tree \<Rightarrow> (string \<times> string) list \<Rightarrow> (string \<times> string) list res"
and fingerprint_entries ::
  "(string \<Rightarrow> string res) \<Rightarrow> string \<Rightarrow> (string \<times> fs_tree) list \<Rightarrow> (string \<times> string) list \<Rightarrow>
   (string \<times> string) list res" where
  "fingerprint_path hash relative (TDir entries) files = fingerprint_entries hash relative entries files"
| "fingerprint_path hash relative (TLink target) files =
     map_ok (\<lambda>h. bt_insert relative h files) (hash target)"
| "fingerprint_path hash relative (TFile bytes) files =
     map_ok (\<lambda>h. bt_insert relative h files) (hash bytes)"
| "fingerprint_path hash relative TOther files = bail ''reading {}'' [relative]"
| "fingerprint_entries hash relative [] files = Inr files"
| "fingerprint_entries hash relative ((name, tree) # rest) files =
     and_then (fingerprint_path hash (path_join relative name) tree files)
       (fingerprint_entries hash relative rest)"

definition fingerprint_at ::
  "'g git_host \<Rightarrow> 'g \<Rightarrow> string \<Rightarrow> string \<Rightarrow> (string \<times> string) list \<Rightarrow> (string \<times> string) list res" where
  "fingerprint_at G g root relative files =
     (case gh_tree G g (path_join root relative) of
        None \<Rightarrow> Inr files
      | Some tree \<Rightarrow> fingerprint_path (gh_hash G g) relative tree files)"

fun fingerprint_tree_except ::
  "(string \<Rightarrow> string res) \<Rightarrow> string \<Rightarrow> string \<Rightarrow> fs_tree \<Rightarrow> (string \<times> string) list \<Rightarrow> (string \<times> string) list res"
and fingerprint_entries_except ::
  "(string \<Rightarrow> string res) \<Rightarrow> string \<Rightarrow> string \<Rightarrow> (string \<times> fs_tree) list \<Rightarrow> (string \<times> string) list \<Rightarrow>
   (string \<times> string) list res" where
  "fingerprint_tree_except hash relative excluded (TDir entries) files =
     (if path_eq relative excluded then Inr files
      else fingerprint_entries_except hash relative excluded entries files)"
| "fingerprint_tree_except hash relative excluded (TLink target) files =
     (if path_eq relative excluded then Inr files
      else fingerprint_path hash relative (TLink target) files)"
| "fingerprint_tree_except hash relative excluded (TFile bytes) files =
     (if path_eq relative excluded then Inr files
      else fingerprint_path hash relative (TFile bytes) files)"
| "fingerprint_tree_except hash relative excluded TOther files =
     (if path_eq relative excluded then Inr files
      else fingerprint_path hash relative TOther files)"
| "fingerprint_entries_except hash relative excluded [] files = Inr files"
| "fingerprint_entries_except hash relative excluded ((name, tree) # rest) files =
     and_then (fingerprint_tree_except hash (path_join relative name) excluded tree files)
       (fingerprint_entries_except hash relative excluded rest)"

definition protected_relative :: "string list" where
  "protected_relative =
     [''HEAD'', ''index'', ''config'', ''config.worktree'', ''hooks'', ''info/alternates'',
      ''info/attributes'', ''info/exclude'', ''objects/info/alternates'', ''shallow'', ''MERGE_HEAD'',
      ''MERGE_MSG'', ''CHERRY_PICK_HEAD'', ''REVERT_HEAD'', ''BISECT_LOG'', ''rebase-apply'',
      ''rebase-merge'', ''sequencer'', ''logs/HEAD'']"

fun fingerprint_all ::
  "(string \<Rightarrow> (string \<times> string) list \<Rightarrow> (string \<times> string) list res) \<Rightarrow> string list \<Rightarrow>
   (string \<times> string) list \<Rightarrow> (string \<times> string) list res" where
  "fingerprint_all f [] files = Inr files"
| "fingerprint_all f (r # rest) files = and_then (f r files) (fingerprint_all f rest)"

definition fingerprint_other_worktrees ::
  "'g git_host \<Rightarrow> 'g \<Rightarrow> prepared_workspace \<Rightarrow> (string \<times> string) list \<Rightarrow> (string \<times> string) list res" where
  "fingerprint_other_worktrees G g w files =
     and_then (checked G g (pw_path w) [''rev-parse'', ''--absolute-git-dir'']) (\<lambda>reported.
     and_then (with_context ''canonicalising attempt Git directory for audit'' []
       (gh_canonicalize G g reported)) (\<lambda>attempt_git_dir.
     let root = path_join (pw_git_dir w) ''worktrees'' in
     case gh_tree G g root of
       None \<Rightarrow> Inr files
     | Some (TDir entries) \<Rightarrow>
         fingerprint_all (\<lambda>name files.
           if (case gh_canonicalize G g (path_join root name) of
                 Inl e \<Rightarrow> False | Inr p \<Rightarrow> path_eq p attempt_git_dir)
           then Inr files
           else fingerprint_at G g (pw_git_dir w) (path_join ''worktrees'' name) files)
           (map fst entries) files
     | Some _ \<Rightarrow> Inl (Context ''reading shared worktree metadata'' [] io_error)))"

definition fingerprint_protected_branch_logs ::
  "'g git_host \<Rightarrow> 'g \<Rightarrow> prepared_workspace \<Rightarrow> (string \<times> string) list \<Rightarrow> (string \<times> string) list res" where
  "fingerprint_protected_branch_logs G g w files =
     (let root = ''logs/refs/heads''; excluded = path_join root (pw_branch w) in
      if path_eq root excluded then Inr files
      else (case gh_tree G g (path_join (pw_git_dir w) root) of
              None \<Rightarrow> Inr files
            | Some tree \<Rightarrow> fingerprint_tree_except (gh_hash G g) root excluded tree files))"

definition protected_files :: "'g git_host \<Rightarrow> 'g \<Rightarrow> prepared_workspace \<Rightarrow> (string \<times> string) list res" where
  "protected_files G g w =
     and_then (fingerprint_all (fingerprint_at G g (pw_git_dir w)) protected_relative []) (\<lambda>files.
     and_then (fingerprint_other_worktrees G g w files) (\<lambda>files.
     fingerprint_protected_branch_logs G g w files))"

definition capture_audit :: "'g git_host \<Rightarrow> 'g \<Rightarrow> prepared_workspace \<Rightarrow> repository_audit res" where
  "capture_audit G g w =
     and_then (refs_of G g (pw_path w)) (\<lambda>refs.
     and_then (protected_files G g w) (\<lambda>files.
     and_then (normalized_worktrees G g (pw_path w) (pw_path w)) (\<lambda>worktrees.
     and_then (checked G g (pw_path w) [''rev-parse'', ''--show-object-format'']) (\<lambda>format.
     Inr \<lparr>ra_refs = refs, ra_protected_files = files, ra_worktrees = worktrees, ra_object_format = format\<rparr>))))"

text \<open>A new output pin of Linka that names exactly the attempt's HEAD.\<close>

definition approved_linka_pin :: "prepared_workspace \<Rightarrow> string \<Rightarrow> string \<Rightarrow> string \<Rightarrow> bool" where
  "approved_linka_pin w head name value \<longleftrightarrow>
     prefix ''refs/linka/outputs/'' name \<and> map_of (ra_refs (pw_audit w)) name = None \<and>
     hd (split_on (CHR 0x09) value) = head"

definition protected_refs ::
  "prepared_workspace \<Rightarrow> string \<Rightarrow> bool \<Rightarrow> (string \<times> string) list \<Rightarrow> (string \<times> string) list" where
  "protected_refs w head baseline refs =
     filter (\<lambda>(name, value). name \<notin> set (allowed_refs w) \<and>
       \<not> (\<not> baseline \<and> approved_linka_pin w head name value)) refs"

definition verify_audit :: "'g git_host \<Rightarrow> 'g \<Rightarrow> prepared_workspace \<Rightarrow> unit res" where
  "verify_audit G g w =
     and_then (capture_audit G g w) (\<lambda>current.
     and_then (checked G g (pw_path w) [''rev-parse'', ''HEAD'']) (\<lambda>head.
     if protected_refs w head False (ra_refs current) \<noteq> protected_refs w head True (ra_refs (pw_audit w))
     then bail ''protected shared Git refs changed during attempt'' []
     else if ra_protected_files current \<noteq> ra_protected_files (pw_audit w)
     then bail ''protected shared Git configuration, hooks, or alternates changed during attempt'' []
     else if ra_worktrees current \<noteq> ra_worktrees (pw_audit w)
     then bail ''shared Git worktree registrations changed during attempt'' []
     else if ra_object_format current \<noteq> ra_object_format (pw_audit w)
     then bail ''shared Git object format changed during attempt'' []
     else Inr ()))"

section \<open>Validation\<close>

definition git_pointer :: "'g git_host \<Rightarrow> 'g \<Rightarrow> prepared_workspace \<Rightarrow> string res" where
  "git_pointer G g w =
     (let pointer_path = path_join (pw_path w) ''.git'' in
      case gh_tree G g pointer_path of
        None \<Rightarrow> Inl (Context ''inspecting Git pointer {}'' [pointer_path] io_error)
      | Some (TFile bytes) \<Rightarrow>
          if \<not> utf8_valid bytes then Inl (Context ''reading Git pointer {}'' [pointer_path] io_error)
          else if prefix ''gitdir:'' (trim bytes) \<and> trim (drop (length ''gitdir:'') (trim bytes)) \<noteq> []
          then Inr (trim (drop (length ''gitdir:'') (trim bytes)))
          else bail ''workspace Git pointer has invalid contents'' []
      | Some _ \<Rightarrow> bail ''workspace Git pointer {} is not the regular file Orka prepared'' [pointer_path])"

text \<open>The checks that the directory is the linked worktree that was prepared; the result is the
  worktree's own Git directory.\<close>

definition check_worktree_identity :: "'g git_host \<Rightarrow> 'g \<Rightarrow> prepared_workspace \<Rightarrow> string res" where
  "check_worktree_identity G g w =
     and_then (git_pointer G g w) (\<lambda>pointer_target.
     and_then (with_context ''canonicalising workspace {}'' [pw_path w]
       (gh_canonicalize G g (pw_path w))) (\<lambda>expected_path.
     and_then (checked G g (pw_path w) [''rev-parse'', ''--show-toplevel'']) (\<lambda>reported.
     and_then (with_context ''canonicalising reported Git worktree root'' []
       (gh_canonicalize G g reported)) (\<lambda>top.
     if \<not> path_eq top expected_path
     then bail ''workspace repository root changed: expected {}, observed {}'' [expected_path, top]
     else
     and_then (with_context ''canonicalising shared Git directory {}'' [pw_git_dir w]
       (gh_canonicalize G g (pw_git_dir w))) (\<lambda>expected_common_dir.
     and_then (with_context ''canonicalising workspace Git pointer target'' []
       (gh_canonicalize G g pointer_target)) (\<lambda>observed_pointer.
     if \<not> path_starts_with observed_pointer (path_join expected_common_dir ''worktrees'')
     then bail ''workspace Git pointer escaped shared repository {}: observed {}''
       [expected_common_dir, observed_pointer]
     else
     and_then (checked G g (pw_path w) [''rev-parse'', ''--absolute-git-dir'']) (\<lambda>reported_dir.
     and_then (with_context ''canonicalising reported Git directory'' []
       (gh_canonicalize G g reported_dir)) (\<lambda>observed_git_dir.
     if \<not> path_eq observed_git_dir observed_pointer
     then bail ''workspace Git pointer and reported Git directory disagree'' []
     else
     and_then (common_git_dir G g (pw_path w)) (\<lambda>observed_common.
     if \<not> path_eq observed_common expected_common_dir
     then bail ''workspace common Git directory changed: expected {}, observed {}''
       [expected_common_dir, observed_common]
     else Inr observed_git_dir)))))))))"

definition lock_files :: "prepared_workspace \<Rightarrow> string \<Rightarrow> string list" where
  "lock_files w observed_git_dir =
     [path_join observed_git_dir ''index.lock'', path_join observed_git_dir ''HEAD.lock'',
      path_join (pw_git_dir w) (''refs/heads/'' @ pw_branch w @ ''.lock'')]"

text \<open>The checks of the branch and its history; the result is the commit of HEAD.\<close>

definition check_branch_state :: "'g git_host \<Rightarrow> 'g \<Rightarrow> prepared_workspace \<Rightarrow> string \<Rightarrow> string res" where
  "check_branch_state G g w observed_git_dir =
     (let path = pw_path w; branch_ref = branch_ref_of w in
      case find (gh_exists G g) (lock_files w observed_git_dir) of
        Some lock \<Rightarrow> bail ''workspace has a lingering Git lock: {}'' [lock]
      | None \<Rightarrow>
     and_then (checked G g path [''symbolic-ref'', ''--quiet'', ''HEAD'']) (\<lambda>symbolic.
     if symbolic \<noteq> branch_ref
     then bail ''workspace is not on its expected attempt branch `{}`'' [branch_ref]
     else
     and_then (checked G g path [''rev-parse'', ''HEAD'']) (\<lambda>head.
     and_then (checked G g path [''rev-parse'', branch_ref]) (\<lambda>at_branch.
     if at_branch \<noteq> head
     then bail ''workspace HEAD and attempt branch disagree'' []
     else
     and_then (with_context ''frozen input commit is missing from shared repository'' []
       (checked G g path [''rev-parse'', ''--verify'', pw_input_commit w @ ''^{commit}''])) (\<lambda>_.
     case gh_query G g path [''merge-base'', ''--is-ancestor'', pw_input_commit w, head] of
       NotStarted \<Rightarrow> Inl (Context ''checking workspace ancestry'' [] io_error)
     | Output code out err \<Rightarrow>
         if code \<noteq> Some 0
         then bail ''workspace HEAD no longer descends from the frozen input commit'' []
         else
         and_then (with_context ''shared repository object graph is corrupt'' []
           (checked G g path [''fsck'', ''--connectivity-only''])) (\<lambda>_. Inr head))))))"

definition validate_workspace :: "'g git_host \<Rightarrow> 'g \<Rightarrow> prepared_workspace \<Rightarrow> validated_workspace res" where
  "validate_workspace G g w =
     (if pw_schema w \<noteq> WORKSPACE_SCHEMA
      then bail ''workspace uses unsupported schema {} (this build reads schema {})''
        [show_nat (pw_schema w), show_nat WORKSPACE_SCHEMA]
      else if pw_git_dir w = [] \<or> pw_identity w = []
      then bail ''workspace record has no shared Git audit identity'' []
      else
      and_then (check_worktree_identity G g w) (\<lambda>observed_git_dir.
      and_then (check_branch_state G g w observed_git_dir) (\<lambda>head.
      and_then (verify_audit G g w) (\<lambda>_.
      and_then (checked G g (pw_path w) [''rev-parse'', head @ ''^{tree}'']) (\<lambda>tree.
      Inr \<lparr>vw_workspace = w, vw_head = head, vw_tree = tree\<rparr>)))))"

section \<open>GitWorkspaces\<close>

record git_workspaces =
  gw_project :: string
  gw_root :: string

definition branch_for :: "string \<Rightarrow> string" where
  "branch_for attempt = ''orka/attempts/'' @ attempt"

definition path_for :: "git_workspaces \<Rightarrow> string \<Rightarrow> string" where
  "path_for m attempt = path_join (gw_root m) attempt"

definition empty_audit :: repository_audit where
  "empty_audit = \<lparr>ra_refs = [], ra_protected_files = [], ra_worktrees = [], ra_object_format = []\<rparr>"

definition git_plan :: "'g git_host \<Rightarrow> git_workspaces \<Rightarrow> 'g \<Rightarrow> string \<Rightarrow> string \<Rightarrow> prepared_workspace" where
  "git_plan G m g attempt input =
     \<lparr>pw_schema = WORKSPACE_SCHEMA, pw_path = path_for m attempt,
      pw_git_dir = (case common_git_dir G g (gw_project m) of Inl e \<Rightarrow> [] | Inr d \<Rightarrow> d),
      pw_branch = branch_for attempt, pw_input_commit = input,
      pw_identity = ''orka-workspace-'' @ attempt, pw_audit = empty_audit\<rparr>"

definition add_worktree ::
  "'g git_host \<Rightarrow> string \<Rightarrow> prepared_workspace \<Rightarrow> string \<Rightarrow> ('g, error, unit) st_op" where
  "add_worktree G project w input =
     st_then (st_read (\<lambda>g. resolve_ref_optional G g project (branch_ref_of w))) (\<lambda>found.
     case found of
       Some existing \<Rightarrow>
         if existing \<noteq> input
         then st_fail (Bail ''retained attempt branch `{}` moved from frozen input {} to {}''
           [pw_branch w, input, existing])
         else st_then (checked_update G project [''worktree'', ''prune'']) (\<lambda>_.
              checked_update G project [''worktree'', ''add'', ''--quiet'', pw_path w, pw_branch w])
     | None \<Rightarrow>
         checked_update G project [''worktree'', ''add'', ''--quiet'', ''-b'', pw_branch w, pw_path w, input])"

definition create_workspace ::
  "'g git_host \<Rightarrow> string \<Rightarrow> prepared_workspace \<Rightarrow> ('g, error, prepared_workspace) st_op" where
  "create_workspace G project w =
     st_then (st_read (\<lambda>g. checked G g project [''rev-parse'', ''--verify'', pw_input_commit w @ ''^{commit}''])) (\<lambda>input.
     st_then (st_read (\<lambda>g. if gh_exists G g (pw_path w)
       then bail ''execution workspace path already exists: {}'' [pw_path w] else Inr ())) (\<lambda>_.
     st_then (\<lambda>g. gh_create_parent G g (pw_path w)) (\<lambda>_.
     st_then (st_read (\<lambda>g. checked G g project [''check-ref-format'', ''--branch'', pw_branch w])) (\<lambda>_.
     st_then (add_worktree G project w input) (\<lambda>_.
     st_read (\<lambda>g.
       and_then (common_git_dir G g project) (\<lambda>git_dir.
       and_then (with_context ''shared repository failed preflight connectivity check'' []
         (checked G g project [''fsck'', ''--connectivity-only''])) (\<lambda>_.
       let located = w\<lparr>pw_git_dir := git_dir\<rparr> in
       and_then (capture_audit G g located) (\<lambda>captured.
       let prepared = located\<lparr>pw_audit := captured\<rparr> in
       and_then (validate_workspace G g prepared) (\<lambda>_. Inr prepared))))))))))"

definition git_prepare ::
  "'g git_host \<Rightarrow> git_workspaces \<Rightarrow> string \<Rightarrow> string \<Rightarrow> ('g, error, prepared_workspace) st_op" where
  "git_prepare G m attempt input g =
     (case create_workspace G (gw_project m) (git_plan G m g attempt input) g of
        (r, g') \<Rightarrow> (with_context ''preparing workspace for {}'' [attempt] r, g'))"

definition git_is_clean :: "'g git_host \<Rightarrow> 'g \<Rightarrow> prepared_workspace \<Rightarrow> bool res" where
  "git_is_clean G g w = and_then (validate_workspace G g w) (\<lambda>_. repository_clean G g (pw_path w))"

definition git_promote ::
  "'g git_host \<Rightarrow> git_workspaces \<Rightarrow> validated_workspace \<Rightarrow> string \<Rightarrow> ('g, error, unit) st_op" where
  "git_promote G m v commit =
     (let w = vw_workspace v; marker = promoted_ref w in
      if vw_head v \<noteq> commit
      then st_fail (Bail ''refusing to promote commit {}: validated workspace HEAD is {}'' [commit, vw_head v])
      else
      st_then (st_read (\<lambda>g. checked G g (pw_path w) [''rev-parse'', branch_ref_of w])) (\<lambda>at_branch.
      if at_branch \<noteq> commit
      then st_fail (Bail ''refusing to promote commit {}: attempt branch moved after validation'' [commit])
      else
      st_then (st_read (\<lambda>g. resolve_ref_optional G g (gw_project m) marker)) (\<lambda>found.
      case found of
        Some existing \<Rightarrow>
          if existing = commit then st_return ()
          else st_fail (Bail ''promotion marker `{}` already exists at {}, refusing to replace it with {}''
            [marker, existing, commit])
      | None \<Rightarrow>
          st_then (st_read (\<lambda>g. zero_oid G g (gw_project m))) (\<lambda>zero.
          checked_update G (gw_project m) [''update-ref'', marker, commit, zero]))))"

definition remove_worktree :: "'g git_host \<Rightarrow> string \<Rightarrow> string \<Rightarrow> ('g, error, unit) st_op" where
  "remove_worktree G project path = checked_update G project [''worktree'', ''remove'', path]"

definition git_cleanup ::
  "'g git_host \<Rightarrow> git_workspaces \<Rightarrow> prepared_workspace \<Rightarrow> ('g, error, cleanup_outcome) st_op" where
  "git_cleanup G m w g =
     (if \<not> gh_exists G g (pw_path w)
      then (and_then (resolve_ref_optional G g (gw_project m) (promoted_ref w)) (\<lambda>promoted.
            if promoted \<noteq> None then Inr AlreadyAbsent
            else map_ok (\<lambda>branch. if branch = None then AlreadyAbsent else RetainedIntegrityFailure)
                   (resolve_ref_optional G g (gw_project m) (branch_ref_of w))), g)
      else (case validate_workspace G g w of
         Inl e \<Rightarrow> (Inr RetainedIntegrityFailure, g)
       | Inr v \<Rightarrow>
           st_then (st_read (\<lambda>g. repository_clean G g (pw_path w))) (\<lambda>clean.
           if \<not> clean then st_return RetainedDirty
           else
           st_then (st_read (\<lambda>g.
             if vw_head v = pw_input_commit w then Inr True
             else map_ok (\<lambda>promoted. promoted = Some (vw_head v))
                    (resolve_ref_optional G g (gw_project m) (promoted_ref w)))) (\<lambda>published.
           if \<not> published then st_return RetainedUnpublished
           else st_then (remove_worktree G (gw_project m) (pw_path w)) (\<lambda>_. st_return Removed))) g))"

text \<open>Whether the worktree may hold work: the three tests of the condition, in order.\<close>

definition worktree_changed :: "'g git_host \<Rightarrow> 'g \<Rightarrow> prepared_workspace \<Rightarrow> bool res" where
  "worktree_changed G g w =
     (if \<not> is_ok (validate_workspace G g w) then Inr True
      else and_then (repository_clean G g (pw_path w)) (\<lambda>clean.
           if \<not> clean then Inr True
           else map_ok (\<lambda>head. head \<noteq> pw_input_commit w)
                  (checked G g (pw_path w) [''rev-parse'', ''HEAD''])))"

definition discard_branch ::
  "'g git_host \<Rightarrow> string \<Rightarrow> prepared_workspace \<Rightarrow> ('g, error, discard_outcome) st_op" where
  "discard_branch G project w =
     st_then (st_read (\<lambda>g. resolve_ref_optional G g project (branch_ref_of w))) (\<lambda>found.
     case found of
       None \<Rightarrow> st_return Discarded
     | Some commit \<Rightarrow>
         if commit \<noteq> pw_input_commit w then st_return RetainedChanged
         else st_then (checked_update G project [''update-ref'', ''-d'', branch_ref_of w, pw_input_commit w])
                (\<lambda>_. st_return Discarded))"

definition git_discard_unchanged ::
  "'g git_host \<Rightarrow> git_workspaces \<Rightarrow> prepared_workspace \<Rightarrow> ('g, error, discard_outcome) st_op" where
  "git_discard_unchanged G m w g =
     (if gh_exists G g (pw_path w)
      then st_then (st_read (\<lambda>g. worktree_changed G g w)) (\<lambda>changed.
           if changed then st_return RetainedChanged
           else st_then (remove_worktree G (gw_project m) (pw_path w)) (\<lambda>_.
                discard_branch G (gw_project m) w)) g
      else discard_branch G (gw_project m) w g)"

definition git_workspace_manager :: "'g git_host \<Rightarrow> git_workspaces \<Rightarrow> 'g workspaces" where
  "git_workspace_manager G m =
     \<lparr>wm_plan = git_plan G m,
      wm_prepare = (\<lambda>g attempt input. git_prepare G m attempt input g),
      wm_is_clean = git_is_clean G,
      wm_validate = validate_workspace G,
      wm_promote = (\<lambda>g v commit. git_promote G m v commit g),
      wm_cleanup = (\<lambda>g w. git_cleanup G m w g),
      wm_discard_unchanged = (\<lambda>g w. git_discard_unchanged G m w g),
      wm_exists = gh_exists G\<rparr>"

end
