(* ===== verification/Orka_Workspace_Spec.thy ===== *)
theory Orka_Workspace_Spec
  imports Orka_Workspace
begin

text \<open>
  What \<open>GitWorkspaces\<close> guarantees: a workspace validates only while everything of the shared
  repository outside the attempt's own references is as it was captured; work that was not promoted is
  never touched by clean-up or roll-back; promotion is compare-and-set.
\<close>

section \<open>Facts\<close>

lemma checked_update_iff [result_simps]:
  "checked_update G base args g = (r, g') \<longleftrightarrow>
     (\<exists>out. gh_update G g base args = (out, g') \<and> r = map_ok (\<lambda>_. ()) (checked_output args out))"
  by (auto simp: checked_update_def split: prod.splits)

lemma validate_workspace_Inr:
  "validate_workspace G g w = Inr v \<longleftrightarrow>
     pw_schema w = WORKSPACE_SCHEMA \<and> pw_git_dir w \<noteq> [] \<and> pw_identity w \<noteq> [] \<and> vw_workspace v = w \<and>
     (\<exists>dir. check_worktree_identity G g w = Inr dir \<and> check_branch_state G g w dir = Inr (vw_head v)) \<and>
     verify_audit G g w = Inr () \<and>
     checked G g (pw_path w) [''rev-parse'', vw_head v @ ''^{tree}''] = Inr (vw_tree v)"
  by (cases v) (auto simp: validate_workspace_def result_simps split: if_splits)

lemma check_branch_state_Inr:
  assumes "check_branch_state G g w dir = Inr head"
  shows "checked G g (pw_path w) [''rev-parse'', ''HEAD''] = Inr head"
    and "checked G g (pw_path w) [''rev-parse'', branch_ref_of w] = Inr head"
    and "find (gh_exists G g) (lock_files w dir) = None"
    and "checked G g (pw_path w) [''symbolic-ref'', ''--quiet'', ''HEAD''] = Inr (branch_ref_of w)"
  using assms unfolding check_branch_state_def Let_def
  by (auto simp: result_simps split: option.splits if_splits command_output.splits)

lemma validated_head:
  assumes "validate_workspace G g w = Inr v"
  shows "checked G g (pw_path w) [''rev-parse'', ''HEAD''] = Inr (vw_head v)"
    and "checked G g (pw_path w) [''rev-parse'', branch_ref_of w] = Inr (vw_head v)"
proof -
  obtain dir where "check_branch_state G g w dir = Inr (vw_head v)"
    using assms unfolding validate_workspace_Inr by blast
  then show "checked G g (pw_path w) [''rev-parse'', ''HEAD''] = Inr (vw_head v)"
    "checked G g (pw_path w) [''rev-parse'', branch_ref_of w] = Inr (vw_head v)"
    by (rule check_branch_state_Inr)+
qed

lemma verify_audit_Inr:
  "verify_audit G g w = Inr () \<longleftrightarrow>
     (\<exists>current head. capture_audit G g w = Inr current \<and>
       checked G g (pw_path w) [''rev-parse'', ''HEAD''] = Inr head \<and>
       protected_refs w head False (ra_refs current) = protected_refs w head True (ra_refs (pw_audit w)) \<and>
       ra_protected_files current = ra_protected_files (pw_audit w) \<and>
       ra_worktrees current = ra_worktrees (pw_audit w) \<and>
       ra_object_format current = ra_object_format (pw_audit w))"
  by (auto simp: verify_audit_def result_simps split: if_splits)

lemma capture_audit_Inr:
  "capture_audit G g w = Inr a \<Longrightarrow>
     bt_wf (ra_refs a) \<and>
     checked G g (pw_path w) [''rev-parse'', ''--show-object-format''] = Inr (ra_object_format a)"
  by (auto simp: capture_audit_def refs_of_def result_simps bt_extend_wf)

lemma map_of_filter_distinct:
  "distinct (map fst xs) \<Longrightarrow>
     map_of (filter P xs) n = (case map_of xs n of None \<Rightarrow> None | Some v \<Rightarrow> if P (n, v) then Some v else None)"
proof (induction xs)
  case (Cons x xs)
  have none: "map_of xs (fst x) = None" using Cons.prems by (simp add: map_of_eq_None_iff)
  show ?case
  proof (cases "n = fst x")
    case True
    then show ?thesis using Cons none by (cases x) auto
  next
    case False
    then show ?thesis using Cons by (cases x) auto
  qed
qed simp

section \<open>The contract\<close>

interpretation git: workspace_contract "git_workspace_manager G m" for G m
proof
  fix g w v
  show "wm_validate (git_workspace_manager G m) g w = Inr v \<Longrightarrow> vw_workspace v = w"
    by (simp add: git_workspace_manager_def validate_workspace_Inr)
next
  fix g w b
  show "wm_is_clean (git_workspace_manager G m) g w = Inr b \<Longrightarrow>
      \<exists>v. wm_validate (git_workspace_manager G m) g w = Inr v"
    by (auto simp: git_workspace_manager_def git_is_clean_def result_simps)
next
  fix g v commit g'
  show "wm_promote (git_workspace_manager G m) g v commit = (Inr (), g') \<Longrightarrow> vw_head v = commit"
    by (auto simp: git_workspace_manager_def git_promote_def Let_def result_simps split: if_splits)
next
  fix g w g'
  assume "wm_cleanup (git_workspace_manager G m) g w = (Inr Removed, g')"
  then show "\<exists>v. wm_validate (git_workspace_manager G m) g w = Inr v"
    by (auto simp: git_workspace_manager_def git_cleanup_def result_simps split: if_splits sum.splits)
next
  fix g w x g'
  assume "wm_cleanup (git_workspace_manager G m) g w = (Inr x, g')" and "x \<noteq> Removed"
  then show "g' = g"
    by (auto simp: git_workspace_manager_def git_cleanup_def result_simps split: if_splits sum.splits)
qed

section \<open>A concrete repository\<close>

text \<open>A project at \<open>/p\<close> with one attempt worktree at \<open>/w/a1\<close>.\<close>

record sample_repo =
  sp_refs :: "(string \<times> string) list"
  sp_worktree :: bool
  sp_dirty :: bool

definition ok_output :: "string \<Rightarrow> command_output" where
  "ok_output text = Output (Some 0) text []"

definition ref_output :: "string option \<Rightarrow> command_output" where
  "ref_output r = (case r of None \<Rightarrow> Output (Some 1) [] [] | Some c \<Rightarrow> ok_output c)"

definition sample_branch :: string where "sample_branch = ''refs/heads/orka/attempts/a1''"

definition sample_query :: "sample_repo \<Rightarrow> string \<Rightarrow> string list \<Rightarrow> command_output" where
  "sample_query g base args =
     (if args = [''rev-parse'', ''--show-object-format''] then ok_output ''sha1''
      else if args = [''rev-parse'', ''--git-common-dir''] then ok_output ''/p/.git''
      else if args = [''rev-parse'', ''--absolute-git-dir''] then ok_output ''/p/.git/worktrees/a1''
      else if args = [''rev-parse'', ''--show-toplevel''] then ok_output ''/w/a1''
      else if args = [''rev-parse'', ''HEAD''] then ref_output (map_of (sp_refs g) sample_branch)
      else if take 3 args = [''rev-parse'', ''--verify'', ''--quiet'']
      then ref_output (map_of (sp_refs g) (last args))
      else if take 2 args = [''rev-parse'', ''--verify''] then ok_output ''c0''
      else if take 1 args = [''rev-parse'']
      then ok_output (case map_of (sp_refs g) (last args) of None \<Rightarrow> ''t0'' | Some c \<Rightarrow> c)
      else if take 1 args = [''symbolic-ref''] then ok_output sample_branch
      else if take 1 args = [''for-each-ref'']
      then ok_output (concat (map (\<lambda>(n, c). n @ [CHR 0x09] @ c @ [CHR 0x0A]) (sp_refs g)))
      else if args = [''worktree'', ''list'', ''--porcelain'']
      then ok_output (''worktree /w/a1'' @ [CHR 0x0A] @ ''HEAD c0'')
      else if take 1 args = [''status''] then ok_output (if sp_dirty g then ''?? x'' else [])
      else ok_output [])"

definition sample_update :: "sample_repo \<Rightarrow> string \<Rightarrow> string list \<Rightarrow> command_output \<times> sample_repo" where
  "sample_update g base args =
     (ok_output [],
      if take 2 args = [''worktree'', ''remove''] then g\<lparr>sp_worktree := False\<rparr>
      else if take 2 args = [''worktree'', ''add'']
      then g\<lparr>sp_worktree := True, sp_refs := AList.update sample_branch (last args) (sp_refs g)\<rparr>
      else if take 2 args = [''update-ref'', ''-d''] then g\<lparr>sp_refs := AList.delete (args ! 2) (sp_refs g)\<rparr>
      else if take 1 args = [''update-ref''] then g\<lparr>sp_refs := AList.update (args ! 1) (args ! 2) (sp_refs g)\<rparr>
      else g)"

definition sample_git :: "sample_repo git_host" where
  "sample_git =
     \<lparr>gh_query = sample_query, gh_update = sample_update,
      gh_exists = (\<lambda>g p. p = ''/w/a1'' \<and> sp_worktree g), gh_canonicalize = (\<lambda>g p. Inr p),
      gh_tree = (\<lambda>g p. if p = ''/w/a1/.git'' then Some (TFile ''gitdir: /p/.git/worktrees/a1'')
        else if p = ''/p/.git/HEAD'' then Some (TFile ''ref: refs/heads/main'') else None),
      gh_hash = (\<lambda>g b. Inr b), gh_create_parent = (\<lambda>g p. (Inr (), g))\<rparr>"

definition sample_manager :: git_workspaces where
  "sample_manager = \<lparr>gw_project = ''/p'', gw_root = ''/w''\<rparr>"

definition sample_repo_0 :: sample_repo where
  "sample_repo_0 = \<lparr>sp_refs = [(''refs/heads/main'', ''c0'')], sp_worktree = False, sp_dirty = False\<rparr>"

definition prepared_a1 :: prepared_workspace where
  "prepared_a1 = \<lparr>pw_schema = 2, pw_path = ''/w/a1'', pw_git_dir = ''/p/.git'',
     pw_branch = ''orka/attempts/a1'', pw_input_commit = ''c0'', pw_identity = ''orka-workspace-a1'',
     pw_audit = \<lparr>ra_refs = [(''refs/heads/main'', ''c0''), (''refs/heads/orka/attempts/a1'', ''c0'')],
       ra_protected_files = [(''HEAD'', ''ref: refs/heads/main'')],
       ra_worktrees = ''worktree /w/a1'' @ [CHR 0x0A] @ ''HEAD <attempt>'', ra_object_format = ''sha1''\<rparr>\<rparr>"

lemma prepare_a1:
  "fst (git_prepare sample_git sample_manager ''a1'' ''c0'' sample_repo_0) = Inr prepared_a1"
  by code_simp

text \<open>The repository after the agent committed \<open>c9\<close>.\<close>

definition worked_repo :: sample_repo where
  "worked_repo = \<lparr>sp_refs = [(''refs/heads/main'', ''c0''), (sample_branch, ''c9'')],
     sp_worktree = True, sp_dirty = False\<rparr>"

lemma validate_a1:
  "validate_workspace sample_git worked_repo prepared_a1 =
     Inr \<lparr>vw_workspace = prepared_a1, vw_head = ''c9'', vw_tree = ''t0''\<rparr>"
  by code_simp

section \<open>Properties\<close>



text \<open>
  C15. Work that was not published is never touched. While the attempt's branch names a commit other
  than the frozen input and the promotion marker does not name that commit, neither clean-up nor
  roll-back changes the repository in any way, whether or not the worktree is still there, and neither
  claims to have removed or discarded anything. The hypothesis is that the worktree and the project see
  the same value of the branch.
\<close>

theorem unpublished_work_is_kept:
  assumes branch: "resolve_ref_optional G g (gw_project m) (branch_ref_of w) = Inr (Some h)"
    and moved: "h \<noteq> pw_input_commit w"
    and unpublished: "resolve_ref_optional G g (gw_project m) (promoted_ref w) \<noteq> Inr (Some h)"
    and shared: "\<And>c. checked G g (pw_path w) [''rev-parse'', branch_ref_of w] = Inr c \<Longrightarrow> c = h"
  shows "snd (git_cleanup G m w g) = g \<and> snd (git_discard_unchanged G m w g) = g \<and>
    fst (git_cleanup G m w g) \<noteq> Inr Removed \<and> fst (git_discard_unchanged G m w g) \<noteq> Inr Discarded"
proof -
  have head: "vw_head v = h" if "validate_workspace G g w = Inr v" for v
    using validated_head(2) [OF that] shared by blast
  have "snd (git_cleanup G m w g) = g \<and> fst (git_cleanup G m w g) \<noteq> Inr Removed"
  proof (cases "git_cleanup G m w g")
    case (Pair r g')
    then show ?thesis using head moved unpublished
      by (auto simp: git_cleanup_def result_simps st_then_def st_read_def st_return_def
          split: if_splits sum.splits prod.splits)
  qed
  moreover have "snd (git_discard_unchanged G m w g) = g \<and> fst (git_discard_unchanged G m w g) \<noteq> Inr Discarded"
  proof -
    have stays: "discard_branch G (gw_project m) w g = (Inr RetainedChanged, g)"
      using branch moved by (simp add: discard_branch_def st_then_def st_read_def st_return_def)
    have "worktree_changed G g w \<noteq> Inr False"
      using head moved validated_head(1) [of G g w]
      by (auto simp: worktree_changed_def result_simps split: if_splits)
    then show ?thesis using stays
      by (cases "worktree_changed G g w")
        (auto simp: git_discard_unchanged_def st_then_def st_read_def st_return_def split: if_splits)
  qed
  ultimately show ?thesis by blast
qed

theorem unpublished_work_is_kept_witness:
  "git_cleanup sample_git sample_manager prepared_a1 worked_repo = (Inr RetainedUnpublished, worked_repo) \<and>
   snd (git_discard_unchanged sample_git sample_manager prepared_a1 worked_repo) = worked_repo"
proof -
  have f: "fst (git_cleanup sample_git sample_manager prepared_a1 worked_repo) = Inr RetainedUnpublished"
    by code_simp
  have b: "resolve_ref_optional sample_git worked_repo (gw_project sample_manager) (branch_ref_of prepared_a1) =
      Inr (Some ''c9'')" by code_simp
  have m: "''c9'' \<noteq> pw_input_commit prepared_a1" by code_simp
  have u: "resolve_ref_optional sample_git worked_repo (gw_project sample_manager) (promoted_ref prepared_a1) \<noteq>
      Inr (Some ''c9'')" by code_simp
  have c: "checked sample_git worked_repo (pw_path prepared_a1) [''rev-parse'', branch_ref_of prepared_a1] =
      Inr ''c9''" by code_simp
  have "snd (git_cleanup sample_git sample_manager prepared_a1 worked_repo) = worked_repo \<and>
      snd (git_discard_unchanged sample_git sample_manager prepared_a1 worked_repo) = worked_repo"
    using unpublished_work_is_kept [OF b m u] c by simp
  then show ?thesis using f by (metis prod.collapse)
qed

text \<open>
  C36. A planned workspace never validates. The plan carries an empty audit, so as soon as Git reports
  an object format (it always does in a repository) the plan is refused: clean-up of an existing
  directory reports an integrity failure, and roll-back retains it. The record of an attempt holds
  the plan, which is what recovery validates.
\<close>

theorem planned_workspace_is_refused:
  assumes "checked G g (path_for m attempt) [''rev-parse'', ''--show-object-format''] \<noteq> Inr []"
  shows "\<not> is_ok (validate_workspace G g (git_plan G m g0 attempt input)) \<and>
    (gh_exists G g (path_for m attempt) \<longrightarrow>
       git_cleanup G m (git_plan G m g0 attempt input) g = (Inr RetainedIntegrityFailure, g) \<and>
       git_discard_unchanged G m (git_plan G m g0 attempt input) g = (Inr RetainedChanged, g))"
proof -
  let ?plan = "git_plan G m g0 attempt input"
  have path: "pw_path ?plan = path_for m attempt" and none: "ra_object_format (pw_audit ?plan) = []"
    by (simp_all add: git_plan_def empty_audit_def)
  have "verify_audit G g ?plan \<noteq> Inr ()"
    using assms capture_audit_Inr [of G g ?plan] none by (auto simp: verify_audit_Inr path)
  then have refused: "\<not> is_ok (validate_workspace G g ?plan)"
    by (auto simp: is_ok_iff validate_workspace_Inr)
  then obtain e where "validate_workspace G g ?plan = Inl e" by (cases "validate_workspace G g ?plan") auto
  then show ?thesis using refused path
    by (simp add: git_cleanup_def git_discard_unchanged_def worktree_changed_def st_then_def st_read_def st_return_def)
qed

theorem planned_workspace_is_refused_witness:
  "git_cleanup sample_git sample_manager (git_plan sample_git sample_manager sample_repo_0 ''a1'' ''c0'') worked_repo =
     (Inr RetainedIntegrityFailure, worked_repo) \<and>
   is_ok (validate_workspace sample_git worked_repo prepared_a1)"
proof -
  have f: "checked sample_git worked_repo (path_for sample_manager ''a1'')
      [''rev-parse'', ''--show-object-format''] \<noteq> Inr []" by code_simp
  have e: "gh_exists sample_git worked_repo (path_for sample_manager ''a1'')" by code_simp
  have v: "is_ok (validate_workspace sample_git worked_repo prepared_a1)" by (simp add: validate_a1)
  show ?thesis using planned_workspace_is_refused [OF f] e v by blast
qed

text \<open>
  Promotion is compare-and-set. A promotion succeeds only for the validated HEAD while the attempt's
  branch still names it, and only when the marker was absent, and is then created from the zero
  object id, or already named this very commit, and then nothing changes.
\<close>

theorem promotion_is_exact:
  assumes "git_promote G m v commit g = (Inr (), g')"
  shows "vw_head v = commit \<and>
    checked G g (pw_path (vw_workspace v)) [''rev-parse'', branch_ref_of (vw_workspace v)] = Inr commit \<and>
    (resolve_ref_optional G g (gw_project m) (promoted_ref (vw_workspace v)) = Inr (Some commit) \<and> g' = g \<or>
     resolve_ref_optional G g (gw_project m) (promoted_ref (vw_workspace v)) = Inr None \<and>
     (\<exists>zero out. zero_oid G g (gw_project m) = Inr zero \<and> length zero \<in> {40, 64} \<and> set zero = {CHR ''0''} \<and>
       gh_update G g (gw_project m)
         [''update-ref'', promoted_ref (vw_workspace v), commit, zero] = (out, g') \<and> status out = Some 0))"
proof -
  let ?w = "vw_workspace v" and ?p = "gw_project m"
  have head: "vw_head v = commit"
    and branch: "checked G g (pw_path ?w) [''rev-parse'', branch_ref_of ?w] = Inr commit"
    using assms by (auto simp: git_promote_def Let_def result_simps split: if_splits)
  obtain found where found: "resolve_ref_optional G g ?p (promoted_ref ?w) = Inr found"
    and tail: "(case found of
        Some existing \<Rightarrow> if existing = commit then st_return ()
          else st_fail (Bail ''promotion marker `{}` already exists at {}, refusing to replace it with {}''
            [promoted_ref ?w, existing, commit])
      | None \<Rightarrow> st_then (st_read (\<lambda>g. zero_oid G g ?p)) (\<lambda>zero.
          checked_update G ?p [''update-ref'', promoted_ref ?w, commit, zero])) g = (Inr (), g')"
    using assms by (auto simp: git_promote_def Let_def result_simps split: if_splits)
  show ?thesis
  proof (cases found)
    case None
    then obtain z out where z: "zero_oid G g ?p = Inr z"
      and update: "gh_update G g ?p [''update-ref'', promoted_ref ?w, commit, z] = (out, g')"
        "is_ok (checked_output [''update-ref'', promoted_ref ?w, commit, z] out)"
      using tail by (auto simp: result_simps eq_commute [of "Inr ()"])
    have "length z \<in> {40, 64} \<and> set z = {CHR ''0''}"
      using z by (auto simp: zero_oid_def result_simps split: if_splits)
    moreover have "status out = Some 0"
      using update(2) by (auto simp: checked_output_def split: command_output.splits if_splits)
    ultimately show ?thesis using head branch found None z update(1) by blast
  next
    case (Some existing)
    then show ?thesis using head branch found tail by (auto simp: result_simps split: if_splits)
  qed
qed

theorem promotion_is_exact_witness:
  "\<exists>g'. git_promote sample_git sample_manager
       \<lparr>vw_workspace = prepared_a1, vw_head = ''c9'', vw_tree = ''t0''\<rparr> ''c9'' worked_repo = (Inr (), g') \<and>
     checked sample_git worked_repo (pw_path prepared_a1) [''rev-parse'', branch_ref_of prepared_a1] = Inr ''c9''"
proof -
  let ?v = "\<lparr>vw_workspace = prepared_a1, vw_head = ''c9'', vw_tree = ''t0''\<rparr>"
  let ?run = "git_promote sample_git sample_manager ?v ''c9'' worked_repo"
  have "fst ?run = Inr ()" by code_simp
  then have run: "?run = (Inr (), snd ?run)" by (metis prod.collapse)
  show ?thesis using promotion_is_exact [OF run] run by (intro exI [of _ "snd ?run"]) simp
qed

end
