(* ===== verification/Op_Logic.thy ===== *)
theory Op_Logic
  imports Prelude
begin

text \<open>
  Reasoning about operations that write. \<open>triple P m Q E\<close>: started in a state with \<open>P\<close>, the
  operation ends with a result and a state in \<open>Q\<close>, or with an error and a state in \<open>E\<close>. Because
  a run that is cut short is a run that ends with an error, \<open>E\<close> speaks of every state in which the
  operation can be interrupted. \<open>within R m\<close> is the two-state form: whatever the operation does,
  it moves along \<open>R\<close>.
\<close>

section \<open>Triples\<close>

definition triple ::
  "('s \<Rightarrow> bool) \<Rightarrow> ('s, 'e, 'a) st_op \<Rightarrow> ('a \<Rightarrow> 's \<Rightarrow> bool) \<Rightarrow> ('e \<Rightarrow> 's \<Rightarrow> bool) \<Rightarrow> bool" where
  "triple P m Q E \<longleftrightarrow>
     (\<forall>s r t. P s \<longrightarrow> m s = (r, t) \<longrightarrow> (case r of Inl e \<Rightarrow> E e t | Inr x \<Rightarrow> Q x t))"

lemma tripleI:
  assumes "\<And>s x t. P s \<Longrightarrow> m s = (Inr x, t) \<Longrightarrow> Q x t"
    and "\<And>s e t. P s \<Longrightarrow> m s = (Inl e, t) \<Longrightarrow> E e t"
  shows "triple P m Q E"
  using assms by (auto simp: triple_def split: sum.splits)

lemma triple_Inr: "triple P m Q E \<Longrightarrow> P s \<Longrightarrow> m s = (Inr x, t) \<Longrightarrow> Q x t"
  by (auto simp: triple_def)

lemma triple_Inl: "triple P m Q E \<Longrightarrow> P s \<Longrightarrow> m s = (Inl e, t) \<Longrightarrow> E e t"
  by (auto simp: triple_def)

lemma triple_run:
  "triple P m Q E \<Longrightarrow> P s \<Longrightarrow> m s = (r, t) \<Longrightarrow> (case r of Inl e \<Rightarrow> E e t | Inr x \<Rightarrow> Q x t)"
  by (simp add: triple_def)

lemma triple_then:
  assumes "triple P m R E" and "\<And>x. triple (R x) (f x) Q E"
  shows "triple P (st_then m f) Q E"
proof (rule tripleI)
  fix s x t
  assume "P s" "st_then m f s = (Inr x, t)"
  then obtain y u where "m s = (Inr y, u)" "f y u = (Inr x, t)" by (auto simp: result_simps)
  then show "Q x t" using triple_Inr [OF assms(1) \<open>P s\<close>] triple_Inr [OF assms(2)] by blast
next
  fix s e t
  assume "P s" "st_then m f s = (Inl e, t)"
  then consider "m s = (Inl e, t)" | y u where "m s = (Inr y, u)" "f y u = (Inl e, t)"
    by (auto simp: result_simps)
  then show "E e t"
    using triple_Inl [OF assms(1) \<open>P s\<close>] triple_Inr [OF assms(1) \<open>P s\<close>] triple_Inl [OF assms(2)] by cases blast+
qed

lemma triple_weaken:
  assumes "triple P m Q E" and "\<And>s. P' s \<Longrightarrow> P s" and "\<And>x s. Q x s \<Longrightarrow> Q' x s" and "\<And>e s. E e s \<Longrightarrow> E' e s"
  shows "triple P' m Q' E'"
proof (rule tripleI)
  fix s x t
  assume "P' s" "m s = (Inr x, t)"
  then show "Q' x t" using assms(3) triple_Inr [OF assms(1) assms(2)] by blast
next
  fix s e t
  assume "P' s" "m s = (Inl e, t)"
  then show "E' e t" using assms(4) triple_Inl [OF assms(1) assms(2)] by blast
qed

lemma triple_pre: "triple P m Q E \<Longrightarrow> (\<And>s. P' s \<Longrightarrow> P s) \<Longrightarrow> triple P' m Q E"
  by (erule triple_weaken)

lemma triple_post: "triple P m Q E \<Longrightarrow> (\<And>x s. Q x s \<Longrightarrow> Q' x s) \<Longrightarrow> triple P m Q' E"
  by (erule triple_weaken)

lemma triple_return: "(\<And>s. P s \<Longrightarrow> Q x s) \<Longrightarrow> triple P (st_return x) Q E"
  by (auto simp: triple_def st_return_def)

lemma triple_fail: "(\<And>s. P s \<Longrightarrow> E e s) \<Longrightarrow> triple P (st_fail e) Q E"
  by (auto simp: triple_def st_fail_def)

lemma triple_read:
  "(\<And>s x. P s \<Longrightarrow> f s = Inr x \<Longrightarrow> Q x s) \<Longrightarrow> (\<And>s e. P s \<Longrightarrow> f s = Inl e \<Longrightarrow> E e s) \<Longrightarrow>
     triple P (st_read f) Q E"
  by (auto simp: triple_def st_read_def split: sum.splits)

lemma triple_if:
  "(b \<Longrightarrow> triple P m Q E) \<Longrightarrow> (\<not> b \<Longrightarrow> triple P n Q E) \<Longrightarrow> triple P (if b then m else n) Q E"
  by auto

lemma triple_conj:
  "triple P m Q E \<Longrightarrow> triple P' m Q' E' \<Longrightarrow>
     triple (\<lambda>s. P s \<and> P' s) m (\<lambda>x s. Q x s \<and> Q' x s) (\<lambda>e s. E e s \<and> E' e s)"
  by (auto simp: triple_def split: sum.splits)

lemma triple_pure: "(a \<Longrightarrow> triple P m Q E) \<Longrightarrow> triple (\<lambda>s. a \<and> P s) m Q E"
  by (auto simp: triple_def)

section \<open>Two-state invariants\<close>

definition within :: "('s \<Rightarrow> 's \<Rightarrow> bool) \<Rightarrow> ('s, 'e, 'a) st_op \<Rightarrow> bool" where
  "within R m \<longleftrightarrow> (\<forall>s r t. m s = (r, t) \<longrightarrow> R s t)"

lemma withinI: "(\<And>s r t. m s = (r, t) \<Longrightarrow> R s t) \<Longrightarrow> within R m"
  by (simp add: within_def)

lemma withinD: "within R m \<Longrightarrow> m s = (r, t) \<Longrightarrow> R s t"
  by (simp add: within_def)

lemma within_then:
  assumes "transp R" and "within R m" and "\<And>x. within R (f x)"
  shows "within R (st_then m f)"
proof (rule withinI)
  fix s r t
  assume run: "st_then m f s = (r, t)"
  obtain q u where q: "m s = (q, u)" by (cases "m s")
  then have "R s u" by (rule withinD [OF assms(2)])
  then show "R s t" using run q transpD [OF assms(1)] withinD [OF assms(3)]
    by (cases q) (auto simp: st_then_def)
qed

lemma within_return: "reflp R \<Longrightarrow> within R (st_return x)"
  by (auto simp: within_def st_return_def reflpD)

lemma within_fail: "reflp R \<Longrightarrow> within R (st_fail e)"
  by (auto simp: within_def st_fail_def reflpD)

lemma within_read: "reflp R \<Longrightarrow> within R (st_read f)"
  by (auto simp: within_def st_read_def reflpD)

lemma within_if: "(b \<Longrightarrow> within R m) \<Longrightarrow> (\<not> b \<Longrightarrow> within R n) \<Longrightarrow> within R (if b then m else n)"
  by auto

section \<open>Operations on a part of the state, and handled errors\<close>

text \<open>\<open>at_part get put m\<close> runs an operation on a component; \<open>st_try\<close> is a \<open>match\<close> on the
  result of an operation whose error the code handles.\<close>

definition at_part ::
  "('w \<Rightarrow> 's) \<Rightarrow> ('s \<Rightarrow> 'w \<Rightarrow> 'w) \<Rightarrow> ('s, 'e, 'a) st_op \<Rightarrow> ('w, 'e, 'a) st_op" where
  "at_part get put m w = (case m (get w) of (r, s) \<Rightarrow> (r, put s w))"

definition st_try ::
  "('s, 'e, 'a) st_op \<Rightarrow> ('e \<Rightarrow> ('s, 'e, 'b) st_op) \<Rightarrow> ('a \<Rightarrow> ('s, 'e, 'b) st_op) \<Rightarrow> ('s, 'e, 'b) st_op" where
  "st_try m handler f s = (case m s of (Inl e, t) \<Rightarrow> handler e t | (Inr x, t) \<Rightarrow> f x t)"

lemma at_part_iff [result_simps]:
  "at_part get put m w = (r, w') \<longleftrightarrow> (\<exists>s. m (get w) = (r, s) \<and> w' = put s w)"
  by (auto simp: at_part_def split: prod.splits)

lemma triple_part:
  assumes "triple P m Q E"
    and "\<And>w x s. P (get w) \<Longrightarrow> Q x s \<Longrightarrow> Q' x (put s w)"
    and "\<And>w e s. P (get w) \<Longrightarrow> E e s \<Longrightarrow> E' e (put s w)"
  shows "triple (\<lambda>w. P (get w)) (at_part get put m) Q' E'"
  by (rule tripleI) (use assms in \<open>auto simp: result_simps dest: triple_Inr triple_Inl\<close>)

lemma within_part: "within R m \<Longrightarrow> (\<And>w s. R (get w) s \<Longrightarrow> R' w (put s w)) \<Longrightarrow> within R' (at_part get put m)"
  by (auto simp: within_def result_simps)

lemma st_try_cases:
  assumes "st_try m h f s = (r, t)"
  obtains (ok) x u where "m s = (Inr x, u)" "f x u = (r, t)"
  | (handled) e u where "m s = (Inl e, u)" "h e u = (r, t)"
  using assms by (auto simp: st_try_def split: prod.splits sum.splits)

lemma triple_try:
  assumes "triple P m R F" and "\<And>x. triple (R x) (f x) Q E" and "\<And>e. triple (F e) (h e) Q E"
  shows "triple P (st_try m h f) Q E"
  unfolding triple_def
proof (intro allI impI)
  fix s r t
  assume p: "P s" and "st_try m h f s = (r, t)"
  from this(2) show "case r of Inl e \<Rightarrow> E e t | Inr x \<Rightarrow> Q x t"
  proof (cases rule: st_try_cases)
    case (ok x u)
    show ?thesis using triple_run [OF assms(2) triple_Inr [OF assms(1) p ok(1)] ok(2)] .
  next
    case (handled e u)
    show ?thesis using triple_run [OF assms(3) triple_Inl [OF assms(1) p handled(1)] handled(2)] .
  qed
qed

lemma within_try:
  assumes "transp R" and "within R m" and "\<And>x. within R (f x)" and "\<And>e. within R (h e)"
  shows "within R (st_try m h f)"
proof (rule withinI)
  fix s r t
  assume run: "st_try m h f s = (r, t)"
  obtain q u where q: "m s = (q, u)" by (cases "m s")
  then have "R s u" by (rule withinD [OF assms(2)])
  then show "R s t" using run q transpD [OF assms(1)] withinD [OF assms(3)] withinD [OF assms(4)]
    by (cases q) (auto simp: st_try_def)
qed

end
