(* ===== verification/Orka_Attempt.thy ===== *)
theory Orka_Attempt
  imports Orka_Model Op_Logic Linka_Store
begin

text \<open>
  The durable attempt store (\<open>orka/src/attempt.rs\<close>). Each attempt is a directory of record files;
  the phase is derived from which of them exist. A write goes to a temporary file and is renamed, so
  a reader sees the old file or the new one: here a write is one step. The store carries the fates of
  the writes to come: a write succeeds, fails and is reported to the code, or the machine stops before
  it, which ends the run without the code handling anything. An empty list of fates is a run in which
  every write succeeds.

  The exchange directory \<open>io\<close> is the two files \<open>af_prompt\<close> and \<open>af_outcome\<close>. Temporary files
  and plain files among the attempt directories, which the code never reads, are not represented.
\<close>

section \<open>Faults and durable writes\<close>

datatype fate = Succeeds | Fails | Crashes

datatype fault = Crashed | Failed error

record agent_files =
  af_prompt :: fs_file
  af_outcome :: fs_file
  af_transcript :: fs_file
  af_diagnostics :: fs_file
  af_raw_events :: fs_file
  af_file_changes :: fs_file
  af_accesses :: fs_file

record attempt_dir =
  ad_attempt :: fs_file
  ad_workspace :: fs_file
  ad_prepared :: fs_file
  ad_request :: fs_file
  ad_evidence :: fs_file
  ad_seal :: fs_file
  ad_files :: agent_files

record attempt_store =
  as_root :: string
  as_dirs :: "(attempt_id \<times> attempt_dir) list"
  as_fates :: "fate list"

type_synonym 'a attempt_op = "(attempt_store, fault, 'a) st_op"

definition no_files :: agent_files where
  "no_files = \<lparr>af_prompt = NotFound, af_outcome = NotFound, af_transcript = NotFound,
     af_diagnostics = NotFound, af_raw_events = NotFound, af_file_changes = NotFound, af_accesses = NotFound\<rparr>"

definition bare_dir :: attempt_dir where
  "bare_dir = \<lparr>ad_attempt = NotFound, ad_workspace = NotFound, ad_prepared = NotFound,
     ad_request = NotFound, ad_evidence = NotFound, ad_seal = NotFound, ad_files = no_files\<rparr>"

definition attempt_dir_of :: "attempt_store \<Rightarrow> attempt_id \<Rightarrow> attempt_dir" where
  "attempt_dir_of s i = (case map_of (as_dirs s) i of None \<Rightarrow> bare_dir | Some d \<Rightarrow> d)"

definition put_attempt :: "attempt_id \<Rightarrow> attempt_dir \<Rightarrow> attempt_store \<Rightarrow> attempt_store" where
  "put_attempt i d s = s\<lparr>as_dirs := AList.update i d (as_dirs s)\<rparr>"

definition drop_attempt :: "attempt_id \<Rightarrow> attempt_store \<Rightarrow> attempt_store" where
  "drop_attempt i s = s\<lparr>as_dirs := AList.delete i (as_dirs s)\<rparr>"

definition durable :: "(attempt_store \<Rightarrow> attempt_store) \<Rightarrow> unit attempt_op" where
  "durable f s =
     (case as_fates s of
        [] \<Rightarrow> (Inr (), f s)
      | Succeeds # rest \<Rightarrow> (Inr (), f (s\<lparr>as_fates := rest\<rparr>))
      | Fails # rest \<Rightarrow> (Inl (Failed io_error), s\<lparr>as_fates := rest\<rparr>)
      | Crashes # rest \<Rightarrow> (Inl Crashed, s\<lparr>as_fates := rest\<rparr>))"

definition failing :: "'a res \<Rightarrow> fault + 'a" where
  "failing r = map_err Failed r"

definition context_fault :: "string \<Rightarrow> string list \<Rightarrow> fault \<Rightarrow> fault" where
  "context_fault m args f = (case f of Crashed \<Rightarrow> Crashed | Failed e \<Rightarrow> Failed (Context m args e))"

definition st_context :: "string \<Rightarrow> string list \<Rightarrow> ('s, fault, 'a) st_op \<Rightarrow> ('s, fault, 'a) st_op" where
  "st_context m args f s = (case f s of (r, t) \<Rightarrow> (map_err (context_fault m args) r, t))"

text \<open>\<open>match\<close> on a result: an error value reaches the handler, a stopped machine does not.\<close>

definition st_match ::
  "('s, fault, 'a) st_op \<Rightarrow> (error \<Rightarrow> ('s, fault, 'b) st_op) \<Rightarrow> ('a \<Rightarrow> ('s, fault, 'b) st_op) \<Rightarrow>
   ('s, fault, 'b) st_op" where
  "st_match m handler f =
     st_try m (\<lambda>fault. case fault of Crashed \<Rightarrow> st_fail Crashed | Failed e \<Rightarrow> handler e) f"

section \<open>Reading and writing records\<close>

fun present :: "fs_file \<Rightarrow> bool" where
  "present NotFound = False"
| "present _ = True"

text \<open>\<open>read_toml\<close> and \<open>read_toml_optional\<close>.\<close>

definition read_toml :: "string \<Rightarrow> (string \<Rightarrow> 'a option) \<Rightarrow> fs_file \<Rightarrow> 'a res" where
  "read_toml name parse f =
     and_then (with_context ''reading {}'' [name] (read_text f)) (\<lambda>text.
     with_context ''parsing {}'' [name] (parse_with parse text))"

definition read_toml_optional :: "string \<Rightarrow> (string \<Rightarrow> 'a option) \<Rightarrow> fs_file \<Rightarrow> 'a option res" where
  "read_toml_optional name parse f =
     (if f = NotFound then Inr None else map_ok Some (read_toml name parse f))"

definition write_toml ::
  "string \<Rightarrow> (attempt_dir \<Rightarrow> fs_file \<Rightarrow> attempt_dir) \<Rightarrow> string option \<Rightarrow> attempt_id \<Rightarrow> unit attempt_op" where
  "write_toml name set_file body i =
     (case body of
        None \<Rightarrow> st_fail (Failed (Bail ''serialising {}'' [name]))
      | Some t \<Rightarrow> st_context ''writing {}'' [name]
          (durable (\<lambda>s. put_attempt i (set_file (attempt_dir_of s i) (Bytes t)) s)))"

section \<open>Operations\<close>

definition store_contains :: "attempt_store \<Rightarrow> attempt_id \<Rightarrow> bool" where
  "store_contains s i \<longleftrightarrow> present (ad_attempt (attempt_dir_of s i))"

definition require :: "attempt_id \<Rightarrow> unit attempt_op" where
  "require i = st_read (\<lambda>s.
     if \<not> present (ad_attempt (attempt_dir_of s i)) then Inl (Failed (Bail ''unknown attempt `{}`'' [i]))
     else Inr ())"

definition io_dir :: "attempt_id \<Rightarrow> unit attempt_op" where
  "io_dir i = st_context ''creating io directory for {}'' [i] (durable (\<lambda>s. s))"

definition create_attempt :: "orka_codec \<Rightarrow> int \<Rightarrow> attempt_id \<Rightarrow> attempt_input \<Rightarrow> attempt_record attempt_op" where
  "create_attempt k now i input =
     st_then (st_read (\<lambda>s. if map_of (as_dirs s) i \<noteq> None
                then Inl (Failed (Bail ''attempt `{}` already exists'' [i])) else Inr ())) (\<lambda>_.
     st_then (st_context ''creating {}'' [i] (durable (put_attempt i bare_dir))) (\<lambda>_.
     let new = \<lparr>at_schema = ATTEMPT_SCHEMA, at_id = i, at_created_at_ms = now, at_input = input\<rparr> in
     st_then (write_toml ''attempt.toml'' (\<lambda>d f. d\<lparr>ad_attempt := f\<rparr>) (attempt_to_toml k new) i) (\<lambda>_.
     st_return new)))"

definition plan_workspace :: "orka_codec \<Rightarrow> attempt_id \<Rightarrow> prepared_workspace \<Rightarrow> unit attempt_op" where
  "plan_workspace k i workspace =
     st_then (require i) (\<lambda>_.
     write_toml ''workspace.toml'' (\<lambda>d f. d\<lparr>ad_workspace := f\<rparr>) (workspace_to_toml k workspace) i)"

definition mark_prepared :: "attempt_id \<Rightarrow> unit attempt_op" where
  "mark_prepared i =
     st_then (require i) (\<lambda>_. write_toml ''prepared'' (\<lambda>d f. d\<lparr>ad_prepared := f\<rparr>) (Some []) i)"

definition record_request :: "orka_codec \<Rightarrow> attempt_id \<Rightarrow> execution_spec \<Rightarrow> unit attempt_op" where
  "record_request k i spec =
     st_then (require i) (\<lambda>_.
     write_toml ''request.toml'' (\<lambda>d f. d\<lparr>ad_request := f\<rparr>) (request_to_toml k spec) i)"

definition record_evidence :: "orka_codec \<Rightarrow> attempt_id \<Rightarrow> execution_report \<Rightarrow> unit attempt_op" where
  "record_evidence k i report =
     st_then (require i) (\<lambda>_.
     write_toml ''evidence.toml'' (\<lambda>d f. d\<lparr>ad_evidence := f\<rparr>) (report_to_toml k report) i)"

definition sealed_already :: "orka_codec \<Rightarrow> attempt_id \<Rightarrow> sealed_state \<Rightarrow> fs_file \<Rightarrow> seal_record res" where
  "sealed_already k i state f =
     and_then (read_toml ''seal.toml'' (seal_of_toml k) f) (\<lambda>existing.
     if sr_schema existing \<noteq> SEAL_SCHEMA
     then bail ''attempt `{}` seal uses unsupported schema {}'' [i, show_nat (sr_schema existing)]
     else if sr_state existing = state then Inr existing
     else bail ''attempt `{}` is already sealed; refusing to reseal'' [i])"

definition seal :: "orka_codec \<Rightarrow> int \<Rightarrow> attempt_id \<Rightarrow> sealed_state \<Rightarrow> seal_record attempt_op" where
  "seal k now i state =
     st_then (require i) (\<lambda>_.
     st_then (st_read (\<lambda>s. Inr (ad_seal (attempt_dir_of s i)))) (\<lambda>f.
     if present f then st_read (\<lambda>_. failing (sealed_already k i state f))
     else
       let new = \<lparr>sr_schema = SEAL_SCHEMA, sr_sealed_at_ms = now, sr_state = state\<rparr> in
       st_then (write_toml ''seal.toml'' (\<lambda>d f. d\<lparr>ad_seal := f\<rparr>) (seal_to_toml k new) i) (\<lambda>_.
       st_return new)))"

section \<open>Loading, listing, auditing\<close>

definition load_attempt :: "orka_codec \<Rightarrow> attempt_store \<Rightarrow> attempt_id \<Rightarrow> attempt_snapshot res" where
  "load_attempt k s i =
     (let d = attempt_dir_of s i in
      and_then (with_context ''unknown or unreadable attempt `{}`'' [i]
        (read_toml ''attempt.toml'' (attempt_of_toml k) (ad_attempt d))) (\<lambda>r.
      if at_schema r \<noteq> ATTEMPT_SCHEMA
      then bail ''attempt `{}` uses unsupported schema {} (this build reads schema {})''
        [i, show_nat (at_schema r), show_nat ATTEMPT_SCHEMA]
      else
      and_then (read_toml_optional ''seal.toml'' (seal_of_toml k) (ad_seal d)) (\<lambda>sealed.
      if (case sealed of None \<Rightarrow> False | Some x \<Rightarrow> sr_schema x \<noteq> SEAL_SCHEMA)
      then bail ''attempt `{}` seal uses unsupported schema {}'' [i, show_nat (sr_schema (the sealed))]
      else
      and_then (read_toml_optional ''workspace.toml'' (workspace_of_toml k) (ad_workspace d)) (\<lambda>workspace.
      and_then (read_toml_optional ''request.toml'' (request_of_toml k) (ad_request d)) (\<lambda>request.
      and_then (read_toml_optional ''evidence.toml'' (report_of_toml k) (ad_evidence d)) (\<lambda>evidence.
      Inr \<lparr>an_record = r, an_workspace = workspace, an_prepared = present (ad_prepared d),
           an_request = request, an_evidence = evidence, an_seal = sealed\<rparr>))))))"

definition list_attempts :: "attempt_store \<Rightarrow> attempt_id list" where
  "list_attempts s = sort (map fst (as_dirs s))"

definition valid_attempt_name :: "orka_codec \<Rightarrow> attempt_id \<Rightarrow> bool" where
  "valid_attempt_name k i \<longleftrightarrow> prefix ''attempt-'' i \<and> ulid_ok k (drop (length ''attempt-'') i)"

definition attempt_problems :: "orka_codec \<Rightarrow> attempt_store \<Rightarrow> attempt_id \<Rightarrow> string list" where
  "attempt_problems k s i =
     (if valid_attempt_name k i then [] else [i @ '': invalid attempt directory name'']) @
     (case load_attempt k s i of
        Inl e \<Rightarrow> [i @ '': unreadable attempt record: '' @ error_chain e]
      | Inr n \<Rightarrow>
          (if at_id (an_record n) \<noteq> i
           then [i @ '': attempt record identifies itself as '' @ at_id (an_record n)] else []) @
          (if an_prepared n \<and> an_workspace n = None
           then [i @ '': prepared marker exists without a workspace plan''] else []) @
          (if an_request n \<noteq> None \<and> \<not> an_prepared n
           then [i @ '': execution request exists without a prepared marker''] else []) @
          (if an_evidence n \<noteq> None \<and> an_request n = None
           then [i @ '': exit evidence exists without an execution request''] else []))"

definition audit :: "orka_codec \<Rightarrow> attempt_store \<Rightarrow> string list" where
  "audit k s = concat (map (attempt_problems k s) (list_attempts s))"

definition discard_without_evidence :: "orka_codec \<Rightarrow> attempt_id \<Rightarrow> unit attempt_op" where
  "discard_without_evidence k i =
     st_then (st_read (\<lambda>s. failing (load_attempt k s i))) (\<lambda>n.
     if an_evidence n \<noteq> None \<or> an_seal n \<noteq> None
     then st_fail (Failed (Bail ''refusing to discard durable attempt `{}`'' [i]))
     else st_context ''discarding pre-evidence attempt `{}`'' [i] (durable (drop_attempt i)))"

definition discard_registered :: "orka_codec \<Rightarrow> attempt_id \<Rightarrow> unit attempt_op" where
  "discard_registered k i =
     st_then (st_read (\<lambda>s. failing (load_attempt k s i))) (\<lambda>n.
     if \<not> (case an_seal n of None \<Rightarrow> False | Some x \<Rightarrow> registered (sr_state x))
     then st_fail (Failed (Bail ''refusing to discard unregistered attempt `{}`'' [i]))
     else st_context ''discarding registered attempt `{}`'' [i] (durable (drop_attempt i)))"

section \<open>Paths of the attempt directory\<close>

definition attempt_path :: "attempt_store \<Rightarrow> attempt_id \<Rightarrow> string \<Rightarrow> string" where
  "attempt_path s i name = path_join (path_join (path_join (as_root s) ''attempts'') i) name"

definition execution_artifacts :: "attempt_store \<Rightarrow> attempt_id \<Rightarrow> output_format \<Rightarrow> execution_artifacts" where
  "execution_artifacts s i f =
     \<lparr>ea_transcript = attempt_path s i ''transcript.log'',
      ea_diagnostics = attempt_path s i ''diagnostics.log'',
      ea_raw_events = (if is_agent f then Some (attempt_path s i ''events.raw.jsonl'') else None),
      ea_file_changes = (if records_file_changes f then Some (attempt_path s i ''file-changes.v1.jsonl'') else None),
      ea_file_change_ref = (if records_file_changes f then Some (''refs/orka/file-changes/'' @ i) else None),
      ea_accesses = attempt_path s i ''accesses.v1.jsonl''\<rparr>"

end
