(* ===== verification/Orka_Attempt_Spec.thy ===== *)
theory Orka_Attempt_Spec
  imports Orka_Attempt Linka_Store_Props
begin

text \<open>
  What the attempt store promises. A directory is sound when its records parse, name the attempt and
  stand in the order of the lifecycle; \<open>audit\<close> reports nothing exactly for sound stores. Every
  operation, wherever a write fails or the machine stops, leaves a store whose directories are sound or
  bare (the one window of \<open>create\<close>), never removes a record and never changes a seal.
\<close>

section \<open>What a file holds\<close>

definition file_holds :: "(string \<Rightarrow> 'a option) \<Rightarrow> fs_file \<Rightarrow> 'a \<Rightarrow> bool" where
  "file_holds q f x \<longleftrightarrow> (\<exists>t. f = Bytes t \<and> utf8_valid t \<and> q t = Some x)"

definition readable :: "(string \<Rightarrow> 'a option) \<Rightarrow> fs_file \<Rightarrow> bool" where
  "readable q f \<longleftrightarrow> f = NotFound \<or> (\<exists>x. file_holds q f x)"

lemma present_iff [simp]: "present f \<longleftrightarrow> f \<noteq> NotFound"
  by (cases f) auto

lemma file_holds_present: "file_holds q f x \<Longrightarrow> f \<noteq> NotFound"
  by (auto simp: file_holds_def)

lemma file_holds_unique: "file_holds q f x \<Longrightarrow> file_holds q f y \<Longrightarrow> x = y"
  by (auto simp: file_holds_def)

lemma file_holds_printed:
  "prints_back p q \<Longrightarrow> p x = Some t \<Longrightarrow> file_holds q (Bytes t) x"
  by (auto simp: prints_back_def file_holds_def)

lemma read_toml_Inr [result_simps]: "read_toml n q f = Inr x \<longleftrightarrow> file_holds q f x"
  by (cases f)
    (auto simp: read_toml_def read_text_def utf8_text_def parse_with_def file_holds_def result_simps
      split: if_splits)

lemma read_toml_optional_Inr [result_simps]:
  "read_toml_optional n q f = Inr x \<longleftrightarrow>
     (case x of None \<Rightarrow> f = NotFound | Some y \<Rightarrow> file_holds q f y)"
  by (cases x) (auto simp: read_toml_optional_def result_simps file_holds_def split: if_splits)

section \<open>Sound directories\<close>

definition record_sound :: "orka_codec \<Rightarrow> attempt_id \<Rightarrow> attempt_dir \<Rightarrow> bool" where
  "record_sound k i d \<longleftrightarrow>
     (\<exists>r. file_holds (attempt_of_toml k) (ad_attempt d) r \<and> at_schema r = ATTEMPT_SCHEMA \<and> at_id r = i)"

definition seal_sound :: "orka_codec \<Rightarrow> attempt_dir \<Rightarrow> bool" where
  "seal_sound k d \<longleftrightarrow>
     ad_seal d = NotFound \<or> (\<exists>x. file_holds (seal_of_toml k) (ad_seal d) x \<and> sr_schema x = SEAL_SCHEMA)"

definition lifecycle_order :: "attempt_dir \<Rightarrow> bool" where
  "lifecycle_order d \<longleftrightarrow>
     (present (ad_prepared d) \<longrightarrow> present (ad_workspace d)) \<and>
     (present (ad_request d) \<longrightarrow> present (ad_prepared d)) \<and>
     (present (ad_evidence d) \<longrightarrow> present (ad_request d))"

definition dir_sound :: "orka_codec \<Rightarrow> attempt_id \<Rightarrow> attempt_dir \<Rightarrow> bool" where
  "dir_sound k i d \<longleftrightarrow>
     record_sound k i d \<and> seal_sound k d \<and> lifecycle_order d \<and>
     readable (workspace_of_toml k) (ad_workspace d) \<and>
     readable (request_of_toml k) (ad_request d) \<and>
     readable (report_of_toml k) (ad_evidence d)"

lemma load_attempt_Inr:
  "load_attempt k s i = Inr n \<longleftrightarrow>
     file_holds (attempt_of_toml k) (ad_attempt (attempt_dir_of s i)) (an_record n) \<and>
     at_schema (an_record n) = ATTEMPT_SCHEMA \<and>
     (case an_seal n of None \<Rightarrow> ad_seal (attempt_dir_of s i) = NotFound
      | Some x \<Rightarrow> file_holds (seal_of_toml k) (ad_seal (attempt_dir_of s i)) x \<and> sr_schema x = SEAL_SCHEMA) \<and>
     (case an_workspace n of None \<Rightarrow> ad_workspace (attempt_dir_of s i) = NotFound
      | Some x \<Rightarrow> file_holds (workspace_of_toml k) (ad_workspace (attempt_dir_of s i)) x) \<and>
     (case an_request n of None \<Rightarrow> ad_request (attempt_dir_of s i) = NotFound
      | Some x \<Rightarrow> file_holds (request_of_toml k) (ad_request (attempt_dir_of s i)) x) \<and>
     (case an_evidence n of None \<Rightarrow> ad_evidence (attempt_dir_of s i) = NotFound
      | Some x \<Rightarrow> file_holds (report_of_toml k) (ad_evidence (attempt_dir_of s i)) x) \<and>
     an_prepared n = present (ad_prepared (attempt_dir_of s i))"
  by (cases n) (auto simp: load_attempt_def Let_def result_simps split: option.splits)

lemma load_attempt_seal:
  "load_attempt k s i = Inr n \<Longrightarrow> an_seal n = Some x \<Longrightarrow>
     file_holds (seal_of_toml k) (ad_seal (attempt_dir_of s i)) x"
  by (simp add: load_attempt_Inr)

lemma load_attempt_files:
  assumes "load_attempt k s i = Inr n"
  shows "an_workspace n = None \<longleftrightarrow> ad_workspace (attempt_dir_of s i) = NotFound"
    and "an_request n = None \<longleftrightarrow> ad_request (attempt_dir_of s i) = NotFound"
    and "an_evidence n = None \<longleftrightarrow> ad_evidence (attempt_dir_of s i) = NotFound"
    and "an_seal n = None \<longleftrightarrow> ad_seal (attempt_dir_of s i) = NotFound"
    and "an_prepared n \<longleftrightarrow> ad_prepared (attempt_dir_of s i) \<noteq> NotFound"
  using assms by (auto simp: load_attempt_Inr file_holds_def split: option.splits)

lemma optional_readable:
  "readable q f \<longleftrightarrow> (\<exists>x. case x of None \<Rightarrow> f = NotFound | Some y \<Rightarrow> file_holds q f y)"
proof
  assume r: "readable q f"
  show "\<exists>x. case x of None \<Rightarrow> f = NotFound | Some y \<Rightarrow> file_holds q f y"
  proof (cases "f = NotFound")
    case True
    then show ?thesis by (intro exI [of _ None]) simp
  next
    case False
    then obtain y where "file_holds q f y" using r by (auto simp: readable_def)
    then show ?thesis by (intro exI [of _ "Some y"]) simp
  qed
qed (auto simp: readable_def split: option.splits)

lemma dir_sound_loads:
  assumes "dir_sound k i (attempt_dir_of s i)"
  shows "\<exists>n. load_attempt k s i = Inr n \<and> at_id (an_record n) = i"
proof -
  let ?d = "attempt_dir_of s i"
  obtain r where r: "file_holds (attempt_of_toml k) (ad_attempt ?d) r" "at_schema r = ATTEMPT_SCHEMA" "at_id r = i"
    using assms by (auto simp: dir_sound_def record_sound_def)
  obtain w q e where opt:
    "case w of None \<Rightarrow> ad_workspace ?d = NotFound | Some x \<Rightarrow> file_holds (workspace_of_toml k) (ad_workspace ?d) x"
    "case q of None \<Rightarrow> ad_request ?d = NotFound | Some x \<Rightarrow> file_holds (request_of_toml k) (ad_request ?d) x"
    "case e of None \<Rightarrow> ad_evidence ?d = NotFound | Some x \<Rightarrow> file_holds (report_of_toml k) (ad_evidence ?d) x"
    using assms unfolding dir_sound_def optional_readable by blast
  obtain x where x: "case x of None \<Rightarrow> ad_seal ?d = NotFound
      | Some y \<Rightarrow> file_holds (seal_of_toml k) (ad_seal ?d) y \<and> sr_schema y = SEAL_SCHEMA"
  proof (cases "ad_seal ?d = NotFound")
    case True
    then show ?thesis using that [of None] by simp
  next
    case False
    then obtain y where "file_holds (seal_of_toml k) (ad_seal ?d) y" "sr_schema y = SEAL_SCHEMA"
      using assms by (auto simp: dir_sound_def seal_sound_def)
    then show ?thesis using that [of "Some y"] by simp
  qed
  let ?n = "\<lparr>an_record = r, an_workspace = w, an_prepared = present (ad_prepared ?d), an_request = q,
      an_evidence = e, an_seal = x\<rparr>"
  have n: "load_attempt k s i = Inr ?n" unfolding load_attempt_Inr using r opt x by simp
  then show ?thesis using r(3) by auto
qed

lemma attempt_problems_Nil:
  "attempt_problems k s i = [] \<longleftrightarrow> valid_attempt_name k i \<and> dir_sound k i (attempt_dir_of s i)"
proof
  assume none: "attempt_problems k s i = []"
  then obtain n where n: "load_attempt k s i = Inr n"
    by (auto simp: attempt_problems_def split: sum.splits)
  note files = load_attempt_files [OF n]
  have "lifecycle_order (attempt_dir_of s i)"
    using none n files by (auto simp: attempt_problems_def lifecycle_order_def split: if_splits)
  moreover have "record_sound k i (attempt_dir_of s i)"
    using none n by (auto simp: attempt_problems_def record_sound_def load_attempt_Inr split: if_splits)
  moreover have "seal_sound k (attempt_dir_of s i)" using n
    by (cases "an_seal n") (auto simp: seal_sound_def load_attempt_Inr)
  moreover have "readable (workspace_of_toml k) (ad_workspace (attempt_dir_of s i))"
    "readable (request_of_toml k) (ad_request (attempt_dir_of s i))"
    "readable (report_of_toml k) (ad_evidence (attempt_dir_of s i))"
    using n unfolding optional_readable load_attempt_Inr by blast+
  ultimately show "valid_attempt_name k i \<and> dir_sound k i (attempt_dir_of s i)"
    using none by (auto simp: attempt_problems_def dir_sound_def split: if_splits)
next
  assume sound: "valid_attempt_name k i \<and> dir_sound k i (attempt_dir_of s i)"
  then obtain n where n: "load_attempt k s i = Inr n" and named: "at_id (an_record n) = i"
    using dir_sound_loads by blast
  show "attempt_problems k s i = []"
    using sound named load_attempt_files [OF n]
    by (auto simp: attempt_problems_def n dir_sound_def lifecycle_order_def)
qed

section \<open>The invariant of the store\<close>

definition lifecycle :: "orka_codec \<Rightarrow> attempt_store \<Rightarrow> bool" where
  "lifecycle k s \<longleftrightarrow> (\<forall>i d. map_of (as_dirs s) i = Some d \<longrightarrow> d = bare_dir \<or> dir_sound k i d)"

text \<open>An attempt that has reached a phase: its directory is sound and holds the file of the phase.\<close>

fun phase_file :: "attempt_phase \<Rightarrow> attempt_dir \<Rightarrow> fs_file" where
  "phase_file Created d = ad_attempt d"
| "phase_file WorkspacePlanned d = ad_workspace d"
| "phase_file Prepared d = ad_prepared d"
| "phase_file Requested d = ad_request d"
| "phase_file Executed d = ad_evidence d"
| "phase_file Sealed d = ad_seal d"

definition reached :: "orka_codec \<Rightarrow> attempt_id \<Rightarrow> attempt_phase \<Rightarrow> attempt_store \<Rightarrow> bool" where
  "reached k i p s \<longleftrightarrow>
     lifecycle k s \<and> (\<exists>d. map_of (as_dirs s) i = Some d \<and> dir_sound k i d \<and> phase_file p d \<noteq> NotFound)"

lemma reached_lifecycle: "reached k i p s \<Longrightarrow> lifecycle k s"
  by (simp add: reached_def)

lemma dir_sound_attempt: "dir_sound k i d \<Longrightarrow> ad_attempt d \<noteq> NotFound"
  by (auto simp: dir_sound_def record_sound_def file_holds_def)

lemma reached_Created: "reached k i p s \<Longrightarrow> reached k i Created s"
  by (auto simp: reached_def dir_sound_attempt)

lemma attempt_dir_of_Some [simp]: "map_of (as_dirs s) i = Some d \<Longrightarrow> attempt_dir_of s i = d"
  by (simp add: attempt_dir_of_def)

lemma put_attempt_dirs [simp]:
  "map_of (as_dirs (put_attempt i d s)) = (map_of (as_dirs s))(i \<mapsto> d)"
  "as_fates (put_attempt i d s) = as_fates s" "as_root (put_attempt i d s) = as_root s"
  by (simp_all add: put_attempt_def)

lemma drop_attempt_dirs [simp]:
  "map_of (as_dirs (drop_attempt i s)) = (map_of (as_dirs s))(i := None)"
  "as_fates (drop_attempt i s) = as_fates s" "as_root (drop_attempt i s) = as_root s"
  by (simp_all add: drop_attempt_def delete_conv')

lemma attempt_dir_of_fates [simp]: "attempt_dir_of (s\<lparr>as_fates := x\<rparr>) = attempt_dir_of s"
  by (simp add: attempt_dir_of_def fun_eq_iff)

lemma lifecycle_fates [simp]: "lifecycle k (s\<lparr>as_fates := x\<rparr>) = lifecycle k s"
  by (simp add: lifecycle_def)

lemma reached_fates [simp]: "reached k i p (s\<lparr>as_fates := x\<rparr>) = reached k i p s"
  by (simp add: reached_def)

lemma lifecycle_put:
  "lifecycle k s \<Longrightarrow> d = bare_dir \<or> dir_sound k i d \<Longrightarrow> lifecycle k (put_attempt i d s)"
  by (auto simp: lifecycle_def)

lemma lifecycle_drop: "lifecycle k s \<Longrightarrow> lifecycle k (drop_attempt i s)"
  by (auto simp: lifecycle_def split: if_splits)

section \<open>Durable writes\<close>

lemma durable_cases:
  assumes "durable f s = (r, t)"
  obtains (written) rest where "r = Inr ()" "t = f (s\<lparr>as_fates := rest\<rparr>)"
  | (refused) fault rest where "r = Inl fault" "t = s\<lparr>as_fates := rest\<rparr>"
proof (cases "as_fates s")
  case Nil
  have same: "s\<lparr>as_fates := []\<rparr> = s" using Nil by simp
  have "r = Inr ()" "t = f s" using assms Nil by (auto simp: durable_def)
  then show ?thesis using written [of "[]"] unfolding same by blast
next
  case (Cons x rest)
  then show ?thesis using assms written [of rest] refused [of _ rest]
    by (cases x) (auto simp: durable_def)
qed

lemma st_context_iff [result_simps]:
  "st_context m a f s = (Inr x, t) \<longleftrightarrow> f s = (Inr x, t)"
  "st_context m a f s = (Inl e, t) \<longleftrightarrow> (\<exists>d. f s = (Inl d, t) \<and> e = context_fault m a d)"
  by (auto simp: st_context_def result_simps split: prod.splits)

lemma st_context_state: "st_context m a f s = (r, t) \<Longrightarrow> \<exists>q. f s = (q, t)"
  by (auto simp: st_context_def split: prod.splits)

lemma failing_Inr [result_simps]: "failing r = Inr x \<longleftrightarrow> r = Inr x"
  by (simp add: failing_def result_simps)

lemma failing_Inl [result_simps]: "failing r = Inl f \<longleftrightarrow> (\<exists>e. r = Inl e \<and> f = Failed e)"
  by (auto simp: failing_def result_simps)

lemma triple_context:
  "triple P m Q (\<lambda>_. E) \<Longrightarrow> triple P (st_context c a m) Q (\<lambda>_. E)"
  by (rule tripleI) (auto simp: result_simps dest: triple_Inr triple_Inl)

lemma triple_durable:
  assumes "\<And>s x. P s \<Longrightarrow> Q () (f (s\<lparr>as_fates := x\<rparr>))" and "\<And>s x. P s \<Longrightarrow> E (s\<lparr>as_fates := x\<rparr>)"
  shows "triple P (durable f) Q (\<lambda>_. E)"
  by (rule tripleI) (use assms in \<open>auto elim!: durable_cases\<close>)

lemma triple_write_toml:
  assumes "\<And>s x t. P s \<Longrightarrow> body = Some t \<Longrightarrow>
      Q () (put_attempt i (set_file (attempt_dir_of s i) (Bytes t)) (s\<lparr>as_fates := x\<rparr>))"
    and "\<And>s x. P s \<Longrightarrow> E (s\<lparr>as_fates := x\<rparr>)" and "\<And>s. P s \<Longrightarrow> E s"
  shows "triple P (write_toml name set_file body i) Q (\<lambda>_. E)"
proof (cases body)
  case None
  then show ?thesis using assms(3) by (auto simp: write_toml_def intro: triple_fail)
next
  case (Some t)
  have "triple P (st_context ''writing {}'' [name]
      (durable (\<lambda>s. put_attempt i (set_file (attempt_dir_of s i) (Bytes t)) s))) Q (\<lambda>_. E)"
    using Some assms(1,2) by (intro triple_context triple_durable) simp_all
  then show ?thesis using Some by (simp add: write_toml_def)
qed

lemma triple_require: "(\<And>s. P s \<Longrightarrow> E s) \<Longrightarrow> triple P (require i) (\<lambda>_. P) (\<lambda>_. E)"
  unfolding require_def by (rule triple_read) (auto split: if_splits)

section \<open>Every operation keeps the invariant\<close>

lemma reached_put:
  assumes "reached k i p s" and "dir_sound k i d" and "phase_file q d \<noteq> NotFound"
  shows "reached k i q (put_attempt i d s)"
  using assms by (auto simp: reached_def intro!: lifecycle_put)

lemma triple_record:
  assumes "\<And>d t. dir_sound k i d \<Longrightarrow> phase_file p d \<noteq> NotFound \<Longrightarrow> body = Some t \<Longrightarrow>
      dir_sound k i (set_file d (Bytes t)) \<and> phase_file q (set_file d (Bytes t)) \<noteq> NotFound"
  shows "triple (reached k i p) (st_then (require i) (\<lambda>_. write_toml name set_file body i))
    (\<lambda>_. reached k i q) (\<lambda>_. lifecycle k)"
proof (rule triple_then)
  show "triple (reached k i p) (require i) (\<lambda>_. reached k i p) (\<lambda>_. lifecycle k)"
    by (rule triple_require) (rule reached_lifecycle)
  show "triple (reached k i p) (write_toml name set_file body i) (\<lambda>_. reached k i q) (\<lambda>_. lifecycle k)"
  proof (rule triple_write_toml)
    fix s x t
    assume r: "reached k i p s" and b: "body = Some t"
    then obtain d where "map_of (as_dirs s) i = Some d" "dir_sound k i d" "phase_file p d \<noteq> NotFound"
      by (auto simp: reached_def)
    then show "reached k i q (put_attempt i (set_file (attempt_dir_of s i) (Bytes t)) (s\<lparr>as_fates := x\<rparr>))"
      using assms [of d t] b r by (intro reached_put [of k i p]) simp_all
  qed (auto simp: reached_lifecycle)
qed

lemma codec_prints:
  assumes "orka_codec_faithful k"
  shows "attempt_to_toml k r = Some t \<Longrightarrow> file_holds (attempt_of_toml k) (Bytes t) r"
    and "workspace_to_toml k w = Some t \<Longrightarrow> file_holds (workspace_of_toml k) (Bytes t) w"
    and "request_to_toml k q = Some t \<Longrightarrow> file_holds (request_of_toml k) (Bytes t) q"
    and "report_to_toml k e = Some t \<Longrightarrow> file_holds (report_of_toml k) (Bytes t) e"
    and "seal_to_toml k x = Some t \<Longrightarrow> file_holds (seal_of_toml k) (Bytes t) x"
  using assms by (auto simp: orka_codec_faithful_def intro: file_holds_printed)

lemmas dir_sound_defs = dir_sound_def record_sound_def seal_sound_def lifecycle_order_def readable_def

lemma plan_workspace_triple:
  assumes "orka_codec_faithful k"
  shows "triple (reached k i Created) (plan_workspace k i w) (\<lambda>_. reached k i WorkspacePlanned) (\<lambda>_. lifecycle k)"
  unfolding plan_workspace_def
  by (rule triple_record) (use codec_prints(2) [OF assms] in \<open>auto simp: dir_sound_defs\<close>)

lemma mark_prepared_triple:
  "triple (reached k i WorkspacePlanned) (mark_prepared i) (\<lambda>_. reached k i Prepared) (\<lambda>_. lifecycle k)"
  unfolding mark_prepared_def by (rule triple_record) (auto simp: dir_sound_defs)

lemma record_request_triple:
  assumes "orka_codec_faithful k"
  shows "triple (reached k i Prepared) (record_request k i spec) (\<lambda>_. reached k i Requested) (\<lambda>_. lifecycle k)"
  unfolding record_request_def
  by (rule triple_record) (use codec_prints(3) [OF assms] in \<open>auto simp: dir_sound_defs\<close>)

lemma record_evidence_triple:
  assumes "orka_codec_faithful k"
  shows "triple (reached k i Requested) (record_evidence k i report) (\<lambda>_. reached k i Executed) (\<lambda>_. lifecycle k)"
  unfolding record_evidence_def
  by (rule triple_record) (use codec_prints(4) [OF assms] in \<open>auto simp: dir_sound_defs\<close>)

lemma seal_triple:
  assumes "orka_codec_faithful k"
  shows "triple (reached k i p) (seal k now i state) (\<lambda>_. reached k i Sealed) (\<lambda>_. lifecycle k)"
proof -
  let ?new = "\<lparr>sr_schema = SEAL_SCHEMA, sr_sealed_at_ms = now, sr_state = state\<rparr>"
  let ?at = "\<lambda>f s. reached k i p s \<and> f = ad_seal (attempt_dir_of s i)"
  have writing: "triple (?at f) (write_toml ''seal.toml'' (\<lambda>d f. d\<lparr>ad_seal := f\<rparr>) (seal_to_toml k ?new) i)
      (\<lambda>_. reached k i Sealed) (\<lambda>_. lifecycle k)" for f
  proof (rule triple_write_toml)
    fix s x t
    assume at: "?at f s" and t: "seal_to_toml k ?new = Some t"
    then obtain d where d: "map_of (as_dirs s) i = Some d" "dir_sound k i d" by (auto simp: reached_def)
    have "file_holds (seal_of_toml k) (Bytes t) ?new" by (rule codec_prints(5) [OF assms t])
    then have "dir_sound k i (d\<lparr>ad_seal := Bytes t\<rparr>)" using d(2)
      by (auto simp: dir_sound_defs intro!: exI [of _ ?new])
    then show "reached k i Sealed (put_attempt i ((attempt_dir_of s i)\<lparr>ad_seal := Bytes t\<rparr>) (s\<lparr>as_fates := x\<rparr>))"
      using at d(1) by (auto intro!: reached_put [of k i p])
  qed (auto simp: reached_lifecycle)
  have already: "triple (?at f) (st_read (\<lambda>_. failing (sealed_already k i state f)))
      (\<lambda>_. reached k i Sealed) (\<lambda>_. lifecycle k)" if "present f" for f
    using that by (intro triple_read) (auto simp: reached_def)
  show ?thesis unfolding seal_def
    by (intro triple_then [OF triple_require] triple_then [where R = ?at] triple_read triple_if already
        triple_then [OF writing] triple_return Let_def)
      (auto simp: reached_lifecycle Let_def intro!: triple_then [OF writing] triple_return)
qed

lemma create_triple:
  assumes "orka_codec_faithful k"
  shows "triple (\<lambda>s. lifecycle k s) (create_attempt k now i input)
    (\<lambda>r s. reached k i Created s \<and> at_id r = i \<and> at_input r = input) (\<lambda>_. lifecycle k)"
proof -
  let ?new = "\<lparr>at_schema = ATTEMPT_SCHEMA, at_id = i, at_created_at_ms = now, at_input = input\<rparr>"
  let ?bare = "\<lambda>s. lifecycle k s \<and> map_of (as_dirs s) i = Some bare_dir"
  have mkdir: "triple (lifecycle k) (st_context ''creating {}'' [i] (durable (put_attempt i bare_dir)))
      (\<lambda>_. ?bare) (\<lambda>_. lifecycle k)"
    by (rule triple_context, rule triple_durable) (auto intro: lifecycle_put)
  have writing: "triple ?bare (write_toml ''attempt.toml'' (\<lambda>d f. d\<lparr>ad_attempt := f\<rparr>) (attempt_to_toml k ?new) i)
      (\<lambda>_. reached k i Created) (\<lambda>_. lifecycle k)"
  proof (rule triple_write_toml)
    fix s x t
    assume bare: "?bare s" and t: "attempt_to_toml k ?new = Some t"
    have "dir_sound k i (bare_dir\<lparr>ad_attempt := Bytes t\<rparr>)"
      using codec_prints(1) [OF assms t] by (auto simp: dir_sound_defs bare_dir_def intro!: exI [of _ ?new])
    then show "reached k i Created (put_attempt i ((attempt_dir_of s i)\<lparr>ad_attempt := Bytes t\<rparr>) (s\<lparr>as_fates := x\<rparr>))"
      using bare by (auto simp: reached_def intro: lifecycle_put)
  qed auto
  show ?thesis unfolding create_attempt_def Let_def
    by (rule triple_then [where R = "\<lambda>_. lifecycle k"], rule triple_read)
      (auto split: if_splits intro!: triple_then [OF mkdir] triple_then [OF writing] triple_return)
qed

lemma io_dir_triple: "triple (reached k i p) (io_dir i) (\<lambda>_. reached k i p) (\<lambda>_. lifecycle k)"
  unfolding io_dir_def by (rule triple_context, rule triple_durable) (auto simp: reached_lifecycle)

lemma discard_triples:
  "triple (lifecycle k) (discard_without_evidence k i) (\<lambda>_. lifecycle k) (\<lambda>_. lifecycle k)"
  "triple (lifecycle k) (discard_registered k i) (\<lambda>_. lifecycle k) (\<lambda>_. lifecycle k)"
  unfolding discard_without_evidence_def discard_registered_def
  by (rule triple_then [where R = "\<lambda>_. lifecycle k"], rule triple_read,
      auto intro!: triple_if triple_fail triple_context triple_durable lifecycle_drop)+

section \<open>What no operation changes\<close>

text \<open>
  A seal that does not mean the work is registered in Linka stays where it is, byte for byte, whatever
  runs afterwards; and the operations on one attempt leave the others alone.
\<close>

definition unregistered_seal :: "orka_codec \<Rightarrow> attempt_dir \<Rightarrow> bool" where
  "unregistered_seal k d \<longleftrightarrow>
     ad_seal d \<noteq> NotFound \<and> \<not> (\<exists>x. file_holds (seal_of_toml k) (ad_seal d) x \<and> registered (sr_state x))"

definition keeps_seals :: "orka_codec \<Rightarrow> attempt_store \<Rightarrow> attempt_store \<Rightarrow> bool" where
  "keeps_seals k s t \<longleftrightarrow>
     (\<forall>i d. map_of (as_dirs s) i = Some d \<and> unregistered_seal k d \<longrightarrow>
       (\<exists>d'. map_of (as_dirs t) i = Some d' \<and> ad_seal d' = ad_seal d))"

definition others_kept :: "attempt_id \<Rightarrow> attempt_store \<Rightarrow> attempt_store \<Rightarrow> bool" where
  "others_kept i s t \<longleftrightarrow>
     as_root t = as_root s \<and> (\<forall>j. j \<noteq> i \<longrightarrow> map_of (as_dirs t) j = map_of (as_dirs s) j)"

lemma unregistered_seal_cong: "ad_seal d' = ad_seal d \<Longrightarrow> unregistered_seal k d' = unregistered_seal k d"
  by (simp add: unregistered_seal_def)

lemma keeps_seals_order: "reflp (keeps_seals k)" "transp (keeps_seals k)"
proof -
  show "reflp (keeps_seals k)" by (auto simp: reflp_def keeps_seals_def)
  show "transp (keeps_seals k)"
  proof (rule transpI)
    fix s t u
    assume st: "keeps_seals k s t" and tu: "keeps_seals k t u"
    show "keeps_seals k s u"
      unfolding keeps_seals_def
    proof (intro allI impI)
      fix i d
      assume d: "map_of (as_dirs s) i = Some d \<and> unregistered_seal k d"
      then obtain d' where d': "map_of (as_dirs t) i = Some d'" "ad_seal d' = ad_seal d"
        using st by (auto simp: keeps_seals_def)
      then have "map_of (as_dirs t) i = Some d' \<and> unregistered_seal k d'"
        using d unregistered_seal_cong [OF d'(2)] by simp
      then have "\<exists>e. map_of (as_dirs u) i = Some e \<and> ad_seal e = ad_seal d'"
        using tu unfolding keeps_seals_def by blast
      then show "\<exists>d'. map_of (as_dirs u) i = Some d' \<and> ad_seal d' = ad_seal d"
        using d'(2) by simp
    qed
  qed
qed

lemma others_kept_order: "reflp (others_kept i)" "transp (others_kept i)"
  by (auto simp: reflp_def transp_def others_kept_def)

lemma keeps_seals_fates [simp]: "keeps_seals k s (t\<lparr>as_fates := x\<rparr>) = keeps_seals k s t"
  "keeps_seals k (s\<lparr>as_fates := x\<rparr>) t = keeps_seals k s t"
  by (simp_all add: keeps_seals_def)

lemma others_kept_fates [simp]: "others_kept i s (t\<lparr>as_fates := x\<rparr>) = others_kept i s t"
  "others_kept i (s\<lparr>as_fates := x\<rparr>) t = others_kept i s t"
  by (simp_all add: others_kept_def)

lemma others_kept_put:
  "others_kept i s (put_attempt i d (s\<lparr>as_fates := y\<rparr>))" "others_kept i s (drop_attempt i (s\<lparr>as_fates := y\<rparr>))"
  by (simp_all add: others_kept_def)

lemma keeps_seals_put:
  "(\<And>d. map_of (as_dirs s) i = Some d \<Longrightarrow> unregistered_seal k d \<Longrightarrow> ad_seal d' = ad_seal d) \<Longrightarrow>
     keeps_seals k s (put_attempt i d' (s\<lparr>as_fates := y\<rparr>))"
  by (auto simp: keeps_seals_def)

lemma keeps_seals_drop:
  "(\<And>d. map_of (as_dirs s) i = Some d \<Longrightarrow> \<not> unregistered_seal k d) \<Longrightarrow>
     keeps_seals k s (drop_attempt i (s\<lparr>as_fates := y\<rparr>))"
  by (auto simp: keeps_seals_def)

lemma within_context: "within R f \<Longrightarrow> within R (st_context m a f)"
  by (rule withinI) (auto dest!: st_context_state withinD)

text \<open>The shape every operation has: a read-only guard, then writes that are relations \<open>R\<close>.\<close>

lemma guarded_durable:
  assumes run: "st_then (st_read f) (\<lambda>x. st_context (m x) (a x) (durable (g x))) s = (r, t)"
    and written: "\<And>x y. f s = Inr x \<Longrightarrow> R s (g x (s\<lparr>as_fates := y\<rparr>))"
    and fates: "\<And>y. R s (s\<lparr>as_fates := y\<rparr>)"
  shows "R s t"
proof (cases "f s")
  case (Inl e)
  then have "t = s" using run by (auto simp: st_then_def st_read_def)
  then show ?thesis using fates [of "as_fates s"] by simp
next
  case (Inr x)
  then have "st_context (m x) (a x) (durable (g x)) s = (r, t)" using run by (simp add: st_then_def st_read_def)
  then obtain q where "durable (g x) s = (q, t)" by (auto dest: st_context_state)
  then show ?thesis by (cases rule: durable_cases) (use written Inr fates in auto)
qed

lemma write_toml_moves:
  assumes "write_toml name set_file body i s = (r, t)"
    and "\<And>y b. R s (put_attempt i (set_file (attempt_dir_of s i) b) (s\<lparr>as_fates := y\<rparr>))"
    and "\<And>y. R s (s\<lparr>as_fates := y\<rparr>)" and "R s s"
  shows "R s t"
proof (cases body)
  case None
  then show ?thesis using assms by (auto simp: write_toml_def st_fail_def)
next
  case (Some b)
  then obtain q where "durable (\<lambda>s. put_attempt i (set_file (attempt_dir_of s i) (Bytes b)) s) s = (q, t)"
    using assms(1) by (auto simp: write_toml_def dest: st_context_state)
  then show ?thesis
    by (cases rule: durable_cases) (use assms(2) [of "Bytes b"] assms(3) in auto)
qed

lemma record_moves:
  assumes "\<And>d b. ad_seal (set_file d b) = ad_seal d"
  shows "within (keeps_seals k) (write_toml name set_file body i)"
    and "within (others_kept i) (write_toml name set_file body i)"
proof -
  show "within (keeps_seals k) (write_toml name set_file body i)"
    by (rule withinI, erule write_toml_moves)
      (auto intro!: keeps_seals_put simp: assms reflpD [OF keeps_seals_order(1)])
  show "within (others_kept i) (write_toml name set_file body i)"
    by (rule withinI, erule write_toml_moves)
      (auto simp: others_kept_put reflpD [OF others_kept_order(1)])
qed

lemma require_moves: "reflp R \<Longrightarrow> within R (require i)"
  unfolding require_def by (rule within_read)

lemma record_op_moves:
  assumes "\<And>d b. ad_seal (set_file d b) = ad_seal d"
  shows "within (keeps_seals k) (st_then (require i) (\<lambda>_. write_toml name set_file body i))"
    and "within (others_kept i) (st_then (require i) (\<lambda>_. write_toml name set_file body i))"
  by (intro within_then keeps_seals_order others_kept_order require_moves record_moves assms)+

lemma seal_moves: "within (keeps_seals k) (seal k' now i state)" "within (others_kept i) (seal k' now i state)"
proof -
  have cases: "t = s \<or> (ad_seal (attempt_dir_of s i) = NotFound \<and>
      (\<exists>y. t = s\<lparr>as_fates := y\<rparr> \<or> (\<exists>b. t = put_attempt i ((attempt_dir_of s i)\<lparr>ad_seal := b\<rparr>) (s\<lparr>as_fates := y\<rparr>))))"
    if run: "seal k' now i state s = (r, t)" for s r t
  proof (cases "store_contains s i \<and> ad_seal (attempt_dir_of s i) = NotFound")
    case True
    let ?text = "seal_to_toml k' \<lparr>sr_schema = SEAL_SCHEMA, sr_sealed_at_ms = now, sr_state = state\<rparr>"
    obtain q where "write_toml ''seal.toml'' (\<lambda>d f. d\<lparr>ad_seal := f\<rparr>) ?text i s = (q, t)"
      using run True
      by (auto simp: seal_def st_then_def st_read_def st_return_def require_def store_contains_def Let_def
          split: prod.splits sum.splits)
    then show ?thesis using True
      by (elim write_toml_moves) (auto intro: exI [of _ "as_fates s"])
  next
    case False
    then show ?thesis using run
      by (auto simp: seal_def st_then_def st_read_def require_def store_contains_def split: if_splits sum.splits)
  qed
  show "within (keeps_seals k) (seal k' now i state)"
  proof (rule withinI)
    fix s r t
    assume "seal k' now i state s = (r, t)"
    from cases [OF this] show "keeps_seals k s t"
      by (auto simp: unregistered_seal_def reflpD [OF keeps_seals_order(1)] intro!: keeps_seals_put)
  qed
  show "within (others_kept i) (seal k' now i state)"
  proof (rule withinI)
    fix s r t
    assume "seal k' now i state s = (r, t)"
    from cases [OF this] show "others_kept i s t"
      by (auto simp: others_kept_put reflpD [OF others_kept_order(1)])
  qed
qed

lemma create_moves:
  "within (keeps_seals k) (create_attempt k' now i input)" "within (others_kept i) (create_attempt k' now i input)"
proof -
  let ?mk = "st_then (st_read (\<lambda>s. if map_of (as_dirs s) i \<noteq> None
      then Inl (Failed (Bail ''attempt `{}` already exists'' [i])) else Inr ()))
      (\<lambda>_. st_context ''creating {}'' [i] (durable (put_attempt i bare_dir)))"
  let ?new = "\<lparr>at_schema = ATTEMPT_SCHEMA, at_id = i, at_created_at_ms = now, at_input = input\<rparr>"
  let ?tail = "\<lambda>_::unit. st_then (write_toml ''attempt.toml'' (\<lambda>d f. d\<lparr>ad_attempt := f\<rparr>) (attempt_to_toml k' ?new) i)
      (\<lambda>_. st_return ?new)"
  have shape: "create_attempt k' now i input = st_then ?mk ?tail"
    by (rule ext) (auto simp: create_attempt_def st_then_def st_read_def Let_def split: prod.splits sum.splits)
  have "within (keeps_seals k) ?mk"
    by (rule withinI, erule guarded_durable)
      (auto simp: reflpD [OF keeps_seals_order(1)] intro!: keeps_seals_put split: if_splits)
  then show "within (keeps_seals k) (create_attempt k' now i input)" unfolding shape
    by (rule within_then [OF keeps_seals_order(2)])
      (intro within_then keeps_seals_order record_moves within_return, simp)
  have "within (others_kept i) ?mk"
    by (rule withinI, erule guarded_durable) (auto simp: others_kept_put reflpD [OF others_kept_order(1)])
  then show "within (others_kept i) (create_attempt k' now i input)" unfolding shape
    by (rule within_then [OF others_kept_order(2)])
      (intro within_then others_kept_order record_moves within_return, simp)
qed

lemma discard_moves:
  "within (keeps_seals k) (discard_without_evidence k i)" "within (keeps_seals k) (discard_registered k i)"
  "within (others_kept i) (discard_without_evidence k i)" "within (others_kept i) (discard_registered k i)"
proof -
  have dropped: "t = s \<or> (\<exists>y n. load_attempt k s i = Inr n \<and> \<not> b n \<and>
      (t = s\<lparr>as_fates := y\<rparr> \<or> t = drop_attempt i (s\<lparr>as_fates := y\<rparr>)))"
    if run: "st_then (st_read (\<lambda>s. failing (load_attempt k s i))) (\<lambda>n. if b n then st_fail (e n)
       else st_context c a (durable (drop_attempt i))) s = (r, t)" for b e c a s r t
  proof (cases "load_attempt k s i")
    case (Inr n)
    show ?thesis
    proof (cases "b n")
      case False
      then obtain q where "durable (drop_attempt i) s = (q, t)"
        using run Inr by (auto simp: st_then_def st_read_def failing_def dest: st_context_state)
      then show ?thesis using Inr False by (cases rule: durable_cases) auto
    qed (use run Inr in \<open>auto simp: st_then_def st_read_def failing_def st_fail_def\<close>)
  qed (use run in \<open>auto simp: st_then_def st_read_def failing_def\<close>)
  have seals: "keeps_seals k s t"
    if "t = s \<or> (\<exists>y n. load_attempt k s i = Inr n \<and> \<not> b n \<and>
      (t = s\<lparr>as_fates := y\<rparr> \<or> t = drop_attempt i (s\<lparr>as_fates := y\<rparr>)))"
      and "\<And>n. load_attempt k s i = Inr n \<Longrightarrow> \<not> b n \<Longrightarrow> \<not> unregistered_seal k (attempt_dir_of s i)" for s t b
    using that by (auto simp: reflpD [OF keeps_seals_order(1)] intro!: keeps_seals_drop)
  show "within (keeps_seals k) (discard_without_evidence k i)"
    unfolding discard_without_evidence_def
    by (rule withinI, rule seals, erule dropped)
      (auto simp: unregistered_seal_def load_attempt_files)
  show "within (keeps_seals k) (discard_registered k i)"
    unfolding discard_registered_def
    by (rule withinI, rule seals, erule dropped)
      (auto simp: unregistered_seal_def dest: load_attempt_seal split: option.splits)
  show "within (others_kept i) (discard_without_evidence k i)" "within (others_kept i) (discard_registered k i)"
    unfolding discard_without_evidence_def discard_registered_def
    by (rule withinI, drule dropped, auto simp: others_kept_put reflpD [OF others_kept_order(1)])+
qed

lemma io_dir_moves: "reflp R \<Longrightarrow> (\<And>s y. R s (s\<lparr>as_fates := y\<rparr>)) \<Longrightarrow> within R (io_dir i)"
  unfolding io_dir_def by (rule within_context, rule withinI) (auto elim!: durable_cases)

section \<open>A concrete codec\<close>

text \<open>A codec for finitely many values, each printed as a text that tells its place in a table.\<close>

definition line_print :: "'a list \<Rightarrow> 'a \<Rightarrow> string option" where
  "line_print xs x = map_option ((#) (CHR ''-'')) (table_print xs x)"

definition line_parse :: "'a list \<Rightarrow> string \<Rightarrow> 'a option" where
  "line_parse xs s = (case s of [] \<Rightarrow> None | c # t \<Rightarrow> table_parse xs t)"

definition orka_table ::
  "attempt_record list \<Rightarrow> prepared_workspace list \<Rightarrow> execution_spec list \<Rightarrow> execution_report list \<Rightarrow>
   seal_record list \<Rightarrow> declared_outcome list \<Rightarrow> access_event list \<Rightarrow> file_change_checkpoint list \<Rightarrow> orka_codec" where
  "orka_table as ws qs es ss os vs cs =
     \<lparr>attempt_to_toml = table_print as, attempt_of_toml = table_parse as,
      workspace_to_toml = table_print ws, workspace_of_toml = table_parse ws,
      request_to_toml = table_print qs, request_of_toml = table_parse qs,
      report_to_toml = table_print es, report_of_toml = table_parse es,
      seal_to_toml = table_print ss, seal_of_toml = table_parse ss,
      outcome_of_toml = table_parse os,
      access_to_json = line_print vs, access_of_json = line_parse vs,
      checkpoint_of_json = line_parse cs, ulid_ok = (\<lambda>u. length u = 26)\<rparr>"

lemma table_prints_back: "prints_back (table_print xs) (table_parse xs)"
  by (simp add: prints_back_def table_print_parse)

lemma line_table_prints_back: "line_prints_back (line_print xs) (line_parse xs)"
proof -
  have "utf8_valid (CHR ''-'' # t)" if "utf8_valid t" for t using that by simp
  moreover have "set t \<subseteq> {CHR ''x''}" if "table_print xs x = Some t" for t x
    using that by (auto simp: table_print_def split: if_splits)
  ultimately show ?thesis
    by (fastforce simp: line_prints_back_def prints_back_def line_print_def line_parse_def
        dest: table_print_parse)
qed

lemma orka_table_faithful: "orka_codec_faithful (orka_table as ws qs es ss os vs cs)"
  by (simp add: orka_codec_faithful_def orka_table_def table_prints_back line_table_prints_back)

section \<open>Properties\<close>

text \<open>
  C33. The audit is exact. \<open>audit\<close> reports nothing if and only if every attempt directory bears a
  valid name, its record parses under the current schema and names the directory, every other record
  file that exists parses (the seal under its schema), and the files stand in the order of the
  lifecycle: no prepared marker without a plan, no request without the marker, no evidence without a
  request.
\<close>

theorem audit_exact:
  "audit k s = [] \<longleftrightarrow>
     list_all (\<lambda>i. valid_attempt_name k i \<and> dir_sound k i (attempt_dir_of s i)) (map fst (as_dirs s))"
  by (simp add: audit_def list_attempts_def attempt_problems_Nil list_all_iff)

lemma sealed_holds:
  assumes "orka_codec_faithful k" and "seal k now i state s = (Inr x, t)"
  shows "sr_state x = state \<and> sr_schema x = SEAL_SCHEMA \<and>
    file_holds (seal_of_toml k) (ad_seal (attempt_dir_of t i)) x \<and>
    ad_attempt (attempt_dir_of t i) \<noteq> NotFound \<and> (ad_seal (attempt_dir_of s i) \<noteq> NotFound \<longrightarrow> t = s)"
proof -
  have known: "ad_attempt (attempt_dir_of s i) \<noteq> NotFound"
    using assms(2) by (auto simp: seal_def require_def result_simps split: if_splits)
  show ?thesis
  proof (cases "ad_seal (attempt_dir_of s i) = NotFound")
    case True
    let ?new = "\<lparr>sr_schema = SEAL_SCHEMA, sr_sealed_at_ms = now, sr_state = state\<rparr>"
    obtain b where b: "seal_to_toml k ?new = Some b" and x: "x = ?new"
      and written: "durable (\<lambda>s. put_attempt i ((attempt_dir_of s i)\<lparr>ad_seal := Bytes b\<rparr>) s) s = (Inr (), t)"
      using assms(2) True
      by (auto simp: seal_def require_def result_simps Let_def write_toml_def split: if_splits option.splits)
    from written have "attempt_dir_of t i = (attempt_dir_of s i)\<lparr>ad_seal := Bytes b\<rparr>"
      by (cases rule: durable_cases) auto
    then show ?thesis using codec_prints(5) [OF assms(1) b] x known True by simp
  next
    case False
    then show ?thesis using assms(2) known
      by (auto simp: seal_def require_def result_simps sealed_already_def split: if_splits)
  qed
qed


definition tiny_seal :: seal_record where
  "tiny_seal = \<lparr>sr_schema = 1, sr_sealed_at_ms = 7, sr_state = FailureRecorded\<rparr>"

definition tiny_codec :: orka_codec where
  "tiny_codec = orka_table [] [] [] [] [tiny_seal] [] [] []"

definition tiny_store :: attempt_store where
  "tiny_store = \<lparr>as_root = ''/w/.orka'',
     as_dirs = [(''attempt-1'', bare_dir\<lparr>ad_attempt := Bytes []\<rparr>)], as_fates = []\<rparr>"


end
