(* ===== verification/Orka_Access.thy ===== *)
theory Orka_Access
  imports Orka_Attempt_Spec Linka_Ids
begin

text \<open>
  The journals of one execution: the file reads the harness observed (\<open>orka/src/access.rs\<close>) and the
  checkpoints of file changes (\<open>read_checkpoints\<close> and \<open>project_path\<close> of
  \<open>orka/src/file_changes.rs\<close>). A journal is a text of JSON lines. The watcher's thread is the
  function \<open>watch_loop\<close> over what each reading of the kernel queue answers, with the value of the
  \<open>done\<close> flag the thread sees in that round; the registration of watches is a parameter.
\<close>

section \<open>Summaries\<close>

definition ACCESS_SCHEMA :: nat where "ACCESS_SCHEMA = 1"
definition FILE_CHANGE_SCHEMA :: nat where "FILE_CHANGE_SCHEMA = 1"

record observed_read =
  or_path :: string
  or_at_ms :: int

record access_summary =
  sm_method :: string
  sm_reads :: "observed_read list"
  sm_complete :: bool
  sm_reason :: "string option"

definition empty_summary :: access_summary where
  "empty_summary = \<lparr>sm_method = [], sm_reads = [], sm_complete = False, sm_reason = None\<rparr>"

fun first_seen :: "string list \<Rightarrow> string list \<Rightarrow> string list" where
  "first_seen seen [] = []"
| "first_seen seen (p # ps) = (if p \<in> set seen then first_seen seen ps else p # first_seen (p # seen) ps)"

definition distinct_paths :: "access_summary \<Rightarrow> string list" where
  "distinct_paths summary = first_seen [] (map or_path (sm_reads summary))"

text \<open>The loop over the lines: the summary so far, and whether the lifecycle records were seen.\<close>

fun read_events ::
  "string \<Rightarrow> access_event res list \<Rightarrow> access_summary \<times> bool \<times> bool \<Rightarrow> (access_summary \<times> bool \<times> bool) res" where
  "read_events source [] acc = Inr acc"
| "read_events source (Inl e # rest) acc = Inl e"
| "read_events source (Inr (TrackingStarted schema how) # rest) (summary, started, finished) =
     (if schema \<noteq> ACCESS_SCHEMA
      then bail ''unsupported access journal schema {} in {}'' [show_nat schema, source]
      else read_events source rest (summary\<lparr>sm_method := how\<rparr>, True, finished))"
| "read_events source (Inr (FileRead path at_ms) # rest) (summary, started, finished) =
     read_events source rest
       (summary\<lparr>sm_reads := sm_reads summary @ [\<lparr>or_path = path, or_at_ms = at_ms\<rparr>]\<rparr>, started, finished)"
| "read_events source (Inr (TrackingFinished complete reason) # rest) (summary, started, finished) =
     read_events source rest (summary\<lparr>sm_complete := complete, sm_reason := reason\<rparr>, started, True)"

definition parse_line :: "orka_codec \<Rightarrow> string \<Rightarrow> string \<Rightarrow> access_event res" where
  "parse_line k source line =
     and_then (with_context ''reading {}'' [source] (utf8_text line)) (\<lambda>text.
     with_context ''parsing {}'' [source] (ok_or (Bail ''json parse error'' []) (access_of_json k text)))"

definition read_access_summary_from :: "orka_codec \<Rightarrow> string \<Rightarrow> string \<Rightarrow> access_summary res" where
  "read_access_summary_from k source content =
     map_ok (\<lambda>(summary, started, finished).
       if \<not> started \<or> \<not> finished
       then summary\<lparr>sm_complete := False, sm_reason := Some ''access journal is missing lifecycle records''\<rparr>
       else summary)
       (read_events source (map (parse_line k source) (lines content)) (empty_summary, False, False))"

definition read_access_summary :: "orka_codec \<Rightarrow> string \<Rightarrow> fs_file \<Rightarrow> access_summary res" where
  "read_access_summary k path f =
     and_then (with_context ''opening {}'' [path] (read_bytes f)) (read_access_summary_from k path)"

definition read_access_summary_bytes :: "orka_codec \<Rightarrow> string \<Rightarrow> access_summary res" where
  "read_access_summary_bytes k content = read_access_summary_from k ''attached access journal'' content"

section \<open>Writing a journal\<close>

definition write_events :: "orka_codec \<Rightarrow> access_event list \<Rightarrow> string option" where
  "write_events k events =
     (case those (map (access_to_json k) events) of
        None \<Rightarrow> None
      | Some texts \<Rightarrow> Some (concat (map (\<lambda>t. t @ [CHR 0x0A]) texts)))"

definition summary_events ::
  "string \<Rightarrow> string list \<Rightarrow> int \<Rightarrow> bool \<Rightarrow> string option \<Rightarrow> access_event list" where
  "summary_events how reads at_ms complete reason =
     TrackingStarted ACCESS_SCHEMA how # map (\<lambda>p. FileRead p at_ms) reads @ [TrackingFinished complete reason]"

definition write_access_summary ::
  "orka_codec \<Rightarrow> string \<Rightarrow> string list \<Rightarrow> int \<Rightarrow> bool \<Rightarrow> string option \<Rightarrow> string option" where
  "write_access_summary k how reads at_ms complete reason =
     write_events k (summary_events how reads at_ms complete reason)"

section \<open>The watcher\<close>

record watch_event =
  we_overflow :: bool
  we_descriptor :: nat
  we_name :: "string option"
  we_isdir :: bool
  we_appeared :: bool
  we_accessed :: bool

datatype reading = Events "watch_event list" | WouldBlock | ReadError string

text \<open>\<open>project_path\<close> of access.rs: the project-relative path of an observed file.\<close>

definition access_project_path :: "(string \<Rightarrow> bool) \<Rightarrow> string \<Rightarrow> string \<Rightarrow> string option" where
  "access_project_path is_file root path =
     (case strip_path_prefix path root of
        None \<Rightarrow> None
      | Some relative \<Rightarrow>
          if relative = [] \<or> \<not> list_all (\<lambda>c. case c of Normal n \<Rightarrow> True | _ \<Rightarrow> False) (components relative) \<or>
             list_ex (\<lambda>c. c = Normal ''.git'') (components relative) \<or> \<not> is_file path
          then None
          else (case validate_project_path relative of Inl e \<Rightarrow> None | Inr p \<Rightarrow> Some p))"

type_synonym watches = "(nat \<times> string) list"

type_synonym watcher = "string option \<times> watches \<times> access_event list"

definition watch_event_step ::
  "(string \<Rightarrow> watches \<Rightarrow> string option \<times> watches) \<Rightarrow> (string \<Rightarrow> bool) \<Rightarrow> string \<Rightarrow> int \<Rightarrow>
   watch_event \<Rightarrow> watcher \<Rightarrow> watcher" where
  "watch_event_step add_tree is_file root now event acc =
     (case acc of (failure, watched, journal) \<Rightarrow>
        if we_overflow event then (Some ''inotify event queue overflowed'', watched, journal)
        else (case map_of watched (we_descriptor event) of
            None \<Rightarrow> (Some ''inotify returned an unknown watch descriptor'', watched, journal)
          | Some directory \<Rightarrow>
              let path = (case we_name event of None \<Rightarrow> directory | Some n \<Rightarrow> path_join directory n);
                  (failure, watched) =
                    (if we_isdir event \<and> we_appeared event
                     then (case add_tree path watched of
                             (None, watched') \<Rightarrow> (failure, watched')
                           | (Some e, watched') \<Rightarrow>
                               (Some (''could not watch new directory '' @ path @ '': '' @ e), watched'))
                     else (failure, watched));
                  journal =
                    (if we_accessed event
                     then (case access_project_path is_file root path of
                             None \<Rightarrow> journal | Some p \<Rightarrow> journal @ [FileRead p now])
                     else journal)
              in (failure, watched, journal)))"

text \<open>One round is the answer of a reading, the flag the thread then loads, and the clock. Rounds that
  never see the flag keep the thread running: the journal so far has no terminal record.\<close>

fun watch_loop ::
  "(string \<Rightarrow> watches \<Rightarrow> string option \<times> watches) \<Rightarrow> (string \<Rightarrow> bool) \<Rightarrow> string \<Rightarrow>
   (reading \<times> bool \<times> int) list \<Rightarrow> watcher \<Rightarrow> watcher option" where
  "watch_loop add_tree is_file root [] acc = None"
| "watch_loop add_tree is_file root ((Events events, finishing, now) # rest) acc =
     (let acc' = foldl (\<lambda>a e. watch_event_step add_tree is_file root now e a) acc events in
      if finishing \<and> events = [] then Some acc'
      else watch_loop add_tree is_file root rest acc')"
| "watch_loop add_tree is_file root ((WouldBlock, finishing, now) # rest) acc =
     (if finishing then Some acc else watch_loop add_tree is_file root rest acc)"
| "watch_loop add_tree is_file root ((ReadError e, finishing, now) # rest) (failure, watched, journal) =
     Some (Some (''inotify read failed: '' @ e), watched, journal)"

definition watch ::
  "(string \<Rightarrow> watches \<Rightarrow> string option \<times> watches) \<Rightarrow> (string \<Rightarrow> bool) \<Rightarrow> string \<Rightarrow> watches \<Rightarrow>
   (reading \<times> bool \<times> int) list \<Rightarrow> access_event list option" where
  "watch add_tree is_file root watched rounds =
     map_option (\<lambda>(failure, _, journal).
       TrackingStarted ACCESS_SCHEMA ''filesystem-watcher'' # journal @ [TrackingFinished (failure = None) failure])
       (watch_loop add_tree is_file root rounds (None, watched, []))"

section \<open>Checkpoints of file changes\<close>

definition decode_checkpoint :: "orka_codec \<Rightarrow> string \<Rightarrow> file_change_checkpoint res" where
  "decode_checkpoint k line =
     and_then (utf8_text line) (\<lambda>text.
     and_then (with_context ''decoding file-change checkpoint'' []
       (ok_or (Bail ''json parse error'' []) (checkpoint_of_json k text))) (\<lambda>checkpoint.
     if fc_schema checkpoint \<noteq> FILE_CHANGE_SCHEMA
     then bail ''unsupported file-change checkpoint schema {}'' [show_nat (fc_schema checkpoint)]
     else Inr checkpoint))"

definition read_checkpoints_from :: "orka_codec \<Rightarrow> string \<Rightarrow> file_change_checkpoint list res" where
  "read_checkpoints_from k content =
     collect (decode_checkpoint k) (filter (\<lambda>line. \<not> utf8_valid line \<or> trim line \<noteq> []) (lines content))"

definition read_checkpoints :: "orka_codec \<Rightarrow> string \<Rightarrow> fs_file \<Rightarrow> file_change_checkpoint list res" where
  "read_checkpoints k path f =
     (if f = NotFound then Inr []
      else and_then (with_context ''opening {}'' [path] (read_bytes f)) (read_checkpoints_from k))"

text \<open>The error of the first checkpoint that has one.\<close>

definition checkpoint_error :: "file_change_checkpoint list \<Rightarrow> string option" where
  "checkpoint_error cs = (case List.map_filter fc_error cs of [] \<Rightarrow> None | e # _ \<Rightarrow> Some e)"

definition backslashes_to_slashes :: "string \<Rightarrow> string" where
  "backslashes_to_slashes s = map (\<lambda>c. if c = CHR 0x5C then CHR ''/'' else c) s"

text \<open>\<open>project_path\<close> of file-changes.rs: an event's path inside the project.\<close>

definition change_project_path :: "string \<Rightarrow> string \<Rightarrow> string list \<Rightarrow> string \<Rightarrow> string option res" where
  "change_project_path workspace isolated ignored path =
     (if is_absolute path \<and> list_ex (path_eq path) ignored then Inr None
      else
      and_then
        (if is_absolute path
         then (case strip_path_prefix path isolated of
                 Some r \<Rightarrow> Inr r
               | None \<Rightarrow> with_context ''file-change path is outside the workspace: {}'' [path]
                   (ok_or (Bail ''prefix not found'' []) (strip_path_prefix path workspace)))
         else Inr path) (\<lambda>relative.
      if relative = [] \<or>
         list_ex (\<lambda>c. case c of Normal n \<Rightarrow> False | CurDir \<Rightarrow> False | _ \<Rightarrow> True) (components relative)
      then bail ''invalid workspace-relative file-change path: {}'' [path]
      else Inr (Some (backslashes_to_slashes relative))))"

definition file_change_record ::
  "nat \<Rightarrow> string \<Rightarrow> bool \<Rightarrow> string list res \<Rightarrow> (string list \<Rightarrow> string res) \<Rightarrow> file_change_checkpoint" where
  "file_change_record sequence event_id event_had_paths paths commit_of =
     (case paths of
        Inl e \<Rightarrow> \<lparr>fc_schema = FILE_CHANGE_SCHEMA, fc_sequence = sequence, fc_event_id = event_id, fc_paths = [],
           fc_commit = None, fc_error = Some (error_chain e)\<rparr>
      | Inr ps \<Rightarrow>
          if ps \<noteq> []
          then (case commit_of ps of
                  Inr commit \<Rightarrow> \<lparr>fc_schema = FILE_CHANGE_SCHEMA, fc_sequence = sequence, fc_event_id = event_id,
                     fc_paths = ps, fc_commit = Some commit, fc_error = None\<rparr>
                | Inl e \<Rightarrow> \<lparr>fc_schema = FILE_CHANGE_SCHEMA, fc_sequence = sequence, fc_event_id = event_id,
                     fc_paths = ps, fc_commit = None, fc_error = Some (error_chain e)\<rparr>)
          else if event_had_paths
          then \<lparr>fc_schema = FILE_CHANGE_SCHEMA, fc_sequence = sequence, fc_event_id = event_id, fc_paths = ps,
             fc_commit = None, fc_error = None\<rparr>
          else \<lparr>fc_schema = FILE_CHANGE_SCHEMA, fc_sequence = sequence, fc_event_id = event_id, fc_paths = ps,
             fc_commit = None, fc_error = Some ''file-change event contained no paths''\<rparr>)"

section \<open>Facts\<close>

lemma split_on_lines:
  "\<forall>l \<in> set ls. d \<notin> set l \<Longrightarrow> split_on d (concat (map (\<lambda>l. l @ [d]) ls)) = ls @ [[]]"
  by (induction ls) (auto simp: split_on_line)

lemma lines_of_lines:
  assumes "\<forall>l \<in> set ls. CHR 0x0A \<notin> set l \<and> CHR 0x0D \<notin> set l"
  shows "lines (concat (map (\<lambda>l. l @ [CHR 0x0A]) ls)) = ls"
proof -
  have "strip_cr l = l" if "l \<in> set ls" for l
    using assms that last_in_set [of l] by (auto simp: strip_cr_def simp del: last_in_set)
  then show ?thesis using assms by (simp add: lines_def split_on_lines Let_def map_idI)
qed

text \<open>Reading back what was written, whatever the events are.\<close>

lemma parse_written:
  assumes "orka_codec_faithful k" and "write_events k events = Some content"
  shows "map (parse_line k source) (lines content) = map Inr events"
proof -
  obtain texts where texts: "map (access_to_json k) events = map Some texts"
    and content: "content = concat (map (\<lambda>t. t @ [CHR 0x0A]) texts)"
    using assms(2) by (auto simp: write_events_def those_Some split: option.splits)
  have printed: "list_all2 (\<lambda>e t. access_to_json k e = Some t) events texts"
    using texts by (auto simp: list_all2_conv_all_nth) (metis length_map, metis length_map nth_map)
  have line: "CHR 0x0A \<notin> set t \<and> CHR 0x0D \<notin> set t \<and> parse_line k source t = Inr e"
    if "access_to_json k e = Some t" for e t
    using assms(1) that
    by (auto simp: orka_codec_faithful_def line_prints_back_def prints_back_def parse_line_def utf8_text_def)
  have "\<forall>t \<in> set texts. CHR 0x0A \<notin> set t \<and> CHR 0x0D \<notin> set t"
    using list_all2_source [OF printed] line by blast
  then have "lines content = texts" unfolding content by (rule lines_of_lines)
  moreover have "map (parse_line k source) texts = map Inr events"
    using printed by (induction rule: list_all2_induct) (auto simp: line)
  ultimately show ?thesis by simp
qed

lemma read_file_reads:
  "read_events source (map (\<lambda>p. Inr (FileRead p at_ms)) reads @ rest) (summary, started, finished) =
     read_events source rest
       (summary\<lparr>sm_reads := sm_reads summary @ map (\<lambda>p. \<lparr>or_path = p, or_at_ms = at_ms\<rparr>) reads\<rparr>, started, finished)"
  by (induction reads arbitrary: summary) simp_all

lemma first_seen_set: "set (first_seen seen ps) = set ps - set seen"
  by (induction seen ps rule: first_seen.induct) auto

lemma first_seen_distinct: "distinct (first_seen seen ps)"
  by (induction seen ps rule: first_seen.induct) (auto simp: first_seen_set)

section \<open>Facts about the watcher\<close>

text \<open>The events the thread took from the queue before it ended.\<close>

fun consumed :: "(reading \<times> bool \<times> int) list \<Rightarrow> watch_event list" where
  "consumed [] = []"
| "consumed ((Events events, finishing, now) # rest) =
     (if finishing \<and> events = [] then [] else events @ consumed rest)"
| "consumed ((WouldBlock, finishing, now) # rest) = (if finishing then [] else consumed rest)"
| "consumed ((ReadError e, finishing, now) # rest) = []"

definition watches_grow :: "(string \<Rightarrow> watches \<Rightarrow> string option \<times> watches) \<Rightarrow> bool" where
  "watches_grow add_tree \<longleftrightarrow>
     (\<forall>p w d x. map_of w d = Some x \<longrightarrow> map_of (snd (add_tree p w)) d = Some x)"

text \<open>What one step guarantees: a failure stays, watches and journal grow.\<close>

definition watcher_grows :: "watcher \<Rightarrow> watcher \<Rightarrow> bool" where
  "watcher_grows a b \<longleftrightarrow>
     (fst b = None \<longrightarrow> fst a = None) \<and> (\<forall>d x. map_of (fst (snd a)) d = Some x \<longrightarrow> map_of (fst (snd b)) d = Some x) \<and>
     set (snd (snd a)) \<subseteq> set (snd (snd b))"

lemma watcher_grows_refl: "watcher_grows a a"
  by (simp add: watcher_grows_def)

lemma watcher_grows_trans: "watcher_grows a b \<Longrightarrow> watcher_grows b c \<Longrightarrow> watcher_grows a c"
  by (auto simp: watcher_grows_def)

lemma watch_event_step_grows:
  assumes "watches_grow add_tree"
  shows "watcher_grows acc (watch_event_step add_tree is_file root now event acc)"
proof -
  obtain f w j where acc: "acc = (f, w, j)" by (cases acc)
  have kept: "map_of v d = Some x" if "add_tree p w = (e, v)" "map_of w d = Some x" for p e v d x
    using assms that by (metis snd_conv watches_grow_def)
  show ?thesis
  proof (cases "we_overflow event \<or> map_of w (we_descriptor event) = None")
    case True
    then show ?thesis by (auto simp: acc watch_event_step_def watcher_grows_def)
  next
    case False
    then obtain dir where dir: "map_of w (we_descriptor event) = Some dir" "\<not> we_overflow event" by auto
    define path where "path = (case we_name event of None \<Rightarrow> dir | Some n \<Rightarrow> path_join dir n)"
    obtain e v where tree: "add_tree path w = (e, v)" by (cases "add_tree path w")
    show ?thesis
      by (cases e; cases "access_project_path is_file root path"; cases "we_isdir event \<and> we_appeared event")
        (simp_all add: acc watch_event_step_def dir tree watcher_grows_def Let_def path_def [symmetric]
          kept [OF tree] subset_insertI)
  qed
qed

text \<open>What every event step and a reported failure preserve, the whole run preserves.\<close>

lemma watch_loop_invariant:
  assumes "\<And>now e a. I a \<Longrightarrow> I (watch_event_step add_tree is_file root now e a)"
    and "\<And>f w j m. I (f, w, j) \<Longrightarrow> I (Some m, w, j)"
    and "I acc" and "watch_loop add_tree is_file root rounds acc = Some acc'"
  shows "I acc'"
  using assms(3,4)
proof (induction rounds arbitrary: acc)
  case (Cons round rounds)
  obtain answer finishing now where round: "round = (answer, finishing, now)" by (cases round)
  show ?case
  proof (cases answer)
    case (Events xs)
    let ?mid = "foldl (\<lambda>a e. watch_event_step add_tree is_file root now e a) acc xs"
    have mid: "I ?mid" using Cons.prems(1) by (induction xs arbitrary: acc) (simp_all add: assms(1))
    have "?mid = acc' \<or> watch_loop add_tree is_file root rounds ?mid = Some acc'"
      using Cons.prems(2) unfolding round Events watch_loop.simps Let_def by (metis option.inject)
    then show ?thesis using mid Cons.IH by blast
  next
    case WouldBlock
    then show ?thesis using Cons round by (simp split: if_splits)
  next
    case (ReadError m)
    obtain f w j where "acc = (f, w, j)" by (cases acc)
    then show ?thesis using Cons.prems assms(2) round ReadError by auto
  qed
qed simp

lemma foldl_grows:
  assumes "watches_grow add_tree"
  shows "watcher_grows acc (foldl (\<lambda>a e. watch_event_step add_tree is_file root now e a) acc events)"
proof (induction events arbitrary: acc)
  case (Cons e events)
  show ?case unfolding foldl_Cons
    by (rule watcher_grows_trans [OF watch_event_step_grows [OF assms] Cons.IH])
qed (simp add: watcher_grows_refl)

lemma watch_loop_grows:
  assumes "watches_grow add_tree" and "watch_loop add_tree is_file root rounds acc = Some acc'"
  shows "watcher_grows acc acc'"
proof (rule watch_loop_invariant [where I = "watcher_grows acc", OF _ _ watcher_grows_refl assms(2)])
  show "watcher_grows acc (watch_event_step add_tree is_file root now e a)" if "watcher_grows acc a" for now e a
    using that watch_event_step_grows [OF assms(1)] by (rule watcher_grows_trans)
  show "watcher_grows acc (Some m, w, j)" if "watcher_grows acc (f, w, j)" for f w j m
    using that by (simp add: watcher_grows_def)
qed

lemma watch_event_step_records:
  assumes "map_of (fst (snd acc)) (we_descriptor event) = Some dir"
    and "fst (watch_event_step add_tree is_file root now event acc) = None"
  shows "\<not> we_overflow event \<and>
    (\<forall>p. we_accessed event \<longrightarrow>
       access_project_path is_file root (case we_name event of None \<Rightarrow> dir | Some n \<Rightarrow> path_join dir n) = Some p \<longrightarrow>
       FileRead p now \<in> set (snd (snd (watch_event_step add_tree is_file root now event acc))))"
proof -
  obtain f w j where acc: "acc = (f, w, j)" by (cases acc)
  show ?thesis using assms unfolding acc
    by (cases "we_overflow event") (simp_all add: watch_event_step_def Let_def split: prod.splits)
qed

lemma watch_loop_records:
  assumes "watches_grow add_tree" and "watch_loop add_tree is_file root rounds acc = Some acc'"
    and "event \<in> set (consumed rounds)" and "fst acc' = None" and "map_of (fst (snd acc)) (we_descriptor event) = Some dir"
  shows "\<not> we_overflow event \<and>
    (\<forall>p. we_accessed event \<longrightarrow>
       access_project_path is_file root (case we_name event of None \<Rightarrow> dir | Some n \<Rightarrow> path_join dir n) = Some p \<longrightarrow>
       (\<exists>t. FileRead p t \<in> set (snd (snd acc'))))"
  using assms(2,3,5)
proof (induction rounds arbitrary: acc)
  case (Cons round rounds)
  obtain answer finishing now where round: "round = (answer, finishing, now)" by (cases round)
  show ?case
  proof (cases answer)
    case (Events xs)
    let ?step = "\<lambda>a e. watch_event_step add_tree is_file root now e a"
    let ?mid = "foldl ?step acc xs"
    have goes: "\<not> (finishing \<and> xs = [])" using Cons.prems(2) round Events by auto
    have loop: "watch_loop add_tree is_file root rounds ?mid = Some acc'"
      using Cons.prems(1) goes unfolding round Events watch_loop.simps Let_def by (simp only: if_False)
    show ?thesis
    proof (cases "event \<in> set xs")
      case True
      then obtain es fs where xs: "xs = es @ event # fs" by (auto simp: in_set_conv_decomp)
      let ?before = "foldl ?step acc es"
      let ?after = "?step ?before event"
      have "watcher_grows ?after ?mid"
        using foldl_grows [OF assms(1), of ?after is_file root now fs] by (simp add: xs)
      then have after: "watcher_grows ?after acc'"
        using watch_loop_grows [OF assms(1) loop] by (rule watcher_grows_trans)
      have "map_of (fst (snd ?before)) (we_descriptor event) = Some dir"
        using foldl_grows [OF assms(1), of acc is_file root now es] Cons.prems(3) by (auto simp: watcher_grows_def)
      moreover have "fst ?after = None" using after assms(4) by (auto simp: watcher_grows_def)
      ultimately have "\<not> we_overflow event \<and>
          (\<forall>p. we_accessed event \<longrightarrow>
             access_project_path is_file root (case we_name event of None \<Rightarrow> dir | Some n \<Rightarrow> path_join dir n) = Some p \<longrightarrow>
             FileRead p now \<in> set (snd (snd ?after)))"
        by (rule watch_event_step_records)
      then show ?thesis using after unfolding watcher_grows_def by blast
    next
      case False
      then have "event \<in> set (consumed rounds)"
        using Cons.prems(2) goes unfolding round Events consumed.simps by (auto split: if_splits)
      moreover have "map_of (fst (snd ?mid)) (we_descriptor event) = Some dir"
        using foldl_grows [OF assms(1), of acc is_file root now xs] Cons.prems(3) by (auto simp: watcher_grows_def)
      ultimately show ?thesis using Cons.IH [OF loop] by blast
    qed
  next
    case WouldBlock
    then show ?thesis using Cons round by (simp split: if_splits)
  next
    case (ReadError m)
    then show ?thesis using Cons.prems(2) round by simp
  qed
qed simp

definition only_reads :: "watcher \<Rightarrow> bool" where
  "only_reads acc \<longleftrightarrow> (\<forall>e \<in> set (snd (snd acc)). \<exists>p t. e = FileRead p t)"

lemma watch_loop_only_reads:
  assumes "only_reads acc" and "watch_loop add_tree is_file root rounds acc = Some acc'"
  shows "only_reads acc'"
proof (rule watch_loop_invariant [where I = only_reads, OF _ _ assms])
  show "only_reads (watch_event_step add_tree is_file root now e a)" if "only_reads a" for now e a
    using that
    by (cases a) (auto simp: only_reads_def watch_event_step_def Let_def split: option.splits prod.splits if_splits)
  show "only_reads (Some m, w, j)" if "only_reads (f, w, j)" for f w j m
    using that by (simp add: only_reads_def)
qed

section \<open>Properties\<close>

text \<open>
  Access journals read back. The journal written for an execution is read as exactly the method,
  the reads in their order with their times, the completeness and the reason that were written; the
  distinct paths name each path that was read once. When the journal stops early, after any number of
  its lines, it still reads, but never as complete.
\<close>

theorem access_journal_roundtrip:
  assumes "orka_codec_faithful k"
    and "write_access_summary k how reads at_ms complete reason = Some content"
  shows "read_access_summary_from k source content =
      Inr \<lparr>sm_method = how, sm_reads = map (\<lambda>p. \<lparr>or_path = p, or_at_ms = at_ms\<rparr>) reads,
           sm_complete = complete, sm_reason = reason\<rparr> \<and>
    distinct (first_seen [] reads) \<and> set (first_seen [] reads) = set reads \<and>
    (n < length (summary_events how reads at_ms complete reason) \<longrightarrow>
     write_events k (take n (summary_events how reads at_ms complete reason)) = Some stub \<longrightarrow>
     (\<exists>s. read_access_summary_from k source stub = Inr s \<and> \<not> sm_complete s))"
proof (intro conjI impI)
  have "map (parse_line k source) (lines content) = map Inr (summary_events how reads at_ms complete reason)"
    using assms by (intro parse_written) (simp_all add: write_access_summary_def)
  then show "read_access_summary_from k source content =
      Inr \<lparr>sm_method = how, sm_reads = map (\<lambda>p. \<lparr>or_path = p, or_at_ms = at_ms\<rparr>) reads,
           sm_complete = complete, sm_reason = reason\<rparr>"
    using read_file_reads [of source at_ms reads "[Inr (TrackingFinished complete reason)]"]
    by (simp add: read_access_summary_from_def summary_events_def empty_summary_def o_def)
next
  assume n: "n < length (summary_events how reads at_ms complete reason)"
    and stub: "write_events k (take n (summary_events how reads at_ms complete reason)) = Some stub"
  note parsed = parse_written [OF assms(1) stub, of source]
  show "\<exists>s. read_access_summary_from k source stub = Inr s \<and> \<not> sm_complete s"
  proof (cases n)
    case 0
    then show ?thesis using parsed
      by (simp add: read_access_summary_from_def empty_summary_def)
  next
    case (Suc m)
    then have "m \<le> length reads" using n by (simp add: summary_events_def)
    then have "take n (summary_events how reads at_ms complete reason) =
        TrackingStarted ACCESS_SCHEMA how # map (\<lambda>p. FileRead p at_ms) (take m reads)"
      by (simp add: Suc summary_events_def take_map)
    then have "map (parse_line k source) (lines stub) =
        Inr (TrackingStarted ACCESS_SCHEMA how) # map (\<lambda>p. Inr (FileRead p at_ms)) (take m reads)"
      using parsed by (simp add: o_def)
    then show ?thesis
      using read_file_reads [of source at_ms "take m reads" "[]"]
      by (simp add: read_access_summary_from_def empty_summary_def)
  qed
qed (simp_all add: first_seen_set first_seen_distinct)

definition journal_events :: "access_event list" where
  "journal_events = summary_events ''fake'' [''a.rs'', ''a.rs'', ''b.rs''] 5 True None"

definition journal_codec :: orka_codec where
  "journal_codec = orka_table [] [] [] [] [] [] journal_events []"

theorem access_journal_roundtrip_witness:
  "\<exists>content. write_access_summary journal_codec ''fake'' [''a.rs'', ''a.rs'', ''b.rs''] 5 True None = Some content \<and>
     map_ok distinct_paths (read_access_summary_from journal_codec ''j'' content) = Inr [''a.rs'', ''b.rs''] \<and>
     (\<exists>stub s. write_events journal_codec (take 2 journal_events) = Some stub \<and>
        read_access_summary_from journal_codec ''j'' stub = Inr s \<and> \<not> sm_complete s)"
proof -
  let ?written = "write_access_summary journal_codec ''fake'' [''a.rs'', ''a.rs'', ''b.rs''] 5 True None"
  let ?stub = "write_events journal_codec (take 2 journal_events)"
  have "?written \<noteq> None" "?stub \<noteq> None" by code_simp+
  then obtain content stub where content: "?written = Some content" and stub: "?stub = Some stub" by auto
  have n: "2 < length (summary_events ''fake'' [''a.rs'', ''a.rs'', ''b.rs''] 5 True None)"
    by (simp add: summary_events_def)
  have k: "orka_codec_faithful journal_codec" by (simp add: journal_codec_def orka_table_faithful)
  have "first_seen [] [''a.rs'', ''a.rs'', ''b.rs''] = [''a.rs'', ''b.rs'']" by code_simp
  then show ?thesis
    using access_journal_roundtrip [OF k content, of "''j''" 2 stub] n stub content
    by (simp add: journal_events_def distinct_paths_def)
qed


definition read_event :: watch_event where
  "read_event = \<lparr>we_overflow = False, we_descriptor = 1, we_name = Some ''lib.rs'', we_isdir = False,
     we_appeared = False, we_accessed = True\<rparr>"


end
