(* ===== verification/Orka_Work.thy ===== *)
theory Orka_Work
  imports Orka_Access Orka_Workspace Linka_Submit
begin

text \<open>
  Orka's integration with a Linka store (\<open>orka/src/linka_work.rs\<close>): ready work, the frozen input of an
  attempt, the submissions with their evidence, what recovery recognises as its own result, and the
  audit of retained evidence. \<open>c\<close> is Linka's codec, \<open>k\<close> orka's; \<open>V\<close> is the backend for the
  store (\<open>GitVcs::for_store\<close>) and \<open>At\<close> gives the backend whose project side is a workspace
  (\<open>GitVcs::for_execution\<close>). All of them share one repository state.
\<close>

section \<open>Values\<close>

record ready_work =
  rw_node :: node_id
  rw_title :: string

datatype settled = SettledAccepted (settled_output: "string option") | SettledConflict (settled_conflicts: "submission_conflict list")

record recorded_work =
  rr_outcome :: outcome
  rr_output_commit :: "string option"
  rr_version :: result_version

record evidence_part =
  ep_name :: string
  ep_media_type :: string
  ep_data :: string

definition OUTPUT_EVIDENCE_PARTS :: "string list" where
  "OUTPUT_EVIDENCE_PARTS =
     [''attempt'', ''prompt'', ''request'', ''agent-output'', ''diagnostics'', ''evidence'', ''outcome'', ''accesses'']"

definition orka_identity :: "attempt_id \<Rightarrow> external_identity" where
  "orka_identity attempt = \<lparr>ei_namespace = ''orka'', ei_id = attempt\<rparr>"

definition evidence_key :: "attempt_id \<Rightarrow> string \<Rightarrow> string" where
  "evidence_key attempt name = attempt @ ''/'' @ name"

definition evidence_attachments :: "attempt_id \<Rightarrow> evidence_part list \<Rightarrow> new_node_attachment list" where
  "evidence_attachments attempt parts =
     map (\<lambda>part. \<lparr>nn_namespace = ''orka'', nn_key = evidence_key attempt (ep_name part),
       nn_media_type = Some (ep_media_type part), nn_data = ep_data part\<rparr>) parts"

section \<open>JSON values\<close>

fun json_get :: "string \<Rightarrow> json \<Rightarrow> json option" where
  "json_get key (JObject members) = map_of members key"
| "json_get key _ = None"

fun json_str :: "json \<Rightarrow> string option" where
  "json_str (JString s) = Some s"
| "json_str _ = None"

fun json_bool :: "json \<Rightarrow> bool option" where
  "json_bool (JBool b) = Some b"
| "json_bool _ = None"

fun json_u64 :: "json \<Rightarrow> nat option" where
  "json_u64 (JNumber i) = (if 0 \<le> i \<and> i < 2 ^ 64 then Some (nat i) else None)"
| "json_u64 _ = None"

section \<open>Producer evidence\<close>

definition tracking_json :: "access_summary \<Rightarrow> json" where
  "tracking_json accesses =
     JObject (bt_extend []
       ([(''method'', JString (sm_method accesses)), (''complete'', JBool (sm_complete accesses)),
         (''observed_files'', JNumber (int (length (distinct_paths accesses))))] @
        (case sm_reason accesses of None \<Rightarrow> [] | Some reason \<Rightarrow> [(''reason'', JString reason)])))"

definition producer_evidence_with_accesses ::
  "attempt_id \<Rightarrow> execution_report \<Rightarrow> access_summary option \<Rightarrow> producer_evidence" where
  "producer_evidence_with_accesses attempt report accesses =
     \<lparr>pe_namespace = ''orka'',
      pe_data = JObject (bt_extend []
        ([(''attempt'', JString attempt), (''backend'', JString (er_backend report)),
          (''started_at_ms'', JNumber (er_started_at_ms report)),
          (''finished_at_ms'', JNumber (er_finished_at_ms report)),
          (''exit_code'', JNumber (er_exit_code report))] @
         (case accesses of None \<Rightarrow> [] | Some a \<Rightarrow> [(''context_tracking'', tracking_json a)])))\<rparr>"

definition producer_evidence_of :: "attempt_id \<Rightarrow> execution_report \<Rightarrow> producer_evidence" where
  "producer_evidence_of attempt report = producer_evidence_with_accesses attempt report None"

section \<open>Selecting and freezing work\<close>

definition ready_for_machine :: "codec \<Rightarrow> 'v vcs \<Rightarrow> 'v workbench \<Rightarrow> ready_work list res" where
  "ready_for_machine c V w =
     and_then (ready_nodes c V w (Some Machine))
       (collect (\<lambda>i.
          and_then (read_node c (wb_store w) i) (\<lambda>(_, description).
          and_then (map_err (\<lambda>m. Bail m []) (validate_node_id i)) (\<lambda>node.
          Inr \<lparr>rw_node = node, rw_title = title_of description\<rparr>))))"

definition context_for :: "codec \<Rightarrow> store \<Rightarrow> consumed_node list \<Rightarrow> dependency_context list res" where
  "context_for c s pins =
     collect (\<lambda>pin.
       and_then (read_node c s (cn_id pin)) (\<lambda>(_, description).
       and_then (read_result c s (cn_id pin)) (\<lambda>result.
       Inr \<lparr>dc_node = cn_id pin, dc_title = title_of description,
            dc_result_notes = (case result of None \<Rightarrow> [] | Some (_, recorded) \<Rightarrow> recorded)\<rparr>))) pins"

definition prepare_input :: "codec \<Rightarrow> 'v vcs \<Rightarrow> 'v workbench \<Rightarrow> node_id \<Rightarrow> attempt_input res" where
  "prepare_input c V w node =
     and_then (with_context ''snapshotting `{}`'' [node] (snapshot_work c V w node [])) (\<lambda>snapshot.
     and_then (v_current_branch V (wb_vcs w)) (\<lambda>branch.
     and_then (ok_or (Bail ''project HEAD is detached; check out a target branch before running Orka'' []) branch) (\<lambda>target.
     and_then (read_node c (wb_store w) node) (\<lambda>(_, description).
     and_then (context_for c (wb_store w) (ws_dependencies snapshot)) (\<lambda>dependencies.
     and_then (context_for c (wb_store w) (ws_lineage snapshot)) (\<lambda>lineage.
     Inr \<lparr>ai_snapshot = snapshot, ai_target_branch = target, ai_description = description,
          ai_dependency_context = dependencies, ai_lineage_context = lineage\<rparr>))))))"

section \<open>Recognising an own result\<close>

definition attributed_to :: "attempt_id \<Rightarrow> producer_evidence option \<Rightarrow> bool" where
  "attributed_to attempt producer =
     (case producer of
        None \<Rightarrow> False
      | Some p \<Rightarrow> pe_namespace p = ''orka'' \<and>
          Option.bind (json_get ''attempt'' (pe_data p)) json_str = Some attempt)"

definition result_by_attempt :: "codec \<Rightarrow> store \<Rightarrow> node_id \<Rightarrow> attempt_id \<Rightarrow> recorded_work option res" where
  "result_by_attempt c s node attempt =
     and_then (read_result c s node) (\<lambda>found.
     case found of
       None \<Rightarrow> Inr None
     | Some (result, _) \<Rightarrow>
         if \<not> attributed_to attempt (rm_producer result) then Inr None
         else (case rm_outcome result of
             Verification v \<Rightarrow>
               bail ''Orka attempt `{}` produced a verification result for ordinary node `{}`'' [attempt, node]
           | Work done_or_failed \<Rightarrow>
               map_ok (\<lambda>version. Some \<lparr>rr_outcome = done_or_failed,
                 rr_output_commit = map_option ar_id (rm_output result), rr_version = version\<rparr>)
                 (result_version c s node)))"

definition recover_candidate ::
  "codec \<Rightarrow> store \<Rightarrow> attempt_input \<Rightarrow> prepared_workspace \<Rightarrow> attempt_id \<Rightarrow> string \<Rightarrow> result_version \<Rightarrow> candidate_id res" where
  "recover_candidate c s input workspace attempt commit result =
     and_then (by_external c s (orka_identity attempt)) (\<lambda>found.
     and_then (ok_or (Bail ''attempt {} has no committed Linka candidate'' [attempt]) found) (\<lambda>candidate.
     if cr_node candidate \<noteq> input_node input \<or> cr_branch candidate \<noteq> pw_branch workspace \<or>
        cr_target candidate \<noteq> ai_target_branch input \<or> cr_result candidate \<noteq> result \<or>
        ar_id (cr_artifact candidate) \<noteq> commit
     then bail ''Linka candidate {} conflicts with the committed facts for attempt {}'' [cr_id candidate, attempt]
     else Inr (cr_id candidate)))"

section \<open>Submitting\<close>

text \<open>A conflict is an answer; every other failure is operational.\<close>

definition classify :: "('v, 'a) submit_op \<Rightarrow> string option \<Rightarrow> ('v, settled) wb_op" where
  "classify m commit w =
     (case m w of
        (Inr _, w') \<Rightarrow> (Inr (SettledAccepted commit), w')
      | (Inl (Conflict conflicts), w') \<Rightarrow> (Inr (SettledConflict conflicts), w')
      | (Inl (Evaluation e), w') \<Rightarrow> (Inl e, w'))"

definition commit_message :: "attempt_input \<Rightarrow> string option \<Rightarrow> string" where
  "commit_message input message =
     (case message of None \<Rightarrow> title_of (ai_description input) | Some m \<Rightarrow> m) @
     [CHR 0x0A, CHR 0x0A] @ ''Linka-Node: '' @ input_node input @
     (if input_commit input = [] then [] else [CHR 0x0A] @ ''Linka-Input: '' @ input_commit input)"

text \<open>After the capture moved the attempt's branch: attest that state again, then promote it.\<close>

definition promote_captured ::
  "'v workspaces \<Rightarrow> prepared_workspace \<Rightarrow> string option \<Rightarrow> ('v, unit) wb_op" where
  "promote_captured W workspace captured =
     (case captured of
        None \<Rightarrow> st_return ()
      | Some output \<Rightarrow>
          st_then (st_read (\<lambda>w. wm_validate W (wb_vcs w) workspace)) (\<lambda>attested.
          if vw_head attested \<noteq> output
          then st_fail (Bail ''captured output {} does not match revalidated private HEAD {}''
            [output, vw_head attested])
          else on_vcs (\<lambda>v. wm_promote W v attested output)))"

definition attempt_candidate :: "attempt_input \<Rightarrow> prepared_workspace \<Rightarrow> attempt_id \<Rightarrow> new_candidate" where
  "attempt_candidate input workspace attempt =
     \<lparr>nc_node = input_node input, nc_branch = pw_branch workspace, nc_target = ai_target_branch input,
      nc_external = Some (orka_identity attempt)\<rparr>"

definition submit_captured ::
  "codec \<Rightarrow> 'v vcs \<Rightarrow> readings \<Rightarrow> attempt_input \<Rightarrow> prepared_workspace \<Rightarrow> attempt_id \<Rightarrow> string \<Rightarrow>
   producer_evidence \<Rightarrow> evidence_part list \<Rightarrow> string list \<Rightarrow> string option \<Rightarrow> ('v, settled) wb_op" where
  "submit_captured c V rd input workspace attempt note_text producer evidence observed captured =
     (case captured of
        Some output \<Rightarrow>
          classify (submit_captured_execution_with_candidate c V rd (ai_snapshot input) output note_text Machine
            (Some producer) (evidence_attachments attempt evidence) (attempt_candidate input workspace attempt)
            observed) (Some output)
      | None \<Rightarrow>
          classify (submit_captured_execution_with_attachments c V rd (ai_snapshot input) None note_text Machine
            (Some producer) (evidence_attachments attempt evidence)) None)"

definition submit_candidate_success ::
  "codec \<Rightarrow> 'v vcs \<Rightarrow> (string \<Rightarrow> 'v vcs) \<Rightarrow> 'v workspaces \<Rightarrow> readings \<Rightarrow> attempt_input \<Rightarrow> validated_workspace \<Rightarrow>
   attempt_id \<Rightarrow> string option \<Rightarrow> string \<Rightarrow> producer_evidence \<Rightarrow> evidence_part list \<Rightarrow> string list \<Rightarrow>
   ('v, settled \<times> candidate_id option) wb_op" where
  "submit_candidate_success c V At W rd input validated attempt message note_text producer evidence observed =
     (let workspace = vw_workspace validated in
      st_then (on_vcs (\<lambda>v. v_capture_worktree (At (pw_path workspace)) v (input_commit input)
        (commit_message input message))) (\<lambda>captured.
      st_then (promote_captured W workspace captured) (\<lambda>_.
      st_then (submit_captured c V rd input workspace attempt note_text producer evidence observed captured) (\<lambda>settled.
      case settled of
        SettledAccepted (Some output) \<Rightarrow>
          st_then (st_read (\<lambda>w. and_then (by_external c (wb_store w) (orka_identity attempt))
            (ok_or (Bail ''atomic candidate submission did not create its candidate'' [])))) (\<lambda>candidate.
          st_return (SettledAccepted (Some output), Some (cr_id candidate)))
      | _ \<Rightarrow> st_return (settled, None)))))"

definition submit_success ::
  "codec \<Rightarrow> (string \<Rightarrow> 'v vcs) \<Rightarrow> readings \<Rightarrow> attempt_input \<Rightarrow> string \<Rightarrow> project_path list \<Rightarrow> string option \<Rightarrow>
   string \<Rightarrow> producer_evidence \<Rightarrow> 'v workbench \<Rightarrow> settled res \<times> 'v workbench" where
  "submit_success c At rd input workspace outputs message note_text producer w =
     (case capture_submission c (At workspace) rd (ai_snapshot input) outputs message Done note_text Machine
             (Some producer) w of
        (Inr commit, w') \<Rightarrow> (Inr (SettledAccepted commit), w')
      | (Inl (Conflict conflicts), w') \<Rightarrow> (Inr (SettledConflict conflicts), w')
      | (Inl (Evaluation e), w') \<Rightarrow> (Inl e, w'))"

definition submit_failure ::
  "codec \<Rightarrow> (string \<Rightarrow> 'v vcs) \<Rightarrow> readings \<Rightarrow> attempt_input \<Rightarrow> string \<Rightarrow> string \<Rightarrow> producer_evidence \<Rightarrow>
   'v workbench \<Rightarrow> settled res \<times> 'v workbench" where
  "submit_failure c At rd input workspace note_text producer w =
     (case capture_submission c (At workspace) rd (ai_snapshot input) [] None outcome.Failed note_text Machine
             (Some producer) w of
        (Inr commit, w') \<Rightarrow> (Inr (SettledAccepted commit), w')
      | (Inl (Conflict conflicts), w') \<Rightarrow> (Inr (SettledConflict conflicts), w')
      | (Inl (Evaluation e), w') \<Rightarrow> (Inl e, w'))"

definition failure_submission :: "attempt_input \<Rightarrow> string \<Rightarrow> producer_evidence \<Rightarrow> result_submission" where
  "failure_submission input note_text producer =
     \<lparr>rs_snapshot = ai_snapshot input, rs_outcome = outcome.Failed, rs_output = None, rs_notes = note_text,
      rs_author = Machine, rs_producer = Some producer\<rparr>"

definition submit_failure_with_evidence ::
  "codec \<Rightarrow> (string \<Rightarrow> 'v vcs) \<Rightarrow> readings \<Rightarrow> attempt_input \<Rightarrow> string \<Rightarrow> attempt_id \<Rightarrow> string \<Rightarrow>
   producer_evidence \<Rightarrow> evidence_part list \<Rightarrow> ('v, settled) wb_op" where
  "submit_failure_with_evidence c At rd input workspace attempt note_text producer evidence =
     classify (submit_result_with_attachments c (At workspace) rd
       (failure_submission input note_text producer) (evidence_attachments attempt evidence)) None"

definition work_observed_context ::
  "codec \<Rightarrow> (string \<Rightarrow> 'v vcs) \<Rightarrow> attempt_input \<Rightarrow> string \<Rightarrow> result_version \<Rightarrow> string list \<Rightarrow> ('v, nat) wb_op" where
  "work_observed_context c At input workspace expected paths w =
     (case record_context_observation c (At workspace) (input_node input) expected paths w of
        (r, w') \<Rightarrow> (with_context ''recording observed context for `{}`'' [input_node input] r, w'))"

section \<open>The audit of retained evidence\<close>

definition orka_external :: "candidate_record \<Rightarrow> string option" where
  "orka_external candidate =
     (case cr_external candidate of
        None \<Rightarrow> None
      | Some external \<Rightarrow> if ei_namespace external = ''orka'' then Some (ei_id external) else None)"

definition result_tracking :: "(result_meta \<times> string) option \<Rightarrow> json option" where
  "result_tracking result =
     (case result of
        None \<Rightarrow> None
      | Some (meta, _) \<Rightarrow>
          (case rm_producer meta of
             None \<Rightarrow> None
           | Some p \<Rightarrow> if pe_namespace p = ''orka'' then json_get ''context_tracking'' (pe_data p) else None))"

definition missing_parts :: "codec \<Rightarrow> store \<Rightarrow> candidate_record \<Rightarrow> string \<Rightarrow> string list res" where
  "missing_parts c s candidate external =
     map_ok concat (collect (\<lambda>part.
       map_ok (\<lambda>found. if found = None
           then [cr_id candidate @ '': missing node attachment orka/'' @ evidence_key external part] else [])
         (read_node_attachment c s (cr_node candidate) ''orka'' (evidence_key external part)))
       OUTPUT_EVIDENCE_PARTS)"

definition completeness_problems :: "candidate_id \<Rightarrow> bool option \<Rightarrow> string list" where
  "completeness_problems i complete =
     (case complete of
        Some False \<Rightarrow> [i @ '': producer evidence records incomplete access tracking'']
      | None \<Rightarrow> [i @ '': producer evidence is missing access-tracking completeness'']
      | Some True \<Rightarrow> [])"

definition journal_problems ::
  "candidate_id \<Rightarrow> json option \<Rightarrow> bool option \<Rightarrow> access_summary res \<Rightarrow> string list" where
  "journal_problems i tracking complete journal =
     (case journal of
        Inl e \<Rightarrow> [i @ '': invalid attached access journal: '' @ error_chain e]
      | Inr summary \<Rightarrow>
          (if \<not> sm_complete summary
           then [i @ '': attached access journal is incomplete: '' @
             (case sm_reason summary of None \<Rightarrow> ''no reason was recorded'' | Some r \<Rightarrow> r)] else []) @
          (if complete \<noteq> None \<and> complete \<noteq> Some (sm_complete summary)
           then [i @ '': producer evidence and attached access journal disagree on completeness''] else []) @
          (case tracking of
             None \<Rightarrow> []
           | Some t \<Rightarrow>
               if Option.bind (json_get ''method'' t) json_str \<noteq> Some (sm_method summary) \<or>
                  Option.bind (json_get ''observed_files'' t) json_u64 \<noteq> Some (length (distinct_paths summary))
               then [i @ '': producer evidence and attached access journal disagree on observed access data'']
               else []))"

definition attempt_identity_problems :: "orka_codec \<Rightarrow> candidate_record \<Rightarrow> string \<Rightarrow> string \<Rightarrow> string list res" where
  "attempt_identity_problems k candidate external content =
     and_then (with_context ''{}: attempt attachment is not UTF-8'' [cr_id candidate] (utf8_text content)) (\<lambda>text.
     and_then (with_context ''{}: invalid attempt attachment'' [cr_id candidate]
       (parse_with (attempt_of_toml k) text)) (\<lambda>r.
     Inr (if at_id r \<noteq> external \<or> input_node (at_input r) \<noteq> cr_node candidate
          then [cr_id candidate @ '': attempt attachment identity does not match the candidate''] else [])))"

definition candidate_evidence_problems ::
  "orka_codec \<Rightarrow> codec \<Rightarrow> 'v vcs \<Rightarrow> 'v workbench \<Rightarrow> candidate_record \<Rightarrow> string \<Rightarrow> string list res" where
  "candidate_evidence_problems k c V w candidate external =
     (let s = wb_store w; i = cr_id candidate; node = cr_node candidate in
      and_then (if ar_scheme (cr_artifact candidate) \<noteq> ''git-commit'' then Inr False
                else v_commit_exists V (wb_vcs w) (ar_id (cr_artifact candidate))) (\<lambda>retained.
      and_then (missing_parts c s candidate external) (\<lambda>missing.
      and_then (read_result c s node) (\<lambda>result.
      let tracking = result_tracking result;
          complete = Option.bind (Option.bind tracking (json_get ''complete'')) json_bool in
      and_then (read_node_attachment c s node ''orka'' (evidence_key external ''accesses'')) (\<lambda>accesses.
      and_then (read_node_attachment c s node ''orka'' (evidence_key external ''attempt'')) (\<lambda>attempt.
      and_then (case attempt of
                  None \<Rightarrow> Inr [] | Some (_, content) \<Rightarrow> attempt_identity_problems k candidate external content) (\<lambda>identity.
      Inr ((if retained then []
            else [i @ '': project artifact '' @ ar_id (cr_artifact candidate) @ '' is not retained'']) @
           missing @ completeness_problems i complete @
           (case accesses of
              None \<Rightarrow> []
            | Some (_, content) \<Rightarrow> journal_problems i tracking complete (read_access_summary_bytes k content)) @
           identity))))))))"

definition audit_output_evidence ::
  "orka_codec \<Rightarrow> codec \<Rightarrow> 'v vcs \<Rightarrow> 'v workbench \<Rightarrow> string list res" where
  "audit_output_evidence k c V w =
     map_ok concat (collect (\<lambda>i.
       and_then (candidate_load c (wb_store w) i) (\<lambda>candidate.
       case orka_external candidate of
         None \<Rightarrow> Inr []
       | Some external \<Rightarrow> candidate_evidence_problems k c V w candidate external))
       (candidate_list (wb_store w)))"

section \<open>Facts\<close>

lemma producer_attributed: "attributed_to attempt (Some (producer_evidence_with_accesses attempt report a))"
proof -
  have "map_of (bt_extend [] xs) key = map_of (rev xs) key" for xs :: "(string \<times> json) list" and key
    by (simp add: bt_wf_def)
  then show ?thesis
    by (cases a) (simp_all add: attributed_to_def producer_evidence_with_accesses_def)
qed

lemma classify_Inr:
  "classify m commit w = (Inr settled, w') \<longleftrightarrow>
     (\<exists>x. m w = (Inr x, w') \<and> settled = SettledAccepted commit) \<or>
     (\<exists>conflicts. m w = (Inl (Conflict conflicts), w') \<and> settled = SettledConflict conflicts)"
  by (auto simp: classify_def split: prod.splits sum.splits submission_error.splits)

end
