(* ===== verification/Orka_Engine.thy ===== *)
theory Orka_Engine
  imports Orka_Work
begin

text \<open>
  The lifecycle of an attempt (\<open>orka/src/engine.rs\<close>): select, snapshot, record, prepare, execute,
  decide, submit, seal, clean up, and the recovery of what a stopped run left. The world is the Linka
  workbench, whose backend state is also the repository of the workspaces, the attempt store, and the
  milestones reported so far. Clock readings and the ULIDs a run draws are the record \<open>moments\<close>.
  What the executor does to the repository and to the attempt's exchange files is a function; it can
  also be cut short with the machine.
\<close>

section \<open>The engine and its world\<close>

record execution_policy =
  xp_command :: "string list"
  xp_protocol :: output_format
  xp_workspace_destination :: string
  xp_io_destination :: string
  xp_extra_mounts :: "mount_spec list"
  xp_environment :: "(string \<times> string) list"
  xp_network :: bool

record 'v executor =
  ex_validate_workspace_access :: "execution_spec \<Rightarrow> prepared_workspace \<Rightarrow> 'v \<Rightarrow> unit res \<times> 'v"
  ex_run :: "execution_spec \<Rightarrow> execution_artifacts \<Rightarrow> 'v \<times> agent_files \<Rightarrow>
    (fault + execution_report) \<times> 'v \<times> agent_files"

record 'v engine =
  en_codec :: codec
  en_orka :: orka_codec
  en_vcs :: "'v vcs"
  en_vcs_at :: "string \<Rightarrow> 'v vcs"
  en_executor :: "'v executor"
  en_workspaces :: "'v workspaces"
  en_policy :: execution_policy

datatype run_progress =
    Selected node_id
  | AttemptCreated attempt_id
  | WorkspacePrepared attempt_id
  | ExecutionStarted attempt_id execution_artifacts
  | ExecutionFinished attempt_id int
  | SealedAs attempt_id sealed_state

record 'v orka =
  ok_bench :: "'v workbench"
  ok_store :: attempt_store
  ok_progress :: "run_progress list"

record moments =
  mo_attempt :: attempt_id
  mo_created :: int
  mo_sealed :: int
  mo_readings :: readings

record run_report =
  rp_attempt :: attempt_id
  rp_node :: node_id
  rp_candidate :: "candidate_id option"
  rp_sealed :: sealed_state
  rp_exit_code :: int
  rp_backend_failed :: bool
  rp_cleanup :: cleanup_outcome

record recovery_report =
  rv_attempt :: attempt_id
  rv_node :: node_id
  rv_action :: string
  rv_sealed :: "sealed_state option"
  rv_requires_attention :: bool

record recovery_cleanup =
  rc_action :: string
  rc_requires_attention :: bool
  rc_workspace_gone :: bool

type_synonym ('v, 'a) engine_op = "('v orka, fault, 'a) st_op"

text \<open>Operations on the parts of the world; a failure is an error value of the code.\<close>

definition on_store :: "'a attempt_op \<Rightarrow> ('v, 'a) engine_op" where
  "on_store m = at_part ok_store (\<lambda>s w. w\<lparr>ok_store := s\<rparr>) m"

definition on_bench :: "('v, 'a) wb_op \<Rightarrow> ('v, 'a) engine_op" where
  "on_bench m = at_part ok_bench (\<lambda>b w. w\<lparr>ok_bench := b\<rparr>) (\<lambda>b. case m b of (r, b') \<Rightarrow> (failing r, b'))"

definition on_repository :: "('v \<Rightarrow> 'a res \<times> 'v) \<Rightarrow> ('v, 'a) engine_op" where
  "on_repository m = on_bench (on_vcs m)"

definition ask :: "('v orka \<Rightarrow> 'a res) \<Rightarrow> ('v, 'a) engine_op" where
  "ask f = st_read (\<lambda>w. failing (f w))"

definition progress :: "run_progress \<Rightarrow> ('v, unit) engine_op" where
  "progress p w = (Inr (), w\<lparr>ok_progress := ok_progress w @ [p]\<rparr>)"

definition repository :: "'v orka \<Rightarrow> 'v" where
  "repository w = wb_vcs (ok_bench w)"

definition files_of :: "'v orka \<Rightarrow> attempt_id \<Rightarrow> agent_files" where
  "files_of w i = ad_files (attempt_dir_of (ok_store w) i)"

definition put_files :: "attempt_id \<Rightarrow> agent_files \<Rightarrow> attempt_store \<Rightarrow> attempt_store" where
  "put_files i files s = put_attempt i ((attempt_dir_of s i)\<lparr>ad_files := files\<rparr>) s"

section \<open>The policy and the capability grant\<close>

definition OUTCOME_FILE :: string where "OUTCOME_FILE = ''outcome.toml''"
definition PROMPT_FILE :: string where "PROMPT_FILE = ''prompt.md''"

record sandbox_layout =
  sl_workspace :: string
  sl_exchange :: string

definition default_layout :: sandbox_layout where
  "default_layout = (let root = ''/tmp/orka'' in
     \<lparr>sl_workspace = path_join root ''workspace'', sl_exchange = path_join root ''exchange''\<rparr>)"

definition new_policy :: "string list \<Rightarrow> execution_policy" where
  "new_policy command =
     \<lparr>xp_command = command, xp_protocol = Plain, xp_workspace_destination = sl_workspace default_layout,
      xp_io_destination = sl_exchange default_layout, xp_extra_mounts = [], xp_environment = [],
      xp_network = False\<rparr>"

definition execution_spec :: "execution_policy \<Rightarrow> node_id \<Rightarrow> prepared_workspace \<Rightarrow> string \<Rightarrow> execution_spec" where
  "execution_spec p node workspace io =
     \<lparr>es_command = xp_command p,
      es_protocol = xp_protocol p,
      es_working_directory = xp_workspace_destination p,
      es_mounts =
        [\<lparr>ms_source = pw_path workspace, ms_destination = xp_workspace_destination p, ms_writable = True\<rparr>,
         \<lparr>ms_source = pw_git_dir workspace, ms_destination = pw_git_dir workspace, ms_writable = True\<rparr>,
         \<lparr>ms_source = io, ms_destination = xp_io_destination p, ms_writable = True\<rparr>] @ xp_extra_mounts p,
      es_environment = bt_extend (xp_environment p)
        [(''ORKA_NODE'', node),
         (''GIT_AUTHOR_NAME'', ''Orka Agent''), (''GIT_AUTHOR_EMAIL'', ''orka-agent@localhost''),
         (''GIT_COMMITTER_NAME'', ''Orka Agent''), (''GIT_COMMITTER_EMAIL'', ''orka-agent@localhost''),
         (''ORKA_WORKSPACE'', xp_workspace_destination p),
         (''ORKA_PROMPT'', path_join (xp_io_destination p) PROMPT_FILE),
         (''ORKA_OUTCOME'', path_join (xp_io_destination p) OUTCOME_FILE)],
      es_network = xp_network p\<rparr>"

definition text_lines :: "string list \<Rightarrow> string" where
  "text_lines ls = concat (map (\<lambda>l. l @ [CHR 0x0A]) ls)"

definition quoted :: "string \<Rightarrow> string" where
  "quoted s = CHR 0x22 # s @ [CHR 0x22]"

definition prompt_section :: "string \<Rightarrow> dependency_context list \<Rightarrow> string" where
  "prompt_section heading items =
     (if items = [] then []
      else text_lines [[], ''# '' @ heading] @
        concat (map (\<lambda>item.
          text_lines [[], ''## '' @ dc_title item @ '' ('' @ dc_node item @ '')''] @
          (if trim (dc_result_notes item) = [] then [] else text_lines [[], trim (dc_result_notes item)])) items))"

definition build_prompt :: "attempt_input \<Rightarrow> execution_policy \<Rightarrow> string" where
  "build_prompt input p =
     text_lines [''# Task ('' @ input_node input @ '')'', [], trim (ai_description input)] @
     prompt_section ''Completed dependencies'' (ai_dependency_context input) @
     prompt_section ''Derived from'' (ai_lineage_context input) @
     text_lines
       [[], ''# Contract'', [],
        ''Work only inside `'' @ xp_workspace_destination p @ ''` (also `$ORKA_WORKSPACE`).'',
        ''Before declaring success, commit all your work with Git'',
        ''(`git add -A && git commit`). The workspace must have no uncommitted'',
        ''changes when you finish, or the attempt is rejected.'',
        ''Declare your outcome by writing `'' @ path_join (xp_io_destination p) OUTCOME_FILE @
          ''` (also `$ORKA_OUTCOME`) as TOML:'', [],
        ''```toml'',
        ''outcome = '' @ quoted ''succeeded'' @ ''   # or '' @ quoted ''failed'',
        ''message = '' @ quoted ''one-line summary of the change'',
        ''notes = '' @ quoted ''what was done and why'',
        ''```'']"

section \<open>Evidence\<close>

definition read_declared :: "orka_codec \<Rightarrow> string \<Rightarrow> fs_file \<Rightarrow> declared_outcome option res" where
  "read_declared k path f =
     (if f = NotFound then Inr None
      else and_then (with_context ''reading {}'' [path] (read_text f)) (\<lambda>text.
           map_ok Some (with_context ''parsing {}'' [path] (parse_with (outcome_of_toml k) text))))"

definition agent_output_source :: "orka_codec \<Rightarrow> attempt_store \<Rightarrow> attempt_id \<Rightarrow> (fs_file \<times> string \<times> string) res" where
  "agent_output_source k s i =
     and_then (load_attempt k s i) (\<lambda>n.
     let f = (case an_request n of None \<Rightarrow> Plain | Some spec \<Rightarrow> es_protocol spec);
         files = ad_files (attempt_dir_of s i) in
     Inr (if is_agent f then (af_raw_events files, attempt_path s i ''events.raw.jsonl'', output_media_type f)
          else (af_transcript files, attempt_path s i ''transcript.log'', output_media_type f)))"

text \<open>The files of an attempt that become attachments: name, media type, content, path.\<close>

definition evidence_files ::
  "attempt_store \<Rightarrow> attempt_id \<Rightarrow> fs_file \<times> string \<times> string \<Rightarrow> (string \<times> string \<times> fs_file \<times> string) list" where
  "evidence_files s i output =
     (let d = attempt_dir_of s i; files = ad_files d in
      [(''attempt'', ''application/toml'', ad_attempt d, attempt_path s i ''attempt.toml''),
       (''prompt'', ''text/markdown; charset=utf-8'', af_prompt files, path_join (attempt_path s i ''io'') PROMPT_FILE),
       (''request'', ''application/toml'', ad_request d, attempt_path s i ''request.toml''),
       (''agent-output'', snd (snd output), fst output, fst (snd output)),
       (''diagnostics'', ''text/plain; charset=utf-8'', af_diagnostics files, attempt_path s i ''diagnostics.log''),
       (''evidence'', ''application/toml'', ad_evidence d, attempt_path s i ''evidence.toml''),
       (''outcome'', ''application/toml'', af_outcome files, path_join (attempt_path s i ''io'') OUTCOME_FILE)] @
      (if present (af_file_changes files)
       then [(''file-changes'', ''application/x-ndjson'', af_file_changes files,
              attempt_path s i ''file-changes.v1.jsonl'')] else []) @
      [(''accesses'', ''application/x-ndjson'', af_accesses files, attempt_path s i ''accesses.v1.jsonl'')])"

definition evidence_parts :: "orka_codec \<Rightarrow> attempt_store \<Rightarrow> attempt_id \<Rightarrow> evidence_part list res" where
  "evidence_parts k s i =
     and_then (agent_output_source k s i) (\<lambda>output.
     collect (\<lambda>(name, media_type, f, path).
       map_ok (\<lambda>bytes. \<lparr>ep_name = name, ep_media_type = media_type, ep_data = bytes\<rparr>)
         (with_context ''reading output evidence {}'' [path] (read_bytes f)))
       (evidence_files s i output))"

definition output_evidence :: "'v engine \<Rightarrow> attempt_id \<Rightarrow> ('v, evidence_part list) engine_op" where
  "output_evidence E i =
     st_then (on_store (io_dir i)) (\<lambda>_. ask (\<lambda>w. evidence_parts (en_orka E) (ok_store w) i))"

definition record_observed_context ::
  "'v engine \<Rightarrow> attempt_input \<Rightarrow> prepared_workspace \<Rightarrow> result_version \<Rightarrow> access_summary \<Rightarrow> ('v, unit) engine_op" where
  "record_observed_context E input workspace result accesses =
     st_then (on_bench (work_observed_context (en_codec E) (en_vcs_at E) input (pw_path workspace) result
       (distinct_paths accesses))) (\<lambda>_. st_return ())"

section \<open>Settling an executed attempt\<close>

type_synonym 'v settlement = "('v, sealed_state \<times> bool \<times> candidate_id option) engine_op"

definition conclude :: "'v engine \<Rightarrow> moments \<Rightarrow> attempt_id \<Rightarrow> sealed_state \<Rightarrow> bool \<Rightarrow> candidate_id option \<Rightarrow> 'v settlement" where
  "conclude E mo i state backend_failed candidate =
     st_then (on_store (seal (en_orka E) (mo_sealed mo) i state)) (\<lambda>_.
     st_return (state, backend_failed, candidate))"

definition sealed_outcome :: "recorded_work \<Rightarrow> sealed_state" where
  "sealed_outcome recorded =
     (case rr_outcome recorded of Done \<Rightarrow> Submitted (rr_output_commit recorded) | outcome.Failed \<Rightarrow> FailureRecorded)"

text \<open>Linka already holds the result of this attempt: seal from it.\<close>

definition settle_recorded ::
  "'v engine \<Rightarrow> moments \<Rightarrow> attempt_id \<Rightarrow> attempt_input \<Rightarrow> prepared_workspace \<Rightarrow> access_summary \<Rightarrow>
   recorded_work \<Rightarrow> bool \<Rightarrow> 'v settlement" where
  "settle_recorded E mo i input workspace accesses recorded backend_failed =
     st_then (ask (\<lambda>w.
       case (rr_outcome recorded, rr_output_commit recorded) of
         (Done, Some output) \<Rightarrow>
           map_ok Some (recover_candidate (en_codec E) (wb_store (ok_bench w)) input workspace i output (rr_version recorded))
       | _ \<Rightarrow> Inr None)) (\<lambda>candidate.
     st_then (if rr_outcome recorded = outcome.Failed
              then record_observed_context E input workspace (rr_version recorded) accesses else st_return ()) (\<lambda>_.
     conclude E mo i (sealed_outcome recorded) backend_failed candidate))"

definition submit_agent_outcome ::
  "'v engine \<Rightarrow> moments \<Rightarrow> attempt_id \<Rightarrow> attempt_input \<Rightarrow> validated_workspace \<Rightarrow> prepared_workspace \<Rightarrow>
   producer_evidence \<Rightarrow> access_summary \<Rightarrow> agent_outcome \<Rightarrow> evidence_part list \<Rightarrow>
   ('v, settled \<times> bool \<times> candidate_id option) engine_op" where
  "submit_agent_outcome E mo i input validated workspace producer accesses declared evidence =
     (case declared of
        AgentSucceeded message note_text \<Rightarrow>
          st_then (ask (\<lambda>w. if \<not> wm_exists (en_workspaces E) (repository w) (pw_path workspace)
            then bail ''attempt {} declared success but its workspace {} is missing'' [i, pw_path workspace]
            else Inr ())) (\<lambda>_.
          st_then (on_bench (submit_candidate_success (en_codec E) (en_vcs E) (en_vcs_at E) (en_workspaces E)
            (mo_readings mo) input validated i message note_text producer evidence (distinct_paths accesses)))
            (\<lambda>(answer, candidate). st_return (answer, True, candidate)))
      | AgentFailed note_text \<Rightarrow>
          st_then (on_bench (submit_failure_with_evidence (en_codec E) (en_vcs_at E) (mo_readings mo) input
            (pw_path workspace) i note_text producer evidence)) (\<lambda>answer. st_return (answer, False, None)))"

fun sealed_answer :: "settled \<Rightarrow> bool \<Rightarrow> sealed_state" where
  "sealed_answer (SettledAccepted commit) succeeded = (if succeeded then Submitted commit else FailureRecorded)"
| "sealed_answer (SettledConflict conflicts) succeeded = StaleAtSubmit conflicts"

definition observe_failure ::
  "'v engine \<Rightarrow> attempt_id \<Rightarrow> attempt_input \<Rightarrow> prepared_workspace \<Rightarrow> access_summary \<Rightarrow> settled \<Rightarrow> bool \<Rightarrow>
   ('v, unit) engine_op" where
  "observe_failure E i input workspace accesses answer succeeded =
     (if sealed_answer answer succeeded = FailureRecorded
      then st_then (ask (\<lambda>w. and_then (result_by_attempt (en_codec E) (wb_store (ok_bench w)) (input_node input) i)
             (ok_or (Bail ''accepted result is not attributed to its Orka attempt'' [])))) (\<lambda>recorded.
           record_observed_context E input workspace (rr_version recorded) accesses)
      else st_return ())"

definition settle_submit ::
  "'v engine \<Rightarrow> moments \<Rightarrow> attempt_id \<Rightarrow> attempt_input \<Rightarrow> prepared_workspace \<Rightarrow> validated_workspace \<Rightarrow>
   execution_report \<Rightarrow> access_summary \<Rightarrow> agent_outcome \<Rightarrow> bool \<Rightarrow> 'v settlement" where
  "settle_submit E mo i input workspace validated report accesses declared backend_failed =
     st_then (ask (\<lambda>w. result_by_attempt (en_codec E) (wb_store (ok_bench w)) (input_node input) i)) (\<lambda>found.
     case found of
       Some recorded \<Rightarrow> settle_recorded E mo i input workspace accesses recorded backend_failed
     | None \<Rightarrow>
         st_then (output_evidence E i) (\<lambda>evidence.
         st_then (submit_agent_outcome E mo i input validated workspace
           (producer_evidence_with_accesses i report (Some accesses)) accesses declared evidence)
           (\<lambda>(answer, succeeded, candidate).
         st_then (observe_failure E i input workspace accesses answer succeeded) (\<lambda>_.
         conclude E mo i (sealed_answer answer succeeded) backend_failed candidate))))"

text \<open>A declared success that left uncommitted changes is a contract violation.\<close>

definition checked_decision ::
  "'v engine \<Rightarrow> prepared_workspace \<Rightarrow> declared_outcome option \<Rightarrow> execution_report \<Rightarrow> 'v orka \<Rightarrow> decision res" where
  "checked_decision E workspace declared report w =
     (case decide declared (er_exit_code report) of
        Submit (AgentSucceeded message note_text) backend_failed \<Rightarrow>
          and_then (if wm_exists (en_workspaces E) (repository w) (pw_path workspace)
                    then wm_is_clean (en_workspaces E) (repository w) workspace else Inr True) (\<lambda>clean.
          Inr (if clean then Submit (AgentSucceeded message note_text) backend_failed
               else DecideViolation
                 (''declared success but left uncommitted changes in the workspace; '' @
                  ''the agent must commit all its work before finishing'')))
      | decision \<Rightarrow> Inr decision)"

definition lost_checkpoint :: "'v engine \<Rightarrow> attempt_id \<Rightarrow> 'v orka \<Rightarrow> string option res" where
  "lost_checkpoint E i w =
     (let f = af_file_changes (files_of w i) in
      if present f
      then map_ok checkpoint_error
             (read_checkpoints (en_orka E) (attempt_path (ok_store w) i ''file-changes.v1.jsonl'') f)
      else Inr None)"

definition settle_decision ::
  "'v engine \<Rightarrow> moments \<Rightarrow> attempt_id \<Rightarrow> attempt_input \<Rightarrow> prepared_workspace \<Rightarrow> validated_workspace \<Rightarrow>
   execution_report \<Rightarrow> access_summary \<Rightarrow> decision \<Rightarrow> 'v settlement" where
  "settle_decision E mo i input workspace validated report accesses decision =
     (case decision of
        Submit declared backend_failed \<Rightarrow>
          settle_submit E mo i input workspace validated report accesses declared backend_failed
      | DecideViolation reason \<Rightarrow> conclude E mo i (ContractViolation reason) False None
      | DecideInterrupted reason \<Rightarrow> conclude E mo i (Interrupted reason) False None)"

definition settle_declared ::
  "'v engine \<Rightarrow> moments \<Rightarrow> attempt_id \<Rightarrow> attempt_input \<Rightarrow> prepared_workspace \<Rightarrow> validated_workspace \<Rightarrow>
   execution_report \<Rightarrow> access_summary \<Rightarrow> 'v settlement" where
  "settle_declared E mo i input workspace validated report accesses =
     st_then (on_store (io_dir i)) (\<lambda>_.
     st_then (ask (\<lambda>w. read_declared (en_orka E) (path_join (attempt_path (ok_store w) i ''io'') OUTCOME_FILE)
       (af_outcome (files_of w i)))) (\<lambda>declared.
     st_then (ask (checked_decision E workspace declared report))
       (settle_decision E mo i input workspace validated report accesses)))"

definition settle_validated ::
  "'v engine \<Rightarrow> moments \<Rightarrow> attempt_id \<Rightarrow> attempt_input \<Rightarrow> prepared_workspace \<Rightarrow> execution_report \<Rightarrow>
   access_summary \<Rightarrow> validated_workspace \<Rightarrow> 'v settlement" where
  "settle_validated E mo i input workspace report accesses validated =
     st_then (ask (lost_checkpoint E i)) (\<lambda>lost.
     case lost of
       Some error \<Rightarrow>
         conclude E mo i (WorkspaceIntegrityFailure (''Git checkpoint integrity failed: '' @ error)) False None
     | None \<Rightarrow> settle_declared E mo i input workspace validated report accesses)"

definition settle ::
  "'v engine \<Rightarrow> moments \<Rightarrow> attempt_id \<Rightarrow> attempt_input \<Rightarrow> prepared_workspace \<Rightarrow> execution_report \<Rightarrow> 'v settlement" where
  "settle E mo i input workspace report =
     st_then (ask (\<lambda>w. read_access_summary (en_orka E) (attempt_path (ok_store w) i ''accesses.v1.jsonl'')
       (af_accesses (files_of w i)))) (\<lambda>accesses.
     st_match (ask (\<lambda>w. wm_validate (en_workspaces E) (repository w) workspace))
       (\<lambda>error. conclude E mo i
         (WorkspaceIntegrityFailure (''workspace postflight failed: '' @ error_chain error)) False None)
       (settle_validated E mo i input workspace report accesses))"

section \<open>Running one node\<close>

text \<open>Sealing with its milestone, then the error the run ends with.\<close>

definition seal_and_report :: "'v engine \<Rightarrow> moments \<Rightarrow> sealed_state \<Rightarrow> ('v, unit) engine_op" where
  "seal_and_report E mo state =
     st_then (on_store (seal (en_orka E) (mo_sealed mo) (mo_attempt mo) state)) (\<lambda>_.
     progress (SealedAs (mo_attempt mo) state))"

definition refuse_admission :: "'v engine \<Rightarrow> moments \<Rightarrow> error \<Rightarrow> ('v, 'a) engine_op" where
  "refuse_admission E mo error =
     st_then (seal_and_report E mo
       (WorkspaceIntegrityFailure (''workspace admission failed: '' @ error_chain error))) (\<lambda>_.
     st_fail (Failed (Context ''refusing to start {}: workspace failed Orka admission'' [mo_attempt mo] error)))"

definition admit :: "'v engine \<Rightarrow> execution_spec \<Rightarrow> prepared_workspace \<Rightarrow> ('v, unit) engine_op" where
  "admit E spec workspace =
     st_then (ask (\<lambda>w.
       and_then (wm_validate (en_workspaces E) (repository w) workspace) (\<lambda>_.
       and_then (wm_is_clean (en_workspaces E) (repository w) workspace) (\<lambda>clean.
       if clean then Inr () else bail ''freshly prepared workspace is not clean'' [])))) (\<lambda>_.
     on_repository (ex_validate_workspace_access (en_executor E) spec workspace))"

text \<open>Sealing as interrupted; the texts are the two errors the run ends with.\<close>

definition seal_interrupted :: "'v engine \<Rightarrow> moments \<Rightarrow> error \<Rightarrow> (error \<Rightarrow> error) \<Rightarrow> error \<Rightarrow> ('v, 'a) engine_op" where
  "seal_interrupted E mo error unsealed sealed =
     st_match (on_store (seal (en_orka E) (mo_sealed mo) (mo_attempt mo)
         (Interrupted (''execution failed before exit evidence: '' @ error_chain error))))
       (\<lambda>seal_error. st_fail (Failed (unsealed seal_error)))
       (\<lambda>_. st_then (progress (SealedAs (mo_attempt mo)
              (Interrupted (''execution failed before exit evidence: '' @ error_chain error)))) (\<lambda>_.
            st_fail (Failed sealed)))"

definition execution_failed :: "'v engine \<Rightarrow> moments \<Rightarrow> prepared_workspace \<Rightarrow> error \<Rightarrow> ('v, 'a) engine_op" where
  "execution_failed E mo workspace error =
     (let i = mo_attempt mo in
      st_match (ask (\<lambda>w. wm_validate (en_workspaces E) (repository w) workspace))
        (\<lambda>integrity.
          st_then (seal_and_report E mo (WorkspaceIntegrityFailure
            (''execution failed and workspace postflight failed: '' @ error_chain integrity))) (\<lambda>_.
          st_fail (Failed (Context ''attempt {} damaged its execution repository: {}''
            [i, error_chain integrity] error))))
        (\<lambda>_. st_match (on_repository (\<lambda>v. wm_discard_unchanged (en_workspaces E) v workspace))
          (\<lambda>discard_error. seal_interrupted E mo error
            (\<lambda>seal_error. Context
              ''also failed to discard unchanged workspace for {}: {}; and failed to seal it: {}''
              [i, error_chain discard_error, error_chain seal_error] error)
            (Context ''also failed to discard unchanged workspace for {}: {}''
              [i, error_chain discard_error] error))
          (\<lambda>outcome. case outcome of
             Discarded \<Rightarrow>
               st_match (on_store (discard_without_evidence (en_orka E) i))
                 (\<lambda>discard_error. st_fail (Failed (Context ''also failed to discard empty attempt {}: {}''
                   [i, error_chain discard_error] error)))
                 (\<lambda>_. st_fail (Failed error))
           | RetainedChanged \<Rightarrow>
               seal_interrupted E mo error
                 (\<lambda>seal_error. Context ''also failed to seal interrupted attempt {}: {}''
                   [i, error_chain seal_error] error)
                 error)))"

text \<open>The executor works on the repository and on the exchange files of the attempt.\<close>

definition execute :: "'v engine \<Rightarrow> attempt_id \<Rightarrow> execution_spec \<Rightarrow> execution_artifacts \<Rightarrow> ('v, execution_report) engine_op" where
  "execute E i spec artifacts w =
     (case ex_run (en_executor E) spec artifacts (repository w, files_of w i) of
        (r, v, files) \<Rightarrow>
          (r, w\<lparr>ok_bench := (ok_bench w)\<lparr>wb_vcs := v\<rparr>, ok_store := put_files i files (ok_store w)\<rparr>))"

definition stage_prompt :: "'v engine \<Rightarrow> attempt_id \<Rightarrow> attempt_input \<Rightarrow> ('v, unit) engine_op" where
  "stage_prompt E i input =
     st_then (on_store (io_dir i)) (\<lambda>_.
     on_store (st_context ''writing the attempt prompt'' []
       (durable (\<lambda>s. put_files i ((ad_files (attempt_dir_of s i))
          \<lparr>af_prompt := Bytes (build_prompt input (en_policy E))\<rparr>) s))))"

fun workspace_gone :: "cleanup_outcome \<Rightarrow> bool" where
  "workspace_gone Removed = True"
| "workspace_gone AlreadyAbsent = True"
| "workspace_gone _ = False"

definition finish_run ::
  "'v engine \<Rightarrow> moments \<Rightarrow> node_id \<Rightarrow> attempt_input \<Rightarrow> prepared_workspace \<Rightarrow> execution_report \<Rightarrow> ('v, run_report) engine_op" where
  "finish_run E mo node input workspace report =
     (let i = mo_attempt mo in
      st_then (on_store (record_evidence (en_orka E) i report)) (\<lambda>_.
      st_then (progress (ExecutionFinished i (er_exit_code report))) (\<lambda>_.
      st_then (settle E mo i input workspace report) (\<lambda>(sealed, backend_failed, candidate).
      st_then (progress (SealedAs i sealed)) (\<lambda>_.
      st_then (on_repository (\<lambda>v. wm_cleanup (en_workspaces E) v workspace)) (\<lambda>cleanup.
      st_then (if registered sealed \<and> workspace_gone cleanup
               then on_store (discard_registered (en_orka E) i) else st_return ()) (\<lambda>_.
      st_return \<lparr>rp_attempt = i, rp_node = node, rp_candidate = candidate, rp_sealed = sealed,
        rp_exit_code = er_exit_code report, rp_backend_failed = backend_failed, rp_cleanup = cleanup\<rparr>)))))))"

definition run_prepared ::
  "'v engine \<Rightarrow> moments \<Rightarrow> node_id \<Rightarrow> attempt_input \<Rightarrow> prepared_workspace \<Rightarrow> ('v, run_report) engine_op" where
  "run_prepared E mo node input workspace =
     (let i = mo_attempt mo in
      st_then (on_store (mark_prepared i)) (\<lambda>_.
      st_then (progress (WorkspacePrepared i)) (\<lambda>_.
      st_then (stage_prompt E i input) (\<lambda>_.
      st_then (st_read (\<lambda>w. Inr (execution_spec (en_policy E) node workspace (attempt_path (ok_store w) i ''io'')))) (\<lambda>spec.
      st_match (admit E spec workspace) (refuse_admission E mo) (\<lambda>_.
      st_then (on_store (record_request (en_orka E) i spec)) (\<lambda>_.
      st_then (st_read (\<lambda>w. Inr (execution_artifacts (ok_store w) i (xp_protocol (en_policy E))))) (\<lambda>artifacts.
      st_then (progress (ExecutionStarted i artifacts)) (\<lambda>_.
      st_match (execute E i spec artifacts) (execution_failed E mo workspace)
        (finish_run E mo node input workspace))))))))))"

definition run_node_with_progress :: "'v engine \<Rightarrow> moments \<Rightarrow> node_id \<Rightarrow> ('v, run_report) engine_op" where
  "run_node_with_progress E mo node =
     (if xp_command (en_policy E) = [] then st_fail (Failed (Bail ''no agent command configured'' []))
      else
      let i = mo_attempt mo; k = en_orka E; W = en_workspaces E in
      st_then (progress (Selected node)) (\<lambda>_.
      st_then (ask (\<lambda>w. prepare_input (en_codec E) (en_vcs E) (ok_bench w) node)) (\<lambda>input.
      st_then (on_store (create_attempt k (mo_created mo) i input)) (\<lambda>_.
      st_then (progress (AttemptCreated i)) (\<lambda>_.
      st_then (st_read (\<lambda>w. Inr (wm_plan W (repository w) i (input_commit input)))) (\<lambda>plan.
      st_then (on_store (plan_workspace k i plan)) (\<lambda>_.
      st_then (st_context ''preparing workspace for {}'' [i]
        (on_repository (\<lambda>v. wm_prepare W v i (input_commit input)))) (\<lambda>workspace.
      run_prepared E mo node input workspace))))))))"

definition run_next_with_progress :: "'v engine \<Rightarrow> moments \<Rightarrow> ('v, run_report option) engine_op" where
  "run_next_with_progress E mo =
     st_then (ask (\<lambda>w. ready_for_machine (en_codec E) (en_vcs E) (ok_bench w))) (\<lambda>ready.
     case ready of
       [] \<Rightarrow> st_return None
     | item # _ \<Rightarrow> st_then (run_node_with_progress E mo (rw_node item)) (\<lambda>report. st_return (Some report)))"

section \<open>Recovery\<close>

fun seal_requires_attention :: "sealed_state \<Rightarrow> bool" where
  "seal_requires_attention (Submitted commit) = False"
| "seal_requires_attention FailureRecorded = False"
| "seal_requires_attention _ = True"

fun cleanup_report :: "string \<Rightarrow> cleanup_outcome \<Rightarrow> recovery_cleanup" where
  "cleanup_report path Removed = \<lparr>rc_action = ''workspace removed'', rc_requires_attention = False, rc_workspace_gone = True\<rparr>"
| "cleanup_report path RetainedDirty =
     \<lparr>rc_action = ''workspace retained (uncommitted changes): '' @ path, rc_requires_attention = False,
      rc_workspace_gone = False\<rparr>"
| "cleanup_report path RetainedUnpublished =
     \<lparr>rc_action = ''workspace retained (committed work was not published): '' @ path, rc_requires_attention = False,
      rc_workspace_gone = False\<rparr>"
| "cleanup_report path RetainedIntegrityFailure =
     \<lparr>rc_action = ''workspace retained (repository integrity failure): '' @ path, rc_requires_attention = True,
      rc_workspace_gone = False\<rparr>"
| "cleanup_report path AlreadyAbsent =
     \<lparr>rc_action = ''workspace already absent'', rc_requires_attention = False, rc_workspace_gone = True\<rparr>"

definition recover_cleanup :: "'v engine \<Rightarrow> prepared_workspace option \<Rightarrow> ('v, recovery_cleanup) engine_op" where
  "recover_cleanup E workspace =
     (case workspace of
        None \<Rightarrow> st_return \<lparr>rc_action = ''no workspace to clean'', rc_requires_attention = False, rc_workspace_gone = True\<rparr>
      | Some ws \<Rightarrow>
          st_then (on_repository (\<lambda>v. wm_cleanup (en_workspaces E) v ws)) (\<lambda>outcome.
          st_return (cleanup_report (pw_path ws) outcome)))"

definition discard_unchanged_attempt :: "'v engine \<Rightarrow> attempt_id \<Rightarrow> prepared_workspace option \<Rightarrow> ('v, bool) engine_op" where
  "discard_unchanged_attempt E i workspace =
     st_then (case workspace of
         None \<Rightarrow> st_return True
       | Some ws \<Rightarrow>
           st_then (on_repository (\<lambda>v. wm_discard_unchanged (en_workspaces E) v ws)) (\<lambda>outcome.
           st_return (outcome = Discarded))) (\<lambda>discarded.
     st_then (if discarded then on_store (discard_without_evidence (en_orka E) i) else st_return ()) (\<lambda>_.
     st_return discarded))"

text \<open>Cleaning up behind a sealed attempt and dropping it once Linka holds its conclusion.\<close>

definition finish_sealed ::
  "'v engine \<Rightarrow> attempt_id \<Rightarrow> prepared_workspace option \<Rightarrow> sealed_state option \<Rightarrow> ('v, recovery_cleanup) engine_op" where
  "finish_sealed E i workspace sealed =
     st_then (recover_cleanup E workspace) (\<lambda>cleanup.
     st_then (if rc_workspace_gone cleanup \<and> (case sealed of None \<Rightarrow> False | Some s \<Rightarrow> registered s)
              then on_store (discard_registered (en_orka E) i) else st_return ()) (\<lambda>_.
     st_return cleanup))"

definition recover_sealed :: "'v engine \<Rightarrow> attempt_id \<Rightarrow> attempt_snapshot \<Rightarrow> ('v, recovery_report) engine_op" where
  "recover_sealed E i n =
     (let sealed = map_option sr_state (an_seal n) in
      st_then (finish_sealed E i (an_workspace n) sealed) (\<lambda>cleanup.
      st_return \<lparr>rv_attempt = i, rv_node = input_node (at_input (an_record n)), rv_action = rc_action cleanup,
        rv_sealed = sealed,
        rv_requires_attention = rc_requires_attention cleanup \<or>
          (case sealed of None \<Rightarrow> False | Some s \<Rightarrow> seal_requires_attention s)\<rparr>))"

definition recover_executed ::
  "'v engine \<Rightarrow> moments \<Rightarrow> attempt_id \<Rightarrow> attempt_snapshot \<Rightarrow> execution_report \<Rightarrow> ('v, recovery_report) engine_op" where
  "recover_executed E mo i n evidence =
     (let node = input_node (at_input (an_record n)) in
      case an_workspace n of
        None \<Rightarrow> st_fail (Failed (Bail ''executed attempt has no recorded workspace'' []))
      | Some workspace \<Rightarrow>
          st_match (settle E mo i (at_input (an_record n)) workspace evidence)
            (\<lambda>error. st_return \<lparr>rv_attempt = i, rv_node = node,
               rv_action = ''unrecoverable without intervention: '' @ error_chain error, rv_sealed = None,
               rv_requires_attention = True\<rparr>)
            (\<lambda>(sealed, _).
               st_then (finish_sealed E i (Some workspace) (Some sealed)) (\<lambda>cleanup.
               st_return \<lparr>rv_attempt = i, rv_node = node,
                 rv_action = ''settled from recorded evidence; '' @ rc_action cleanup, rv_sealed = Some sealed,
                 rv_requires_attention = seal_requires_attention sealed \<or> rc_requires_attention cleanup\<rparr>)))"

definition recovery_validation :: "'v engine \<Rightarrow> prepared_workspace option \<Rightarrow> 'v orka \<Rightarrow> unit res" where
  "recovery_validation E workspace w =
     (case workspace of
        None \<Rightarrow> Inr ()
      | Some ws \<Rightarrow>
          if wm_exists (en_workspaces E) (repository w) (pw_path ws)
          then map_ok (\<lambda>_. ()) (wm_validate (en_workspaces E) (repository w) ws) else Inr ())"

definition recover_unexecuted ::
  "'v engine \<Rightarrow> moments \<Rightarrow> attempt_id \<Rightarrow> attempt_snapshot \<Rightarrow> ('v, recovery_report) engine_op" where
  "recover_unexecuted E mo i n =
     (let node = input_node (at_input (an_record n)); k = en_orka E in
      st_match (ask (recovery_validation E (an_workspace n)))
        (\<lambda>error.
          st_then (on_store (seal k (mo_sealed mo) i (WorkspaceIntegrityFailure
            (''recovery workspace validation failed: '' @ error_chain error)))) (\<lambda>sealed.
          st_return \<lparr>rv_attempt = i, rv_node = node,
            rv_action = ''sealed as workspace integrity failure; retained '' @
              (case an_workspace n of None \<Rightarrow> [] | Some ws \<Rightarrow> pw_path ws),
            rv_sealed = Some (sr_state sealed), rv_requires_attention = True\<rparr>))
        (\<lambda>_.
          st_then (discard_unchanged_attempt E i (an_workspace n)) (\<lambda>discarded.
          if discarded
          then st_return \<lparr>rv_attempt = i, rv_node = node, rv_action = ''discarded empty pre-evidence attempt'',
                 rv_sealed = None, rv_requires_attention = False\<rparr>
          else
            st_then (on_store (seal k (mo_sealed mo) i
              (Interrupted ''recovered: attempt ended without exit evidence''))) (\<lambda>sealed.
            st_then (recover_cleanup E (an_workspace n)) (\<lambda>cleanup.
            st_return \<lparr>rv_attempt = i, rv_node = node, rv_action = ''sealed as interrupted; '' @ rc_action cleanup,
              rv_sealed = Some (sr_state sealed), rv_requires_attention = True\<rparr>)))))"

definition recover_attempt :: "'v engine \<Rightarrow> moments \<Rightarrow> attempt_id \<Rightarrow> ('v, recovery_report) engine_op" where
  "recover_attempt E mo i =
     st_then (ask (\<lambda>w. load_attempt (en_orka E) (ok_store w) i)) (\<lambda>n.
     case phase n of
       Sealed \<Rightarrow> recover_sealed E i n
     | Executed \<Rightarrow>
         (case an_evidence n of
            None \<Rightarrow> st_fail (Failed (panic ''phase Executed has evidence''))
          | Some evidence \<Rightarrow> recover_executed E mo i n evidence)
     | _ \<Rightarrow> recover_unexecuted E mo i n)"

fun recover_all :: "'v engine \<Rightarrow> (attempt_id \<Rightarrow> moments) \<Rightarrow> attempt_id list \<Rightarrow> ('v, recovery_report list) engine_op" where
  "recover_all E mo [] = st_return []"
| "recover_all E mo (i # rest) =
     st_then (recover_attempt E (mo i) i) (\<lambda>report.
     st_then (recover_all E mo rest) (\<lambda>reports. st_return (report # reports)))"

definition recover :: "'v engine \<Rightarrow> (attempt_id \<Rightarrow> moments) \<Rightarrow> ('v, recovery_report list) engine_op" where
  "recover E mo = st_then (st_read (\<lambda>w. Inr (list_attempts (ok_store w)))) (recover_all E mo)"

end
