(* ===== verification/Orka_Fakes.thy ===== *)
theory Orka_Fakes
  imports Orka_Engine
begin

text \<open>
  The test doubles of the replaceable boundaries (\<open>orka/src/fakes.rs\<close>): an executor that writes a
  canned transcript and journal, and a workspace manager over plain directories. Their state stands
  beside the in-memory backend of linka: the directories that exist, the doubles' logs, and the
  backend itself. The hook of the executor, which plays the agent, works on that state and on the
  exchange files.
\<close>

section \<open>State\<close>

record fake_world =
  fw_vcs :: fake_vcs
  fw_existing :: "string list"
  fw_cleanups :: "prepared_workspace list"
  fw_runs :: "execution_spec list"

record fake_executor =
  fx_exit_code :: int
  fx_transcript :: string
  fx_workspace_access_error :: "string option"
  fx_observed_reads :: "string list"
  fx_access_tracking_complete :: bool
  fx_access_tracking_reason :: "string option"
  fx_on_run :: "execution_spec \<Rightarrow> fake_world \<times> agent_files \<Rightarrow> unit res \<times> fake_world \<times> agent_files"

definition default_executor :: fake_executor where
  "default_executor =
     \<lparr>fx_exit_code = 0, fx_transcript = [], fx_workspace_access_error = None, fx_observed_reads = [],
      fx_access_tracking_complete = True, fx_access_tracking_reason = None, fx_on_run = (\<lambda>_ s. (Inr (), s))\<rparr>"

record fake_workspaces =
  fm_root :: string
  fm_dirty :: "string list"

definition new_workspaces :: "string \<Rightarrow> fake_workspaces" where
  "new_workspaces root = \<lparr>fm_root = root, fm_dirty = []\<rparr>"

text \<open>A backend used inside a larger state.\<close>

definition in_part :: "('w \<Rightarrow> 'v) \<Rightarrow> ('v \<Rightarrow> 'w \<Rightarrow> 'w) \<Rightarrow> ('v \<Rightarrow> 'a res \<times> 'v) \<Rightarrow> 'w \<Rightarrow> 'a res \<times> 'w" where
  "in_part get put m w = (case m (get w) of (r, v) \<Rightarrow> (r, put v w))"

definition lift_vcs :: "('w \<Rightarrow> 'v) \<Rightarrow> ('v \<Rightarrow> 'w \<Rightarrow> 'w) \<Rightarrow> 'v vcs \<Rightarrow> 'w vcs" where
  "lift_vcs get put V =
     \<lparr>v_require_clean_store = (\<lambda>w. v_require_clean_store V (get w)),
      v_commit_store = (\<lambda>w s p m. in_part get put (\<lambda>v. v_commit_store V v s p m) w),
      v_output_was_recorded = (\<lambda>w. v_output_was_recorded V (get w)),
      v_capture = (\<lambda>w paths m. in_part get put (\<lambda>v. v_capture V v paths m) w),
      v_capture_worktree = (\<lambda>w parent m. in_part get put (\<lambda>v. v_capture_worktree V v parent m) w),
      v_retain_output = (\<lambda>w node commit. in_part get put (\<lambda>v. v_retain_output V v node commit) w),
      v_drift = (\<lambda>w. v_drift V (get w)),
      v_files_in = (\<lambda>w. v_files_in V (get w)),
      v_dirty_paths = (\<lambda>w. v_dirty_paths V (get w)),
      v_commit_exists = (\<lambda>w. v_commit_exists V (get w)),
      v_head_commit = (\<lambda>w. v_head_commit V (get w)),
      v_linka_node = (\<lambda>w. v_linka_node V (get w)),
      v_tree_id = (\<lambda>w. v_tree_id V (get w)),
      v_file_blob = (\<lambda>w. v_file_blob V (get w)),
      v_file_blob_at = (\<lambda>w. v_file_blob_at V (get w)),
      v_root_commit = (\<lambda>w. v_root_commit V (get w)),
      v_remote_url = (\<lambda>w. v_remote_url V (get w)),
      v_current_branch = (\<lambda>w. v_current_branch V (get w)),
      v_ref_commit = (\<lambda>w. v_ref_commit V (get w)),
      v_is_ancestor = (\<lambda>w. v_is_ancestor V (get w)),
      v_publish_fast_forward = (\<lambda>w target expected commit.
        in_part get put (\<lambda>v. v_publish_fast_forward V v target expected commit) w)\<rparr>"

definition fake_world_ops :: "fake_world vcs" where
  "fake_world_ops = lift_vcs fw_vcs (\<lambda>v w. w\<lparr>fw_vcs := v\<rparr>) fake_ops"

section \<open>FakeExecutor\<close>

definition fake_validate_workspace_access ::
  "fake_executor \<Rightarrow> execution_spec \<Rightarrow> prepared_workspace \<Rightarrow> fake_world \<Rightarrow> unit res \<times> fake_world" where
  "fake_validate_workspace_access X spec workspace v =
     (case fx_workspace_access_error X of Some m \<Rightarrow> (bail ''{}'' [m], v) | None \<Rightarrow> (Inr (), v))"

definition fake_run ::
  "orka_codec \<Rightarrow> int \<Rightarrow> fake_executor \<Rightarrow> execution_spec \<Rightarrow> execution_artifacts \<Rightarrow> fake_world \<times> agent_files \<Rightarrow>
   (fault + execution_report) \<times> fake_world \<times> agent_files" where
  "fake_run k now X spec artifacts s =
     (let files = (snd s)\<lparr>af_transcript := Bytes (fx_transcript X), af_diagnostics := Bytes []\<rparr> in
      case write_access_summary k ''fake'' (fx_observed_reads X) now (fx_access_tracking_complete X)
             (fx_access_tracking_reason X) of
        None \<Rightarrow> (Inl (Failed io_error), fst s, files)
      | Some journal \<Rightarrow>
          (case fx_on_run X spec (fst s, files\<lparr>af_accesses := Bytes journal\<rparr>) of
             (Inl e, t) \<Rightarrow> (Inl (Failed e), t)
           | (Inr _, v, files) \<Rightarrow>
               (Inr \<lparr>er_backend = ''fake'', er_exit_code = fx_exit_code X, er_started_at_ms = 0,
                  er_finished_at_ms = 0\<rparr>,
                v\<lparr>fw_runs := fw_runs v @ [spec]\<rparr>, files)))"

definition fake_executor_ops :: "orka_codec \<Rightarrow> int \<Rightarrow> fake_executor \<Rightarrow> fake_world executor" where
  "fake_executor_ops k now X =
     \<lparr>ex_validate_workspace_access = fake_validate_workspace_access X, ex_run = fake_run k now X\<rparr>"

section \<open>FakeWorkspaces\<close>

text \<open>\<open>path.file_name()\<close>: the last normal component.\<close>

definition file_name :: "string \<Rightarrow> string" where
  "file_name path = (case List.rev (components path) of Normal name # _ \<Rightarrow> name | _ \<Rightarrow> [])"

definition fake_plan :: "fake_workspaces \<Rightarrow> string \<Rightarrow> string \<Rightarrow> prepared_workspace" where
  "fake_plan m attempt input =
     \<lparr>pw_schema = WORKSPACE_SCHEMA, pw_path = path_join (fm_root m) attempt,
      pw_git_dir = path_join (fm_root m) (attempt @ ''.git''), pw_branch = ''orka/attempts/'' @ attempt,
      pw_input_commit = input, pw_identity = ''fake-'' @ attempt,
      pw_audit = \<lparr>ra_refs = [], ra_protected_files = [], ra_worktrees = [], ra_object_format = []\<rparr>\<rparr>"

definition path_exists :: "fake_world \<Rightarrow> string \<Rightarrow> bool" where
  "path_exists v path \<longleftrightarrow> path \<in> set (fw_existing v)"

definition fake_prepare :: "fake_workspaces \<Rightarrow> fake_world \<Rightarrow> string \<Rightarrow> string \<Rightarrow> prepared_workspace res \<times> fake_world" where
  "fake_prepare m v attempt input =
     (let planned = fake_plan m attempt input in
      if path_exists v (pw_path planned)
      then (bail ''workspace already exists: {}'' [pw_path planned], v)
      else (Inr planned, v\<lparr>fw_existing := pw_path planned # fw_existing v\<rparr>))"

definition fake_is_clean :: "fake_workspaces \<Rightarrow> prepared_workspace \<Rightarrow> bool res" where
  "fake_is_clean m workspace = Inr (file_name (pw_path workspace) \<notin> set (fm_dirty m))"

definition fake_validate :: "prepared_workspace \<Rightarrow> validated_workspace res" where
  "fake_validate workspace = Inr \<lparr>vw_workspace = workspace, vw_head = pw_input_commit workspace, vw_tree = []\<rparr>"

definition remove_dir :: "string \<Rightarrow> fake_world \<Rightarrow> fake_world" where
  "remove_dir path v = v\<lparr>fw_existing := removeAll path (fw_existing v)\<rparr>"

definition fake_cleanup :: "fake_workspaces \<Rightarrow> fake_world \<Rightarrow> prepared_workspace \<Rightarrow> cleanup_outcome res \<times> fake_world" where
  "fake_cleanup m v workspace =
     (let v = v\<lparr>fw_cleanups := fw_cleanups v @ [workspace]\<rparr> in
      if file_name (pw_path workspace) \<in> set (fm_dirty m) then (Inr RetainedDirty, v)
      else if \<not> path_exists v (pw_path workspace) then (Inr AlreadyAbsent, v)
      else (Inr Removed, remove_dir (pw_path workspace) v))"

definition fake_discard_unchanged ::
  "fake_workspaces \<Rightarrow> fake_world \<Rightarrow> prepared_workspace \<Rightarrow> discard_outcome res \<times> fake_world" where
  "fake_discard_unchanged m v workspace =
     (let v = v\<lparr>fw_cleanups := fw_cleanups v @ [workspace]\<rparr> in
      if file_name (pw_path workspace) \<in> set (fm_dirty m) then (Inr RetainedChanged, v)
      else (Inr Discarded, remove_dir (pw_path workspace) v))"

definition fake_workspace_manager :: "fake_workspaces \<Rightarrow> fake_world workspaces" where
  "fake_workspace_manager m =
     \<lparr>wm_plan = (\<lambda>_. fake_plan m), wm_prepare = fake_prepare m, wm_is_clean = (\<lambda>_. fake_is_clean m),
      wm_validate = (\<lambda>_. fake_validate), wm_promote = (\<lambda>v _ _. (Inr (), v)), wm_cleanup = fake_cleanup m,
      wm_discard_unchanged = fake_discard_unchanged m, wm_exists = path_exists\<rparr>"

end
