(* ===== verification/Orka_Sample.thy ===== *)
theory Orka_Sample
  imports Orka_Fakes Orka_Attempt_Spec
begin

text \<open>
  A concrete run for the witnesses: node \<open>b\<close> of the sample workbench worked by an agent over the
  test doubles; the outcome file the agent leaves is an argument. In \<open>accepted_store\<close> Linka already
  holds the result of the attempt.
\<close>

definition sample_moments :: moments where
  "sample_moments = \<lparr>mo_attempt = ''attempt-1'', mo_created = 1, mo_sealed = 9,
     mo_readings = \<lparr>rd_result_at = 9, rd_decided_at = 9, rd_attached_at = 9, rd_ulid = ''u''\<rparr>\<rparr>"

definition sample_input :: attempt_input where
  "sample_input = \<lparr>ai_snapshot = rc_snapshot submission_b, ai_target_branch = ''main'', ai_description = ''do b'',
     ai_dependency_context = [\<lparr>dc_node = ''a'', dc_title = ''do a'', dc_result_notes = []\<rparr>],
     ai_lineage_context = []\<rparr>"

definition sample_attempt :: attempt_record where
  "sample_attempt = \<lparr>at_schema = 2, at_id = ''attempt-1'', at_created_at_ms = 1, at_input = sample_input\<rparr>"

definition sample_workspaces :: fake_workspaces where
  "sample_workspaces = new_workspaces ''/ws''"

definition sample_workspace :: prepared_workspace where
  "sample_workspace = fake_plan sample_workspaces ''attempt-1'' ''c0''"

definition sample_policy :: execution_policy where
  "sample_policy = new_policy [''agent'']"

definition sample_spec :: execution_spec where
  "sample_spec = execution_spec sample_policy ''b'' sample_workspace ''/o/attempts/attempt-1/io''"

definition sample_report :: execution_report where
  "sample_report = \<lparr>er_backend = ''fake'', er_exit_code = 0, er_started_at_ms = 0, er_finished_at_ms = 0\<rparr>"

definition sample_declared :: declared_outcome where
  "sample_declared = \<lparr>do_outcome = DeclaredSucceeded, do_message = None, do_notes = ''done''\<rparr>"

definition failed_declared :: declared_outcome where
  "failed_declared = \<lparr>do_outcome = DeclaredFailed, do_message = None, do_notes = ''stuck''\<rparr>"

definition sample_seal :: seal_record where
  "sample_seal = \<lparr>sr_schema = 1, sr_sealed_at_ms = 9, sr_state = Submitted None\<rparr>"

definition violated_seal :: seal_record where
  "violated_seal = \<lparr>sr_schema = 1, sr_sealed_at_ms = 9,
     sr_state = ContractViolation ''command exited zero without declaring an outcome''\<rparr>"

definition failed_seal :: seal_record where
  "failed_seal = \<lparr>sr_schema = 1, sr_sealed_at_ms = 9, sr_state = FailureRecorded\<rparr>"

definition sample_accesses :: access_summary where
  "sample_accesses = \<lparr>sm_method = ''fake'', sm_reads = [], sm_complete = True, sm_reason = None\<rparr>"

definition sample_result :: result_meta where
  "sample_result = result_b\<lparr>rm_producer := Some (producer_evidence_with_accesses ''attempt-1'' sample_report (Some sample_accesses))\<rparr>"

text \<open>The tables of the two codecs, each behind a function of its own.\<close>

definition failed_result :: result_meta where
  "failed_result = sample_result\<lparr>rm_outcome := Work outcome.Failed\<rparr>"

definition failed_observation :: context_observation where
  "failed_observation = \<lparr>co_schema = OBSERVATION_SCHEMA,
     co_result = \<lparr>rv_metadata = hash ''xx'', rv_notes = None\<rparr>,
     co_context = [\<lparr>cp_path = ''a.rs'', cp_identity = ''blob-a'', cp_observed = True\<rparr>]\<rparr>"

definition print_result :: "result_meta \<Rightarrow> string option" where
  "print_result x = table_print [result_a, sample_result, failed_result] x"
definition parse_result :: "string \<Rightarrow> result_meta option" where
  "parse_result t = table_parse [result_a, sample_result, failed_result] t"
definition print_observation :: "context_observation \<Rightarrow> string option" where
  "print_observation x = table_print [failed_observation] x"
definition parse_observation :: "string \<Rightarrow> context_observation option" where
  "parse_observation t = table_parse [failed_observation] t"

definition sample_linka_codec :: codec where
  "sample_linka_codec = (table_codec [meta_a, meta_b, meta_p, meta_q] [] [] [] [] [])
     \<lparr>result_to_toml := print_result, result_of_toml := parse_result,
      observation_to_toml := print_observation, observation_of_toml := parse_observation\<rparr>"

lemma sample_linka_faithful: "codec_faithful sample_linka_codec"
proof -
  have codec: "sample_linka_codec = table_codec [meta_a, meta_b, meta_p, meta_q] [result_a, sample_result, failed_result]
      [] [failed_observation] [] []"
    by (simp add: sample_linka_codec_def table_codec_def print_result_def [abs_def] parse_result_def [abs_def]
        print_observation_def [abs_def] parse_observation_def [abs_def])
  show ?thesis unfolding codec by (rule table_codec_faithful)
qed

definition print_attempt :: "attempt_record \<Rightarrow> string option" where
  "print_attempt x = table_print [sample_attempt] x"
definition parse_attempt :: "string \<Rightarrow> attempt_record option" where
  "parse_attempt t = table_parse [sample_attempt] t"
definition print_workspace :: "prepared_workspace \<Rightarrow> string option" where
  "print_workspace x = table_print [sample_workspace] x"
definition parse_workspace :: "string \<Rightarrow> prepared_workspace option" where
  "parse_workspace t = table_parse [sample_workspace] t"
definition print_request :: "execution_spec \<Rightarrow> string option" where
  "print_request x = table_print [sample_spec] x"
definition parse_request :: "string \<Rightarrow> execution_spec option" where
  "parse_request t = table_parse [sample_spec] t"

definition sample_orka_codec :: orka_codec where
  "sample_orka_codec = (orka_table [] [] [] [sample_report] [sample_seal, violated_seal, failed_seal] [sample_declared, failed_declared]
       [TrackingStarted 1 ''fake'', TrackingFinished True None, FileRead ''a.rs'' 0] [])
     \<lparr>attempt_to_toml := print_attempt, attempt_of_toml := parse_attempt,
      workspace_to_toml := print_workspace, workspace_of_toml := parse_workspace,
      request_to_toml := print_request, request_of_toml := parse_request\<rparr>"

lemma sample_orka_faithful: "orka_codec_faithful sample_orka_codec"
proof -
  have codec: "sample_orka_codec = orka_table [sample_attempt] [sample_workspace] [sample_spec] [sample_report] [sample_seal, violated_seal, failed_seal]
      [sample_declared, failed_declared] [TrackingStarted 1 ''fake'', TrackingFinished True None, FileRead ''a.rs'' 0] []"
    by (simp add: sample_orka_codec_def orka_table_def print_attempt_def [abs_def] parse_attempt_def [abs_def]
        print_workspace_def [abs_def] parse_workspace_def [abs_def] print_request_def [abs_def] parse_request_def [abs_def])
  show ?thesis unfolding codec by (rule orka_table_faithful)
qed

definition sample_executor :: "fs_file \<Rightarrow> fake_executor" where
  "sample_executor outcome = default_executor\<lparr>fx_on_run :=
     (\<lambda>spec (v, files). (Inr (), v, files\<lparr>af_outcome := outcome\<rparr>))\<rparr>"

definition sample_engine :: "fs_file \<Rightarrow> fake_world engine" where
  "sample_engine outcome = \<lparr>en_codec = sample_linka_codec, en_orka = sample_orka_codec, en_vcs = fake_world_ops,
     en_vcs_at = (\<lambda>_. fake_world_ops), en_executor = fake_executor_ops sample_orka_codec 0 (sample_executor outcome),
     en_workspaces = fake_workspace_manager sample_workspaces, en_policy = sample_policy\<rparr>"

definition sample_orka :: "fate list \<Rightarrow> fake_world orka" where
  "sample_orka fates =
     \<lparr>ok_bench = \<lparr>wb_store = sample_store,
        wb_vcs = \<lparr>fw_vcs = sample_vcs\<lparr>fk_branch := Some ''main''\<rparr>, fw_existing = [], fw_cleanups = [], fw_runs = []\<rparr>,
        wb_locked = False, wb_files = (\<lambda>_. PMissing)\<rparr>,
      ok_store = \<lparr>as_root = ''/o'', as_dirs = [], as_fates = fates\<rparr>, ok_progress = []\<rparr>"

text \<open>The world after the execution: every record up to the evidence is on disk.\<close>

definition executed_dir :: attempt_dir where
  "executed_dir =
     \<lparr>ad_attempt = Bytes [], ad_workspace = Bytes [], ad_prepared = Bytes [], ad_request = Bytes [],
      ad_evidence = Bytes [], ad_seal = NotFound,
      ad_files = \<lparr>af_prompt = Bytes ''p'', af_outcome = Bytes [], af_transcript = Bytes [], af_diagnostics = Bytes [],
        af_raw_events = NotFound, af_file_changes = NotFound,
        af_accesses = Bytes [CHR ''-'', CHR 0x0A, CHR ''-'', CHR ''x'', CHR 0x0A]\<rparr>\<rparr>"

definition accepted_store :: store where
  "accepted_store = sample_store\<lparr>store_nodes :=
     AList.update ''b'' (dir_of ''x'' ''do b'' (Bytes ''x'')) (store_nodes sample_store)\<rparr>"

definition sample_executed :: "store \<Rightarrow> fate list \<Rightarrow> fake_world orka" where
  "sample_executed linka fates =
     \<lparr>ok_bench = \<lparr>wb_store = linka,
        wb_vcs = \<lparr>fw_vcs = sample_vcs\<lparr>fk_branch := Some ''main''\<rparr>, fw_existing = [''/ws/attempt-1''],
          fw_cleanups = [], fw_runs = [sample_spec]\<rparr>,
        wb_locked = False, wb_files = (\<lambda>_. PMissing)\<rparr>,
      ok_store = \<lparr>as_root = ''/o'', as_dirs = [(''attempt-1'', executed_dir)], as_fates = fates\<rparr>, ok_progress = []\<rparr>"

text \<open>The same with a declared failure whose result Linka holds, and one file that was read.\<close>

definition failed_store :: store where
  "failed_store = sample_store\<lparr>store_nodes :=
     AList.update ''b'' (dir_of ''x'' ''do b'' (Bytes ''xx'')) (store_nodes sample_store)\<rparr>"

definition failed_executed :: "fake_world orka" where
  "failed_executed =
     \<lparr>ok_bench = \<lparr>wb_store = failed_store,
        wb_vcs = \<lparr>fw_vcs = sample_vcs\<lparr>fk_revision_blobs := [((''c0'', ''a.rs''), ''blob-a'')]\<rparr>,
          fw_existing = [''/ws/attempt-1''], fw_cleanups = [], fw_runs = []\<rparr>,
        wb_locked = False, wb_files = (\<lambda>_. PMissing)\<rparr>,
      ok_store = \<lparr>as_root = ''/o'', as_dirs = [(''attempt-1'', executed_dir\<lparr>ad_files := (ad_files executed_dir)
          \<lparr>af_outcome := Bytes ''x'', af_accesses := Bytes (text_lines [''-'', ''-xx'', ''-x''])\<rparr>\<rparr>)], as_fates = []\<rparr>,
      ok_progress = []\<rparr>"

end
