(* ===== verification/Orka_Engine_Spec.thy ===== *)
theory Orka_Engine_Spec
  imports Orka_Sample
begin

text \<open>
  What the lifecycle of an attempt promises about the attempt store, whatever fails and wherever the
  machine stops: \<open>safe k S m\<close> says that \<open>m\<close>, started with \<open>S\<close> of the store, leaves the store in
  its lifecycle invariant when it returns, fails or is cut short; \<open>moves R m\<close> that it moves the
  store along \<open>R\<close>.
\<close>

section \<open>Operations and the store\<close>

abbreviation stored :: "(attempt_store \<Rightarrow> bool) \<Rightarrow> 'v orka \<Rightarrow> bool" where
  "stored S w \<equiv> S (ok_store w)"

abbreviation safe :: "orka_codec \<Rightarrow> (attempt_store \<Rightarrow> bool) \<Rightarrow> ('v, 'a) engine_op \<Rightarrow> bool" where
  "safe k S m \<equiv> triple (stored S) m (\<lambda>_. stored (lifecycle k)) (\<lambda>_. stored (lifecycle k))"

abbreviation moves :: "(attempt_store \<Rightarrow> attempt_store \<Rightarrow> bool) \<Rightarrow> ('v, 'a) engine_op \<Rightarrow> bool" where
  "moves R m \<equiv> within (\<lambda>w w'. R (ok_store w) (ok_store w')) m"

text \<open>Operations that leave the store, and operations that leave Linka's store, as it is.\<close>

abbreviation keeps_store :: "('v, 'a) engine_op \<Rightarrow> bool" where
  "keeps_store m \<equiv> within (\<lambda>w w'. ok_store w' = ok_store w) m"

abbreviation keeps_linka :: "('v, 'a) engine_op \<Rightarrow> bool" where
  "keeps_linka m \<equiv> within (\<lambda>w w'. wb_store (ok_bench w') = wb_store (ok_bench w)) m"

lemma keeps_store_ops:
  "keeps_store (ask f)" "keeps_store (progress p)" "keeps_store (on_bench m)" "keeps_store (on_repository n)"
  "keeps_store (st_read g)"
  by (auto simp: within_def ask_def st_read_def progress_def on_bench_def on_repository_def at_part_def
      split: prod.splits)

lemma keeps_linka_ops:
  "keeps_linka (ask f)" "keeps_linka (progress p)" "keeps_linka (on_repository n)" "keeps_linka (st_read g)"
  "keeps_linka (on_store m)"
  by (auto simp: within_def ask_def st_read_def progress_def on_bench_def on_repository_def on_vcs_def
      at_part_def on_store_def split: prod.splits)

lemma keeps_store_then:
  "keeps_store m \<Longrightarrow> (\<And>x. keeps_store (f x)) \<Longrightarrow> keeps_store (st_then m f)" "keeps_store (st_return y)"
  by (auto intro!: within_then within_return simp: transp_def reflp_def)

lemma keeps_linka_then:
  "keeps_linka m \<Longrightarrow> (\<And>x. keeps_linka (f x)) \<Longrightarrow> keeps_linka (st_then m f)" "keeps_linka (st_return y)"
  by (auto intro!: within_then within_return simp: transp_def reflp_def)

lemma st_match_cases:
  assumes "st_match m h f s = (r, t)"
  obtains (ok) x u where "m s = (Inr x, u)" "f x u = (r, t)"
  | (handled) e u where "m s = (Inl (Failed e), u)" "h e u = (r, t)"
  | (crashed) "m s = (Inl Crashed, t)" "r = Inl Crashed"
  using assms unfolding st_match_def
  by (cases rule: st_try_cases) (auto simp: st_fail_def split: fault.splits)

lemma within_match:
  assumes "transp R" and "within R m" and "\<And>x. within R (f x)" and "\<And>e. within R (h e)"
  shows "within R (st_match m h f)"
proof (rule withinI)
  fix s r t
  assume "st_match m h f s = (r, t)"
  then show "R s t"
  proof (cases rule: st_match_cases)
    case (ok x u)
    then show ?thesis using transpD [OF assms(1)] withinD [OF assms(2)] withinD [OF assms(3)] by blast
  next
    case (handled e u)
    then show ?thesis using transpD [OF assms(1)] withinD [OF assms(2)] withinD [OF assms(4)] by blast
  next
    case crashed
    then show ?thesis using withinD [OF assms(2)] by blast
  qed
qed

lemma triple_match:
  assumes "triple P m R (\<lambda>_. F)" and "\<And>x. triple (R x) (f x) Q E" and "\<And>e. triple F (h e) Q E"
    and "\<And>s. F s \<Longrightarrow> E Crashed s"
  shows "triple P (st_match m h f) Q E"
  unfolding triple_def
proof (intro allI impI)
  fix s r t
  assume p: "P s" and "st_match m h f s = (r, t)"
  from this(2) show "case r of Inl e \<Rightarrow> E e t | Inr x \<Rightarrow> Q x t"
  proof (cases rule: st_match_cases)
    case (ok x u)
    show ?thesis by (rule triple_run [OF assms(2) triple_Inr [OF assms(1) p ok(1)] ok(2)])
  next
    case (handled e u)
    show ?thesis by (rule triple_run [OF assms(3) triple_Inl [OF assms(1) p handled(1)] handled(2)])
  next
    case crashed
    then show ?thesis using assms(4) triple_Inl [OF assms(1) p crashed(1)] by simp
  qed
qed

section \<open>Rules for safe operations\<close>

lemma keeps_triple: "keeps_store m \<Longrightarrow> triple (stored S) m (\<lambda>_. stored S) (\<lambda>_. stored S)"
  by (auto simp: triple_def within_def split: sum.splits)

lemma store_triple:
  "triple S m (\<lambda>_. S') (\<lambda>_. T) \<Longrightarrow> triple (stored S) (on_store m) (\<lambda>_. stored S') (\<lambda>_. stored T)"
  unfolding on_store_def by (rule triple_part) auto

lemma safe_store:
  assumes "triple S m (\<lambda>_. S') (\<lambda>_. lifecycle k)" and "\<And>x. safe k S' (f x)"
  shows "safe k S (st_then (on_store m) f)"
  by (rule triple_then [OF store_triple [OF assms(1)] assms(2)])

lemma safe_other:
  assumes "keeps_store m" and "\<And>s. S s \<Longrightarrow> lifecycle k s" and "\<And>x. safe k S (f x)"
  shows "safe k S (st_then m f)"
  by (rule triple_then [OF triple_weaken [OF keeps_triple [OF assms(1), of S]] assms(3)]) (auto dest: assms(2))

lemma safe_then:
  assumes "safe k S m" and "\<And>x. safe k (lifecycle k) (f x)"
  shows "safe k S (st_then m f)"
  by (rule triple_then [OF assms])

lemma safe_match_other:
  assumes "keeps_store m" and "\<And>s. S s \<Longrightarrow> lifecycle k s" and "\<And>x. safe k S (f x)" and "\<And>e. safe k S (h e)"
  shows "safe k S (st_match m h f)"
  by (rule triple_match [OF keeps_triple [OF assms(1), of S] assms(3,4)]) (auto dest: assms(2))

lemma safe_match:
  assumes "safe k S m" and "\<And>x. safe k (lifecycle k) (f x)" and "\<And>e. safe k (lifecycle k) (h e)"
  shows "safe k S (st_match m h f)"
  by (rule triple_match [OF assms]) simp

lemma safe_last: "triple S m (\<lambda>_. lifecycle k) (\<lambda>_. lifecycle k) \<Longrightarrow> safe k S (on_store m)"
  by (rule store_triple)

lemma safe_keeps: "keeps_store m \<Longrightarrow> (\<And>s. S s \<Longrightarrow> lifecycle k s) \<Longrightarrow> safe k S m"
  by (rule triple_weaken [OF keeps_triple [of m S]]) auto

lemma safe_return: "(\<And>s. S s \<Longrightarrow> lifecycle k s) \<Longrightarrow> safe k S (st_return x)"
  by (rule triple_return) simp

lemma safe_fail: "(\<And>s. S s \<Longrightarrow> lifecycle k s) \<Longrightarrow> safe k S (st_fail e)"
  by (rule triple_fail) simp

lemma seal_safe:
  "orka_codec_faithful k \<Longrightarrow> triple (reached k i p) (seal k now i state) (\<lambda>_. lifecycle k) (\<lambda>_. lifecycle k)"
  by (rule triple_post [OF seal_triple]) (simp_all add: reached_lifecycle)


section \<open>The lifecycle of an attempt is safe\<close>

lemma reached_files: "reached k i p s \<Longrightarrow> reached k i p (put_files i files s)"
proof -
  assume r: "reached k i p s"
  then obtain d where d: "map_of (as_dirs s) i = Some d" "dir_sound k i d" "phase_file p d \<noteq> NotFound"
    by (auto simp: reached_def)
  have sound: "dir_sound k i (d\<lparr>ad_files := files\<rparr>) = dir_sound k i d" by (simp add: dir_sound_defs)
  have "phase_file p (d\<lparr>ad_files := files\<rparr>) = phase_file p d" by (cases p) simp_all
  then have "dir_sound k i (d\<lparr>ad_files := files\<rparr>)" "phase_file p (d\<lparr>ad_files := files\<rparr>) \<noteq> NotFound"
    using d sound by simp_all
  then show ?thesis using r d by (auto simp: put_files_def intro: reached_put)
qed

lemma execute_triple:
  "triple (stored (reached k i p)) (execute E i spec artifacts) (\<lambda>_. stored (reached k i p)) (\<lambda>_. stored (reached k i p))"
  by (auto simp: triple_def execute_def reached_files split: prod.splits sum.splits)

lemma stage_prompt_triple:
  "triple (stored (reached k i p)) (stage_prompt E i input) (\<lambda>_. stored (reached k i p)) (\<lambda>_. stored (lifecycle k))"
  unfolding stage_prompt_def
  by (rule triple_then [OF store_triple [OF io_dir_triple]], rule store_triple, rule triple_context, rule triple_durable)
    (auto intro: reached_files reached_lifecycle)

lemma conclude_safe:
  "orka_codec_faithful (en_orka E) \<Longrightarrow> safe (en_orka E) (reached (en_orka E) i p) (conclude E mo i state b candidate)"
  unfolding conclude_def by (rule safe_store [OF seal_safe]) (auto intro: safe_return)

lemma seal_and_report_safe:
  "orka_codec_faithful (en_orka E) \<Longrightarrow> safe (en_orka E) (reached (en_orka E) (mo_attempt mo) p) (seal_and_report E mo state)"
  unfolding seal_and_report_def by (rule safe_store [OF seal_safe]) (auto intro!: safe_keeps keeps_store_ops)

lemma observe_keeps: "keeps_store (record_observed_context E input workspace result accesses)"
  unfolding record_observed_context_def
  by (intro within_then keeps_store_ops within_return) (auto simp: transp_def reflp_def)

lemma submit_agent_keeps: "keeps_store (submit_agent_outcome E mo i input v ws producer accesses declared evidence)"
  unfolding submit_agent_outcome_def
  by (cases declared)
    (auto intro!: within_then keeps_store_ops within_return simp: transp_def reflp_def split: prod.splits)

lemma observe_failure_keeps: "keeps_store (observe_failure E i input ws accesses answer succeeded)"
  unfolding observe_failure_def
  by (intro within_if within_then keeps_store_ops observe_keeps within_return) (auto simp: transp_def reflp_def)

lemma settle_recorded_safe:
  assumes "orka_codec_faithful (en_orka E)"
  shows "safe (en_orka E) (reached (en_orka E) i p) (settle_recorded E mo i input ws accesses recorded failed)"
  unfolding settle_recorded_def
  by (intro safe_other [where S = "reached (en_orka E) i p"] keeps_store_ops conclude_safe [OF assms]
      within_if observe_keeps within_return reached_lifecycle) (auto simp: reflp_def)

lemma output_evidence_triple:
  "triple (stored (reached k i p)) (output_evidence E i) (\<lambda>_. stored (reached k i p)) (\<lambda>_. stored (lifecycle k))"
  unfolding output_evidence_def
  by (rule triple_then [OF store_triple [OF io_dir_triple]])
    (rule triple_weaken [OF keeps_triple [OF keeps_store_ops(1), of "reached k i p"]], auto intro: reached_lifecycle)

lemma settle_submit_safe:
  assumes "orka_codec_faithful (en_orka E)"
  shows "safe (en_orka E) (reached (en_orka E) i p) (settle_submit E mo i input ws v report accesses declared failed)"
proof -
  let ?S = "reached (en_orka E) i p"
  let ?answer = "\<lambda>(answer, succeeded, candidate). st_then (observe_failure E i input ws accesses answer succeeded)
      (\<lambda>_. conclude E mo i (sealed_answer answer succeeded) failed candidate)"
  have "safe (en_orka E) ?S (?answer x)" for x
    by (cases x) (auto intro!: safe_other [where S = ?S] observe_failure_keeps conclude_safe [OF assms] reached_lifecycle)
  then have "safe (en_orka E) ?S (st_then (output_evidence E i) (\<lambda>evidence.
      st_then (submit_agent_outcome E mo i input v ws
        (producer_evidence_with_accesses i report (Some accesses)) accesses declared evidence) ?answer))"
    by (intro triple_then [OF output_evidence_triple] safe_other [where S = ?S] submit_agent_keeps reached_lifecycle)
  then show ?thesis unfolding settle_submit_def
    by (intro safe_other [where S = ?S] keeps_store_ops reached_lifecycle)
      (auto intro: settle_recorded_safe [OF assms] split: option.splits)
qed

lemma settle_safe:
  assumes "orka_codec_faithful (en_orka E)"
  shows "safe (en_orka E) (reached (en_orka E) i p) (settle E mo i input ws report)"
proof -
  let ?S = "reached (en_orka E) i p"
  have decision: "safe (en_orka E) ?S (settle_decision E mo i input ws v report accesses decision)" for v accesses decision
    unfolding settle_decision_def
    by (auto split: decision.splits intro: conclude_safe [OF assms] settle_submit_safe [OF assms])
  have declared: "safe (en_orka E) ?S (settle_declared E mo i input ws v report accesses)" for v accesses
    unfolding settle_declared_def
    by (intro safe_store [OF io_dir_triple] safe_other [where S = ?S] keeps_store_ops decision reached_lifecycle)
  have validated: "safe (en_orka E) ?S (settle_validated E mo i input ws report accesses v)" for v accesses
    unfolding settle_validated_def
    by (intro safe_other [where S = ?S] keeps_store_ops reached_lifecycle)
      (auto split: option.splits intro: conclude_safe [OF assms] declared)
  show ?thesis unfolding settle_def
    by (intro safe_other [where S = ?S] safe_match_other keeps_store_ops conclude_safe [OF assms] validated
        reached_lifecycle)
qed

lemma execution_failed_safe:
  assumes "orka_codec_faithful (en_orka E)"
  shows "safe (en_orka E) (reached (en_orka E) (mo_attempt mo) p) (execution_failed E mo ws error)"
proof -
  let ?S = "reached (en_orka E) (mo_attempt mo) p"
  have interrupted: "safe (en_orka E) ?S (seal_interrupted E mo error u x)" for u x
    unfolding seal_interrupted_def
    by (intro safe_match safe_last seal_safe [OF assms] safe_fail safe_then safe_keeps keeps_store_ops) auto
  have discard: "safe (en_orka E) ?S (st_match (on_store (discard_without_evidence (en_orka E) (mo_attempt mo))) h f)"
    if "\<And>e. safe (en_orka E) (lifecycle (en_orka E)) (h e)" "\<And>x. safe (en_orka E) (lifecycle (en_orka E)) (f x)" for h f
    by (intro safe_match safe_last triple_pre [OF discard_triples(1)] that) (auto intro: reached_lifecycle)
  show ?thesis unfolding execution_failed_def Let_def
    by (intro safe_match_other keeps_store_ops safe_then [OF seal_and_report_safe [OF assms]] safe_fail interrupted)
      (auto split: discard_outcome.splits intro!: discard safe_fail interrupted intro: reached_lifecycle)
qed

lemma finish_run_safe:
  assumes "orka_codec_faithful (en_orka E)"
  shows "safe (en_orka E) (reached (en_orka E) (mo_attempt mo) Requested) (finish_run E mo node input ws report)"
proof -
  let ?k = "en_orka E"
  have rest: "safe ?k (lifecycle ?k) (st_then (progress p) (\<lambda>_.
      st_then (on_repository m) (\<lambda>cleanup.
      st_then (if b cleanup then on_store (discard_registered ?k i) else st_return ()) (\<lambda>_. st_return (g cleanup)))))"
    for p b i and m :: "'a \<Rightarrow> cleanup_outcome res \<times> 'a" and g :: "cleanup_outcome \<Rightarrow> run_report"
    by (intro safe_other [where S = "lifecycle ?k"] keeps_store_ops safe_then triple_if safe_last discard_triples
        safe_return)
  show ?thesis unfolding finish_run_def Let_def
    by (intro safe_store [OF record_evidence_triple [OF assms]]
        safe_other [where S = "reached ?k (mo_attempt mo) Executed"] keeps_store_ops reached_lifecycle
        safe_then [OF settle_safe [OF assms]])
      (auto intro: rest split: prod.splits)
qed

lemma run_prepared_safe:
  assumes "orka_codec_faithful (en_orka E)"
  shows "safe (en_orka E) (reached (en_orka E) (mo_attempt mo) WorkspacePlanned) (run_prepared E mo node input ws)"
proof -
  let ?k = "en_orka E" and ?i = "mo_attempt mo"
  have admission: "keeps_store (admit E spec ws)" for spec
    unfolding admit_def by (intro within_then keeps_store_ops) (auto simp: transp_def)
  have refuse: "safe ?k (reached ?k ?i p) (refuse_admission E mo e)" for p e
    unfolding refuse_admission_def by (intro safe_then [OF seal_and_report_safe [OF assms]] safe_fail)
  have executing: "safe ?k (reached ?k ?i Requested) (st_match (execute E ?i spec artifacts)
      (execution_failed E mo ws) (finish_run E mo node input ws))" for spec artifacts
    by (rule triple_match [OF execute_triple finish_run_safe [OF assms] execution_failed_safe [OF assms]])
      (rule reached_lifecycle)
  have admitted: "safe ?k (reached ?k ?i Prepared) (st_then (on_store (record_request ?k ?i spec)) (\<lambda>_.
      st_then (st_read f) (\<lambda>artifacts. st_then (progress (p artifacts)) (\<lambda>_.
      st_match (execute E ?i spec artifacts) (execution_failed E mo ws) (finish_run E mo node input ws)))))"
    for spec p f
    by (intro safe_store [OF record_request_triple [OF assms]] safe_other [where S = "reached ?k ?i Requested"]
        keeps_store_ops executing reached_lifecycle)
  have staged: "safe ?k (reached ?k ?i Prepared) (st_then (st_read f) (\<lambda>spec.
      st_match (admit E spec ws) (refuse_admission E mo) (\<lambda>_.
      st_then (on_store (record_request ?k ?i spec)) (\<lambda>_.
      st_then (st_read g) (\<lambda>artifacts. st_then (progress (p artifacts)) (\<lambda>_.
      st_match (execute E ?i spec artifacts) (execution_failed E mo ws) (finish_run E mo node input ws)))))))" for f g p
    by (intro safe_other [where S = "reached ?k ?i Prepared"] safe_match_other admission refuse admitted
        keeps_store_ops reached_lifecycle)
  show ?thesis unfolding run_prepared_def Let_def
    by (intro safe_store [OF mark_prepared_triple] safe_other [where S = "reached ?k ?i Prepared"]
        triple_then [OF stage_prompt_triple] keeps_store_ops staged reached_lifecycle)
qed

lemma run_node_safe:
  assumes "orka_codec_faithful (en_orka E)"
  shows "safe (en_orka E) (lifecycle (en_orka E)) (run_node_with_progress E mo node)"
proof -
  let ?k = "en_orka E" and ?i = "mo_attempt mo"
  have prepare: "keeps_store (st_context m a (on_repository f))" for m a f
    by (rule within_context) (rule keeps_store_ops)
  have planned: "safe ?k (reached ?k ?i WorkspacePlanned) (st_then (st_context m a (on_repository f))
      (run_prepared E mo node input))" for m a f input
    by (intro safe_other [where S = "reached ?k ?i WorkspacePlanned"] prepare run_prepared_safe [OF assms] reached_lifecycle)
  have created: "safe ?k (reached ?k ?i Created) (st_then (progress p) (\<lambda>_. st_then (st_read g) (\<lambda>plan.
      st_then (on_store (plan_workspace ?k ?i plan)) (\<lambda>_.
      st_then (st_context m a (on_repository f)) (run_prepared E mo node input)))))" for m a f input p g
    by (intro safe_other [where S = "reached ?k ?i Created"] keeps_store_ops
        safe_store [OF plan_workspace_triple [OF assms]] planned reached_lifecycle)
  have "triple (lifecycle ?k) (create_attempt ?k now ?i input) (\<lambda>_. reached ?k ?i Created) (\<lambda>_. lifecycle ?k)" for now input
    by (rule triple_post [OF create_triple [OF assms]]) simp
  note creating = safe_store [OF this]
  show ?thesis unfolding run_node_with_progress_def Let_def
    by (intro triple_if safe_fail safe_other [where S = "lifecycle ?k"] keeps_store_ops creating created)
qed

section \<open>Recovery is safe\<close>

lemma recover_cleanup_keeps: "keeps_store (recover_cleanup E ws)"
  unfolding recover_cleanup_def by (auto split: option.splits intro!: keeps_store_then keeps_store_ops)

lemma finish_sealed_safe: "safe (en_orka E) (lifecycle (en_orka E)) (finish_sealed E i ws sealed)"
  unfolding finish_sealed_def
  by (intro safe_then safe_keeps [OF recover_cleanup_keeps] triple_if safe_last discard_triples safe_return)

lemma recover_unexecuted_safe:
  assumes "orka_codec_faithful (en_orka E)"
  shows "safe (en_orka E) (reached (en_orka E) i Created) (recover_unexecuted E mo i n)"
proof -
  let ?k = "en_orka E"
  have discard: "triple (stored (reached ?k i Created)) (discard_unchanged_attempt E i ws)
      (\<lambda>b w. if b then stored (lifecycle ?k) w else stored (reached ?k i Created) w) (\<lambda>_. stored (lifecycle ?k))" for ws
  proof -
    have tail: "triple (stored (reached ?k i Created))
        (st_then (if b then on_store (discard_without_evidence ?k i) else st_return ()) (\<lambda>_. st_return b))
        (\<lambda>b w. if b then stored (lifecycle ?k) w else stored (reached ?k i Created) w) (\<lambda>_. stored (lifecycle ?k))" for b
    proof (cases b)
      case True
      then show ?thesis
        by (auto intro!: triple_then [where R = "\<lambda>_. stored (lifecycle ?k)"] safe_last triple_pre [OF discard_triples(1)]
            triple_return intro: reached_lifecycle)
    next
      case False
      then show ?thesis
        by (auto intro!: triple_then [where R = "\<lambda>_. stored (reached ?k i Created)"] triple_return)
    qed
    have "keeps_store (case ws of None \<Rightarrow> st_return True | Some ws \<Rightarrow>
        st_then (on_repository (\<lambda>v. wm_discard_unchanged (en_workspaces E) v ws)) (\<lambda>x. st_return (x = Discarded)))"
      by (auto split: option.splits intro!: keeps_store_then keeps_store_ops)
    then show ?thesis unfolding discard_unchanged_attempt_def
      by (intro triple_then [OF triple_weaken [OF keeps_triple [of _ "reached ?k i Created"]] tail])
        (auto intro: reached_lifecycle)
  qed
  show ?thesis unfolding recover_unexecuted_def Let_def
    by (intro safe_match_other keeps_store_ops reached_lifecycle)
      (auto intro!: safe_store [OF seal_safe [OF assms]] safe_return triple_then [OF discard] safe_then [OF safe_keeps [OF recover_cleanup_keeps]]
        intro: triple_pre split: if_splits)
qed

lemma recover_executed_safe:
  assumes "orka_codec_faithful (en_orka E)"
  shows "safe (en_orka E) (reached (en_orka E) i Created) (recover_executed E mo i n evidence)"
  unfolding recover_executed_def Let_def
  by (auto split: option.splits intro!: safe_fail safe_match [OF settle_safe [OF assms]] safe_return
      safe_then [OF finish_sealed_safe] reached_lifecycle)

lemma recover_sealed_safe: "safe (en_orka E) (lifecycle (en_orka E)) (recover_sealed E i n)"
  unfolding recover_sealed_def Let_def by (intro safe_then [OF finish_sealed_safe] safe_return)

lemma loaded_reached:
  assumes "lifecycle k s" and "load_attempt k s i = Inr n"
  shows "reached k i Created s"
proof -
  have present: "ad_attempt (attempt_dir_of s i) \<noteq> NotFound"
    using assms(2) by (auto simp: load_attempt_def Let_def result_simps file_holds_def)
  then obtain d where d: "map_of (as_dirs s) i = Some d"
    by (cases "map_of (as_dirs s) i") (auto simp: attempt_dir_of_def bare_dir_def)
  then have "d \<noteq> bare_dir" using present by (auto simp: bare_dir_def)
  then have "dir_sound k i d" using assms(1) d unfolding lifecycle_def by blast
  then show ?thesis using assms(1) d present by (simp add: reached_def)
qed

lemma recover_attempt_safe:
  assumes "orka_codec_faithful (en_orka E)"
  shows "safe (en_orka E) (lifecycle (en_orka E)) (recover_attempt E mo i)"
proof -
  let ?k = "en_orka E"
  have load: "triple (stored (lifecycle ?k)) (ask (\<lambda>w. load_attempt ?k (ok_store w) i))
      (\<lambda>_. stored (reached ?k i Created)) (\<lambda>_. stored (lifecycle ?k))"
    unfolding ask_def by (rule triple_read) (auto simp: result_simps loaded_reached)
  show ?thesis unfolding recover_attempt_def
    by (rule triple_then [OF load])
      (auto split: attempt_phase.splits option.splits intro!: recover_unexecuted_safe [OF assms]
        recover_executed_safe [OF assms] safe_fail triple_pre [OF recover_sealed_safe] intro: reached_lifecycle)
qed

lemma recover_all_safe:
  "orka_codec_faithful (en_orka E) \<Longrightarrow> safe (en_orka E) (lifecycle (en_orka E)) (recover_all E mo ids)"
  by (induction ids) (auto intro!: safe_return safe_then recover_attempt_safe)

lemma recover_safe:
  "orka_codec_faithful (en_orka E) \<Longrightarrow> safe (en_orka E) (lifecycle (en_orka E)) (recover E mo)"
  unfolding recover_def by (intro safe_then safe_keeps keeps_store_ops recover_all_safe)

lemma run_next_safe:
  "orka_codec_faithful (en_orka E) \<Longrightarrow> safe (en_orka E) (lifecycle (en_orka E)) (run_next_with_progress E mo)"
  unfolding run_next_with_progress_def
  by (rule safe_other [OF keeps_store_ops(1)])
    (auto intro!: safe_then run_node_safe safe_return split: list.splits)

section \<open>What no run changes\<close>

text \<open>Two ways the store moves: seals that Linka does not back stay, and other attempts stay.\<close>

lemma moves_keeps: "reflp R \<Longrightarrow> keeps_store m \<Longrightarrow> moves R m"
  by (auto simp: within_def reflp_def)

lemma moves_then: "transp R \<Longrightarrow> moves R m \<Longrightarrow> (\<And>x. moves R (f x)) \<Longrightarrow> moves R (st_then m f)"
  by (rule within_then) (auto simp: transp_def)

lemma moves_match:
  "transp R \<Longrightarrow> moves R m \<Longrightarrow> (\<And>x. moves R (f x)) \<Longrightarrow> (\<And>e. moves R (h e)) \<Longrightarrow> moves R (st_match m h f)"
  by (rule within_match) (auto simp: transp_def)

lemma moves_store: "within R m \<Longrightarrow> moves R (on_store m)"
  unfolding on_store_def by (rule within_part) auto

lemma moves_leaf: "reflp R \<Longrightarrow> moves R (st_return x)" "reflp R \<Longrightarrow> moves R (st_fail e)"
  by (auto simp: within_def st_return_def st_fail_def reflp_def)

text \<open>Everything the engine asks of a relation, for the attempt it works on.\<close>

definition admits :: "(attempt_store \<Rightarrow> attempt_store \<Rightarrow> bool) \<Rightarrow> orka_codec \<Rightarrow> attempt_id \<Rightarrow> bool" where
  "admits R k i \<longleftrightarrow>
     reflp R \<and> transp R \<and>
     (\<forall>s y. R s (s\<lparr>as_fates := y\<rparr>)) \<and>
     (\<forall>files s y. R s (put_files i files (s\<lparr>as_fates := y\<rparr>))) \<and>
     (\<forall>now input. within R (create_attempt k now i input)) \<and> (\<forall>p. within R (plan_workspace k i p)) \<and>
     within R (mark_prepared i) \<and> (\<forall>spec. within R (record_request k i spec)) \<and>
     (\<forall>report. within R (record_evidence k i report)) \<and> (\<forall>now state. within R (seal k now i state)) \<and>
     within R (discard_without_evidence k i) \<and> within R (discard_registered k i)"

lemma put_files_moves:
  "keeps_seals k s (put_files i files (s\<lparr>as_fates := y\<rparr>))" "others_kept i s (put_files i files (s\<lparr>as_fates := y\<rparr>))"
  by (auto simp: put_files_def intro!: keeps_seals_put others_kept_put)

lemma engine_relations: "admits (keeps_seals k) k i" "admits (others_kept i) k i"
  unfolding admits_def plan_workspace_def mark_prepared_def record_request_def record_evidence_def
  by (auto intro!: record_op_moves seal_moves create_moves discard_moves keeps_seals_order others_kept_order put_files_moves
      simp: reflpD [OF keeps_seals_order(1)] reflpD [OF others_kept_order(1)])

lemma admits_order: "admits R k i \<Longrightarrow> reflp R" "admits R k i \<Longrightarrow> transp R"
  by (simp_all add: admits_def)

lemma admits_ops:
  assumes "admits R k i"
  shows "within R (io_dir i)" "within R (create_attempt k now i input)" "within R (plan_workspace k i p)"
    "within R (mark_prepared i)" "within R (record_request k i spec)" "within R (record_evidence k i report)"
    "within R (seal k now i state)" "within R (discard_without_evidence k i)" "within R (discard_registered k i)"
  using assms by (auto simp: admits_def intro: io_dir_moves)

lemma admits_files:
  assumes "admits R k i"
  shows "moves R (execute E i spec artifacts)" and "moves R (stage_prompt E i input)"
proof -
  have put: "R s (put_files i files s)" for s files
  proof -
    have "R s (put_files i files (s\<lparr>as_fates := as_fates s\<rparr>))" using assms unfolding admits_def by blast
    then show ?thesis by simp
  qed
  show "moves R (execute E i spec artifacts)"
    by (auto simp: within_def execute_def put split: prod.splits)
  have "within R (st_context m a (durable (\<lambda>s. put_files i (g s) s)))" for m a g
    using assms by (intro within_context withinI) (auto elim!: durable_cases simp: admits_def)
  then show "moves R (stage_prompt E i input)"
    unfolding stage_prompt_def
    by (intro moves_then moves_store admits_ops(1) [OF assms] admits_order(2) [OF assms])
qed

lemma settle_moves:
  assumes "admits R (en_orka E) i"
  shows "moves R (settle E mo i input ws report)"
proof -
  note R = admits_order [OF assms]
  have conclude: "moves R (conclude E mo i state b candidate)" for state b candidate
    unfolding conclude_def by (intro moves_then R moves_store admits_ops [OF assms] moves_leaf)
  have recorded: "moves R (settle_recorded E mo i input ws accesses recorded b)" for accesses recorded b
    unfolding settle_recorded_def
    by (intro moves_then R within_if moves_keeps [OF R(1)] keeps_store_ops observe_keeps moves_leaf conclude)
  have evidence: "moves R (output_evidence E i)"
    unfolding output_evidence_def
    by (intro moves_then R moves_store admits_ops(1) [OF assms] moves_keeps [OF R(1) keeps_store_ops(1)])
  have submit: "moves R (settle_submit E mo i input ws v report accesses declared b)" for v accesses declared b
    unfolding settle_submit_def
    by (intro moves_then R moves_keeps [OF R(1) keeps_store_ops(1)])
      (auto intro!: moves_then R recorded evidence moves_keeps [OF R(1) submit_agent_keeps]
        moves_keeps [OF R(1) observe_failure_keeps] conclude split: option.splits)
  have decision: "moves R (settle_decision E mo i input ws v report accesses decision)" for v accesses decision
    unfolding settle_decision_def by (auto split: decision.splits intro: conclude submit)
  have declared: "moves R (settle_declared E mo i input ws v report accesses)" for v accesses
    unfolding settle_declared_def
    by (intro moves_then R moves_store admits_ops(1) [OF assms] moves_keeps [OF R(1) keeps_store_ops(1)] decision)
  have validated: "moves R (settle_validated E mo i input ws report accesses v)" for v accesses
    unfolding settle_validated_def
    by (intro moves_then R moves_keeps [OF R(1) keeps_store_ops(1)]) (auto split: option.splits intro: conclude declared)
  show ?thesis unfolding settle_def
    by (intro moves_then moves_match R moves_keeps [OF R(1) keeps_store_ops(1)] conclude validated)
qed

lemma run_prepared_moves:
  assumes "admits R (en_orka E) (mo_attempt mo)"
  shows "moves R (run_prepared E mo node input ws)"
proof -
  note R = admits_order [OF assms]
  note store = moves_store [OF admits_ops(4) [OF assms]] moves_store [OF admits_ops(5) [OF assms]]
    moves_store [OF admits_ops(6) [OF assms]] moves_store [OF admits_ops(7) [OF assms]]
    moves_store [OF admits_ops(8) [OF assms]] moves_store [OF admits_ops(9) [OF assms]]
  note keeps = moves_keeps [OF R(1) keeps_store_ops(1)] moves_keeps [OF R(1) keeps_store_ops(2)]
    moves_keeps [OF R(1) keeps_store_ops(4)] moves_keeps [OF R(1) keeps_store_ops(5)]
  have admission: "moves R (admit E spec ws)" for spec
    unfolding admit_def by (intro moves_then R keeps)
  have sealing: "moves R (seal_and_report E mo state)" for state
    unfolding seal_and_report_def by (intro moves_then R store keeps)
  have refuse: "moves R (refuse_admission E mo e)" for e
    unfolding refuse_admission_def by (intro moves_then R sealing moves_leaf)
  have interrupted: "moves R (seal_interrupted E mo error u x)" for error u x
    unfolding seal_interrupted_def by (intro moves_then moves_match R store keeps moves_leaf)
  have failed: "moves R (execution_failed E mo ws error)" for error
    unfolding execution_failed_def Let_def
    by (intro moves_match moves_then R keeps sealing moves_leaf interrupted)
      (auto split: discard_outcome.splits intro!: moves_match R store moves_leaf interrupted)
  have rest: "moves R (case x of (sealed, b, candidate) \<Rightarrow> st_then (progress (p sealed)) (\<lambda>_.
      st_then (on_repository m) (\<lambda>cleanup.
      st_then (if registered sealed \<and> g cleanup then on_store (discard_registered (en_orka E) (mo_attempt mo))
               else st_return ()) (\<lambda>_. st_return (h sealed b candidate cleanup)))))" for x p m g h
    by (cases x) (auto intro!: moves_then R keeps store moves_leaf)
  have finish: "moves R (finish_run E mo node input ws report)" for report
    unfolding finish_run_def Let_def
    by (intro moves_then R store keeps settle_moves [OF assms] rest)
  show ?thesis unfolding run_prepared_def Let_def
    by (intro moves_then moves_match R store keeps admits_files [OF assms] admission refuse failed finish)
qed

lemma run_node_moves:
  assumes "admits R (en_orka E) (mo_attempt mo)"
  shows "moves R (run_node_with_progress E mo node)"
proof -
  note R = admits_order [OF assms]
  note keeps = moves_keeps [OF R(1) keeps_store_ops(1)] moves_keeps [OF R(1) keeps_store_ops(2)]
    moves_keeps [OF R(1) keeps_store_ops(5)]
  have prepare: "moves R (st_context m a (on_repository f))" for m a f
    by (rule moves_keeps [OF R(1)]) (rule within_context, rule keeps_store_ops)
  show ?thesis unfolding run_node_with_progress_def Let_def
    by (intro within_if moves_then R keeps prepare moves_leaf run_prepared_moves [OF assms]
        moves_store [OF admits_ops(2) [OF assms]] moves_store [OF admits_ops(3) [OF assms]])
qed

lemma recover_attempt_moves:
  assumes "admits R (en_orka E) i"
  shows "moves R (recover_attempt E mo i)"
proof -
  note R = admits_order [OF assms]
  note store = moves_store [OF admits_ops(7) [OF assms]] moves_store [OF admits_ops(8) [OF assms]]
    moves_store [OF admits_ops(9) [OF assms]]
  note keeps = moves_keeps [OF R(1) keeps_store_ops(1)] moves_keeps [OF R(1) keeps_store_ops(4)]
    moves_keeps [OF R(1) recover_cleanup_keeps]
  have finish: "moves R (finish_sealed E i ws sealed)" for ws sealed
    unfolding finish_sealed_def by (intro moves_then R keeps within_if store moves_leaf)
  have sealed: "moves R (recover_sealed E i n)" for n
    unfolding recover_sealed_def Let_def by (intro moves_then R finish moves_leaf)
  have executed: "moves R (recover_executed E mo i n evidence)" for n evidence
    unfolding recover_executed_def Let_def
    by (auto split: option.splits intro!: moves_leaf R moves_match settle_moves [OF assms] moves_then finish)
  have discard: "moves R (discard_unchanged_attempt E i ws)" for ws
    unfolding discard_unchanged_attempt_def
    by (auto split: option.splits intro!: moves_then R keeps within_if store moves_leaf)
  have unexecuted: "moves R (recover_unexecuted E mo i n)" for n
    unfolding recover_unexecuted_def Let_def
    by (intro moves_match moves_then R keeps store moves_leaf discard)
      (auto intro!: moves_then R store keeps moves_leaf)
  show ?thesis unfolding recover_attempt_def
    by (intro moves_then R keeps)
      (auto split: attempt_phase.splits option.splits intro!: sealed executed unexecuted moves_leaf R)
qed

lemma recover_moves:
  assumes "\<And>i. admits R (en_orka E) i"
  shows "moves R (recover E mo)"
proof -
  note R = admits_order [OF assms]
  have "moves R (recover_all E mo ids)" for ids
    by (induction ids) (auto intro!: moves_leaf R moves_then recover_attempt_moves [OF assms])
  then show ?thesis unfolding recover_def by (intro moves_then R moves_keeps [OF R(1) keeps_store_ops(5)])
qed

section \<open>Properties\<close>

text \<open>
  Everything that can happen to an attempt store: runs and recoveries with any outcome, and in between
  anything else in the world, new fates included.
\<close>

inductive orka_reachable :: "'v engine \<Rightarrow> 'v orka \<Rightarrow> bool" for E where
  fresh: "as_dirs (ok_store w) = [] \<Longrightarrow> orka_reachable E w"
| node_run: "orka_reachable E w \<Longrightarrow> run_node_with_progress E mo node w = (r, w') \<Longrightarrow> orka_reachable E w'"
| next_run: "orka_reachable E w \<Longrightarrow> run_next_with_progress E mo w = (q, w') \<Longrightarrow> orka_reachable E w'"
| recovery: "orka_reachable E w \<Longrightarrow> recover E mos w = (p, w') \<Longrightarrow> orka_reachable E w'"
| elsewhere: "orka_reachable E w \<Longrightarrow> as_dirs (ok_store w') = as_dirs (ok_store w) \<Longrightarrow> orka_reachable E w'"

lemma safe_run: "safe k S m \<Longrightarrow> S (ok_store w) \<Longrightarrow> m w = (r, w') \<Longrightarrow> lifecycle k (ok_store w')"
  by (drule (2) triple_run) (simp split: sum.splits)

lemma reachable_lifecycle:
  assumes "orka_codec_faithful (en_orka E)" and "orka_reachable E w"
  shows "lifecycle (en_orka E) (ok_store w)"
  using assms(2)
proof (induction rule: orka_reachable.induct)
  case (node_run w mo node r w')
  then show ?case using safe_run [OF run_node_safe [OF assms(1)]] by blast
next
  case (next_run w mo q w')
  then show ?case using safe_run [OF run_next_safe [OF assms(1)]] by blast
next
  case (recovery w mos p w')
  then show ?case using safe_run [OF recover_safe [OF assms(1)]] by blast
qed (auto simp: lifecycle_def)





text \<open>An attempt directory whose record was never written stops every recovery.\<close>

lemma unrecorded_stops_recovery:
  assumes "i \<in> set ids" and "ad_attempt (attempt_dir_of (ok_store w) i) = NotFound"
  shows "\<exists>f w'. recover_all E mo ids w = (Inl f, w')"
  using assms
proof (induction ids arbitrary: w)
  case (Cons j ids)
  obtain r u where first: "recover_attempt E (mo j) j w = (r, u)" by fastforce
  show ?case
  proof (cases "j = i")
    case True
    have "load_attempt (en_orka E) (ok_store w) i \<noteq> Inr n" for n
      using Cons.prems(2) by (auto simp: load_attempt_Inr file_holds_def)
    then obtain e where "load_attempt (en_orka E) (ok_store w) i = Inl e"
      by (cases "load_attempt (en_orka E) (ok_store w) i") auto
    then show ?thesis
      by (simp add: True recover_attempt_def ask_def st_then_def st_read_def failing_def)
  next
    case False
    have "others_kept j (ok_store w) (ok_store u)"
      by (rule withinD [OF recover_attempt_moves [OF engine_relations(2)] first])
    then have "ad_attempt (attempt_dir_of (ok_store u) i) = NotFound"
      using Cons.prems(2) False by (simp add: attempt_dir_of_def others_kept_def)
    moreover have "i \<in> set ids" using Cons.prems(1) False by simp
    ultimately obtain f w' where "recover_all E mo ids u = (Inl f, w')"
      using Cons.IH [of u] by blast
    then show ?thesis by (cases r) (auto simp: st_then_def first)
  qed
qed simp

text \<open>
  C34. An interrupted creation stops every recovery. When the machine stops between the creation of
  an attempt's directory and the write of its record, \<open>recover\<close> ends with an error from then on,
  for every choice of fates and whatever the other attempts need, although the header of the engine
  promises that any crash can be classified and finished; only the audit reports such a directory.
\<close>

theorem interrupted_creation_stops_recovery:
  assumes "map_of (as_dirs (ok_store w)) i = Some d" and "ad_attempt d = NotFound"
  shows "\<exists>f w'. recover E mo w = (Inl f, w')"
proof -
  have "i \<in> set (list_attempts (ok_store w))"
    using assms(1) by (auto simp: list_attempts_def dest: map_of_SomeD intro: rev_image_eqI)
  then show ?thesis using unrecorded_stops_recovery [of i _ w] assms
    by (simp add: recover_def st_then_def st_read_def)
qed

theorem interrupted_creation_stops_recovery_witness:
  "\<exists>w f w'. run_node_with_progress (sample_engine NotFound) sample_moments ''b'' (sample_orka [Succeeds, Crashes]) =
       (Inl Crashed, w) \<and> recover (sample_engine NotFound) (\<lambda>_. sample_moments) w = (Inl f, w')"
proof -
  let ?run = "run_node_with_progress (sample_engine NotFound) sample_moments ''b'' (sample_orka [Succeeds, Crashes])"
  have "fst ?run = Inl Crashed \<and> map_of (as_dirs (ok_store (snd ?run))) ''attempt-1'' = Some bare_dir" by code_simp
  then have run: "?run = (Inl Crashed, snd ?run)"
    and dir: "map_of (as_dirs (ok_store (snd ?run))) ''attempt-1'' = Some bare_dir" by (metis prod.collapse)+
  have "ad_attempt bare_dir = NotFound" by (simp add: bare_dir_def)
  from interrupted_creation_stops_recovery [OF dir this] obtain f w'
    where "recover (sample_engine NotFound) (\<lambda>_. sample_moments) (snd ?run) = (Inl f, w')" by blast
  then show ?thesis using run by blast
qed

end
