(* ===== verification/Orka_Settle_Spec.thy ===== *)
theory Orka_Settle_Spec
  imports Orka_Engine_Spec
begin

text \<open>
  What the seal of an attempt says about Linka: \<open>recorded_by\<close> is a result of a node that carries
  the attempt's producer evidence. A settlement that returns has sealed the attempt with a state that
  is true of Linka's store, and Linka's store moves only on a declared outcome backed by evidence.
\<close>

section \<open>Results attributed to an attempt\<close>

definition recorded_by ::
  "codec \<Rightarrow> store \<Rightarrow> node_id \<Rightarrow> attempt_id \<Rightarrow> outcome \<Rightarrow> string option \<Rightarrow> bool" where
  "recorded_by c s node i outcome commit \<longleftrightarrow>
     (\<exists>meta notes_text. read_result c s node = Inr (Some (meta, notes_text)) \<and>
        attributed_to i (rm_producer meta) \<and> rm_outcome meta = Work outcome \<and>
        map_option ar_id (rm_output meta) = commit)"

lemma result_by_attempt_Some:
  assumes "result_by_attempt c s node i = Inr (Some recorded)"
  shows "recorded_by c s node i (rr_outcome recorded) (rr_output_commit recorded)"
proof -
  obtain meta prose where found: "read_result c s node = Inr (Some (meta, prose))"
    using assms by (auto simp: result_by_attempt_def result_simps split: option.splits)
  then show ?thesis using assms
    by (cases "rm_outcome meta")
      (auto simp: result_by_attempt_def recorded_by_def result_simps split: if_splits)
qed

lemma recorded_by_found:
  assumes "recorded_by c s node i outcome commit" and "result_by_attempt c s node i = Inr found"
  shows "\<exists>recorded. found = Some recorded \<and> rr_outcome recorded = outcome \<and> rr_output_commit recorded = commit"
  using assms by (auto simp: recorded_by_def result_by_attempt_def result_simps)

lemma recorded_by_same:
  "same_records c s t \<Longrightarrow> recorded_by c t node i outcome commit = recorded_by c s node i outcome commit"
  by (simp add: recorded_by_def read_result_def same_records_def)

lemma submitted_recorded_by:
  assumes "submit c V rd \<lparr>rc_envelope = \<lparr>se_snapshot = snapshot, se_notes = note_text, se_author = who,
       se_producer = producer\<rparr>, rc_outcome = Work outcome, rc_output = output\<rparr> attachments candidate observed w =
     (Inr (), w')"
    and "codec_faithful c" and "utf8_valid note_text" and "attributed_to i producer"
  shows "recorded_by c (wb_store w') (ws_node snapshot) i outcome (map_option ar_id output)"
proof -
  let ?sub = "\<lparr>rc_envelope = \<lparr>se_snapshot = snapshot, se_notes = note_text, se_author = who,
    se_producer = producer\<rparr>, rc_outcome = Work outcome, rc_output = output\<rparr>"
  have "utf8_valid (se_notes (rc_envelope ?sub))" using assms(3) by simp
  then obtain l where "load_result c (wb_store w') (ws_node snapshot) = Inr (Some l)" "lr_meta l = submission_result rd ?sub"
    using submit_records [OF assms(2) _ assms(1)] by auto
  then show ?thesis using assms(4)
    by (auto simp: recorded_by_def read_result_def submission_result_def Let_def)
qed

section \<open>The submissions of an attempt\<close>

text \<open>What the classified submissions leave in Linka's store.\<close>

definition answer_truth :: "codec \<Rightarrow> store \<Rightarrow> node_id \<Rightarrow> attempt_id \<Rightarrow> outcome \<Rightarrow> settled \<Rightarrow> store \<Rightarrow> bool" where
  "answer_truth c before node i outcome answer s \<longleftrightarrow>
     (case answer of
        SettledAccepted commit \<Rightarrow> recorded_by c s node i outcome commit
      | SettledConflict conflicts \<Rightarrow> s = before \<and> conflicts \<noteq> [])"

lemma on_vcs_store: "on_vcs m w = (r, w') \<Longrightarrow> wb_store w' = wb_store w"
  by (auto simp: on_vcs_def split: prod.splits)

lemma retain_store: "retain V i commit w = (r, w') \<Longrightarrow> wb_store w' = wb_store w"
  by (auto simp: retain_def st_return_def dest: on_vcs_store split: option.splits)

lemma output_artifact_id: "output_artifact c s commit = Inr a \<Longrightarrow> map_option ar_id a = commit"
  by (auto simp: output_artifact_def git_artifact_def result_simps split: option.splits)

lemmas submission_unfold = Let_def result_simps submit_result_with_attachments_def submit_result_with_candidate_def
  recorded_result_def result_envelope_def

lemma submit_captured_truth:
  assumes "codec_faithful c" and "utf8_valid note_text" and "attributed_to i (Some producer)"
    and "submit_captured c V rd input ws i note_text producer evidence observed captured w = (Inr answer, w')"
  shows "answer_truth c (wb_store w) (input_node input) i Done answer (wb_store w')"
proof (cases captured)
  case None
  then show ?thesis
    using assms(4) submitted_recorded_by [OF _ assms(1-3), of _ _ _ _ Done None]
    by (auto simp: submit_captured_def classify_Inr submit_captured_execution_with_attachments_def submission_unfold
        answer_truth_def output_artifact_def retain_def input_node_def dest!: submit_conflict)
next
  case (Some commit)
  then show ?thesis
    using assms(4) submitted_recorded_by [OF _ assms(1-3), of _ _ _ _ Done]
    by (fastforce simp: submit_captured_def classify_Inr submit_captured_execution_with_candidate_def submission_unfold
        answer_truth_def git_artifact_def input_node_def dest!: submit_conflict retain_store)
qed

lemma promote_captured_store: "promote_captured W ws captured w = (r, w') \<Longrightarrow> wb_store w' = wb_store w"
  by (auto simp: promote_captured_def st_return_def st_then_def st_read_def st_fail_def
      dest!: on_vcs_store split: option.splits prod.splits sum.splits if_splits)

lemma submit_candidate_success_truth:
  assumes "codec_faithful c" and "utf8_valid note_text" and "attributed_to i (Some producer)"
    and "submit_candidate_success c V At W rd input v i message note_text producer evidence observed w =
      (Inr (answer, candidate), w')"
  shows "answer_truth c (wb_store w) (input_node input) i Done answer (wb_store w')"
proof -
  obtain captured u1 x2 u2 answer' u3 where
    steps: "on_vcs (\<lambda>x. v_capture_worktree (At (pw_path (vw_workspace v))) x (input_commit input)
        (commit_message input message)) w = (Inr captured, u1)"
      "promote_captured W (vw_workspace v) captured u1 = (Inr x2, u2)"
    and submitted: "submit_captured c V rd input (vw_workspace v) i note_text producer evidence observed captured u2 =
        (Inr answer', u3)"
    and last: "(case answer' of
        SettledAccepted (Some commit) \<Rightarrow>
          st_then (st_read (\<lambda>w. and_then (by_external c (wb_store w) (orka_identity i))
            (ok_or (Bail ''atomic candidate submission did not create its candidate'' [])))) (\<lambda>candidate.
          st_return (SettledAccepted (Some commit), Some (cr_id candidate)))
      | _ \<Rightarrow> st_return (answer', None)) u3 = (Inr (answer, candidate), w')"
    using assms(4) unfolding submit_candidate_success_def Let_def st_then_Inr_iff by blast
  have "answer' = answer \<and> w' = u3" using last
    by (cases answer') (auto simp: result_simps split: option.splits)
  have "wb_store u2 = wb_store w" using on_vcs_store [OF steps(1)] promote_captured_store [OF steps(2)] by simp
  then show ?thesis using submit_captured_truth [OF assms(1-3) submitted] \<open>answer' = answer \<and> w' = u3\<close> by simp
qed

lemma submit_failure_truth:
  assumes "codec_faithful c" and "utf8_valid note_text" and "attributed_to i (Some producer)"
    and "submit_failure_with_evidence c At rd input ws i note_text producer evidence w = (Inr answer, w')"
  shows "answer_truth c (wb_store w) (input_node input) i outcome.Failed answer (wb_store w')"
  using assms(4) submitted_recorded_by [OF _ assms(1-3), of _ _ _ _ outcome.Failed None]
  by (auto simp: submit_failure_with_evidence_def classify_Inr failure_submission_def submission_unfold
      answer_truth_def input_node_def dest!: submit_conflict)

section \<open>Settling\<close>

text \<open>
  The seal is true of Linka: a submitted or recorded failure stands in Linka under the attempt's name,
  and any other seal means that Linka's store is what it was.
\<close>

definition sealed_truth :: "codec \<Rightarrow> store \<Rightarrow> node_id \<Rightarrow> attempt_id \<Rightarrow> sealed_state \<Rightarrow> store \<Rightarrow> bool" where
  "sealed_truth c before node i state s \<longleftrightarrow>
     (\<forall>commit. state = Submitted commit \<longrightarrow> recorded_by c s node i Done commit) \<and>
     (state = FailureRecorded \<longrightarrow> (\<exists>commit. recorded_by c s node i outcome.Failed commit)) \<and>
     (\<not> registered state \<longrightarrow> s = before)"

abbreviation linka_of :: "'v orka \<Rightarrow> store" where
  "linka_of w \<equiv> wb_store (ok_bench w)"

definition sealed_as :: "orka_codec \<Rightarrow> attempt_id \<Rightarrow> sealed_state \<Rightarrow> attempt_store \<Rightarrow> bool" where
  "sealed_as k i state s \<longleftrightarrow>
     (\<exists>x. file_holds (seal_of_toml k) (ad_seal (attempt_dir_of s i)) x \<and> sr_state x = state)"

text \<open>What a settlement that started with Linka's store \<open>before\<close> ends with.\<close>

abbreviation truthful ::
  "'v engine \<Rightarrow> store \<Rightarrow> node_id \<Rightarrow> attempt_id \<Rightarrow> sealed_state \<times> bool \<times> candidate_id option \<Rightarrow> 'v orka \<Rightarrow> bool" where
  "truthful E before node i x w \<equiv>
     sealed_truth (en_codec E) before node i (fst x) (linka_of w) \<and> sealed_as (en_orka E) i (fst x) (ok_store w)"

abbreviation returns :: "('s \<Rightarrow> bool) \<Rightarrow> ('s, 'e, 'a) st_op \<Rightarrow> ('a \<Rightarrow> 's \<Rightarrow> bool) \<Rightarrow> bool" where
  "returns P m Q \<equiv> triple P m Q (\<lambda>_ _. True)"

lemma returns_ask:
  "(\<And>x. returns (\<lambda>w. P w \<and> f w = Inr x) (g x) Q) \<Longrightarrow> returns P (st_then (ask f) g) Q"
  by (rule triple_then [where R = "\<lambda>x w. P w \<and> f w = Inr x"])
    (auto simp: ask_def triple_def st_read_def result_simps split: sum.splits prod.splits)

lemma conclude_truthful:
  assumes "orka_codec_faithful (en_orka E)"
  shows "returns (\<lambda>w. sealed_truth (en_codec E) before node i state (linka_of w))
     (conclude E mo i state failed candidate) (truthful E before node i)"
  unfolding conclude_def
  by (rule triple_then [where R = "\<lambda>_ w. sealed_truth (en_codec E) before node i state (linka_of w) \<and>
        sealed_as (en_orka E) i state (ok_store w)"])
    (auto simp: triple_def on_store_def at_part_def st_return_def sealed_as_def split: prod.splits sum.splits
      dest!: sealed_holds [OF assms])

lemma observed_same:
  "record_observed_context E input ws version accesses w = (Inr (), w') \<Longrightarrow>
     same_records (en_codec E) (linka_of w) (linka_of w')"
  by (auto simp: record_observed_context_def result_simps on_bench_def at_part_def failing_def work_observed_context_def
      record_context_observation_def with_mutation_Inr mutation_commit_store split: prod.splits if_splits
      dest!: observe_locked_frame)

lemma settle_recorded_truthful:
  assumes k: "orka_codec_faithful (en_orka E)"
    and "recorded_by (en_codec E) before (input_node input) i (rr_outcome recorded) (rr_output_commit recorded)"
  shows "returns (\<lambda>w. linka_of w = before) (settle_recorded E mo i input ws accesses recorded failed)
    (truthful E before (input_node input) i)"
proof -
  let ?P = "\<lambda>w. recorded_by (en_codec E) (linka_of w) (input_node input) i (rr_outcome recorded) (rr_output_commit recorded)"
  have conclude: "returns ?P (conclude E mo i (sealed_outcome recorded) failed candidate)
      (truthful E before (input_node input) i)" for candidate
    by (rule triple_pre [OF conclude_truthful [OF k]])
      (auto simp: sealed_truth_def sealed_outcome_def split: outcome.splits)
  have observe: "returns ?P (if rr_outcome recorded = outcome.Failed
      then record_observed_context E input ws (rr_version recorded) accesses else st_return ()) (\<lambda>_. ?P)"
    by (auto simp: triple_def st_return_def split: sum.splits dest!: observed_same simp: recorded_by_same)
  show ?thesis unfolding settle_recorded_def
    by (intro returns_ask triple_pre [OF triple_then [OF observe conclude]]) (use assms in auto)
qed

fun notes_of :: "agent_outcome \<Rightarrow> string" where
  "notes_of (AgentSucceeded message note_text) = note_text"
| "notes_of (AgentFailed note_text) = note_text"

fun work_of :: "agent_outcome \<Rightarrow> outcome" where
  "work_of (AgentSucceeded message note_text) = Done"
| "work_of (AgentFailed note_text) = outcome.Failed"

lemma submit_agent_truthful:
  assumes "codec_faithful (en_codec E)" and "utf8_valid (notes_of declared)" and "attributed_to i (Some producer)"
  shows "returns (\<lambda>w. linka_of w = before)
    (submit_agent_outcome E mo i input v ws producer accesses declared evidence)
    (\<lambda>x w. case x of (answer, succeeded, candidate) \<Rightarrow> succeeded = (work_of declared = Done) \<and>
       answer_truth (en_codec E) before (input_node input) i (work_of declared) answer (linka_of w))"
proof (cases declared)
  case (AgentSucceeded message note_text)
  then show ?thesis using submit_candidate_success_truth [OF assms(1) _ assms(3)] assms(2)
    by (auto simp: submit_agent_outcome_def triple_def ask_def st_read_def st_then_def st_return_def on_bench_def
        at_part_def result_simps split: prod.splits sum.splits if_splits)
next
  case (AgentFailed note_text)
  then show ?thesis using submit_failure_truth [OF assms(1) _ assms(3)] assms(2)
    by (auto simp: submit_agent_outcome_def triple_def ask_def st_read_def st_then_def st_return_def on_bench_def
        at_part_def result_simps split: prod.splits sum.splits if_splits)
qed

lemma observe_failure_truthful:
  assumes "answer_truth c before node i work answer (linka_of w)" and "c = en_codec E"
    and "succeeded = (work = Done)" and "observe_failure E i input ws accesses answer succeeded w = (Inr (), w')"
  shows "sealed_truth c before node i (sealed_answer answer succeeded) (linka_of w')"
proof (cases "sealed_answer answer succeeded = FailureRecorded")
  case True
  then have "same_records c (linka_of w) (linka_of w')" using assms(2,4)
    by (auto simp: observe_failure_def result_simps ask_def failing_def dest!: observed_same)
  moreover obtain commit where "answer = SettledAccepted commit" "\<not> succeeded" using True
    by (cases answer) (auto split: if_splits)
  ultimately show ?thesis using assms(1,3) True
    by (cases work) (auto simp: answer_truth_def sealed_truth_def recorded_by_same)
next
  case False
  then have "w' = w" using assms(4) by (simp add: observe_failure_def st_return_def)
  then show ?thesis using assms(1,3) False
    by (cases answer; cases work) (auto simp: answer_truth_def sealed_truth_def)
qed

lemma settle_submit_truthful:
  assumes k: "orka_codec_faithful (en_orka E)"
    and valid: "codec_faithful (en_codec E)" "utf8_valid (notes_of declared)"
  shows "returns (\<lambda>w. linka_of w = before) (settle_submit E mo i input ws v report accesses declared failed)
    (truthful E before (input_node input) i)"
proof -
  let ?c = "en_codec E" and ?n = "input_node input"
  let ?answer = "\<lambda>(answer, succeeded, candidate). st_then (observe_failure E i input ws accesses answer succeeded)
      (\<lambda>_. conclude E mo i (sealed_answer answer succeeded) failed candidate)"
  let ?S = "\<lambda>x w. case x of (answer, succeeded, candidate) \<Rightarrow> succeeded = (work_of declared = Done) \<and>
       answer_truth ?c before ?n i (work_of declared) answer (linka_of w)"
  have answer: "returns (?S x) (?answer x) (truthful E before ?n i)" for x
  proof (cases x)
    case (fields answer succeeded candidate)
    have "returns (?S x) (observe_failure E i input ws accesses answer succeeded)
        (\<lambda>_ w. sealed_truth ?c before ?n i (sealed_answer answer succeeded) (linka_of w))"
      by (auto simp: triple_def fields split: sum.splits intro: observe_failure_truthful [OF _ refl])
    then show ?thesis by (simp add: fields triple_then [OF _ conclude_truthful [OF k]])
  qed
  have evidence: "returns (\<lambda>w. linka_of w = before) (output_evidence E i) (\<lambda>_ w. linka_of w = before)"
    by (auto simp: triple_def output_evidence_def on_store_def at_part_def st_then_def ask_def st_read_def
        split: prod.splits sum.splits)
  have new: "returns (\<lambda>w. linka_of w = before) (st_then (output_evidence E i) (\<lambda>evidence.
      st_then (submit_agent_outcome E mo i input v ws
        (producer_evidence_with_accesses i report (Some accesses)) accesses declared evidence) ?answer))
      (truthful E before ?n i)"
    by (intro triple_then [OF evidence] triple_then [OF submit_agent_truthful [OF valid producer_attributed] answer])
  show ?thesis unfolding settle_submit_def
  proof (rule returns_ask)
    fix found
    show "returns (\<lambda>w. linka_of w = before \<and> result_by_attempt ?c (linka_of w) ?n i = Inr found)
        (case found of None \<Rightarrow> st_then (output_evidence E i) (\<lambda>evidence.
            st_then (submit_agent_outcome E mo i input v ws
              (producer_evidence_with_accesses i report (Some accesses)) accesses declared evidence) ?answer)
          | Some recorded \<Rightarrow> settle_recorded E mo i input ws accesses recorded failed)
        (truthful E before ?n i)"
    proof (cases found)
      case None
      show ?thesis unfolding None option.case by (rule triple_pre [OF new]) simp
    next
      case (Some recorded)
      show ?thesis
      proof (cases "result_by_attempt ?c before ?n i = Inr (Some recorded)")
        case True
        show ?thesis unfolding Some option.case
          by (rule triple_pre [OF settle_recorded_truthful [OF k result_by_attempt_Some [OF True]]]) simp
      next
        case False
        then show ?thesis using Some by (auto simp: triple_def)
      qed
    qed
  qed
qed

text \<open>The strings of a parsed outcome are UTF-8, as every Rust string is.\<close>

definition outcome_strings_valid :: "orka_codec \<Rightarrow> bool" where
  "outcome_strings_valid k \<longleftrightarrow> (\<forall>t d. outcome_of_toml k t = Some d \<longrightarrow> utf8_valid (do_notes d))"

lemma returns_match_ask:
  "(\<And>x. returns (\<lambda>w. P w \<and> g w = Inr x) (f x) Q) \<Longrightarrow> (\<And>e. returns P (h e) Q) \<Longrightarrow>
     returns P (st_match (ask g) h f) Q"
  by (rule triple_match [where R = "\<lambda>x w. P w \<and> g w = Inr x" and F = P])
    (auto simp: triple_def ask_def st_read_def result_simps split: sum.splits prod.splits)

lemma checked_submit:
  "checked_decision E ws declared report w = Inr (Submit outcome failed) \<Longrightarrow>
     decide declared (er_exit_code report) = Submit outcome failed \<and>
     (work_of outcome = Done \<longrightarrow> wm_exists (en_workspaces E) (repository w) (pw_path ws) \<longrightarrow>
        wm_is_clean (en_workspaces E) (repository w) ws = Inr True)"
  by (auto simp: checked_decision_def result_simps split: decision.splits agent_outcome.splits if_splits)

lemma decided_notes:
  assumes "decide declared code = Submit outcome failed" and "declared = Some d" and "utf8_valid (do_notes d)"
  shows "utf8_valid (notes_of outcome)"
proof -
  have "utf8_valid ''agent declared failure without notes''" by code_simp
  then show ?thesis using assms
    by (auto simp: decide_def split: declared_kind.splits if_splits)
qed

lemma read_declared_Some:
  "read_declared k path f = Inr (Some d) \<Longrightarrow> \<exists>t. outcome_of_toml k t = Some d"
  by (auto simp: read_declared_def result_simps parse_with_def split: if_splits option.splits)

lemma settle_truthful:
  assumes k: "orka_codec_faithful (en_orka E)"
    and valid: "codec_faithful (en_codec E)" "outcome_strings_valid (en_orka E)"
  shows "returns (\<lambda>w. linka_of w = before) (settle E mo i input ws report)
    (truthful E before (input_node input) i)"
proof -
  let ?P = "\<lambda>w. linka_of w = before" and ?Q = "truthful E before (input_node input) i"
  have conclude: "returns ?P (conclude E mo i state failed candidate) ?Q" if "\<not> registered state" for state failed candidate
    by (rule triple_pre [OF conclude_truthful [OF k]]) (use that in \<open>auto simp: sealed_truth_def\<close>)
  have decided: "returns (\<lambda>w. ?P w \<and> checked_decision E ws declared report w = Inr decision)
      (settle_decision E mo i input ws v report accesses decision) ?Q"
    if declared: "declared = None \<or> (\<exists>d. declared = Some d \<and> utf8_valid (do_notes d))" for declared decision v accesses
  proof (cases decision)
    case (Submit outcome failed)
    show ?thesis
    proof (cases "utf8_valid (notes_of outcome)")
      case True
      show ?thesis unfolding Submit settle_decision_def decision.case
        by (rule triple_pre [OF settle_submit_truthful [OF k valid(1) True]]) simp
    next
      case False
      have "checked_decision E ws declared report w \<noteq> Inr decision" for w
      proof
        assume "checked_decision E ws declared report w = Inr decision"
        then have decide: "decide declared (er_exit_code report) = Submit outcome failed"
          unfolding Submit by (blast dest: checked_submit)
        then have "declared \<noteq> None" by (cases declared) (auto simp: decide_def split: if_splits)
        then show False using declared decided_notes [OF decide] False by blast
      qed
      then show ?thesis by (simp add: triple_def)
    qed
  qed (auto simp: settle_decision_def intro: triple_pre [OF conclude])
  have read: "returns ?P (st_then (ask (\<lambda>w. read_declared (en_orka E) (path w) (content w))) g) ?Q"
    if "\<And>declared. declared = None \<or> (\<exists>d. declared = Some d \<and> utf8_valid (do_notes d)) \<Longrightarrow> returns ?P (g declared) ?Q"
    for path content g
  proof (rule returns_ask)
    fix declared
    show "returns (\<lambda>w. ?P w \<and> read_declared (en_orka E) (path w) (content w) = Inr declared) (g declared) ?Q"
    proof (cases "declared = None \<or> (\<exists>d. declared = Some d \<and> utf8_valid (do_notes d))")
      case True
      show ?thesis by (rule triple_pre [OF that [OF True]]) simp
    next
      case False
      then have "read_declared (en_orka E) (path w) (content w) \<noteq> Inr declared" for w
        using valid(2) read_declared_Some [of "en_orka E" "path w" "content w"]
        by (cases declared) (auto simp: outcome_strings_valid_def)
      then show ?thesis by (simp add: triple_def)
    qed
  qed
  have io: "returns ?P (on_store (io_dir i)) (\<lambda>_. ?P)"
    by (auto simp: triple_def on_store_def at_part_def split: prod.splits sum.splits)
  have declared: "returns ?P (settle_declared E mo i input ws v report accesses) ?Q" for v accesses
    unfolding settle_declared_def by (intro triple_then [OF io] read returns_ask decided)
  show ?thesis unfolding settle_def
    by (intro returns_ask returns_match_ask)
      (auto simp: settle_validated_def intro!: triple_pre [OF conclude] returns_ask triple_pre [OF declared]
        split: option.splits)
qed

section \<open>What a settlement leaves alone\<close>

abbreviation frozen :: "store \<Rightarrow> ('v, 'a) engine_op \<Rightarrow> bool" where
  "frozen before m \<equiv>
     triple (\<lambda>w. linka_of w = before) m (\<lambda>_ w. linka_of w = before) (\<lambda>_ w. linka_of w = before)"

lemma keeps_frozen: "keeps_linka m \<Longrightarrow> frozen before m"
  by (auto simp: triple_def within_def split: sum.splits)

lemma conclude_keeps_linka: "keeps_linka (conclude E mo i state failed candidate)"
  unfolding conclude_def by (intro keeps_linka_then keeps_linka_ops)

text \<open>When Linka's store moved, the operation got past its reads.\<close>

lemma moved_ask:
  assumes "st_then (ask f) g w = (r, w')" and "linka_of w' \<noteq> linka_of w"
  obtains x where "f w = Inr x" "g x w = (r, w')"
  using assms by (cases "f w") (auto simp: st_then_def ask_def st_read_def failing_def)

lemma moved_match:
  assumes "st_match (ask f) h g w = (r, w')" and "linka_of w' \<noteq> linka_of w" and "\<And>e. keeps_linka (h e)"
  obtains x where "f w = Inr x" "g x w = (r, w')"
proof -
  from assms(1) show thesis
  proof (cases rule: st_match_cases)
    case (ok x u)
    then show thesis using that by (auto simp: ask_def st_read_def result_simps)
  next
    case (handled e u)
    then show thesis using withinD [OF assms(3) handled(2)] assms(2) by (auto simp: ask_def st_read_def)
  next
    case crashed
    then show thesis using assms(2) by (auto simp: ask_def st_read_def)
  qed
qed

lemma moved_store:
  assumes "st_then (on_store m) g w = (r, w')" and "linka_of w' \<noteq> linka_of w"
  obtains x s where "m (ok_store w) = (Inr x, s)" "g x (w\<lparr>ok_store := s\<rparr>) = (r, w')"
proof -
  obtain q s where "m (ok_store w) = (q, s)" by fastforce
  then show thesis using that assms by (cases q) (auto simp: st_then_def on_store_def at_part_def)
qed

lemma io_dir_fates: "io_dir i s = (r, t) \<Longrightarrow> \<exists>y. t = s\<lparr>as_fates := y\<rparr>"
  unfolding io_dir_def by (drule st_context_state) (auto elim!: durable_cases)

lemma repository_store [simp]: "repository (w\<lparr>ok_store := s\<rparr>) = repository w"
  by (simp add: repository_def)

lemma fates_ignored [simp]:
  "files_of (w\<lparr>ok_store := s\<lparr>as_fates := y\<rparr>\<rparr>) i = files_of (w\<lparr>ok_store := s\<rparr>) i"
  "attempt_path (s\<lparr>as_fates := y\<rparr>) i name = attempt_path s i name"
  "checked_decision E ws declared report (w\<lparr>ok_store := s'\<rparr>) = checked_decision E ws declared report w"
  unfolding files_of_def attempt_path_def checked_decision_def repository_store by simp_all

text \<open>The reads of a settlement, up to the decision to submit.\<close>

lemma settle_reaches:
  assumes "settle E mo i input ws report w = (r, w')" and "linka_of w' \<noteq> linka_of w"
  obtains v accesses declared outcome failed u where
    "wm_validate (en_workspaces E) (repository w) ws = Inr v" "lost_checkpoint E i w = Inr None"
    "read_declared (en_orka E) (path_join (attempt_path (ok_store w) i ''io'') OUTCOME_FILE)
       (af_outcome (files_of w i)) = Inr declared"
    "checked_decision E ws declared report w = Inr (Submit outcome failed)" "ok_bench u = ok_bench w"
    "settle_submit E mo i input ws v report accesses outcome failed u = (r, w')"
proof -
  note moved = assms(2)
  have quiet: "linka_of t = linka_of u" if "conclude E mo i state failed candidate u = (r, t)"
    for state failed candidate u t by (rule withinD [OF conclude_keeps_linka that])
  obtain accesses where "st_match (ask (\<lambda>w. wm_validate (en_workspaces E) (repository w) ws))
      (\<lambda>error. conclude E mo i
         (WorkspaceIntegrityFailure (''workspace postflight failed: '' @ error_chain error)) False None)
      (settle_validated E mo i input ws report accesses) w = (r, w')"
    using assms(1) moved unfolding settle_def by (rule moved_ask)
  then obtain v where v: "wm_validate (en_workspaces E) (repository w) ws = Inr v"
    and "settle_validated E mo i input ws report accesses v w = (r, w')"
    by (rule moved_match [OF _ moved conclude_keeps_linka])
  then obtain lost where lost: "lost_checkpoint E i w = Inr lost" and rest: "(case lost of
       Some error \<Rightarrow>
         conclude E mo i (WorkspaceIntegrityFailure (''Git checkpoint integrity failed: '' @ error)) False None
     | None \<Rightarrow> settle_declared E mo i input ws v report accesses) w = (r, w')"
    using moved unfolding settle_validated_def by (blast elim: moved_ask)
  have none: "lost = None" using rest moved quiet by (cases lost) auto
  obtain x s where made: "io_dir i (ok_store w) = (Inr x, s)" and run: "st_then (ask (\<lambda>w. read_declared (en_orka E)
      (path_join (attempt_path (ok_store w) i ''io'') OUTCOME_FILE) (af_outcome (files_of w i)))) (\<lambda>declared.
      st_then (ask (checked_decision E ws declared report))
        (settle_decision E mo i input ws v report accesses)) (w\<lparr>ok_store := s\<rparr>) = (r, w')"
    using rest moved unfolding none option.case settle_declared_def by (rule moved_store)
  obtain y where s: "s = (ok_store w)\<lparr>as_fates := y\<rparr>" using io_dir_fates [OF made] by blast
  have still: "linka_of w' \<noteq> linka_of (w\<lparr>ok_store := s\<rparr>)" using moved by simp
  with run obtain declared decision where
    read: "read_declared (en_orka E) (path_join (attempt_path (ok_store w) i ''io'') OUTCOME_FILE)
       (af_outcome (files_of w i)) = Inr declared"
      "checked_decision E ws declared report w = Inr decision"
    and last: "settle_decision E mo i input ws v report accesses decision (w\<lparr>ok_store := s\<rparr>) = (r, w')"
    by (elim moved_ask) (simp_all add: s)
  then obtain outcome failed where decision: "decision = Submit outcome failed"
    using quiet still by (cases decision) (auto simp: settle_decision_def)
  show thesis
    by (rule that [OF v _ read(1), of outcome failed "w\<lparr>ok_store := s\<rparr>" accesses])
      (use lost none read(2) last decision in \<open>simp_all add: settle_decision_def\<close>)
qed

lemma recorded_keeps_linka:
  assumes "recorded_by (en_codec E) (linka_of w) (input_node input) i Done commit"
    and "settle_submit E mo i input ws v report accesses declared failed w = (r, w')"
  shows "linka_of w' = linka_of w"
proof (rule ccontr)
  assume "linka_of w' \<noteq> linka_of w"
  with assms(2) obtain found where found: "result_by_attempt (en_codec E) (linka_of w) (input_node input) i = Inr found"
    and rest: "(case found of
       Some recorded \<Rightarrow> settle_recorded E mo i input ws accesses recorded failed
     | None \<Rightarrow>
         st_then (output_evidence E i) (\<lambda>evidence.
         st_then (submit_agent_outcome E mo i input v ws
           (producer_evidence_with_accesses i report (Some accesses)) accesses declared evidence)
           (\<lambda>(answer, succeeded, candidate).
         st_then (observe_failure E i input ws accesses answer succeeded) (\<lambda>_.
         conclude E mo i (sealed_answer answer succeeded) failed candidate)))) w = (r, w')"
    unfolding settle_submit_def by (rule moved_ask)
  obtain recorded where recorded: "found = Some recorded" "rr_outcome recorded = Done"
    using recorded_by_found [OF assms(1) found] by blast
  have "keeps_linka (settle_recorded E mo i input ws accesses recorded failed)"
    unfolding settle_recorded_def recorded(2)
    by (intro keeps_linka_then keeps_linka_ops conclude_keeps_linka) (simp add: keeps_linka_then(2))
  then show False using rest \<open>linka_of w' \<noteq> linka_of w\<close> unfolding recorded(1) option.case by (blast dest: withinD)
qed

section \<open>Recovery and Linka\<close>

lemma keeps_linka_match:
  "keeps_linka m \<Longrightarrow> (\<And>x. keeps_linka (f x)) \<Longrightarrow> (\<And>e. keeps_linka (h e)) \<Longrightarrow> keeps_linka (st_match m h f)"
  by (rule within_match) (auto simp: transp_def)

lemma recover_cleanup_linka: "keeps_linka (recover_cleanup E ws)"
  unfolding recover_cleanup_def by (auto split: option.splits intro!: keeps_linka_then keeps_linka_ops)

lemma finish_sealed_linka: "keeps_linka (finish_sealed E i ws sealed)"
  unfolding finish_sealed_def
  by (intro keeps_linka_then recover_cleanup_linka within_if keeps_linka_ops)

lemma recover_unexecuted_linka: "keeps_linka (recover_unexecuted E mo i n)"
proof -
  have "keeps_linka (discard_unchanged_attempt E i ws)" for ws
    unfolding discard_unchanged_attempt_def
    by (auto split: option.splits intro!: keeps_linka_then keeps_linka_ops)
  then show ?thesis unfolding recover_unexecuted_def Let_def
    by (auto intro!: keeps_linka_match keeps_linka_then keeps_linka_ops recover_cleanup_linka)
qed

lemma recover_sealed_linka: "keeps_linka (recover_sealed E i n)"
  unfolding recover_sealed_def Let_def by (intro keeps_linka_then finish_sealed_linka)

lemma recover_executed_settles:
  assumes "recover_executed E mo i n report w = (r, w')" and "linka_of w' \<noteq> linka_of w"
  obtains ws q u where "an_workspace n = Some ws" "settle E mo i (at_input (an_record n)) ws report w = (q, u)"
    "linka_of u \<noteq> linka_of w"
proof (cases "an_workspace n")
  case None
  then show thesis using assms by (auto simp: recover_executed_def st_fail_def)
next
  case (Some ws)
  have run: "st_match (settle E mo i (at_input (an_record n)) ws report)
      (\<lambda>error. st_return \<lparr>rv_attempt = i, rv_node = input_node (at_input (an_record n)),
         rv_action = ''unrecoverable without intervention: '' @ error_chain error, rv_sealed = None,
         rv_requires_attention = True\<rparr>)
      (\<lambda>(sealed, _).
         st_then (finish_sealed E i (Some ws) (Some sealed)) (\<lambda>cleanup.
         st_return \<lparr>rv_attempt = i, rv_node = input_node (at_input (an_record n)),
           rv_action = ''settled from recorded evidence; '' @ rc_action cleanup, rv_sealed = Some sealed,
           rv_requires_attention = seal_requires_attention sealed \<or> rc_requires_attention cleanup\<rparr>)) w = (r, w')"
    using assms(1) by (simp add: recover_executed_def Some Let_def)
  have tail: "keeps_linka (st_then (finish_sealed E i (Some ws) (Some sealed)) (\<lambda>cleanup. st_return (g cleanup)))"
    for sealed and g :: "recovery_cleanup \<Rightarrow> recovery_report"
    by (intro keeps_linka_then finish_sealed_linka)
  obtain q u where settled: "settle E mo i (at_input (an_record n)) ws report w = (q, u)" by fastforce
  have "linka_of w' = linka_of u" using run
  proof (cases rule: st_match_cases)
    case (ok x u')
    then show ?thesis using settled withinD [OF tail] by (cases x) auto
  next
    case (handled e u')
    then show ?thesis using settled by (simp add: st_return_def)
  next
    case crashed
    then show ?thesis using settled by simp
  qed
  then show thesis using that Some settled assms(2) by simp
qed

section \<open>Properties\<close>

text \<open>
  C5. A seal tells the truth about Linka. When a settlement returns, its seal is on disk, and Linka's
  store agrees with it: \<open>Submitted\<close> means that Linka holds a done result of the attempt's node that
  carries this attempt's producer evidence and exactly the output commit of the seal;
  \<open>FailureRecorded\<close> that it holds a failed result of this attempt; and every other seal (a conflict,
  a contract violation, an interruption, damage to the workspace) that Linka's store is exactly what it was.
\<close>

theorem seals_are_true:
  assumes "orka_codec_faithful (en_orka E)" and "codec_faithful (en_codec E)" and "outcome_strings_valid (en_orka E)"
    and "settle E mo i input ws report w = (Inr (state, failed, candidate), w')"
  shows "(\<exists>x. file_holds (seal_of_toml (en_orka E)) (ad_seal (attempt_dir_of (ok_store w') i)) x \<and> sr_state x = state) \<and>
    (\<forall>commit. state = Submitted commit \<longrightarrow>
       recorded_by (en_codec E) (wb_store (ok_bench w')) (input_node input) i Done commit) \<and>
    (state = FailureRecorded \<longrightarrow>
       (\<exists>commit. recorded_by (en_codec E) (wb_store (ok_bench w')) (input_node input) i outcome.Failed commit)) \<and>
    (\<not> registered state \<longrightarrow> wb_store (ok_bench w') = wb_store (ok_bench w))"
  using triple_Inr [OF settle_truthful [OF assms(1-3), of "wb_store (ok_bench w)"] refl assms(4)]
  by (simp add: sealed_truth_def sealed_as_def)

lemma sample_outcomes_valid: "outcome_strings_valid sample_orka_codec"
proof -
  have "utf8_valid ''done''" "utf8_valid ''stuck''" by code_simp+
  then show ?thesis
    by (auto simp: outcome_strings_valid_def sample_orka_codec_def orka_table_def table_parse_def
        sample_declared_def failed_declared_def nth_Cons split: if_splits nat.splits)
qed

theorem seals_are_true_witness:
  "\<exists>w'. settle (sample_engine NotFound) sample_moments ''attempt-1'' sample_input sample_workspace sample_report
       (sample_executed accepted_store []) = (Inr (Submitted None, False, None), w') \<and>
     recorded_by sample_linka_codec (wb_store (ok_bench w')) ''b'' ''attempt-1'' Done None"
proof -
  let ?E = "sample_engine NotFound"
  let ?run = "settle ?E sample_moments ''attempt-1'' sample_input sample_workspace sample_report
    (sample_executed accepted_store [])"
  have "fst ?run = Inr (Submitted None, False, None)" by code_simp
  then have run: "?run = (Inr (Submitted None, False, None), snd ?run)" by (metis prod.collapse)
  have codecs: "en_orka ?E = sample_orka_codec" "en_codec ?E = sample_linka_codec" "input_node sample_input = ''b''"
    by (simp_all add: sample_engine_def sample_input_def input_node_def submission_b_def snapshot_b_def)
  have "recorded_by (en_codec ?E) (wb_store (ok_bench (snd ?run))) (input_node sample_input) ''attempt-1'' Done None"
    using seals_are_true [OF _ _ _ run] sample_orka_faithful sample_linka_faithful sample_outcomes_valid
    unfolding codecs(1,2) by blast
  then show ?thesis using run unfolding codecs by blast
qed

text \<open>
  C4. Linka moves only on evidence. If Linka's store changed while an attempt was settled, also when
  the settlement failed or the machine stopped in it, then the attempt's workspace validated and no
  checkpoint was lost, the agent had declared an outcome, the decision on it and the exit code was to
  submit, a declared success came with exit code zero and a clean workspace, and Linka did not already
  hold a done result of this attempt: settling again never submits twice.
\<close>

theorem linka_moves_only_on_evidence:
  assumes "settle E mo i input ws report w = (r, w')"
    and "wb_store (ok_bench w') \<noteq> wb_store (ok_bench w)"
  shows "(\<exists>v. wm_validate (en_workspaces E) (repository w) ws = Inr v) \<and> lost_checkpoint E i w = Inr None \<and>
    (\<exists>d outcome failed. read_declared (en_orka E) (path_join (attempt_path (ok_store w) i ''io'') OUTCOME_FILE)
         (af_outcome (files_of w i)) = Inr (Some d) \<and>
       decide (Some d) (er_exit_code report) = Submit outcome failed \<and>
       (do_outcome d = DeclaredSucceeded \<longrightarrow> er_exit_code report = 0 \<and>
         (wm_exists (en_workspaces E) (repository w) (pw_path ws) \<longrightarrow>
            wm_is_clean (en_workspaces E) (repository w) ws = Inr True))) \<and>
    (\<forall>commit. \<not> recorded_by (en_codec E) (wb_store (ok_bench w)) (input_node input) i Done commit)"
proof -
  obtain v accesses declared outcome failed u where
    reads: "wm_validate (en_workspaces E) (repository w) ws = Inr v" "lost_checkpoint E i w = Inr None"
    "read_declared (en_orka E) (path_join (attempt_path (ok_store w) i ''io'') OUTCOME_FILE)
       (af_outcome (files_of w i)) = Inr declared"
    "checked_decision E ws declared report w = Inr (Submit outcome failed)" "ok_bench u = ok_bench w"
    and submit: "settle_submit E mo i input ws v report accesses outcome failed u = (r, w')"
    by (rule settle_reaches [OF assms])
  note checked = checked_submit [OF reads(4)]
  obtain d where d: "declared = Some d" using checked by (cases declared) (auto simp: decide_def split: if_splits)
  have "do_outcome d = DeclaredSucceeded \<Longrightarrow> er_exit_code report = 0 \<and> work_of outcome = Done"
    using checked by (auto simp: d decide_def split: if_splits)
  moreover have "\<not> recorded_by (en_codec E) (wb_store (ok_bench w)) (input_node input) i Done commit" for commit
    using recorded_keeps_linka [of E u input i commit, OF _ submit] assms(2) reads(5) by auto
  ultimately show ?thesis using reads checked d by blast
qed

theorem linka_moves_only_on_evidence_witness:
  "\<exists>r w'. settle (sample_engine NotFound) sample_moments ''attempt-1'' sample_input sample_workspace sample_report
       failed_executed = (r, w') \<and>
     wb_store (ok_bench w') \<noteq> wb_store (ok_bench failed_executed) \<and>
     lost_checkpoint (sample_engine NotFound) ''attempt-1'' failed_executed = Inr None"
proof -
  let ?run = "settle (sample_engine NotFound) sample_moments ''attempt-1'' sample_input sample_workspace sample_report
    failed_executed"
  have "map_option (\<lambda>d. nd_observations d = []) (map_of (store_nodes (wb_store (ok_bench (snd ?run)))) ''b'') = Some False"
    by code_simp
  moreover have "map_option (\<lambda>d. nd_observations d = [])
      (map_of (store_nodes (wb_store (ok_bench failed_executed))) ''b'') = Some True" by code_simp
  ultimately have moved: "wb_store (ok_bench (snd ?run)) \<noteq> wb_store (ok_bench failed_executed)" by auto
  have run: "?run = (fst ?run, snd ?run)" by simp
  show ?thesis using linka_moves_only_on_evidence [OF run moved] run moved by blast
qed



end
