(* ===== verification/Rust_Parse.thy ===== *)
theory Rust_Parse
  imports Rust_Str Anyhow
begin

text \<open>
  More of Rust's \<open>str\<close>: stripping and splitting by a pattern, searching from the end, the lossy
  decoding of bytes, and parsing of machine integers with their bounds.
\<close>

section \<open>Stripping and splitting\<close>

definition strip_prefix_str :: "string \<Rightarrow> string \<Rightarrow> string option" where
  "strip_prefix_str p s = (if prefix p s then Some (drop (length p) s) else None)"

definition strip_suffix_str :: "string \<Rightarrow> string \<Rightarrow> string option" where
  "strip_suffix_str p s = (if suffix p s then Some (take (length s - length p) s) else None)"

fun split_once_str :: "string \<Rightarrow> string \<Rightarrow> (string \<times> string) option" where
  "split_once_str p [] = (if p = [] then Some ([], []) else None)"
| "split_once_str p (c # s) =
     (if prefix p (c # s) then Some ([], drop (length p) (c # s))
      else map_option (\<lambda>(l, r). (c # l, r)) (split_once_str p s))"

definition rsplit_once :: "char \<Rightarrow> string \<Rightarrow> (string \<times> string) option" where
  "rsplit_once c s = map_option (\<lambda>(r, l). (rev l, rev r)) (split_once c (rev s))"

text \<open>\<open>rfind\<close>, with what stands before and after the pattern.\<close>

definition rsplit_once_str :: "string \<Rightarrow> string \<Rightarrow> (string \<times> string) option" where
  "rsplit_once_str p s = map_option (\<lambda>(r, l). (rev l, rev r)) (split_once_str (rev p) (rev s))"

text \<open>\<open>splitn\<close> with a character: at most \<open>n\<close> pieces, the last one unsplit.\<close>

fun splitn :: "nat \<Rightarrow> char \<Rightarrow> string \<Rightarrow> string list" where
  "splitn 0 c s = []"
| "splitn (Suc 0) c s = [s]"
| "splitn (Suc n) c s = (case split_once c s of None \<Rightarrow> [s] | Some (l, r) \<Rightarrow> l # splitn n c r)"

text \<open>\<open>split_whitespace\<close>: the words between runs of white space.\<close>

function split_white :: "string \<Rightarrow> string \<Rightarrow> string list" where
  "split_white w s =
     (if s = [] then [rev w]
      else (case drop_white white_space s of
              Some t \<Rightarrow> rev w # split_white [] t
            | None \<Rightarrow> split_white (hd s # w) (tl s)))"
  by pat_completeness auto
termination
  by (relation "measure (\<lambda>(w, s). length s)") (auto simp: drop_white_def split: option.splits)

declare split_white.simps [simp del]

definition split_whitespace :: "string \<Rightarrow> string list" where
  "split_whitespace s = filter (\<lambda>w. w \<noteq> []) (split_white [] s)"

section \<open>String::from_utf8_lossy\<close>

definition starts_with :: "(char \<Rightarrow> bool) \<Rightarrow> string \<Rightarrow> bool" where
  "starts_with P s = (case s of [] \<Rightarrow> False | c # _ \<Rightarrow> P c)"

text \<open>The first character of the bytes: whether it is well formed, and how many bytes are taken.\<close>

definition utf8_step :: "char \<Rightarrow> string \<Rightarrow> bool \<times> nat" where
  "utf8_step a s =
     (if byte a < 128 then (True, 1)
      else if in_range 194 223 a then (if starts_with is_cont s then (True, 2) else (False, 1))
      else if in_range 224 239 a then
        (if \<not> starts_with (utf8_lead3 a) s then (False, 1)
         else if starts_with is_cont (drop 1 s) then (True, 3) else (False, 2))
      else if in_range 240 244 a then
        (if \<not> starts_with (utf8_lead4 a) s then (False, 1)
         else if \<not> starts_with is_cont (drop 1 s) then (False, 2)
         else if starts_with is_cont (drop 2 s) then (True, 4) else (False, 3))
      else (False, 1))"

definition replacement :: string where
  "replacement = [CHR 0xEF, CHR 0xBF, CHR 0xBD]"

function from_utf8_lossy :: "string \<Rightarrow> string" where
  "from_utf8_lossy [] = []"
| "from_utf8_lossy (a # s) =
     (case utf8_step a s of (ok, n) \<Rightarrow>
        (if ok then take n (a # s) else replacement) @ from_utf8_lossy (drop (n - 1) s))"
  by pat_completeness auto
termination
  by (relation "measure length") (simp_all only: in_measure length_drop list.size, simp_all)

section \<open>Machine integers\<close>

definition is_digit :: "char \<Rightarrow> bool" where
  "is_digit c \<longleftrightarrow> in_range 48 57 c"

definition digits_value :: "string \<Rightarrow> nat" where
  "digits_value s = foldl (\<lambda>n c. 10 * n + (byte c - 48)) 0 s"

text \<open>\<open>str::parse\<close> into an unsigned integer of the given width: an optional plus sign, at least one
  digit, and a value that fits.\<close>

definition parse_unsigned :: "nat \<Rightarrow> string \<Rightarrow> nat option" where
  "parse_unsigned w s =
     (let d = (if prefix ''+'' s then drop 1 s else s) in
      if d = [] \<or> \<not> list_all is_digit d then None
      else if digits_value d < 2 ^ w then Some (digits_value d) else None)"

definition parse_usize :: "string \<Rightarrow> nat option" where
  "parse_usize s = parse_unsigned 64 s"

section \<open>Facts\<close>

lemma strip_prefix_str_Some [simp]: "strip_prefix_str p s = Some t \<longleftrightarrow> s = p @ t"
  by (auto simp: strip_prefix_str_def prefix_def)

lemma strip_prefix_append [simp]: "strip_prefix_str p (p @ t) = Some t"
  by simp

lemma strip_suffix_str_Some [simp]: "strip_suffix_str p s = Some t \<longleftrightarrow> s = t @ p"
  by (auto simp: strip_suffix_str_def suffix_def)

lemma split_once_None: "split_once c x = None \<longleftrightarrow> c \<notin> set x"
  by (induction x) auto

lemma rsplit_once_Some: "rsplit_once c x = Some (l, r) \<longleftrightarrow> x = l @ c # r \<and> c \<notin> set r"
proof -
  have "split_once c (rev x) = Some (rev r, rev l) \<longleftrightarrow> rev x = rev r @ c # rev l \<and> c \<notin> set (rev r)"
    by (rule split_once_Some)
  moreover have "rev x = rev r @ c # rev l \<longleftrightarrow> x = l @ c # r"
    by (metis append.assoc append_Cons append_Nil rev.simps(2) rev_append rev_rev_ident)
  moreover have "rsplit_once c x = Some (l, r) \<longleftrightarrow> split_once c (rev x) = Some (rev r, rev l)"
    by (auto simp: rsplit_once_def)
  ultimately show ?thesis by simp
qed

text \<open>A pattern is split at its first occurrence.\<close>

lemma split_once_str_append:
  assumes "\<And>l l'. l \<noteq> [] \<Longrightarrow> s = l' @ l \<Longrightarrow> \<not> prefix p (l @ p @ r)"
  shows "split_once_str p (s @ p @ r) = Some (s, r)"
  using assms
proof (induction s)
  case Nil
  show ?case
  proof (cases "p @ r")
    case (Cons a l)
    have "prefix p (a # l)" "drop (length p) (a # l) = r" by (simp_all flip: Cons)
    then show ?thesis by (simp add: Cons)
  qed simp
next
  case (Cons c s)
  have "\<not> prefix p ((c # s) @ p @ r)" using Cons.prems [of "c # s" "[]"] by simp
  moreover have "split_once_str p (s @ p @ r) = Some (s, r)"
    using Cons.prems by (intro Cons.IH) (metis append_Cons)
  ultimately show ?case by simp
qed

lemma digits_value_snoc [simp]: "digits_value (s @ [c]) = 10 * digits_value s + (byte c - 48)"
  by (simp add: digits_value_def)

lemma digit_char: "n < 10 \<Longrightarrow> byte (char_of (48 + n :: nat)) = 48 + n"
  by simp

lemma show_nat_digits: "list_all is_digit (show_nat n) \<and> show_nat n \<noteq> [] \<and> digits_value (show_nat n) = n"
proof (induction n rule: show_nat.induct)
  case (1 n)
  show ?case
  proof (cases "n < 10")
    case True
    then show ?thesis by (simp add: show_nat.simps [of n] is_digit_def in_range_def digits_value_def)
  next
    case False
    then show ?thesis using 1 by (simp add: show_nat.simps [of n] is_digit_def in_range_def)
  qed
qed

lemma show_nat_no_sign: "\<not> prefix ''+'' (show_nat n)"
  using show_nat_digits [of n] by (auto simp: prefix_def is_digit_def in_range_def)

lemma show_nat_set: "c \<in> set (show_nat n) \<Longrightarrow> is_digit c"
  using show_nat_digits [of n] by (auto simp: list_all_iff)

lemma parse_show_nat: "n < 2 ^ w \<Longrightarrow> parse_unsigned w (show_nat n) = Some n"
  using show_nat_digits [of n] show_nat_no_sign [of n] by (simp add: parse_unsigned_def)

lemma parse_unsigned_bound: "parse_unsigned w s = Some n \<Longrightarrow> n < 2 ^ w"
  by (auto simp: parse_unsigned_def Let_def split: if_splits)

lemma utf8_step_valid:
  assumes "utf8_valid (a # s)"
  shows "\<exists>n. utf8_step a s = (True, Suc n) \<and> n \<le> length s \<and> utf8_valid (drop n s)"
proof (cases "byte a < 128")
  case True
  then show ?thesis using assms by (simp add: utf8_step_def)
next
  case False
  then obtain b s1 where s: "s = b # s1" using assms by (cases s) auto
  show ?thesis
  proof (cases "utf8_lead2 a b")
    case True
    then show ?thesis using assms False by (auto simp: utf8_step_def s starts_with_def utf8_lead2_def)
  next
    case not2: False
    then obtain c s2 where s1: "s1 = c # s2" using assms False by (cases s1) (auto simp: s)
    show ?thesis
    proof (cases "utf8_lead3 a b \<and> is_cont c")
      case True
      then have "in_range 224 239 a" "\<not> in_range 194 223 a" by (auto simp: utf8_lead3_def in_range_def)
      then show ?thesis using assms False not2 True by (simp add: utf8_step_def s s1 starts_with_def)
    next
      case not3: False
      then obtain d s3 where s2: "s2 = d # s3" using assms False not2 by (cases s2) (auto simp: s s1)
      then have lead: "utf8_lead4 a b" "is_cont c" "is_cont d" "utf8_valid s3"
        using assms False not2 not3 by (simp_all add: s s1)
      then have "in_range 240 244 a" "\<not> in_range 224 239 a" "\<not> in_range 194 223 a"
        by (auto simp: utf8_lead4_def in_range_def)
      then show ?thesis using lead False by (simp add: utf8_step_def s s1 s2 starts_with_def)
    qed
  qed
qed

lemma lossy_valid: "utf8_valid s \<Longrightarrow> from_utf8_lossy s = s"
proof (induction s rule: from_utf8_lossy.induct)
  case (2 a s)
  obtain n where n: "utf8_step a s = (True, Suc n)" "utf8_valid (drop n s)"
    using utf8_step_valid [OF 2(2)] by blast
  then have "from_utf8_lossy (drop n s) = drop n s" using 2(1) by simp
  then show ?case using n by simp
qed simp

end
