(* ===== verification/Nota_Git.thy ===== *)
theory Nota_Git
  imports Rust_Parse Git_Command
begin

text \<open>
  Every Git operation nota performs (\<open>nota/src/git.rs\<close>): the trait \<open>Git\<close> as a record of operations
  over a repository state, and \<open>SystemGit\<close>, which answers by running \<open>git\<close> and reading what it
  prints. The program \<open>git\<close> is the record \<open>git_program\<close>: a command that only inspects is a query, a
  command that writes an update; each gets the directory, its arguments and its standard input.
  Line numbers are natural numbers: what \<open>parse_diff\<close> reads is below \<open>2 ^ 64\<close>.
\<close>

section \<open>Diffs and commits\<close>

record hunk =
  hk_old_start :: nat
  hk_old_count :: nat
  hk_new_start :: nat
  hk_new_count :: nat
  hk_old :: "string list"
  hk_new :: "string list"

record file_diff =
  fd_path :: string
  fd_hunks :: "hunk list"

record commit =
  cm_id :: string
  cm_first_parent :: "string option"
  cm_message :: string
  cm_paths :: "string list"

section \<open>The trait\<close>

record 'g git =
  git_repository_root :: "'g \<Rightarrow> string \<Rightarrow> string res"
  git_resolve_commit :: "'g \<Rightarrow> string \<Rightarrow> string \<Rightarrow> string res"
  git_current_branch :: "'g \<Rightarrow> string \<Rightarrow> string option res"
  git_validate_branch_name :: "'g \<Rightarrow> string \<Rightarrow> string \<Rightarrow> unit res"
  git_branch_exists :: "'g \<Rightarrow> string \<Rightarrow> string \<Rightarrow> bool res"
  git_branch_tip :: "'g \<Rightarrow> string \<Rightarrow> string \<Rightarrow> string res"
  git_local_branches :: "'g \<Rightarrow> string \<Rightarrow> (string \<times> string) list res"
  git_create_branch :: "string \<Rightarrow> string \<Rightarrow> string \<Rightarrow> ('g, error, unit) st_op"
  git_commit_empty :: "string \<Rightarrow> string \<Rightarrow> string \<Rightarrow> ('g, error, string) st_op"
  git_update_branch :: "string \<Rightarrow> string \<Rightarrow> string \<Rightarrow> string \<Rightarrow> ('g, error, unit) st_op"
  git_first_parent_history :: "'g \<Rightarrow> string \<Rightarrow> string \<Rightarrow> string list res"
  git_commits_with_trailers :: "'g \<Rightarrow> string \<Rightarrow> string list \<Rightarrow> string list \<Rightarrow> commit list res"
  git_commits :: "'g \<Rightarrow> string \<Rightarrow> string list \<Rightarrow> commit list res"
  git_read_file :: "'g \<Rightarrow> string \<Rightarrow> string \<Rightarrow> string \<Rightarrow> string option res"
  git_write_blob :: "string \<Rightarrow> string \<Rightarrow> string \<Rightarrow> ('g, error, string) st_op"
  git_diff :: "'g \<Rightarrow> string \<Rightarrow> string \<Rightarrow> string option \<Rightarrow> string list \<Rightarrow> file_diff list res"
  git_diff_blobs :: "'g \<Rightarrow> string \<Rightarrow> string \<Rightarrow> string \<Rightarrow> hunk list res"

section \<open>Reading a diff\<close>

text \<open>\<open>unquote\<close>: the bytes a C-style quoted path stands for; up to three octal digits make a byte.\<close>

definition octal :: "char \<Rightarrow> nat option" where
  "octal c = (if in_range 48 55 c then Some (byte c - 48) else None)"

text \<open>\<open>char_of\<close> is the cast \<open>as u8\<close>: the value modulo 256.\<close>

fun octal_tail :: "nat \<Rightarrow> nat \<Rightarrow> string \<Rightarrow> nat \<times> string" where
  "octal_tail 0 v s = (v, s)"
| "octal_tail (Suc n) v s =
     (case s of
        [] \<Rightarrow> (v, s)
      | c # t \<Rightarrow> (case octal c of None \<Rightarrow> octal_tail n v s | Some d \<Rightarrow> octal_tail n (8 * v + d) t))"

lemma octal_tail_length: "length (snd (octal_tail n v s)) \<le> length s"
  by (induction n v s rule: octal_tail.induct) (auto split: list.splits option.splits intro: le_SucI)

definition escaped :: "char \<Rightarrow> char option" where
  "escaped c =
     (if c = CHR ''n'' then Some (CHR 0x0A) else if c = CHR ''t'' then Some (CHR 0x09)
      else if c = CHR ''a'' then Some (CHR 0x07) else if c = CHR ''b'' then Some (CHR 0x08)
      else if c = CHR ''f'' then Some (CHR 0x0C) else if c = CHR ''v'' then Some (CHR 0x0B)
      else if c = CHR ''r'' then Some (CHR 0x0D) else None)"

function unquote_bytes :: "string \<Rightarrow> string" where
  "unquote_bytes [] = []"
| "unquote_bytes (c # s) =
     (if c \<noteq> CHR 0x5C then c # unquote_bytes s
      else (case s of
        [] \<Rightarrow> [CHR 0x5C]
      | e # t \<Rightarrow>
          (case escaped e of
             Some b \<Rightarrow> b # unquote_bytes t
           | None \<Rightarrow>
               (case octal e of
                  Some d \<Rightarrow> char_of (fst (octal_tail 2 d t)) # unquote_bytes (snd (octal_tail 2 d t))
                | None \<Rightarrow> e # unquote_bytes t))))"
  by pat_completeness auto
termination
  by (relation "measure length") (auto simp: less_Suc_eq_le octal_tail_length intro: le_SucI)

definition unquote :: "string \<Rightarrow> string" where
  "unquote s = from_utf8_lossy (unquote_bytes s)"

text \<open>A \<open>---\<close> or \<open>+++\<close> path; \<open>/dev/null\<close> is none.\<close>

definition diff_path :: "string \<Rightarrow> string \<Rightarrow> string option" where
  "diff_path value side =
     (let value = (case strip_suffix_str [CHR 0x09] value of None \<Rightarrow> value | Some v \<Rightarrow> v);
          value = (case Option.bind (strip_prefix_str [CHR 0x22] value) (strip_suffix_str [CHR 0x22]) of
                     Some quoted \<Rightarrow> unquote quoted | None \<Rightarrow> value) in
      strip_prefix_str side value)"

definition hunk_range :: "string \<Rightarrow> (nat \<times> nat) res" where
  "hunk_range r =
     (let (start, count) = (case split_once (CHR '','') r of None \<Rightarrow> (r, ''1'') | Some x \<Rightarrow> x) in
      and_then (with_context ''invalid `git diff` hunk header'' []
        (ok_or (Bail ''invalid integer'' []) (parse_usize start))) (\<lambda>s.
      and_then (with_context ''invalid `git diff` hunk header'' []
        (ok_or (Bail ''invalid integer'' []) (parse_usize count))) (\<lambda>c.
      Inr (s, c))))"

text \<open>The state of the loop: the files so far, the path of the old side, and how many lines of each
  side of the current hunk are still to come.\<close>

record diff_state =
  ds_files :: "file_diff list"
  ds_old_path :: "string option"
  ds_pending :: "nat \<times> nat"

definition last_hunk :: "file_diff list \<Rightarrow> hunk option" where
  "last_hunk files =
     (if files = [] \<or> fd_hunks (last files) = [] then None else Some (last (fd_hunks (last files))))"

definition put_last_hunk :: "hunk \<Rightarrow> file_diff list \<Rightarrow> file_diff list" where
  "put_last_hunk h files =
     butlast files @ [(last files)\<lparr>fd_hunks := butlast (fd_hunks (last files)) @ [h]\<rparr>]"

definition push_hunk :: "hunk \<Rightarrow> file_diff list \<Rightarrow> file_diff list" where
  "push_hunk h files = butlast files @ [(last files)\<lparr>fd_hunks := fd_hunks (last files) @ [h]\<rparr>]"

definition content_line :: "string \<Rightarrow> diff_state \<Rightarrow> diff_state res" where
  "content_line line d =
     and_then (ok_or (Bail ''invalid `git diff` output: lines outside a hunk'' []) (last_hunk (ds_files d))) (\<lambda>h.
     let (olds, news) = ds_pending d in
     if prefix ''-'' line \<and> olds > 0
     then Inr (d\<lparr>ds_files := put_last_hunk (h\<lparr>hk_old := hk_old h @ [drop 1 line]\<rparr>) (ds_files d),
                 ds_pending := (olds - 1, news)\<rparr>)
     else if prefix ''+'' line \<and> news > 0
     then Inr (d\<lparr>ds_files := put_last_hunk (h\<lparr>hk_new := hk_new h @ [drop 1 line]\<rparr>) (ds_files d),
                 ds_pending := (olds, news - 1)\<rparr>)
     else if \<not> prefix [CHR 0x5C] line
     then bail ''invalid `git diff` output: unexpected line `{}`'' [line]
     else Inr d)"

definition hunk_header :: "string \<Rightarrow> hunk res" where
  "hunk_header header =
     and_then (ok_or (Bail ''invalid `git diff` hunk header'' []) (split_once_str '' @@'' header)) (\<lambda>(ranges, _).
     and_then (ok_or (Bail ''invalid `git diff` hunk header'' []) (split_once_str '' +'' ranges)) (\<lambda>(old, new).
     and_then (hunk_range old) (\<lambda>(old_start, old_count).
     and_then (hunk_range new) (\<lambda>(new_start, new_count).
     Inr \<lparr>hk_old_start = old_start, hk_old_count = old_count, hk_new_start = new_start,
          hk_new_count = new_count, hk_old = [], hk_new = []\<rparr>))))"

definition header_line :: "string \<Rightarrow> diff_state \<Rightarrow> diff_state res" where
  "header_line line d =
     (if prefix ''diff --git '' line then Inr (d\<lparr>ds_old_path := None\<rparr>)
      else case strip_prefix_str ''--- '' line of
        Some path \<Rightarrow> Inr (d\<lparr>ds_old_path := diff_path path ''a/''\<rparr>)
      | None \<Rightarrow>
      (case strip_prefix_str ''+++ '' line of
        Some path \<Rightarrow>
          (case diff_path path ''b/'' of
             Some p \<Rightarrow> Inr (d\<lparr>ds_files := ds_files d @ [\<lparr>fd_path = p, fd_hunks = []\<rparr>], ds_old_path := None\<rparr>)
           | None \<Rightarrow>
               and_then (ok_or (Bail ''invalid `git diff` output: a file without a path'' []) (ds_old_path d)) (\<lambda>p.
               Inr (d\<lparr>ds_files := ds_files d @ [\<lparr>fd_path = p, fd_hunks = []\<rparr>], ds_old_path := None\<rparr>)))
      | None \<Rightarrow>
      (case strip_prefix_str ''@@ -'' line of
        Some header \<Rightarrow>
          if ds_files d = [] then bail ''invalid `git diff` output: a hunk without a file'' []
          else and_then (hunk_header header) (\<lambda>h.
               Inr (d\<lparr>ds_pending := (hk_old_count h, hk_new_count h), ds_files := push_hunk h (ds_files d)\<rparr>))
      | None \<Rightarrow> Inr d)))"

fun parse_lines :: "string list \<Rightarrow> diff_state \<Rightarrow> diff_state res" where
  "parse_lines [] d = Inr d"
| "parse_lines (line # rest) d =
     and_then (if ds_pending d \<noteq> (0, 0) then content_line line d else header_line line d) (parse_lines rest)"

definition parse_diff :: "string \<Rightarrow> file_diff list res" where
  "parse_diff out =
     and_then (parse_lines (lines out) \<lparr>ds_files = [], ds_old_path = None, ds_pending = (0, 0)\<rparr>) (\<lambda>d.
     if ds_pending d \<noteq> (0, 0) then bail ''invalid `git diff` output: a truncated hunk'' []
     else Inr (ds_files d))"

section \<open>Running git\<close>

record 'g git_program =
  gp_query :: "'g \<Rightarrow> string \<Rightarrow> string list \<Rightarrow> string \<Rightarrow> command_output"
  gp_update :: "string \<Rightarrow> string list \<Rightarrow> string \<Rightarrow> 'g \<Rightarrow> command_output \<times> 'g"

text \<open>Without input the command inherits the standard input, which none of these commands reads.\<close>

definition output_of :: "'g git_program \<Rightarrow> 'g \<Rightarrow> string \<Rightarrow> string list \<Rightarrow> command_output res" where
  "output_of P g repository args =
     (case gp_query P g repository args [] of
        NotStarted \<Rightarrow> bail ''running `git {}` in {}'' [join_with '' '' args, repository]
      | out \<Rightarrow> Inr out)"

definition successful :: "string \<Rightarrow> string list \<Rightarrow> command_output \<Rightarrow> string res" where
  "successful repository args out =
     (case out of
        NotStarted \<Rightarrow> bail ''running `git {}` in {}'' [join_with '' '' args, repository]
      | Output s text err \<Rightarrow>
          if s \<noteq> Some 0 then bail ''`git {}` failed in {}: {}'' [join_with '' '' args, repository, trim err]
          else Inr text)"

definition raw :: "'g git_program \<Rightarrow> 'g \<Rightarrow> string \<Rightarrow> string list \<Rightarrow> string res" where
  "raw P g repository args = successful repository args (gp_query P g repository args [])"

definition git_checked :: "'g git_program \<Rightarrow> 'g \<Rightarrow> string \<Rightarrow> string list \<Rightarrow> string res" where
  "git_checked P g repository args = map_ok trim (raw P g repository args)"

definition git_updating ::
  "'g git_program \<Rightarrow> string \<Rightarrow> string list \<Rightarrow> string \<Rightarrow> ('g, error, string) st_op" where
  "git_updating P repository args input g =
     (case gp_update P repository args input g of (out, g') \<Rightarrow> (map_ok trim (successful repository args out), g'))"

definition nonempty_lines :: "string \<Rightarrow> string list" where
  "nonempty_lines v = filter (\<lambda>l. l \<noteq> []) (lines v)"

section \<open>SystemGit\<close>

definition resolve_commit :: "'g git_program \<Rightarrow> 'g \<Rightarrow> string \<Rightarrow> string \<Rightarrow> string res" where
  "resolve_commit P g repository revision =
     with_context ''resolving Git revision `{}`'' [revision]
       (git_checked P g repository [''rev-parse'', ''--verify'', revision @ ''^{commit}''])"

definition system_current_branch :: "'g git_program \<Rightarrow> 'g \<Rightarrow> string \<Rightarrow> string option res" where
  "system_current_branch P g repository =
     (let args = [''symbolic-ref'', ''--quiet'', ''--short'', ''HEAD''] in
      and_then (output_of P g repository args) (\<lambda>out.
      if status out = Some 1 then Inr None else map_ok Some (git_checked P g repository args)))"

definition system_branch_exists :: "'g git_program \<Rightarrow> 'g \<Rightarrow> string \<Rightarrow> string \<Rightarrow> bool res" where
  "system_branch_exists P g repository branch =
     map_ok exited_zero (output_of P g repository [''show-ref'', ''--verify'', ''--quiet'', ''refs/heads/'' @ branch])"

definition branch_listing :: "string \<Rightarrow> (string \<times> string) res" where
  "branch_listing line =
     and_then (ok_or (Bail ''invalid branch listing'' []) (split_once (CHR 0x09) line)) (\<lambda>(name, tip).
     and_then (ok_or (Bail ''invalid local ref'' []) (strip_prefix_str ''refs/heads/'' name)) (\<lambda>branch.
     Inr (branch, tip)))"

definition system_local_branches :: "'g git_program \<Rightarrow> 'g \<Rightarrow> string \<Rightarrow> (string \<times> string) list res" where
  "system_local_branches P g repository =
     and_then (git_checked P g repository
       [''for-each-ref'', ''--format=%(refname)%09%(objectname)'', ''refs/heads/'']) (\<lambda>refs.
     collect branch_listing (lines refs))"

definition system_commit_empty :: "'g git_program \<Rightarrow> string \<Rightarrow> string \<Rightarrow> string \<Rightarrow> ('g, error, string) st_op" where
  "system_commit_empty P repository parent message =
     st_then (st_read (\<lambda>g. git_checked P g repository [''rev-parse'', parent @ ''^{tree}''])) (\<lambda>tree.
     git_updating P repository [''commit-tree'', tree, ''-p'', parent, ''-F'', ''-''] message)"

definition system_update_ref :: "'g git_program \<Rightarrow> string \<Rightarrow> string \<Rightarrow> string \<Rightarrow> string \<Rightarrow> ('g, error, unit) st_op" where
  "system_update_ref P repository branch commit expected =
     st_then (git_updating P repository [''update-ref'', ''refs/heads/'' @ branch, commit, expected] []) (\<lambda>_.
     st_return ())"

text \<open>One record of the log: id, parents, message, changed paths, separated by NUL.\<close>

definition log_record :: "string \<Rightarrow> string \<Rightarrow> commit res" where
  "log_record repository r =
     (case splitn 4 (CHR 0x00) r of
        [i, parents, message, paths] \<Rightarrow>
          Inr \<lparr>cm_id = i, cm_first_parent = (case split_whitespace parents of [] \<Rightarrow> None | p # _ \<Rightarrow> Some p),
               cm_message = trim message, cm_paths = nonempty_lines paths\<rparr>
      | _ \<Rightarrow> bail ''invalid `git log` output in {}'' [repository])"

definition git_log :: "'g git_program \<Rightarrow> 'g \<Rightarrow> string \<Rightarrow> string list \<Rightarrow> string list \<Rightarrow> commit list res" where
  "git_log P g repository args revisions =
     (if revisions = [] then Inr []
      else
        let command = [''-c'', ''log.showSignature=false'', ''log'', ''--no-renames'', ''--name-only'',
          ''--format=%x1e%H%x00%P%x00%B%x00''] @ args @ [''--stdin''] in
        and_then (map_ok trim (successful repository command
          (gp_query P g repository command (join_with [CHR 0x0A] revisions @ [CHR 0x0A])))) (\<lambda>out.
        collect (log_record repository) (drop 1 (split_on (CHR 0x1E) out))))"

definition DIFF :: "string list" where
  "DIFF =
     [''-c'', ''core.quotePath=false'', ''-c'', ''diff.mnemonicPrefix=false'', ''-c'', ''diff.noprefix=false'',
      ''diff'', ''--unified=0'', ''--no-color'', ''--no-ext-diff'', ''--no-textconv'', ''--no-renames'',
      ''--no-relative'', ''--src-prefix=a/'', ''--dst-prefix=b/'']"

definition system_read_file :: "'g git_program \<Rightarrow> 'g \<Rightarrow> string \<Rightarrow> string \<Rightarrow> string \<Rightarrow> string option res" where
  "system_read_file P g repository revision path =
     (let args = [''rev-parse'', ''--verify'', ''--quiet'', revision @ '':'' @ path] in
      and_then (output_of P g repository args) (\<lambda>out.
      if status out = Some 1 then Inr None
      else and_then (git_checked P g repository args) (\<lambda>i.
           map_ok Some (raw P g repository [''cat-file'', ''blob'', i]))))"

definition system_diff ::
  "'g git_program \<Rightarrow> 'g \<Rightarrow> string \<Rightarrow> string \<Rightarrow> string option \<Rightarrow> string list \<Rightarrow> file_diff list res" where
  "system_diff P g repository source dest paths =
     (if paths = [] then Inr []
      else and_then (raw P g repository
             (''--literal-pathspecs'' # DIFF @ source # (case dest of None \<Rightarrow> [] | Some t \<Rightarrow> [t]) @ [''--''] @ paths))
             parse_diff)"

definition system_diff_blobs :: "'g git_program \<Rightarrow> 'g \<Rightarrow> string \<Rightarrow> string \<Rightarrow> string \<Rightarrow> hunk list res" where
  "system_diff_blobs P g repository source dest =
     and_then (raw P g repository (DIFF @ [source, dest])) (\<lambda>out.
     map_ok (\<lambda>files. concat (map fd_hunks files)) (parse_diff out))"

definition SystemGit :: "'g git_program \<Rightarrow> 'g git" where
  "SystemGit P =
     \<lparr>git_repository_root = (\<lambda>g path. with_context ''{} is not inside a Git repository'' [path]
        (git_checked P g path [''rev-parse'', ''--show-toplevel''])),
      git_resolve_commit = resolve_commit P,
      git_current_branch = system_current_branch P,
      git_validate_branch_name = (\<lambda>g repository branch.
        map_ok (\<lambda>_. ()) (git_checked P g repository [''check-ref-format'', ''--branch'', branch])),
      git_branch_exists = system_branch_exists P,
      git_branch_tip = (\<lambda>g repository branch. resolve_commit P g repository (''refs/heads/'' @ branch)),
      git_local_branches = system_local_branches P,
      git_create_branch = (\<lambda>repository branch commit. system_update_ref P repository branch commit []),
      git_commit_empty = system_commit_empty P,
      git_update_branch = system_update_ref P,
      git_first_parent_history = (\<lambda>g repository revision.
        map_ok nonempty_lines (git_checked P g repository [''rev-list'', ''--first-parent'', revision])),
      git_commits_with_trailers = (\<lambda>g repository tips keys.
        git_log P g repository (''--first-parent'' # map (\<lambda>key. ''--grep=^'' @ key @ '':'') keys) tips),
      git_commits = (\<lambda>g repository. git_log P g repository [''--no-walk=unsorted'']),
      git_read_file = system_read_file P,
      git_write_blob = (\<lambda>repository path contents.
        git_updating P repository [''hash-object'', ''-w'', ''--stdin'', ''--path='' @ path] contents),
      git_diff = system_diff P,
      git_diff_blobs = system_diff_blobs P\<rparr>"

end
