(* ===== verification/Nota_Review.thy ===== *)
theory Nota_Review
  imports Nota_Git
begin

text \<open>
  Reviews as branches (\<open>nota/src/review.rs\<close>) and the store that keeps them in commit trailers
  (\<open>nota/src/trailer_store.rs\<close>): a marker commit starts a review, every later commit of the first-parent
  history is an entry, a note is an empty commit with a trailer and a suggestion an ordinary commit. The
  operations are written over any \<open>git\<close> record, as the code is over the trait.
\<close>

section \<open>Reviews (review.rs)\<close>

record started_review =
  sd_branch :: string
  sd_marker :: string
  sd_subject :: string
  sd_repository :: string

record note_source =
  ns_revision :: string
  ns_path :: string
  ns_first :: nat
  ns_last :: nat

datatype review_entry_kind = Note | Suggestion

record review_entry =
  re_commit :: string
  re_message :: string
  re_kind :: review_entry_kind
  re_paths :: "string list"
  re_source :: "note_source option"

record review =
  rv_branch :: string
  rv_marker :: string
  rv_subject :: string
  rv_entries :: "review_entry list"

record review_summary =
  rm_branch :: string
  rm_marker :: string
  rm_subject :: string
  rm_tip :: string
  rm_notes :: nat
  rm_suggestions :: nat

record review_diagnostic =
  rd_branch :: string
  rd_message :: string

record review_index =
  ri_reviews :: "review_summary list"
  ri_diagnostics :: "review_diagnostic list"

section \<open>Trailers\<close>

definition REVIEW_TRAILER :: string where "REVIEW_TRAILER = ''Nota-Review''"
definition SUBJECT_TRAILER :: string where "SUBJECT_TRAILER = ''Nota-Subject''"
definition NOTE_TRAILER :: string where "NOTE_TRAILER = ''Nota-Note''"
definition SOURCE_TRAILER :: string where "SOURCE_TRAILER = ''Nota-Source''"

definition is_ascii_alphanumeric_or_dash :: "char \<Rightarrow> bool" where
  "is_ascii_alphanumeric_or_dash c \<longleftrightarrow>
     in_range 48 57 c \<or> in_range 65 90 c \<or> in_range 97 122 c \<or> c = CHR ''-''"

definition trailer_line :: "string \<Rightarrow> (string \<times> string) option" where
  "trailer_line line =
     Option.bind (split_once (CHR '':'') line) (\<lambda>(key, v).
     if key \<noteq> [] \<and> list_all is_ascii_alphanumeric_or_dash key then Some (key, trim v) else None)"

definition split_trailers :: "string \<Rightarrow> string \<times> (string \<times> string) list" where
  "split_trailers message =
     (let message = trim_end message in
      case rsplit_once_str [CHR 0x0A, CHR 0x0A] message of
        None \<Rightarrow> (message, [])
      | Some (prose, paragraph) \<Rightarrow>
          (case those (map trailer_line (lines paragraph)) of
             Some trailers \<Rightarrow> if trailers \<noteq> [] then (trim_end prose, trailers) else (message, [])
           | None \<Rightarrow> (message, [])))"

text \<open>The last non-empty value of a trailer.\<close>

definition trailer :: "(string \<times> string) list \<Rightarrow> string \<Rightarrow> string option" where
  "trailer trailers key = map_option snd (find (\<lambda>(name, v). name = key \<and> v \<noteq> []) (rev trailers))"

section \<open>Sources\<close>

definition format_source :: "note_source \<Rightarrow> string" where
  "format_source s =
     ns_revision s @ '':'' @ ns_path s @ '':'' @ show_nat (ns_first s) @ ''-'' @ show_nat (ns_last s)"

definition is_commit_id :: "string \<Rightarrow> bool" where
  "is_commit_id r \<longleftrightarrow> (length r = 40 \<or> length r = 64) \<and> list_all (\<lambda>c. in_range 48 57 c \<or> in_range 97 102 c) r"

definition parse_source :: "string \<Rightarrow> note_source res" where
  "parse_source v =
     and_then (ok_or (Bail ''no commit'' []) (split_once (CHR '':'') v)) (\<lambda>(revision, rest).
     and_then (ok_or (Bail ''no lines'' []) (rsplit_once (CHR '':'') rest)) (\<lambda>(path, range).
     and_then (ok_or (Bail ''no line range'' []) (split_once (CHR ''-'') range)) (\<lambda>(first, last).
     and_then (ok_or (Bail ''invalid integer'' []) (parse_usize first)) (\<lambda>first.
     and_then (ok_or (Bail ''invalid integer'' []) (parse_usize last)) (\<lambda>last.
     if \<not> is_commit_id revision \<or> path = [] \<or> first = 0 \<or> last < first
     then bail ''not `<commit>:<path>:<first>-<last>`'' []
     else Inr \<lparr>ns_revision = revision, ns_path = path, ns_first = first, ns_last = last\<rparr>)))))"

section \<open>Entries\<close>

definition note_entry :: "commit \<Rightarrow> string \<Rightarrow> (string \<times> string) list \<Rightarrow> review_entry res" where
  "note_entry c prose trailers =
     (if cm_paths c \<noteq> [] then bail ''note commit `{}` changes project files'' [cm_id c]
      else if trim prose = [] then bail ''note commit `{}` has no text'' [cm_id c]
      else
      and_then (case trailer trailers SOURCE_TRAILER of
          None \<Rightarrow> Inr None
        | Some v \<Rightarrow> map_ok Some (with_context ''note commit `{}` has an invalid source `{}`'' [cm_id c, v]
            (parse_source v))) (\<lambda>source.
      Inr \<lparr>re_commit = cm_id c, re_message = prose, re_kind = Note, re_paths = cm_paths c, re_source = source\<rparr>))"

definition entry :: "commit \<Rightarrow> review_entry res" where
  "entry c =
     (let (prose, trailers) = split_trailers (cm_message c) in
      if trailer trailers NOTE_TRAILER \<noteq> None then note_entry c prose trailers
      else if trim (cm_message c) = [] then bail ''suggestion commit `{}` has an empty review comment'' [cm_id c]
      else if cm_paths c = [] then bail ''suggestion commit `{}` has no changed project files'' [cm_id c]
      else Inr \<lparr>re_commit = cm_id c, re_message = cm_message c, re_kind = Suggestion, re_paths = cm_paths c,
                re_source = None\<rparr>)"

definition entries_of :: "'g git \<Rightarrow> 'g \<Rightarrow> string \<Rightarrow> string list \<Rightarrow> review_entry list res" where
  "entries_of G g repository commits =
     and_then (git_commits G g repository commits) (\<lambda>found.
     if length found \<noteq> length commits
     then bail ''expected {} review entries, read {}'' [show_nat (length commits), show_nat (length found)]
     else collect entry found)"

section \<open>Reading a branch\<close>

record marker =
  mk_commit :: string
  mk_subject :: string

record branch =
  br_marker :: marker
  br_entries :: "string list"
  br_tip :: string

text \<open>The candidates as a map from their ids; of two commits with one id the later one counts.\<close>

definition candidate_at :: "commit list \<Rightarrow> string \<Rightarrow> commit option" where
  "candidate_at candidates i = find (\<lambda>c. cm_id c = i) (rev candidates)"

definition marker_candidates :: "'g git \<Rightarrow> 'g \<Rightarrow> string \<Rightarrow> string list \<Rightarrow> commit list res" where
  "marker_candidates G g repository tips =
     git_commits_with_trailers G g repository tips [REVIEW_TRAILER, SUBJECT_TRAILER]"

text \<open>Whether a commit is the marker of the branch, and of which subject.\<close>

definition marker_subject :: "string \<Rightarrow> string \<Rightarrow> commit \<Rightarrow> string option res" where
  "marker_subject branch i candidate =
     (let trailers = snd (split_trailers (cm_message candidate));
          review = trailer trailers REVIEW_TRAILER;
          subject = trailer trailers SUBJECT_TRAILER in
      if review = None \<and> subject = None then Inr None
      else
      and_then (ok_or (Bail ''review marker `{}` has no review trailer'' [i]) review) (\<lambda>review.
      and_then (ok_or (Bail ''review marker `{}` has no subject trailer'' [i]) subject) (\<lambda>subject.
      if cm_first_parent candidate \<noteq> Some subject
      then bail ''review marker `{}` has an invalid subject trailer'' [i]
      else if review \<noteq> branch
      then bail ''review branch `{}` does not match review marker `{}`'' [branch, review]
      else Inr (Some subject))))"

fun scan_history ::
  "commit list \<Rightarrow> string \<Rightarrow> string list \<Rightarrow> string list \<Rightarrow> (marker \<times> string list) option res" where
  "scan_history candidates branch [] newer = Inr None"
| "scan_history candidates branch (i # older) newer =
     (case candidate_at candidates i of
        None \<Rightarrow> scan_history candidates branch older (i # newer)
      | Some candidate \<Rightarrow>
          and_then (marker_subject branch i candidate) (\<lambda>subject.
          case subject of
            None \<Rightarrow> scan_history candidates branch older (i # newer)
          | Some s \<Rightarrow> Inr (Some (\<lparr>mk_commit = i, mk_subject = s\<rparr>, newer))))"

definition read_branch_at ::
  "'g git \<Rightarrow> 'g \<Rightarrow> string \<Rightarrow> string \<Rightarrow> string \<Rightarrow> commit list \<Rightarrow> branch option res" where
  "read_branch_at G g repository branch tip candidates =
     and_then (with_context ''reading review history from `{}`'' [branch]
       (git_first_parent_history G g repository tip)) (\<lambda>history.
     map_ok (map_option (\<lambda>(marker, entries). \<lparr>br_marker = marker, br_entries = entries, br_tip = tip\<rparr>))
       (scan_history candidates branch history []))"

definition read_branch :: "'g git \<Rightarrow> 'g \<Rightarrow> string \<Rightarrow> string \<Rightarrow> branch res" where
  "read_branch G g repository branch =
     and_then (git_branch_tip G g repository branch) (\<lambda>tip.
     and_then (marker_candidates G g repository [tip]) (\<lambda>candidates.
     and_then (read_branch_at G g repository branch tip candidates)
       (ok_or (Bail ''`{}` is not a Nota review (no review marker found)'' [branch]))))"

section \<open>Starting a review\<close>

text \<open>The search for an unused name ends only if one of the candidates is unused.\<close>

partial_function (option) unused_branch ::
  "(string \<Rightarrow> bool res) \<Rightarrow> string \<Rightarrow> string \<Rightarrow> nat \<Rightarrow> string res option" where
  "unused_branch taken stem branch n =
     (case taken branch of
        Inl e \<Rightarrow> Some (Inl e)
      | Inr used \<Rightarrow>
          if used then unused_branch taken stem (stem @ ''-'' @ show_nat n) (n + 1)
          else Some (Inr branch))"

definition review_stem :: "'g git \<Rightarrow> 'g \<Rightarrow> string \<Rightarrow> string \<Rightarrow> string \<Rightarrow> string res" where
  "review_stem G g repository revision subject =
     and_then (if revision = ''HEAD'' then git_current_branch G g repository
               else map_ok (\<lambda>e. if e then Some revision else None) (git_branch_exists G g repository revision))
       (\<lambda>source. Inr (''nota/review-'' @ (case source of None \<Rightarrow> take (min (length subject) 12) subject | Some b \<Rightarrow> b)))"

definition default_branch :: "'g git \<Rightarrow> 'g \<Rightarrow> string \<Rightarrow> string \<Rightarrow> string \<Rightarrow> string res option" where
  "default_branch G g repository revision subject =
     (case review_stem G g repository revision subject of
        Inl e \<Rightarrow> Some (Inl e)
      | Inr stem \<Rightarrow> unused_branch (git_branch_exists G g repository) stem stem 2)"

definition marker_message :: "string \<Rightarrow> string \<Rightarrow> string \<Rightarrow> string" where
  "marker_message revision branch subject =
     ''Start review of '' @ revision @ [CHR 0x0A, CHR 0x0A] @
     REVIEW_TRAILER @ '': '' @ branch @ [CHR 0x0A] @ SUBJECT_TRAILER @ '': '' @ subject @ [CHR 0x0A]"

definition start_named ::
  "'g git \<Rightarrow> string \<Rightarrow> string \<Rightarrow> string \<Rightarrow> string \<Rightarrow> ('g, error, started_review) st_op" where
  "start_named G repository revision subject branch =
     st_then (st_read (\<lambda>g. git_validate_branch_name G g repository branch)) (\<lambda>_.
     st_then (st_read (\<lambda>g. git_branch_exists G g repository branch)) (\<lambda>exists.
     if exists then st_fail (Bail ''review branch `{}` already exists'' [branch])
     else
     st_then (git_commit_empty G repository subject (marker_message revision branch subject)) (\<lambda>marker.
     st_then (git_create_branch G repository branch marker) (\<lambda>_.
     st_return \<lparr>sd_branch = branch, sd_marker = marker, sd_subject = subject, sd_repository = repository\<rparr>))))"

text \<open>\<open>None\<close> only if the search for a default name does not end.\<close>

definition start_review ::
  "'g git \<Rightarrow> string \<Rightarrow> string \<Rightarrow> string option \<Rightarrow> 'g \<Rightarrow> (started_review res \<times> 'g) option" where
  "start_review G path revision branch g =
     (case and_then (git_repository_root G g path) (\<lambda>repository.
           map_ok (Pair repository) (git_resolve_commit G g repository revision)) of
        Inl e \<Rightarrow> Some (Inl e, g)
      | Inr (repository, subject) \<Rightarrow>
          map_option (\<lambda>named. case named of
              Inl e \<Rightarrow> (Inl e, g)
            | Inr b \<Rightarrow> start_named G repository revision subject b g)
            (case branch of Some b \<Rightarrow> Some (Inr b) | None \<Rightarrow> default_branch G g repository revision subject))"

definition current_review :: "'g git \<Rightarrow> 'g \<Rightarrow> string \<Rightarrow> string res" where
  "current_review G g path =
     and_then (git_repository_root G g path) (\<lambda>repository.
     and_then (git_current_branch G g repository) (ok_or (Bail ''no review branch is checked out'' [])))"

section \<open>Adding a note\<close>

definition check_source :: "'g git \<Rightarrow> 'g \<Rightarrow> string \<Rightarrow> note_source \<Rightarrow> unit res" where
  "check_source G g repository s =
     and_then (git_resolve_commit G g repository (ns_revision s)) (\<lambda>full.
     if full \<noteq> ns_revision s
     then bail ''a note's source must name a full commit id, not `{}`'' [ns_revision s]
     else if ns_path s = [] \<or> CHR 0x0A \<in> set (ns_path s) \<or> trim (ns_path s) \<noteq> ns_path s
     then bail ''invalid source path `{}`'' [ns_path s]
     else
     and_then (git_read_file G g repository (ns_revision s) (ns_path s)) (\<lambda>content.
     case content of
       None \<Rightarrow> bail ''`{}` is not in {}'' [ns_path s, ns_revision s]
     | Some content \<Rightarrow>
         (let count = max 1 (length (lines content)) in
          if ns_first s = 0 \<or> ns_last s < ns_first s \<or> count < ns_last s
          then bail ''lines {}-{} are not in `{}`, which has {} lines''
            [show_nat (ns_first s), show_nat (ns_last s), ns_path s, show_nat count]
          else Inr ())))"

definition note_message :: "string \<Rightarrow> note_source option \<Rightarrow> string" where
  "note_message prose source =
     prose @ [CHR 0x0A, CHR 0x0A] @ NOTE_TRAILER @ '': true'' @ [CHR 0x0A] @
     (case source of None \<Rightarrow> [] | Some s \<Rightarrow> SOURCE_TRAILER @ '': '' @ format_source s @ [CHR 0x0A])"

text \<open>The writing part, from the branch that was read: a compare-and-set of its tip.\<close>

definition append_note :: "'g git \<Rightarrow> string \<Rightarrow> string \<Rightarrow> branch \<Rightarrow> string \<Rightarrow> ('g, error, review_entry) st_op" where
  "append_note G repository branch found message =
     st_then (git_commit_empty G repository (br_tip found) message) (\<lambda>commit.
     st_then (\<lambda>g. (case git_update_branch G repository branch commit (br_tip found) g of (r, g') \<Rightarrow>
       (with_context ''review branch `{}` changed while adding the note'' [branch] r, g'))) (\<lambda>_.
     st_read (\<lambda>g. map_ok hd (entries_of G g repository [commit]))))"

definition add_note ::
  "'g git \<Rightarrow> string \<Rightarrow> string \<Rightarrow> string \<Rightarrow> note_source option \<Rightarrow> ('g, error, review_entry) st_op" where
  "add_note G path branch message source =
     (let prose = trim message in
      if prose = [] then st_fail (Bail ''review message must not be empty'' [])
      else
      st_then (st_read (\<lambda>g. git_repository_root G g path)) (\<lambda>repository.
      st_then (st_read (\<lambda>g. read_branch G g repository branch)) (\<lambda>found.
      st_then (st_read (\<lambda>g. case source of None \<Rightarrow> Inr () | Some s \<Rightarrow> check_source G g repository s)) (\<lambda>_.
      append_note G repository branch found (note_message prose source)))))"

section \<open>Loading and listing\<close>

definition load_review :: "'g git \<Rightarrow> 'g \<Rightarrow> string \<Rightarrow> string \<Rightarrow> review res" where
  "load_review G g path branch =
     and_then (git_repository_root G g path) (\<lambda>repository.
     and_then (read_branch G g repository branch) (\<lambda>found.
     and_then (entries_of G g repository (br_entries found)) (\<lambda>entries.
     Inr \<lparr>rv_branch = branch, rv_marker = mk_commit (br_marker found), rv_subject = mk_subject (br_marker found),
          rv_entries = entries\<rparr>)))"

definition count_kind :: "review_entry_kind \<Rightarrow> review_entry list \<Rightarrow> nat" where
  "count_kind k entries = length (filter (\<lambda>e. re_kind e = k) entries)"

definition summarize ::
  "'g git \<Rightarrow> 'g \<Rightarrow> string \<Rightarrow> string option \<Rightarrow> commit list \<Rightarrow> string \<times> string \<Rightarrow> review_summary option res" where
  "summarize G g repository subject candidates bt =
     (let (branch, tip) = bt in
      and_then (read_branch_at G g repository branch tip candidates) (\<lambda>found.
      case found of
        None \<Rightarrow> Inr None
      | Some b \<Rightarrow>
          if subject \<noteq> None \<and> subject \<noteq> Some (mk_subject (br_marker b)) then Inr None
          else and_then (entries_of G g repository (br_entries b)) (\<lambda>entries.
               Inr (Some \<lparr>rm_branch = branch, rm_marker = mk_commit (br_marker b),
                 rm_subject = mk_subject (br_marker b), rm_tip = br_tip b,
                 rm_notes = count_kind Note entries, rm_suggestions = count_kind Suggestion entries\<rparr>))))"

fun index_branches ::
  "(string \<times> string \<Rightarrow> review_summary option res) \<Rightarrow> (string \<times> string) list \<Rightarrow> review_index" where
  "index_branches f [] = \<lparr>ri_reviews = [], ri_diagnostics = []\<rparr>"
| "index_branches f (bt # rest) =
     (let index = index_branches f rest in
      case f bt of
        Inr (Some summary) \<Rightarrow> index\<lparr>ri_reviews := summary # ri_reviews index\<rparr>
      | Inr None \<Rightarrow> index
      | Inl e \<Rightarrow> index\<lparr>ri_diagnostics :=
          \<lparr>rd_branch = fst bt, rd_message = error_chain e\<rparr> # ri_diagnostics index\<rparr>)"

definition list_reviews :: "'g git \<Rightarrow> 'g \<Rightarrow> string \<Rightarrow> string option \<Rightarrow> review_index res" where
  "list_reviews G g path subject =
     and_then (git_repository_root G g path) (\<lambda>repository.
     and_then (case subject of None \<Rightarrow> Inr None
               | Some revision \<Rightarrow> map_ok Some (git_resolve_commit G g repository revision)) (\<lambda>subject.
     and_then (git_local_branches G g repository) (\<lambda>branches.
     let branches = sort_key fst branches in
     and_then (marker_candidates G g repository (map snd branches)) (\<lambda>candidates.
     if candidates = [] then Inr \<lparr>ri_reviews = [], ri_diagnostics = []\<rparr>
     else Inr (index_branches (summarize G g repository subject candidates) branches)))))"

end
