(* ===== verification/Nota_Locate.thy ===== *)
theory Nota_Locate
  imports Nota_Review BTree_Map
begin

text \<open>
  Carrying line numbers between versions of a file (\<open>nota/src/locate.rs\<close>). A line number is a natural
  number, the running shift an integer; \<open>saturating_add_signed\<close> stops at zero and at the largest
  \<open>usize\<close>. The sums themselves are those of the program while the numbers of a diff stay below
  \<open>2 ^ 63\<close>, as the line numbers of files do.
\<close>

section \<open>Line numbers\<close>

datatype side = Old | New

definition sides :: "hunk \<Rightarrow> side \<Rightarrow> (nat \<times> nat) \<times> (nat \<times> nat)" where
  "sides h s =
     (let old = (hk_old_start h, hk_old_count h); new = (hk_new_start h, hk_new_count h) in
      case s of Old \<Rightarrow> (old, new) | New \<Rightarrow> (new, old))"

fun range_end :: "nat \<times> nat \<Rightarrow> nat" where
  "range_end (start, count) = (if count = 0 then start else start + count - 1)"

definition usize_max :: nat where "usize_max = 2 ^ 64 - 1"

definition saturating_add_signed :: "nat \<Rightarrow> int \<Rightarrow> nat" where
  "saturating_add_signed n d = min usize_max (nat (int n + d))"

fun map_line_from :: "int \<Rightarrow> hunk list \<Rightarrow> nat \<Rightarrow> side \<Rightarrow> nat" where
  "map_line_from shift [] line s = saturating_add_signed line shift"
| "map_line_from shift (h # hunks) line s =
     (let (source, dest) = sides h s in
      if snd source > 0 \<and> fst source \<le> line \<and> line \<le> range_end source
      then (if snd dest = 0 then fst dest else fst dest + min (line - fst source) (snd dest - 1))
      else map_line_from (if range_end source < line then shift + int (snd dest) - int (snd source) else shift)
             hunks line s)"

definition map_line :: "hunk list \<Rightarrow> nat \<Rightarrow> side \<Rightarrow> nat" where
  "map_line hunks line s = map_line_from 0 hunks line s"

fun map_gap_from :: "int \<Rightarrow> hunk list \<Rightarrow> nat \<Rightarrow> side \<Rightarrow> nat" where
  "map_gap_from shift [] line s = saturating_add_signed line shift"
| "map_gap_from shift (h # hunks) line s =
     (let (source, dest) = sides h s in
      map_gap_from (if range_end source \<le> line then shift + int (snd dest) - int (snd source) else shift)
        hunks line s)"

definition map_gap :: "hunk list \<Rightarrow> nat \<Rightarrow> side \<Rightarrow> nat" where
  "map_gap hunks line s = map_gap_from 0 hunks line s"

text \<open>Whether one hunk leaves a range of the old side alone.\<close>

definition leaves_alone :: "nat \<times> nat \<Rightarrow> hunk \<Rightarrow> bool" where
  "leaves_alone span h =
     (let (start, count) = span; changed = (hk_old_start h, hk_old_count h) in
      if count = 0 \<and> hk_old_count h = 0 then hk_old_start h \<noteq> start
      else if count = 0 then
        \<not> (hk_old_start h \<le> start \<and> start \<le> range_end changed) \<and>
        \<not> (hk_old_start h \<le> start + 1 \<and> start + 1 \<le> range_end changed)
      else if hk_old_count h = 0 then \<not> (start \<le> hk_old_start h \<and> hk_old_start h < start + count - 1)
      else range_end changed < start \<or> start + count - 1 < hk_old_start h)"

definition intact :: "hunk list \<Rightarrow> nat \<times> nat \<Rightarrow> bool" where
  "intact hunks span = list_all (leaves_alone span) hunks"

section \<open>Locations\<close>

datatype status = Current | Changed | Pending | Applied | Stale | Unknown

record location =
  lo_path :: string
  lo_line :: "nat option"
  lo_count :: nat
  lo_status :: status
  lo_hunk :: "hunk option"

definition unknown :: "string \<Rightarrow> location" where
  "unknown path = \<lparr>lo_path = path, lo_line = None, lo_count = 0, lo_status = Unknown, lo_hunk = None\<rparr>"

definition place_note :: "hunk list \<Rightarrow> note_source \<Rightarrow> location" where
  "place_note hunks source =
     (let count = ns_last source - ns_first source + 1;
          first = max (map_line hunks (ns_first source) Old) 1;
          last = max (map_line hunks (ns_last source) Old) first in
      \<lparr>lo_path = ns_path source, lo_line = Some first, lo_count = last - first + 1,
       lo_status = (if intact hunks (ns_first source, count) then Current else Changed), lo_hunk = None\<rparr>)"

definition placed_at :: "hunk list \<Rightarrow> nat \<times> nat \<Rightarrow> nat" where
  "placed_at hunks span =
     (if snd span = 0 then map_gap hunks (fst span) Old else map_line hunks (fst span) Old)"

definition place_hunk :: "hunk list \<Rightarrow> hunk list \<Rightarrow> string \<Rightarrow> hunk \<Rightarrow> location" where
  "place_hunk to_parent to_commit path h =
     (let old = (hk_old_start h, hk_old_count h);
          new = (hk_new_start h, hk_new_count h);
          (status, line, count) =
            (if intact to_parent old then (Pending, placed_at to_parent old, snd old)
             else if intact to_commit new then (Applied, placed_at to_commit new, snd new)
             else (Stale, placed_at to_parent old, snd old)) in
      \<lparr>lo_path = path, lo_line = Some line, lo_count = count, lo_status = status, lo_hunk = Some h\<rparr>)"

section \<open>Placing a review\<close>

datatype target = Worktree | Revision string

record placed_entry =
  pe_entry :: review_entry
  pe_locations :: "location list"

record placed_review =
  pr_branch :: string
  pr_marker :: string
  pr_subject :: string
  pr_at :: string
  pr_entries :: "placed_entry list"

definition parent_of :: "review_entry \<Rightarrow> string" where
  "parent_of e = re_commit e @ ''^''"

text \<open>\<open>hunks.remove(path)\<close> for each path: of equal paths in the diff the last counts, and a path that
  is asked for again finds nothing.\<close>

fun take_hunks :: "(string \<times> hunk list) list \<Rightarrow> string list \<Rightarrow> file_diff list" where
  "take_hunks m [] = []"
| "take_hunks m (p # ps) =
     \<lparr>fd_path = p, fd_hunks = (case map_of m p of None \<Rightarrow> [] | Some hs \<Rightarrow> hs)\<rparr> #
     take_hunks (filter (\<lambda>(q, _). q \<noteq> p) m) ps"

definition hunks_by_path :: "file_diff list \<Rightarrow> (string \<times> hunk list) list" where
  "hunks_by_path files = rev (map (\<lambda>f. (fd_path f, fd_hunks f)) files)"

definition own_changes :: "'g git \<Rightarrow> 'g \<Rightarrow> string \<Rightarrow> review_entry \<Rightarrow> file_diff list res" where
  "own_changes G g repository e =
     (case re_kind e of
        Suggestion \<Rightarrow>
          map_ok (\<lambda>files. take_hunks (hunks_by_path files) (re_paths e))
            (git_diff G g repository (parent_of e) (Some (re_commit e)) (re_paths e))
      | Note \<Rightarrow> Inr [])"

text \<open>The versions an entry needs carrying from, with the paths in them.\<close>

definition needed_by :: "review_entry \<Rightarrow> (string \<times> string) list" where
  "needed_by e =
     (case re_kind e of
        Suggestion \<Rightarrow> concat (map (\<lambda>p. [(parent_of e, p), (re_commit e, p)]) (re_paths e))
      | Note \<Rightarrow> (case re_source e of None \<Rightarrow> [] | Some s \<Rightarrow> [(ns_revision s, ns_path s)]))"

definition need :: "(string \<times> (string \<times> unit) list) list \<Rightarrow> string \<times> string \<Rightarrow> (string \<times> (string \<times> unit) list) list" where
  "need m rp =
     bt_insert (fst rp) (bt_insert (snd rp) () (case map_of m (fst rp) of None \<Rightarrow> [] | Some ps \<Rightarrow> ps)) m"

definition needed :: "review_entry list \<Rightarrow> (string \<times> (string \<times> unit) list) list" where
  "needed entries = foldl need [] (concat (map needed_by entries))"

text \<open>The diff of one version to the target: every path asked for has an entry, none if Git cannot diff.\<close>

definition version_diff ::
  "'g git \<Rightarrow> 'g \<Rightarrow> string \<Rightarrow> string option \<Rightarrow> string \<times> (string \<times> unit) list \<Rightarrow> string \<times> (string \<times> hunk list) list option" where
  "version_diff G g repository dest rp =
     (let (revision, paths) = rp; paths = map fst paths in
      (revision,
       case git_diff G g repository revision dest paths of
         Inl e \<Rightarrow> None
       | Inr files \<Rightarrow> Some (hunks_by_path files @ map (\<lambda>p. (p, [])) paths)))"

definition hunks_in :: "(string \<times> (string \<times> hunk list) list option) list \<Rightarrow> string \<Rightarrow> string \<Rightarrow> hunk list option" where
  "hunks_in diffs revision path =
     Option.bind (Option.bind (map_of diffs revision) (\<lambda>x. x)) (\<lambda>files. map_of files path)"

definition note_locations :: "(string \<Rightarrow> string \<Rightarrow> hunk list option) \<Rightarrow> review_entry \<Rightarrow> location list" where
  "note_locations hunks e =
     (case re_source e of
        None \<Rightarrow> []
      | Some s \<Rightarrow>
          [case hunks (ns_revision s) (ns_path s) of Some hs \<Rightarrow> place_note hs s | None \<Rightarrow> unknown (ns_path s)])"

definition file_locations ::
  "(string \<Rightarrow> string \<Rightarrow> hunk list option) \<Rightarrow> review_entry \<Rightarrow> file_diff \<Rightarrow> location list" where
  "file_locations hunks e f =
     (if fd_hunks f = [] then [unknown (fd_path f)]
      else map (\<lambda>change.
        case (hunks (parent_of e) (fd_path f), hunks (re_commit e) (fd_path f)) of
          (Some to_parent, Some to_commit) \<Rightarrow> place_hunk to_parent to_commit (fd_path f) change
        | _ \<Rightarrow> unknown (fd_path f)) (fd_hunks f))"

definition place_entry :: "(string \<Rightarrow> string \<Rightarrow> hunk list option) \<Rightarrow> review_entry \<Rightarrow> file_diff list \<Rightarrow> placed_entry" where
  "place_entry hunks e files =
     \<lparr>pe_entry = e, pe_locations = note_locations hunks e @ concat (map (file_locations hunks e) files)\<rparr>"

definition place :: "'g git \<Rightarrow> 'g \<Rightarrow> string \<Rightarrow> review \<Rightarrow> target \<Rightarrow> placed_review res" where
  "place G g path r target =
     and_then (git_repository_root G g path) (\<lambda>repository.
     and_then (case target of Worktree \<Rightarrow> Inr None
               | Revision revision \<Rightarrow> map_ok Some (git_resolve_commit G g repository revision)) (\<lambda>dest.
     and_then (collect (own_changes G g repository) (rv_entries r)) (\<lambda>changes.
     let diffs = map (version_diff G g repository dest) (needed (rv_entries r)) in
     Inr \<lparr>pr_branch = rv_branch r, pr_marker = rv_marker r, pr_subject = rv_subject r,
          pr_at = (case dest of None \<Rightarrow> ''worktree'' | Some c \<Rightarrow> c),
          pr_entries = map (\<lambda>(e, files). place_entry (hunks_in diffs) e files) (zip (rv_entries r) changes)\<rparr>)))"

section \<open>The source of a note\<close>

definition clamp :: "nat \<Rightarrow> nat \<Rightarrow> nat \<Rightarrow> nat" where
  "clamp lo hi n = max lo (min hi n)"

text \<open>The working tree file is read from outside Git: what reading it answers is an argument.\<close>

definition note_source_of ::
  "'g git \<Rightarrow> string \<Rightarrow> string \<Rightarrow> string \<Rightarrow> nat \<times> nat \<Rightarrow> string option \<Rightarrow> (string \<Rightarrow> string \<Rightarrow> string res) \<Rightarrow>
   ('g, error, note_source) st_op" where
  "note_source_of G path revision file span contents read_worktree =
     (let (first, last) = span in
      if first = 0 \<or> last < first then st_fail (Bail ''invalid line range {}-{}'' [show_nat first, show_nat last])
      else
      st_then (st_read (\<lambda>g. git_repository_root G g path)) (\<lambda>repository.
      st_then (st_read (\<lambda>g. git_resolve_commit G g repository revision)) (\<lambda>revision.
      st_then (st_read (\<lambda>g. and_then (git_read_file G g repository revision file)
        (ok_or (Bail ''`{}` is not in {}; a note's lines must be in a commit'' [file, revision])))) (\<lambda>recorded.
      st_then (st_read (\<lambda>_. case contents of
          Some c \<Rightarrow> Inr c
        | None \<Rightarrow> with_context ''reading `{}` in {}'' [file, repository] (read_worktree repository file))) (\<lambda>contents.
      st_then (git_write_blob G repository file contents) (\<lambda>blob.
      st_then (st_read (\<lambda>g. git_diff_blobs G g repository (revision @ '':'' @ file) blob)) (\<lambda>hunks.
      let count = max 1 (length (lines recorded));
          back = (\<lambda>line. clamp 1 count (map_line hunks line New)) in
      st_return \<lparr>ns_revision = revision, ns_path = file, ns_first = back first, ns_last = back last\<rparr>)))))))"

end
