(* ===== verification/Nota_Locate_Spec.thy ===== *)
theory Nota_Locate_Spec
  imports Nota_Locate
begin

text \<open>
  What the hunks of a diff mean, and what carrying line numbers along them promises. A diff from one
  text to another is \<open>aligned\<close> when, read in order, the lines between its hunks are equal on both sides
  and each hunk stands where Git's numbering says, with its lines. Git merges changes that touch, so
  two hunks are separated by at least one line.
\<close>

section \<open>Aligned diffs\<close>

definition unchanged_before :: "nat \<Rightarrow> hunk \<Rightarrow> nat" where
  "unchanged_before i h = hk_old_start h - i - (if hk_old_count h = 0 then 0 else 1)"

fun aligned :: "nat \<Rightarrow> nat \<Rightarrow> hunk list \<Rightarrow> string list \<Rightarrow> string list \<Rightarrow> bool" where
  "aligned i j [] old new \<longleftrightarrow> old = new"
| "aligned i j (h # hunks) old new \<longleftrightarrow>
     (let k = unchanged_before i h; oc = hk_old_count h; nc = hk_new_count h in
      0 < oc + nc \<and> (k = 0 \<longrightarrow> i = 0 \<and> j = 0) \<and>
      hk_old_start h = i + k + (if oc = 0 then 0 else 1) \<and>
      hk_new_start h = j + k + (if nc = 0 then 0 else 1) \<and>
      k + oc \<le> length old \<and> k + nc \<le> length new \<and>
      take k old = take k new \<and>
      hk_old h = take oc (drop k old) \<and> hk_new h = take nc (drop k new) \<and>
      aligned (i + k + oc) (j + k + nc) hunks (drop (k + oc) old) (drop (k + nc) new))"

definition diff_of :: "hunk list \<Rightarrow> string list \<Rightarrow> string list \<Rightarrow> bool" where
  "diff_of hunks old new \<longleftrightarrow> aligned 0 0 hunks old new"

text \<open>The same diff read from the other side.\<close>

definition flip :: "hunk \<Rightarrow> hunk" where
  "flip h = \<lparr>hk_old_start = hk_new_start h, hk_old_count = hk_new_count h, hk_new_start = hk_old_start h,
     hk_new_count = hk_old_count h, hk_old = hk_new h, hk_new = hk_old h\<rparr>"

lemma aligned_flip: "aligned i j hunks old new \<Longrightarrow> aligned j i (map flip hunks) new old"
proof (induction hunks arbitrary: i j old new)
  case (Cons h hunks)
  have "unchanged_before j (flip h) = unchanged_before i h"
    using Cons.prems by (auto simp: Let_def unchanged_before_def flip_def split: if_splits)
  then show ?case using Cons.prems Cons.IH by (auto simp: Let_def flip_def)
qed simp

lemma diff_of_flip: "diff_of hunks old new \<Longrightarrow> diff_of (map flip hunks) new old"
  unfolding diff_of_def by (rule aligned_flip)

lemma map_line_flip: "map_line_from d hunks l New = map_line_from d (map flip hunks) l Old"
  by (induction hunks arbitrary: d) (simp_all add: sides_def flip_def Let_def)

definition touches :: "side \<Rightarrow> nat \<Rightarrow> hunk \<Rightarrow> bool" where
  "touches s l h \<longleftrightarrow> (let (start, count) = fst (sides h s) in 0 < count \<and> start \<le> l \<and> l \<le> start + count - 1)"

definition survives :: "side \<Rightarrow> hunk list \<Rightarrow> nat \<Rightarrow> bool" where
  "survives s hunks l \<longleftrightarrow> (\<forall>h \<in> set hunks. \<not> touches s l h)"

lemma survives_flip: "survives New hunks l = survives Old (map flip hunks) l"
  by (simp add: survives_def touches_def sides_def flip_def)

section \<open>Where a line goes\<close>

text \<open>Lines up to the position reached are before every hunk to come.\<close>

lemma map_line_before:
  "aligned i j hunks old new \<Longrightarrow> l \<le> i \<Longrightarrow> map_line_from d hunks l Old = saturating_add_signed l d"
proof (induction hunks arbitrary: i j old new)
  case (Cons h hunks)
  then have "aligned (i + unchanged_before i h + hk_old_count h) (j + unchanged_before i h + hk_new_count h) hunks
      (drop (unchanged_before i h + hk_old_count h) old) (drop (unchanged_before i h + hk_new_count h) new)"
    by (simp add: Let_def)
  from Cons.IH [OF this] show ?case using Cons.prems by (auto simp: sides_def Let_def split: if_splits)
qed simp

lemma survives_before: "aligned i j hunks old new \<Longrightarrow> l \<le> i \<Longrightarrow> survives Old hunks l"
proof (induction hunks arbitrary: i j old new)
  case (Cons h hunks)
  then have "aligned (i + unchanged_before i h + hk_old_count h) (j + unchanged_before i h + hk_new_count h) hunks
      (drop (unchanged_before i h + hk_old_count h) old) (drop (unchanged_before i h + hk_new_count h) new)"
    by (simp add: Let_def)
  from Cons.IH [OF this] show ?case using Cons.prems
    by (auto simp: survives_def touches_def sides_def Let_def split: if_splits)
qed (simp add: survives_def)

text \<open>One hunk: a line stands before it, in it or after it.\<close>

lemma map_line_cases:
  assumes "aligned i j (h # hunks) old new" and "i < l"
  defines "k \<equiv> unchanged_before i h" and "oc \<equiv> hk_old_count h" and "nc \<equiv> hk_new_count h"
  obtains
    (before) "l \<le> i + k" "map_line_from (int j - int i) (h # hunks) l Old = saturating_add_signed l (int j - int i)"
      "survives Old (h # hunks) l"
  | (inside) "i + k < l" "l \<le> i + k + oc" "\<not> survives Old (h # hunks) l"
      "map_line_from (int j - int i) (h # hunks) l Old = (if nc = 0 then j + k else j + k + 1 + min (l - (i + k + 1)) (nc - 1))"
  | (after) "i + k + oc < l"
      "map_line_from (int j - int i) (h # hunks) l Old = map_line_from (int (j + k + nc) - int (i + k + oc)) hunks l Old"
      "survives Old (h # hunks) l = survives Old hunks l"
proof -
  have rest: "aligned (i + k + oc) (j + k + nc) hunks (drop (k + oc) old) (drop (k + nc) new)"
    using assms(1) by (simp add: Let_def k_def oc_def nc_def)
  have start: "hk_old_start h = i + k + (if oc = 0 then 0 else 1)" "hk_new_start h = j + k + (if nc = 0 then 0 else 1)"
    using assms(1) by (simp_all add: Let_def k_def oc_def nc_def)
  consider "l \<le> i + k" | "i + k < l" "l \<le> i + k + oc" | "i + k + oc < l" by linarith
  then show thesis
  proof cases
    case 1
    have "l \<le> i + k + oc" using 1 by simp
    from map_line_before [OF rest this] survives_before [OF rest this] show thesis
      using 1 start by (intro before) (auto simp: sides_def survives_def touches_def Let_def oc_def nc_def split: if_splits)
  next
    case 2
    then show thesis using start
      by (intro inside) (auto simp: sides_def survives_def touches_def Let_def oc_def nc_def split: if_splits)
  next
    case 3
    then show thesis using start
      by (intro after)
        (auto simp: sides_def survives_def touches_def Let_def oc_def nc_def algebra_simps split: if_splits)
  qed
qed

lemma aligned_length: "aligned i j hunks old new \<Longrightarrow> hunks = [] \<Longrightarrow> length old = length new"
  by simp

lemma saturating_exact: "int l + d = int m \<Longrightarrow> m \<le> usize_max \<Longrightarrow> saturating_add_signed l d = m"
  by (simp add: saturating_add_signed_def)

text \<open>Every line goes into the other text, and a surviving line to a line with its content.\<close>

lemma map_line_lands:
  assumes "aligned i j hunks old new" and "i < l" and "l \<le> i + length old" and "j + length new \<le> usize_max"
  shows "j \<le> map_line_from (int j - int i) hunks l Old \<and> map_line_from (int j - int i) hunks l Old \<le> j + length new \<and>
    (survives Old hunks l \<longrightarrow> j < map_line_from (int j - int i) hunks l Old \<and>
       new ! (map_line_from (int j - int i) hunks l Old - j - 1) = old ! (l - i - 1))"
  using assms
proof (induction hunks arbitrary: i j old new)
  case Nil
  then have "saturating_add_signed l (int j - int i) = l - i + j"
    by (intro saturating_exact) auto
  then show ?case using Nil by auto
next
  case (Cons h hunks)
  define k oc nc where defs: "k = unchanged_before i h" "oc = hk_old_count h" "nc = hk_new_count h"
  have fits: "k + oc \<le> length old" "k + nc \<le> length new" "take k old = take k new"
    and rest: "aligned (i + k + oc) (j + k + nc) hunks (drop (k + oc) old) (drop (k + nc) new)"
    using Cons.prems(1) by (simp_all add: Let_def defs)
  from Cons.prems(1,2) show ?case
  proof (cases rule: map_line_cases)
    case before
    have at: "saturating_add_signed l (int j - int i) = l - i + j"
      using before(1) Cons.prems(2,4) fits(2) by (intro saturating_exact) (auto simp: defs)
    have "old ! (l - i - 1) = take k old ! (l - i - 1)" using before(1) Cons.prems(2) by (auto simp: defs)
    also have "\<dots> = new ! (l - i - 1)" using before(1) Cons.prems(2) fits(3) by (auto simp: defs)
    finally show ?thesis using before Cons.prems(2) fits(2) at by (auto simp: defs)
  next
    case inside
    then show ?thesis using fits by (auto simp: defs)
  next
    case after
    have "l \<le> i + k + oc + length (drop (k + oc) old)" "j + k + nc + length (drop (k + nc) new) \<le> usize_max"
      using Cons.prems(3,4) fits by simp_all
    from Cons.IH [OF rest _ this] after(1)
    have lands: "j + k + nc \<le> map_line_from (int (j + k + nc) - int (i + k + oc)) hunks l Old \<and>
      map_line_from (int (j + k + nc) - int (i + k + oc)) hunks l Old \<le> j + k + nc + length (drop (k + nc) new) \<and>
      (survives Old hunks l \<longrightarrow> j + k + nc < map_line_from (int (j + k + nc) - int (i + k + oc)) hunks l Old \<and>
       drop (k + nc) new ! (map_line_from (int (j + k + nc) - int (i + k + oc)) hunks l Old - (j + k + nc) - 1) =
       drop (k + oc) old ! (l - (i + k + oc) - 1))" by (simp add: defs)
    then show ?thesis using after fits Cons.prems(3) by (auto simp: defs nth_drop)
  qed
qed

text \<open>Carrying lines over keeps their order.\<close>

lemma map_line_mono:
  assumes "aligned i j hunks old new" and "i < l" and "l \<le> m" and "m \<le> i + length old" and "j + length new \<le> usize_max"
  shows "map_line_from (int j - int i) hunks l Old \<le> map_line_from (int j - int i) hunks m Old"
  using assms
proof (induction hunks arbitrary: i j old new)
  case Nil
  then show ?case by (auto simp: saturating_add_signed_def)
next
  case (Cons h hunks)
  define k oc nc where defs: "k = unchanged_before i h" "oc = hk_old_count h" "nc = hk_new_count h"
  have fits: "k + oc \<le> length old" "k + nc \<le> length new"
    and rest: "aligned (i + k + oc) (j + k + nc) hunks (drop (k + oc) old) (drop (k + nc) new)"
    using Cons.prems(1) by (simp_all add: Let_def defs)
  have bounds: "m \<le> i + k + oc + length (drop (k + oc) old)" "j + k + nc + length (drop (k + nc) new) \<le> usize_max"
    using Cons.prems(4,5) fits by simp_all
  have at: "saturating_add_signed x (int j - int i) = x - i + j" if "i < x" "x \<le> i + k" for x
    using that Cons.prems(5) fits(2) by (intro saturating_exact) auto
  have later: "j + k + nc \<le> map_line_from (int (j + k + nc) - int (i + k + oc)) hunks m Old" if "i + k + oc < m"
    using map_line_lands [OF rest that bounds] by simp
  have "i < m" using Cons.prems(2,3) by simp
  from Cons.prems(1,2) show ?case
  proof (cases rule: map_line_cases)
    case before
    from Cons.prems(1) \<open>i < m\<close> show ?thesis
      by (cases rule: map_line_cases)
        (use before at [of l] at [of m] Cons.prems(2,3) \<open>i < m\<close> later in \<open>auto simp: defs\<close>)
  next
    case inside
    from Cons.prems(1) \<open>i < m\<close> show ?thesis
      by (cases rule: map_line_cases) (use inside Cons.prems(2,3) later in \<open>auto simp: defs intro: min.coboundedI1 diff_le_mono\<close>)
  next
    case after
    then have "i + k + oc < l" by (simp add: defs)
    from Cons.IH [OF rest this Cons.prems(3) bounds]
    have le: "map_line_from (int (j + k + nc) - int (i + k + oc)) hunks l Old \<le>
        map_line_from (int (j + k + nc) - int (i + k + oc)) hunks m Old" .
    from Cons.prems(1) \<open>i < m\<close> show ?thesis
      by (cases rule: map_line_cases) (use after le Cons.prems(3) in \<open>auto simp: defs\<close>)
  qed
qed

text \<open>A surviving line comes back from where it went.\<close>

lemma map_line_returns:
  assumes "aligned i j hunks old new" and "i < l" and "l \<le> i + length old" and "survives Old hunks l"
    and "j + length new \<le> usize_max" and "i + length old \<le> usize_max"
  shows "survives New hunks (map_line_from (int j - int i) hunks l Old) \<and>
    map_line_from (int i - int j) hunks (map_line_from (int j - int i) hunks l Old) New = l"
  using assms
proof (induction hunks arbitrary: i j old new)
  case Nil
  then have "saturating_add_signed l (int j - int i) = l - i + j" "saturating_add_signed (l - i + j) (int i - int j) = l"
    by (intro saturating_exact; auto)+
  then show ?case by (simp add: survives_def)
next
  case (Cons h hunks)
  define k oc nc where defs: "k = unchanged_before i h" "oc = hk_old_count h" "nc = hk_new_count h"
  have fits: "k + oc \<le> length old" "k + nc \<le> length new"
    and rest: "aligned (i + k + oc) (j + k + nc) hunks (drop (k + oc) old) (drop (k + nc) new)"
    and k: "unchanged_before j (flip h) = k"
    using Cons.prems(1) by (simp_all add: Let_def defs, auto simp: unchanged_before_def flip_def)
  have flipped: "aligned j i (flip h # map flip hunks) new old"
    using aligned_flip [OF Cons.prems(1)] by simp
  have counts: "hk_old_count (flip h) = nc" "hk_new_count (flip h) = oc" by (simp_all add: flip_def defs)
  from Cons.prems(1,2) show ?case
  proof (cases rule: map_line_cases)
    case before
    have at: "saturating_add_signed l (int j - int i) = l - i + j" "saturating_add_signed (l - i + j) (int i - int j) = l"
      using before(1) Cons.prems(2,3,5,6) fits by (intro saturating_exact; auto simp: defs)+
    then have there: "map_line_from (int j - int i) (h # hunks) l Old = l - i + j" using before(2) by simp
    have "j < l - i + j" using Cons.prems(2) by simp
    with flipped show ?thesis unfolding there survives_flip map_line_flip list.map
      by (cases rule: map_line_cases) (use before(1) Cons.prems(2) at k counts in \<open>auto simp: defs\<close>)
  next
    case inside
    then show ?thesis using Cons.prems(4) by simp
  next
    case after
    have bounds: "l \<le> i + k + oc + length (drop (k + oc) old)" "j + k + nc + length (drop (k + nc) new) \<le> usize_max"
      "i + k + oc + length (drop (k + oc) old) \<le> usize_max"
      using Cons.prems(3,5,6) fits by simp_all
    have late: "i + k + oc < l" "survives Old hunks l" using after Cons.prems(4) by (simp_all add: defs)
    define m where "m = map_line_from (int (j + k + nc) - int (i + k + oc)) hunks l Old"
    have m: "j + k + nc < m" using map_line_lands [OF rest late(1) bounds(1,2)] late(2) by (simp add: m_def)
    then have "j < m" by simp
    have home: "survives Old (map flip hunks) m"
      "map_line_from (int (i + k + oc) - int (j + k + nc)) (map flip hunks) m Old = l"
      using Cons.IH [OF rest late(1) bounds(1) late(2) bounds(2,3)] by (simp_all add: m_def survives_flip map_line_flip)
    from flipped \<open>j < m\<close> show ?thesis
      unfolding after(2) [folded defs, folded m_def] survives_flip map_line_flip list.map
      by (cases rule: map_line_cases) (use m home k counts in auto)
  qed
qed

section \<open>Intact ranges\<close>

lemma intact_Cons: "intact (h # hunks) span \<longleftrightarrow> leaves_alone span h \<and> intact hunks span"
  by (simp add: intact_def)

text \<open>An intact range moves as one block.\<close>

lemma intact_moves:
  assumes "aligned i j hunks old new" and "i < s" and "0 < c" and "s + c - 1 \<le> i + length old"
    and "j + length new \<le> usize_max" and "intact hunks (s, c)" and "x < c"
  shows "survives Old hunks (s + x) \<and>
    map_line_from (int j - int i) hunks (s + x) Old = map_line_from (int j - int i) hunks s Old + x"
  using assms
proof (induction hunks arbitrary: i j old new)
  case Nil
  then have "saturating_add_signed (s + x) (int j - int i) = s - i + j + x" "saturating_add_signed s (int j - int i) = s - i + j"
    by (intro saturating_exact; auto)+
  then show ?case by (simp add: survives_def)
next
  case (Cons h hunks)
  define k oc nc where defs: "k = unchanged_before i h" "oc = hk_old_count h" "nc = hk_new_count h"
  have fits: "k + oc \<le> length old" "k + nc \<le> length new"
    and start: "hk_old_start h = i + k + (if oc = 0 then 0 else 1)"
    and rest: "aligned (i + k + oc) (j + k + nc) hunks (drop (k + oc) old) (drop (k + nc) new)"
    using Cons.prems(1) by (simp_all add: Let_def defs)
  have alone: "leaves_alone (s, c) h" and intact: "intact hunks (s, c)"
    using Cons.prems(6) by (simp_all add: intact_Cons)
  have later: "i < s + x" using Cons.prems(2) by simp
  have block: "s + c - 1 \<le> i + k" if "s \<le> i + k"
    using alone that Cons.prems(2,3) start by (auto simp: leaves_alone_def defs Let_def split: if_splits)
  have at: "saturating_add_signed y (int j - int i) = y - i + j" if "i < y" "y \<le> i + k" for y
    using that Cons.prems(5) fits(2) by (intro saturating_exact) auto
  from Cons.prems(1,2) show ?case
  proof (cases rule: map_line_cases)
    case before
    from Cons.prems(1) later show ?thesis
      by (cases rule: map_line_cases)
        (use before block Cons.prems(2,3,7) at [of s] at [of "s + x"] in \<open>auto simp: defs\<close>)
  next
    case inside
    then show ?thesis using alone start Cons.prems(3) by (auto simp: leaves_alone_def defs Let_def split: if_splits)
  next
    case after
    have bounds: "s + c - 1 \<le> i + k + oc + length (drop (k + oc) old)" "j + k + nc + length (drop (k + nc) new) \<le> usize_max"
      using Cons.prems(4,5) fits by simp_all
    have "i + k + oc < s" using after by (simp add: defs)
    note IH = Cons.IH [OF rest this Cons.prems(3) bounds intact Cons.prems(7)]
    from Cons.prems(1) later show ?thesis
      by (cases rule: map_line_cases) (use after IH in \<open>auto simp: defs\<close>)
  qed
qed

text \<open>Lines that stay together have nothing changed between them.\<close>

lemma later_starts:
  "aligned i j hunks old new \<Longrightarrow> 0 < i + j \<Longrightarrow> h \<in> set hunks \<Longrightarrow> i < hk_old_start h"
proof (induction hunks arbitrary: i j old new)
  case (Cons x hunks)
  let ?k = "unchanged_before i x"
  have rest: "aligned (i + ?k + hk_old_count x) (j + ?k + hk_new_count x) hunks
      (drop (?k + hk_old_count x) old) (drop (?k + hk_new_count x) new)"
    and k: "0 < ?k" "hk_old_start x = i + ?k + (if hk_old_count x = 0 then 0 else 1)"
    using Cons.prems(1,2) by (auto simp: Let_def)
  show ?case
  proof (cases "h = x")
    case False
    then have "i + ?k + hk_old_count x < hk_old_start h" using Cons.prems k(1) by (intro Cons.IH [OF rest]) auto
    then show ?thesis by simp
  qed (use k in simp)
qed simp

lemma insertion_separates:
  assumes "aligned i j hunks old new" and "h \<in> set hunks" and "hk_old_count h = 0" and "hk_old_start h = t"
    and "i < t" and "t + 1 \<le> i + length old" and "j + length new \<le> usize_max" and "survives Old hunks (t + 1)"
  shows "map_line_from (int j - int i) hunks t Old + 1 < map_line_from (int j - int i) hunks (t + 1) Old"
  using assms
proof (induction hunks arbitrary: i j old new)
  case (Cons x hunks)
  define k oc nc where defs: "k = unchanged_before i x" "oc = hk_old_count x" "nc = hk_new_count x"
  have fits: "k + oc \<le> length old" "k + nc \<le> length new" "0 < oc + nc"
    and start: "hk_old_start x = i + k + (if oc = 0 then 0 else 1)"
    and rest: "aligned (i + k + oc) (j + k + nc) hunks (drop (k + oc) old) (drop (k + nc) new)"
    using Cons.prems(1) by (simp_all add: Let_def defs)
  have bounds: "t + 1 \<le> i + k + oc + length (drop (k + oc) old)" "j + k + nc + length (drop (k + nc) new) \<le> usize_max"
    using Cons.prems(6,7) fits by simp_all
  have alive: "survives Old hunks (t + 1)" using Cons.prems(8) by (simp add: survives_def)
  have late: "i < t + 1" using Cons.prems(5) by simp
  show ?case
  proof (cases "h = x")
    case True
    then have t: "t = i + k" "oc = 0" using Cons.prems(3,4) start by (simp_all add: defs)
    have at: "saturating_add_signed t (int j - int i) = j + k"
      using t Cons.prems(7) fits(2) by (intro saturating_exact) auto
    have lands: "j + k + nc < map_line_from (int (j + k + nc) - int (i + k + oc)) hunks (t + 1) Old"
      using map_line_lands [OF rest _ bounds] alive t by simp
    from Cons.prems(1,5) have "map_line_from (int j - int i) (x # hunks) t Old = j + k"
      by (cases rule: map_line_cases) (use t at in \<open>auto simp: defs\<close>)
    moreover from Cons.prems(1) late have "map_line_from (int j - int i) (x # hunks) (t + 1) Old =
        map_line_from (int (j + k + nc) - int (i + k + oc)) hunks (t + 1) Old"
      by (cases rule: map_line_cases) (use t in \<open>auto simp: defs\<close>)
    ultimately show ?thesis using lands fits(3) t(2) by simp
  next
    case False
    then have h: "h \<in> set hunks" using Cons.prems(2) by simp
    have "0 < i + k + oc + (j + k + nc)" using fits(3) by linarith
    from later_starts [OF rest this h] have after: "i + k + oc < t" using Cons.prems(4) by simp
    note IH = Cons.IH [OF rest h Cons.prems(3,4) after bounds alive]
    from Cons.prems(1,5) have "map_line_from (int j - int i) (x # hunks) t Old =
        map_line_from (int (j + k + nc) - int (i + k + oc)) hunks t Old"
      by (cases rule: map_line_cases) (use after in \<open>auto simp: defs\<close>)
    moreover from Cons.prems(1) late have "map_line_from (int j - int i) (x # hunks) (t + 1) Old =
        map_line_from (int (j + k + nc) - int (i + k + oc)) hunks (t + 1) Old"
      by (cases rule: map_line_cases) (use after in \<open>auto simp: defs\<close>)
    ultimately show ?thesis using IH by simp
  qed
qed simp

definition stays_together :: "hunk list \<Rightarrow> nat \<Rightarrow> nat \<Rightarrow> bool" where
  "stays_together hunks s c \<longleftrightarrow>
     (\<forall>x < c. survives Old hunks (s + x) \<and> map_line hunks (s + x) Old = map_line hunks s Old + x)"

lemma intact_iff:
  assumes "diff_of hunks old new" and "1 \<le> s" and "0 < c" and "s + c - 1 \<le> length old" and "length new \<le> usize_max"
  shows "intact hunks (s, c) \<longleftrightarrow> stays_together hunks s c"
proof
  assume "intact hunks (s, c)"
  from intact_moves [where i = 0 and j = 0 and hunks = hunks, OF assms(1) [unfolded diff_of_def] _ assms(3) _ _ this]
  show "stays_together hunks s c" using assms(2,4,5) by (simp add: stays_together_def map_line_def)
next
  assume together: "stays_together hunks s c"
  have "leaves_alone (s, c) h" if h: "h \<in> set hunks" for h
  proof (rule ccontr)
    assume touched: "\<not> leaves_alone (s, c) h"
    show False
    proof (cases "hk_old_count h = 0")
      case True
      then obtain x where x: "hk_old_start h = s + x" "x + 1 < c"
        using touched assms(3) by (auto simp: leaves_alone_def Let_def dest!: le_Suc_ex)
      have "survives Old hunks (s + x + 1)" using together x(2) by (auto simp: stays_together_def dest: spec [where x = "x + 1"])
      from insertion_separates [OF assms(1) [unfolded diff_of_def] h True x(1) _ _ _ this]
      have "map_line hunks (s + x) Old + 1 < map_line hunks (s + (x + 1)) Old"
        using assms(2,4,5) x(2) by (simp add: map_line_def)
      moreover have "map_line hunks (s + x) Old = map_line hunks s Old + x"
        "map_line hunks (s + (x + 1)) Old = map_line hunks s Old + (x + 1)"
        using together x(2) unfolding stays_together_def by (meson add_lessD1)+
      ultimately show False by simp
    next
      case False
      define y where "y = max s (hk_old_start h) - s"
      have "y < c" "touches Old (s + y) h"
        using touched False assms(3)
        by (auto simp: leaves_alone_def y_def touches_def sides_def Let_def max_def split: if_splits)
      then show False using together h by (auto simp: stays_together_def survives_def)
    qed
  qed
  then show "intact hunks (s, c)" by (simp add: intact_def list_all_iff)
qed

text \<open>Lines that stay together are found in the other text as they were.\<close>

lemma stays_together_text:
  assumes "diff_of hunks old new" and "1 \<le> s" and "0 < c" and "s + c - 1 \<le> length old" and "length new \<le> usize_max"
    and "stays_together hunks s c"
  shows "1 \<le> map_line hunks s Old \<and> map_line hunks s Old + c - 1 \<le> length new \<and>
    take c (drop (map_line hunks s Old - 1) new) = take c (drop (s - 1) old)"
proof -
  have each: "0 < map_line hunks s Old + x \<and> map_line hunks s Old + x \<le> length new \<and>
      new ! (map_line hunks s Old + x - 1) = old ! (s + x - 1)" if "x < c" for x
  proof -
    have "survives Old hunks (s + x)" "map_line hunks (s + x) Old = map_line hunks s Old + x"
      using assms(6) that by (simp_all add: stays_together_def)
    then show ?thesis
      using map_line_lands [OF assms(1) [unfolded diff_of_def], of "s + x"] assms(2,4,5) that by (simp add: map_line_def)
  qed
  have first: "1 \<le> map_line hunks s Old" using each [of 0] assms(3) by simp
  have last: "map_line hunks s Old + c - 1 \<le> length new" using each [of "c - 1"] assms(3) by simp
  have "take c (drop (map_line hunks s Old - 1) new) = take c (drop (s - 1) old)"
    using each first last assms(2,4) by (intro nth_equalityI) (auto simp: nth_drop)
  then show ?thesis using first last by simp
qed

section \<open>Hunks in their own texts\<close>

text \<open>The lines of a hunk stand in the two texts of its diff where its numbers say.\<close>

lemma hunk_in_old:
  assumes "aligned i j hunks old new" and "h \<in> set hunks" and "0 < hk_old_count h"
  shows "i < hk_old_start h \<and> hk_old_start h + hk_old_count h - 1 \<le> i + length old \<and>
    take (hk_old_count h) (drop (hk_old_start h - i - 1) old) = hk_old h"
  using assms
proof (induction hunks arbitrary: i j old new)
  case (Cons x hunks)
  define k oc nc where defs: "k = unchanged_before i x" "oc = hk_old_count x" "nc = hk_new_count x"
  have fits: "k + oc \<le> length old" "hk_old x = take oc (drop k old)"
    and start: "hk_old_start x = i + k + (if oc = 0 then 0 else 1)"
    and rest: "aligned (i + k + oc) (j + k + nc) hunks (drop (k + oc) old) (drop (k + nc) new)"
    using Cons.prems(1) by (simp_all add: Let_def defs)
  show ?case
  proof (cases "h = x")
    case True
    then show ?thesis using fits start Cons.prems(3) by (auto simp: defs)
  next
    case False
    then have "h \<in> set hunks" using Cons.prems(2) by simp
    from Cons.IH [OF rest this Cons.prems(3)] show ?thesis using fits(1) by (auto simp: drop_drop add.commute)
  qed
qed simp

lemma hunk_in_new:
  assumes "diff_of hunks old new" and "h \<in> set hunks" and "0 < hk_new_count h"
  shows "1 \<le> hk_new_start h \<and> hk_new_start h + hk_new_count h - 1 \<le> length new \<and>
    take (hk_new_count h) (drop (hk_new_start h - 1) new) = hk_new h"
proof -
  have "aligned 0 0 (map flip hunks) new old" using diff_of_flip [OF assms(1)] by (simp add: diff_of_def)
  from hunk_in_old [OF this, of "flip h"] assms(2,3) show ?thesis by (auto simp: flip_def)
qed

section \<open>Properties\<close>

text \<open>
  C26. Unchanged lines carry over and come back. Let the hunks be a diff from one text to another. A line
  that no hunk replaces is carried to a line of the other text with the same content, that line is
  unchanged too, and carrying it the other way leads back to the line one started from.
\<close>

theorem unchanged_lines_carry_over:
  assumes "diff_of hunks old new" and "1 \<le> l" and "l \<le> length old" and "survives Old hunks l"
    and "length old \<le> usize_max" and "length new \<le> usize_max"
  shows "1 \<le> map_line hunks l Old \<and> map_line hunks l Old \<le> length new \<and>
    new ! (map_line hunks l Old - 1) = old ! (l - 1) \<and>
    survives New hunks (map_line hunks l Old) \<and> map_line hunks (map_line hunks l Old) New = l"
  using map_line_lands [OF assms(1) [unfolded diff_of_def], of l] map_line_returns [OF assms(1) [unfolded diff_of_def], of l]
    assms(2-6) by (simp add: map_line_def)

definition sample_old :: "string list" where
  "sample_old = [''a'', ''b'', ''c'', ''d'']"

definition sample_new :: "string list" where
  "sample_new = [''a'', ''x'', ''y'', ''d'', ''e'']"

definition sample_hunks :: "hunk list" where
  "sample_hunks =
     [\<lparr>hk_old_start = 2, hk_old_count = 2, hk_new_start = 2, hk_new_count = 2, hk_old = [''b'', ''c''],
       hk_new = [''x'', ''y'']\<rparr>,
      \<lparr>hk_old_start = 4, hk_old_count = 0, hk_new_start = 5, hk_new_count = 1, hk_old = [], hk_new = [''e'']\<rparr>]"

lemma sample_diff: "diff_of sample_hunks sample_old sample_new" by code_simp

lemma sample_sizes: "length sample_old \<le> usize_max" "length sample_new \<le> usize_max"
  by (simp_all add: sample_old_def sample_new_def usize_max_def)

lemmas locate_simps = place_note_def place_hunk_def placed_at_def map_line_def map_gap_def sample_hunks_def
  sides_def intact_def leaves_alone_def saturating_add_signed_def usize_max_def Let_def

theorem unchanged_lines_carry_over_witness:
  "sample_new ! (map_line sample_hunks 4 Old - 1) = sample_old ! 3 \<and>
   map_line sample_hunks (map_line sample_hunks 4 Old) New = 4"
proof -
  have "survives Old sample_hunks 4" "(4::nat) \<le> length sample_old" by code_simp+
  from unchanged_lines_carry_over [OF sample_diff _ this(2,1) sample_sizes] show ?thesis by simp
qed

text \<open>
  C24. A placed note stays inside the file. Wherever the diff from a note's version leads, the note is
  placed on at least one line, its first line is at least 1, and its last line is a line of the target
  (line 1 of an empty target); the order of its first and last line is kept.
\<close>

theorem placed_note_is_in_bounds:
  assumes "diff_of hunks old new" and "1 \<le> ns_first s" and "ns_first s \<le> ns_last s" and "ns_last s \<le> length old"
    and "length new \<le> usize_max"
  shows "\<exists>line. lo_line (place_note hunks s) = Some line \<and> 1 \<le> line \<and> 1 \<le> lo_count (place_note hunks s) \<and>
    line + lo_count (place_note hunks s) - 1 \<le> max 1 (length new) \<and>
    map_line hunks (ns_first s) Old \<le> map_line hunks (ns_last s) Old"
  using map_line_lands [OF assms(1) [unfolded diff_of_def], of "ns_first s"]
    map_line_lands [OF assms(1) [unfolded diff_of_def], of "ns_last s"]
    map_line_mono [OF assms(1) [unfolded diff_of_def], of "ns_first s" "ns_last s"] assms(2-5)
  by (auto simp: place_note_def Let_def map_line_def)

definition sample_source :: note_source where
  "sample_source = \<lparr>ns_revision = replicate 40 (CHR ''a''), ns_path = ''f'', ns_first = 3, ns_last = 4\<rparr>"

theorem placed_note_is_in_bounds_witness:
  "\<exists>line. lo_line (place_note sample_hunks sample_source) = Some line \<and>
     line + lo_count (place_note sample_hunks sample_source) - 1 \<le> 5"
proof -
  have "(1::nat) \<le> ns_first sample_source" "ns_first sample_source \<le> ns_last sample_source"
    "ns_last sample_source \<le> length sample_old" "max 1 (length sample_new) = 5" by code_simp+
  then show ?thesis using placed_note_is_in_bounds [OF sample_diff _ _ _ sample_sizes(2), of sample_source] by auto
qed

text \<open>
  C8. A note is current exactly when its lines are still there. The status of a placed note is
  \<open>Current\<close> if and only if every line it is about survives and the lines still follow each other;
  then the target has, at the place the note is given, exactly the lines the note was made for.
\<close>

theorem current_note_is_exact:
  assumes "diff_of hunks old new" and "1 \<le> ns_first s" and "ns_first s \<le> ns_last s" and "ns_last s \<le> length old"
    and "length new \<le> usize_max"
  shows "(lo_status (place_note hunks s) = Current \<longleftrightarrow> stays_together hunks (ns_first s) (ns_last s - ns_first s + 1)) \<and>
    (lo_status (place_note hunks s) = Current \<longrightarrow>
       lo_count (place_note hunks s) = ns_last s - ns_first s + 1 \<and>
       (\<exists>line. lo_line (place_note hunks s) = Some line \<and>
          take (lo_count (place_note hunks s)) (drop (line - 1) new) =
          take (ns_last s - ns_first s + 1) (drop (ns_first s - 1) old)))"
proof -
  let ?c = "ns_last s - ns_first s + 1"
  have span: "0 < ?c" "ns_first s + ?c - 1 \<le> length old" using assms(3,4) by simp_all
  note iff = intact_iff [OF assms(1,2) span assms(5)]
  have kept: "1 \<le> map_line hunks (ns_first s) Old"
    "take ?c (drop (map_line hunks (ns_first s) Old - 1) new) = take ?c (drop (ns_first s - 1) old)"
    "map_line hunks (ns_last s) Old = map_line hunks (ns_first s) Old + (?c - 1)"
    if "stays_together hunks (ns_first s) ?c"
  proof -
    show "1 \<le> map_line hunks (ns_first s) Old"
      "take ?c (drop (map_line hunks (ns_first s) Old - 1) new) = take ?c (drop (ns_first s - 1) old)"
      using stays_together_text [OF assms(1,2) span assms(5) that] by blast+
    have "map_line hunks (ns_first s + (?c - 1)) Old = map_line hunks (ns_first s) Old + (?c - 1)"
      using that unfolding stays_together_def by simp
    then show "map_line hunks (ns_last s) Old = map_line hunks (ns_first s) Old + (?c - 1)" using assms(3) by simp
  qed
  have status: "lo_status (place_note hunks s) = Current \<longleftrightarrow> stays_together hunks (ns_first s) ?c"
    using iff by (simp add: place_note_def Let_def)
  show ?thesis
  proof (cases "stays_together hunks (ns_first s) ?c")
    case True
    then show ?thesis using kept status by (auto simp: place_note_def Let_def max_def)
  qed (use status in simp)
qed

theorem current_note_is_exact_witness:
  "lo_status (place_note sample_hunks (sample_source\<lparr>ns_first := 4\<rparr>)) = Current \<and>
   lo_count (place_note sample_hunks (sample_source\<lparr>ns_first := 4\<rparr>)) = 1"
proof -
  let ?s = "sample_source\<lparr>ns_first := 4\<rparr>"
  have "(1::nat) \<le> ns_first ?s" "ns_first ?s \<le> ns_last ?s" "ns_last ?s \<le> length sample_old"
    and current: "lo_status (place_note sample_hunks ?s) = Current" and count: "ns_last ?s - ns_first ?s + 1 = 1"
    by (simp_all add: locate_simps sample_source_def sample_old_def)
  then show ?thesis using current_note_is_exact [OF sample_diff _ _ _ sample_sizes(2), of ?s] by simp
qed

text \<open>
  C21. The status of a suggestion tells what the target has. Given the suggestion's own diff and the diffs
  from its parent and from itself to a target, a hunk that is called pending stands in the target with its
  original lines at the given place, and one that is called applied with its suggested lines.
\<close>

theorem hunk_status_is_true:
  assumes "diff_of own parent_text commit_text" and "h \<in> set own"
    and "diff_of to_parent parent_text target" and "diff_of to_commit commit_text target"
    and "length target \<le> usize_max"
    and "lo_line (place_hunk to_parent to_commit path h) = Some line"
  shows "(lo_status (place_hunk to_parent to_commit path h) = Pending \<and> 0 < hk_old_count h \<longrightarrow>
      take (lo_count (place_hunk to_parent to_commit path h)) (drop (line - 1) target) = hk_old h) \<and>
    (lo_status (place_hunk to_parent to_commit path h) = Applied \<and> 0 < hk_new_count h \<longrightarrow>
      take (lo_count (place_hunk to_parent to_commit path h)) (drop (line - 1) target) = hk_new h)"
proof -
  have pending: "take (hk_old_count h) (drop (map_line to_parent (hk_old_start h) Old - 1) target) = hk_old h"
    if "intact to_parent (hk_old_start h, hk_old_count h)" "0 < hk_old_count h"
  proof -
    note own = hunk_in_old [OF assms(1) [unfolded diff_of_def] assms(2) that(2)]
    have bounds: "1 \<le> hk_old_start h" "hk_old_start h + hk_old_count h - 1 \<le> length parent_text" using own by simp_all
    show ?thesis
      using stays_together_text [OF assms(3) bounds(1) that(2) bounds(2) assms(5)]
        intact_iff [OF assms(3) bounds(1) that(2) bounds(2) assms(5)] that(1) own by simp
  qed
  have applied: "take (hk_new_count h) (drop (map_line to_commit (hk_new_start h) Old - 1) target) = hk_new h"
    if "intact to_commit (hk_new_start h, hk_new_count h)" "0 < hk_new_count h"
  proof -
    note own = hunk_in_new [OF assms(1,2) that(2)]
    then show ?thesis
      using stays_together_text [OF assms(4) _ that(2) _ assms(5), of "hk_new_start h"]
        intact_iff [OF assms(4) _ that(2) _ assms(5), of "hk_new_start h"] that(1) by simp
  qed
  show ?thesis using pending applied assms(6) by (auto simp: place_hunk_def Let_def placed_at_def split: if_splits)
qed

theorem hunk_status_is_true_witness:
  "take 2 (drop 1 sample_new) = hk_new (hd sample_hunks)"
proof -
  let ?p = "place_hunk sample_hunks [] ''f'' (hd sample_hunks)"
  have line: "lo_line ?p = Some 2" and status: "lo_status ?p = Applied" and count: "lo_count ?p = 2"
    and h: "hd sample_hunks \<in> set sample_hunks" "0 < hk_new_count (hd sample_hunks)"
    by (simp_all add: locate_simps)
  have same: "diff_of [] sample_new sample_new" by (simp add: diff_of_def)
  from hunk_status_is_true [OF sample_diff h(1) sample_diff same sample_sizes(2) line] show ?thesis
    using status count h(2) by simp
qed

end
