(* ===== verification/Nota_Review_Spec.thy ===== *)
theory Nota_Review_Spec
  imports Nota_Locate_Spec
begin

text \<open>
  What the trailer store promises: a note reads back as it was written, with its source; an appended note
  is the new last entry and nothing else of the repository moves; a started review reads as an empty one;
  and the source that is recorded for a note is one that adding the note accepts.
\<close>

section \<open>Trimming\<close>

definition plain :: "char \<Rightarrow> bool" where
  "plain c \<longleftrightarrow> 33 \<le> byte c \<and> byte c \<le> 126"

lemma drop_white_None: "drop_white ws s = None \<longleftrightarrow> (\<forall>w \<in> set ws. \<not> prefix w s)"
  by (auto simp: drop_white_def find_None_iff find_Some_iff split: option.splits)

lemma strip_white_stop: "drop_white ws s = None \<Longrightarrow> strip_white ws s = s"
  by (simp add: strip_white.simps [of ws s])

lemma strip_white_length: "length (strip_white ws s) \<le> length s"
proof (induction ws s rule: strip_white.induct)
  case (1 ws s)
  show ?case
  proof (cases "s = [] \<or> drop_white ws s = None")
    case False
    then obtain t where t: "drop_white ws s = Some t" "s \<noteq> []" by auto
    then have "length t \<le> length s" by (auto simp: drop_white_def split: option.splits)
    then show ?thesis using 1 [OF _ t(1)] t by (simp add: strip_white.simps [of ws s])
  qed (auto simp: strip_white.simps [of ws s])
qed

lemma strip_white_done: "strip_white ws s \<noteq> [] \<Longrightarrow> drop_white ws (strip_white ws s) = None"
proof (induction ws s rule: strip_white.induct)
  case (1 ws s)
  then show ?case by (cases "drop_white ws s") (auto simp: strip_white.simps [of ws s] split: if_splits)
qed

lemma strip_white_suffix: "suffix (strip_white ws s) s"
proof (induction ws s rule: strip_white.induct)
  case (1 ws s)
  show ?case
  proof (cases "s = [] \<or> drop_white ws s = None")
    case False
    then obtain t where t: "drop_white ws s = Some t" "s \<noteq> []" by auto
    then have "suffix t s" by (auto simp: drop_white_def suffix_drop split: option.splits)
    then show ?thesis using 1 [OF t(2,1)] t by (auto simp: strip_white.simps [of ws s])
  qed (auto simp: strip_white.simps [of ws s])
qed

lemma strip_white_fixed:
  assumes "strip_white ws s = s" and "s \<noteq> []"
  shows "drop_white ws s = None"
proof (rule ccontr)
  assume "drop_white ws s \<noteq> None"
  then obtain t where t: "drop_white ws s = Some t" by auto
  then have "length t < length s" using assms(2) by (auto simp: drop_white_def split: option.splits)
  moreover have "strip_white ws s = strip_white ws t" using t assms(2) by (simp add: strip_white.simps [of ws s])
  ultimately show False using strip_white_length [of ws t] assms(1) by simp
qed

lemma trim_fixed:
  assumes "trim s = s"
  shows "trim_start s = s" and "trim_end s = s"
proof -
  have "length (trim_end (trim_start s)) \<le> length (trim_start s)" "length (trim_start s) \<le> length s"
    using strip_white_length [of "map rev white_space" "rev (trim_start s)"] strip_white_length [of white_space s]
    by (simp_all add: trim_end_def trim_start_def)
  then have same: "length (trim_start s) = length s" using assms by (simp add: trim_def)
  show start: "trim_start s = s"
  proof (cases "s = [] \<or> drop_white white_space s = None")
    case False
    then obtain t where t: "drop_white white_space s = Some t" "s \<noteq> []" by auto
    then have "length t < length s" by (auto simp: drop_white_def split: option.splits)
    moreover have "trim_start s = strip_white white_space t"
      using t by (simp add: trim_start_def strip_white.simps [of white_space s])
    ultimately show ?thesis using strip_white_length [of white_space t] same by simp
  qed (auto simp: trim_start_def strip_white.simps)
  show "trim_end s = s" using assms start by (simp add: trim_def)
qed

lemma trim_end_prefix: "prefix (trim_end s) s"
  using strip_white_suffix [of "map rev white_space" "rev s"] by (simp add: trim_end_def suffix_to_prefix)

lemma set_trim: "set (trim s) \<subseteq> set s"
  using set_mono_prefix [OF trim_end_prefix, of "trim_start s"] set_mono_suffix [OF strip_white_suffix, of white_space s]
  by (auto simp: trim_def trim_start_def)

lemma strip_white_twice: "strip_white ws (strip_white ws s) = strip_white ws s"
  using strip_white_done strip_white_stop by (cases "strip_white ws s = []") (auto simp: strip_white.simps [of ws "[]"])

lemma trim_trim: "trim (trim s) = trim s"
proof (cases "trim s = []")
  case False
  let ?p = "trim_start s"
  have end_: "trim_end (trim_end ?p) = trim_end ?p" by (simp add: trim_end_def strip_white_twice)
  have "?p \<noteq> []" using False by (auto simp: trim_def trim_end_def strip_white.simps)
  then have "drop_white white_space ?p = None" unfolding trim_start_def by (rule strip_white_done)
  then have "drop_white white_space (trim_end ?p) = None"
    using trim_end_prefix [of ?p] prefix_order.trans by (auto simp: drop_white_None)
  then have "trim_start (trim_end ?p) = trim_end ?p"
    unfolding trim_start_def [of "trim_end ?p"] by (rule strip_white_stop)
  then show ?thesis using end_ by (simp add: trim_def)
qed (simp add: trim_def trim_start_def trim_end_def strip_white.simps)

lemma white_first: "w \<in> set white_space \<Longrightarrow> plain c \<Longrightarrow> \<not> prefix w (c # s)"
  by (auto simp: white_space_def plain_def)

lemma white_last: "w \<in> set white_space \<Longrightarrow> plain c \<Longrightarrow> \<not> prefix (rev w) (c # s)"
  by (auto simp: white_space_def plain_def)

text \<open>A text that starts, or ends, with a visible ASCII character is not trimmed there.\<close>

lemma trim_start_plain: "plain c \<Longrightarrow> trim_start (c # s) = c # s"
  unfolding trim_start_def by (rule strip_white_stop) (simp add: drop_white_None white_first)

lemma trim_end_plain: "plain c \<Longrightarrow> trim_end (s @ [c]) = s @ [c]"
proof -
  assume "plain c"
  then have "drop_white (map rev white_space) (c # rev s) = None" by (simp add: drop_white_None white_last)
  then show ?thesis by (simp add: trim_end_def strip_white_stop)
qed

lemma drop_white_newline: "drop_white (map rev white_space) (CHR 0x0A # s) = Some s"
  by (simp add: drop_white_def white_space_def)

lemma trim_end_newline: "trim_end (s @ [CHR 0x0A]) = trim_end s"
  by (simp add: trim_end_def strip_white.simps [of _ "CHR 0x0A # rev s"] drop_white_newline)

lemma drop_white_blank: "drop_white white_space (CHR '' '' # s) = Some s"
  by (simp add: drop_white_def white_space_def)

lemma trim_start_blank: "trim_start (CHR '' '' # s) = trim_start s"
  by (simp add: trim_start_def strip_white.simps [of _ "CHR '' '' # s"] drop_white_blank)

text \<open>A trimmed beginning stays trimmed when a line follows it.\<close>

lemma white_newline: "w \<in> set white_space \<Longrightarrow> CHR 0x0A \<notin> set (tl w)"
  by (auto simp: white_space_def)

lemma trim_start_before_newline:
  assumes "trim_start p = p" and "p \<noteq> []"
  shows "trim_start (p @ CHR 0x0A # r) = p @ CHR 0x0A # r"
proof -
  have none: "\<not> prefix w p" if "w \<in> set white_space" for w
    using strip_white_fixed [OF assms(1) [unfolded trim_start_def] assms(2)] that by (simp add: drop_white_None)
  have "\<not> prefix w (p @ CHR 0x0A # r)" if w: "w \<in> set white_space" for w
  proof
    assume "prefix w (p @ CHR 0x0A # r)"
    then consider "prefix w p" | us where "w = p @ us" "us \<noteq> []" "prefix us (CHR 0x0A # r)"
      by (metis append_Nil2 prefix_append prefix_order.refl)
    then show False
    proof cases
      case 2
      then obtain b where "w = p @ CHR 0x0A # b" by (cases us) auto
      then show False using white_newline [OF w] assms(2) by (cases p) auto
    qed (use none w in blast)
  qed
  then show ?thesis unfolding trim_start_def by (intro strip_white_stop) (simp add: drop_white_None)
qed

section \<open>Sources round trip\<close>

lemma hex_plain: "in_range 48 57 c \<or> in_range 97 102 c \<Longrightarrow> plain c \<and> c \<noteq> CHR '':'' \<and> c \<noteq> CHR 0x0A"
  by (auto simp: plain_def in_range_def)

lemma commit_id_chars: "is_commit_id r \<Longrightarrow> c \<in> set r \<Longrightarrow> plain c \<and> c \<noteq> CHR '':'' \<and> c \<noteq> CHR 0x0A"
  using hex_plain by (auto simp: is_commit_id_def list_all_iff)

lemma digit_chars: "c \<in> set (show_nat n) \<Longrightarrow> plain c \<and> c \<noteq> CHR '':'' \<and> c \<noteq> CHR ''-'' \<and> c \<noteq> CHR 0x0A"
  using show_nat_set [of c n] by (auto simp: is_digit_def in_range_def plain_def)

definition valid_source :: "note_source \<Rightarrow> bool" where
  "valid_source s \<longleftrightarrow>
     is_commit_id (ns_revision s) \<and> ns_path s \<noteq> [] \<and> 1 \<le> ns_first s \<and> ns_first s \<le> ns_last s \<and> ns_last s \<le> usize_max"

lemma parse_format_source:
  assumes "valid_source s"
  shows "parse_source (format_source s) = Inr s"
proof -
  let ?range = "show_nat (ns_first s) @ CHR ''-'' # show_nat (ns_last s)"
  have id: "is_commit_id (ns_revision s)" and sizes: "ns_first s < 2 ^ 64" "ns_last s < 2 ^ 64"
    using assms by (auto simp: valid_source_def usize_max_def)
  have "split_once (CHR '':'') (format_source s) = Some (ns_revision s, ns_path s @ CHR '':'' # ?range)"
    using commit_id_chars [OF id] by (auto simp: split_once_Some format_source_def)
  moreover have "rsplit_once (CHR '':'') (ns_path s @ CHR '':'' # ?range) = Some (ns_path s, ?range)"
    using digit_chars by (auto simp: rsplit_once_Some)
  moreover have "split_once (CHR ''-'') ?range = Some (show_nat (ns_first s), show_nat (ns_last s))"
    using digit_chars by (auto simp: split_once_Some)
  ultimately show ?thesis
    using assms parse_show_nat [OF sizes(1)] parse_show_nat [OF sizes(2)]
    by (simp add: parse_source_def parse_usize_def valid_source_def)
qed

section \<open>Messages\<close>

lemma split_at_blank_line:
  assumes "paragraph \<noteq> []" and "hd paragraph \<noteq> CHR 0x0A" and "count_list paragraph (CHR 0x0A) \<le> 1"
  shows "rsplit_once_str [CHR 0x0A, CHR 0x0A] (prose @ [CHR 0x0A, CHR 0x0A] @ paragraph) = Some (prose, paragraph)"
proof -
  let ?n = "CHR 0x0A"
  have "\<not> prefix [?n, ?n] (l @ [?n, ?n] @ rev prose)" if l: "l \<noteq> []" "rev paragraph = l' @ l" for l l'
  proof
    assume twice: "prefix [?n, ?n] (l @ [?n, ?n] @ rev prose)"
    have "paragraph = rev l @ rev l'" using l(2) by (metis rev_append rev_rev_ident)
    then have "last l \<noteq> ?n" using assms(2) l(1) by (cases l rule: rev_cases) auto
    moreover obtain b where "l = ?n # b" using twice l(1) by (cases l) auto
    ultimately obtain c where "l = ?n # ?n # c" using twice by (cases b) (auto split: if_splits)
    then have "2 \<le> count_list (rev paragraph) ?n" using l(2) by simp
    then show False using assms(3) by simp
  qed
  then have "split_once_str [?n, ?n] (rev paragraph @ [?n, ?n] @ rev prose) = Some (rev paragraph, rev prose)"
    by (rule split_once_str_append)
  then show ?thesis by (simp add: rsplit_once_str_def)
qed

definition note_paragraph :: "note_source option \<Rightarrow> string" where
  "note_paragraph source =
     ''Nota-Note: true'' @
     (case source of None \<Rightarrow> [] | Some s \<Rightarrow> CHR 0x0A # ''Nota-Source: '' @ format_source s)"

text \<open>A source whose trailer stays on one line.\<close>

definition writable_source :: "note_source \<Rightarrow> bool" where
  "writable_source s \<longleftrightarrow> valid_source s \<and> CHR 0x0A \<notin> set (ns_path s)"

lemma format_source_ends:
  assumes "valid_source s"
  obtains c cs d ds where "format_source s = c # cs" "plain c" "format_source s = ds @ [d]" "plain d"
proof -
  obtain c cs where c: "ns_revision s = c # cs" using assms by (cases "ns_revision s") (auto simp: valid_source_def is_commit_id_def)
  have "is_commit_id (ns_revision s)" using assms by (simp add: valid_source_def)
  then have "plain c" using commit_id_chars c by auto
  moreover obtain ds d where d: "show_nat (ns_last s) = ds @ [d]" using show_nat_digits [of "ns_last s"] by (metis rev_exhaust)
  moreover have "plain d" using digit_chars [of d "ns_last s"] d by simp
  moreover have "format_source s = c # cs @ CHR '':'' # ns_path s @ CHR '':'' # show_nat (ns_first s) @ CHR ''-'' # ds @ [d]"
    by (simp add: format_source_def c d)
  moreover from this have "format_source s = (c # cs @ CHR '':'' # ns_path s @ CHR '':'' # show_nat (ns_first s) @ CHR ''-'' # ds) @ [d]"
    by simp
  ultimately show thesis by (metis that)
qed

lemma format_source_line: "writable_source s \<Longrightarrow> CHR 0x0A \<notin> set (format_source s)"
  using commit_id_chars digit_chars by (fastforce simp: writable_source_def valid_source_def format_source_def)

lemma note_paragraph_end:
  assumes "\<forall>s. source = Some s \<longrightarrow> valid_source s"
  obtains ds d where "note_paragraph source = ds @ [d]" "plain d"
proof (cases source)
  case None
  have "note_paragraph source = ''Nota-Note: tru'' @ [CHR ''e'']" "plain (CHR ''e'')"
    by (simp_all add: None note_paragraph_def plain_def)
  then show thesis by (rule that)
next
  case (Some s)
  then have "valid_source s" using assms by simp
  then obtain ds d where "format_source s = ds @ [d]" "plain d" by (metis format_source_ends)
  then show thesis by (intro that [of "''Nota-Note: true'' @ CHR 0x0A # ''Nota-Source: '' @ ds" d])
      (simp_all add: note_paragraph_def Some)
qed

lemma note_message_trimmed:
  assumes "trim prose = prose" and "prose \<noteq> []" and "\<forall>s. source = Some s \<longrightarrow> valid_source s"
  shows "trim (note_message prose source) = prose @ [CHR 0x0A, CHR 0x0A] @ note_paragraph source"
    and "trim_end (prose @ [CHR 0x0A, CHR 0x0A] @ note_paragraph source) = prose @ [CHR 0x0A, CHR 0x0A] @ note_paragraph source"
proof -
  let ?m = "prose @ [CHR 0x0A, CHR 0x0A] @ note_paragraph source"
  obtain ds d where d: "note_paragraph source = ds @ [d]" "plain d" by (rule note_paragraph_end [OF assms(3)])
  show kept: "trim_end ?m = ?m" using trim_end_plain [OF d(2), of "prose @ [CHR 0x0A, CHR 0x0A] @ ds"] d(1) by simp
  have "note_message prose source = ?m @ [CHR 0x0A]"
    by (simp add: note_message_def note_paragraph_def NOTE_TRAILER_def SOURCE_TRAILER_def split: option.splits)
  moreover have "trim_start (?m @ [CHR 0x0A]) = ?m @ [CHR 0x0A]"
    using trim_start_before_newline [OF trim_fixed(1) [OF assms(1)] assms(2)] by simp
  ultimately show "trim (note_message prose source) = ?m" using kept trim_end_newline [of ?m] by (simp add: trim_def)
qed

lemma note_trailers:
  assumes "\<forall>s. source = Some s \<longrightarrow> writable_source s"
  shows "those (map trailer_line (lines (note_paragraph source))) =
    Some ((''Nota-Note'', ''true'') # (case source of None \<Rightarrow> [] | Some s \<Rightarrow> [(''Nota-Source'', format_source s)]))"
proof -
  have marked: "trailer_line ''Nota-Note: true'' = Some (''Nota-Note'', ''true'')" by code_simp
  show ?thesis
  proof (cases source)
    case None
    have "lines ''Nota-Note: true'' = [''Nota-Note: true'']" by code_simp
    then show ?thesis using marked by (simp add: None note_paragraph_def)
  next
    case (Some s)
    then have s: "writable_source s" using assms by simp
    let ?b = "''Nota-Source: '' @ format_source s"
    obtain c cs d ds where ends: "format_source s = c # cs" "plain c" "format_source s = ds @ [d]" "plain d"
      using s format_source_ends by (metis writable_source_def)
    have "trim_start (CHR '' '' # format_source s) = format_source s"
      using ends(1,2) by (simp add: trim_start_blank trim_start_plain)
    then have trimmed: "trim (CHR '' '' # format_source s) = format_source s"
      using ends(3,4) by (simp add: trim_def trim_end_plain)
    have "split_once (CHR '':'') ?b = Some (''Nota-Source'', CHR '' '' # format_source s)" by (simp add: split_once_Some)
    moreover have "list_all is_ascii_alphanumeric_or_dash ''Nota-Source''" by code_simp
    ultimately have source: "trailer_line ?b = Some (''Nota-Source'', format_source s)"
      using trimmed by (simp add: trailer_line_def)
    have "split_on (CHR 0x0A) (''Nota-Note: true'' @ CHR 0x0A # ?b) = [''Nota-Note: true'', ?b]"
      using split_on_line [of "CHR 0x0A" "''Nota-Note: true''" ?b] split_on_single [of "CHR 0x0A" ?b] format_source_line [OF s]
      by simp
    then have "lines (''Nota-Note: true'' @ CHR 0x0A # ?b) = [''Nota-Note: true'', ?b]"
      by (simp add: lines_def Let_def strip_cr_def)
    then show ?thesis using marked source by (simp add: Some note_paragraph_def)
  qed
qed

lemma note_splits:
  assumes "trim prose = prose" and "prose \<noteq> []" and "\<forall>s. source = Some s \<longrightarrow> writable_source s"
  shows "split_trailers (trim (note_message prose source)) =
    (prose, (''Nota-Note'', ''true'') # (case source of None \<Rightarrow> [] | Some s \<Rightarrow> [(''Nota-Source'', format_source s)]))"
proof -
  have valid: "\<forall>s. source = Some s \<longrightarrow> valid_source s" using assms(3) by (simp add: writable_source_def)
  have "count_list (note_paragraph source) (CHR 0x0A) \<le> 1"
    using assms(3) format_source_line
    by (auto simp: note_paragraph_def count_list_0_iff split: option.splits)
  then have "rsplit_once_str [CHR 0x0A, CHR 0x0A] (prose @ [CHR 0x0A, CHR 0x0A] @ note_paragraph source) =
      Some (prose, note_paragraph source)"
    by (intro split_at_blank_line) (simp_all add: note_paragraph_def)
  then show ?thesis
    using note_message_trimmed [OF assms(1,2) valid] note_trailers [OF assms(3)] trim_fixed(2) [OF assms(1)]
    by (simp add: split_trailers_def Let_def)
qed

lemma trailer_simps:
  "trailer ((k, v) # ts) key = (case trailer ts key of Some w \<Rightarrow> Some w | None \<Rightarrow> if k = key \<and> v \<noteq> [] then Some v else None)"
  "trailer [] key = None"
  by (auto simp: trailer_def find_append split: option.splits)

lemma note_entry_reads:
  assumes "trim prose = prose" and "prose \<noteq> []" and "\<forall>s. source = Some s \<longrightarrow> writable_source s"
    and "cm_message c = trim (note_message prose source)" and "cm_paths c = []"
  shows "entry c = Inr \<lparr>re_commit = cm_id c, re_message = prose, re_kind = Note, re_paths = [], re_source = source\<rparr>"
proof -
  have "parse_source (format_source s) = Inr s \<and> format_source s \<noteq> []" if "source = Some s" for s
    using parse_format_source that assms(3) by (auto simp: writable_source_def format_source_def)
  then show ?thesis using note_splits [OF assms(1-3)] assms
    by (cases source) (simp_all add: entry_def note_entry_def trailer_simps NOTE_TRAILER_def SOURCE_TRAILER_def)
qed

section \<open>What the trait Git documents\<close>

text \<open>A repository seen through the trait: its commits by id, and where its branches point.\<close>

record git_view =
  gv_commits :: "string \<Rightarrow> commit option"
  gv_branches :: "string \<Rightarrow> string option"

inductive first_parents :: "(string \<Rightarrow> commit option) \<Rightarrow> string \<Rightarrow> string list \<Rightarrow> bool" where
  root: "C t = Some k \<Longrightarrow> cm_first_parent k = None \<Longrightarrow> first_parents C t [t]"
| step: "C t = Some k \<Longrightarrow> cm_first_parent k = Some p \<Longrightarrow> first_parents C p h \<Longrightarrow> first_parents C t (t # h)"

inductive_cases first_parents_cases: "first_parents C t h"

definition has_key_line :: "string list \<Rightarrow> string \<Rightarrow> bool" where
  "has_key_line keys message \<longleftrightarrow>
     list_ex (\<lambda>l. list_ex (\<lambda>key. prefix (key @ '':'') l) keys) (split_on (CHR 0x0A) message)"

text \<open>
  What the queries answer: a commit carries its id and has a first-parent history, a branch points to a
  commit, a revision resolves to the full id of a commit, a valid branch name has no control character and
  no blank, and the search for trailers finds the commits of the histories with a line for one of the keys.
\<close>

definition history_laws :: "'g git \<Rightarrow> 'g \<Rightarrow> string \<Rightarrow> (string \<Rightarrow> commit option) \<Rightarrow> bool" where
  "history_laws G g r C \<longleftrightarrow>
     (\<forall>i k. C i = Some k \<longrightarrow> cm_id k = i \<and> (\<exists>h. first_parents C i h)) \<and>
     (\<forall>t h. first_parents C t h \<longrightarrow> git_first_parent_history G g r t = Inr h) \<and>
     (\<forall>is ks. map C is = map Some ks \<longrightarrow> git_commits G g r is = Inr ks) \<and>
     (\<forall>t h keys. first_parents C t h \<longrightarrow>
        (\<exists>cs. git_commits_with_trailers G g r [t] keys = Inr cs \<and>
           (\<forall>k. k \<in> set cs \<longleftrightarrow> cm_id k \<in> set h \<and> C (cm_id k) = Some k \<and> has_key_line keys (cm_message k))))"

definition branch_laws ::
  "'g git \<Rightarrow> 'g \<Rightarrow> string \<Rightarrow> (string \<Rightarrow> commit option) \<Rightarrow> (string \<Rightarrow> string option) \<Rightarrow> bool" where
  "branch_laws G g r C B \<longleftrightarrow>
     finite (dom B) \<and>
     (\<forall>b t. B b = Some t \<longrightarrow> git_branch_tip G g r b = Inr t) \<and>
     (\<forall>b t. git_branch_tip G g r b = Inr t \<longrightarrow> C t \<noteq> None) \<and>
     (\<forall>b. git_branch_exists G g r b = Inr (B b \<noteq> None)) \<and>
     (\<forall>revision c. git_resolve_commit G g r revision = Inr c \<longrightarrow> is_commit_id c \<and> C c \<noteq> None) \<and>
     (\<forall>b. git_validate_branch_name G g r b = Inr () \<longrightarrow> b \<noteq> [] \<and> (\<forall>c \<in> set b. 33 \<le> byte c))"

definition git_reads_lawfully :: "'g git \<Rightarrow> ('g \<Rightarrow> string \<Rightarrow> git_view) \<Rightarrow> ('g \<Rightarrow> bool) \<Rightarrow> bool" where
  "git_reads_lawfully G view ok \<longleftrightarrow> (\<forall>g r. ok g \<longrightarrow>
     history_laws G g r (gv_commits (view g r)) \<and>
     branch_laws G g r (gv_commits (view g r)) (gv_branches (view g r)))"

text \<open>The bytes that separate the records and fields of the log do not occur.\<close>

definition loggable :: "string \<Rightarrow> bool" where
  "loggable m \<longleftrightarrow> CHR 0x00 \<notin> set m \<and> CHR 0x1E \<notin> set m"

text \<open>
  The writing operations: an empty commit is named by its content, moves no branch and reads back with its
  message trimmed; a branch moves only from the tip that is expected and is created only if it is absent;
  an operation that fails leaves the repository as it was.
\<close>

definition with_commit :: "string \<Rightarrow> commit \<Rightarrow> git_view \<Rightarrow> git_view" where
  "with_commit c k v = v\<lparr>gv_commits := (gv_commits v)(c \<mapsto> k)\<rparr>"

definition with_branch :: "string \<Rightarrow> string \<Rightarrow> git_view \<Rightarrow> git_view" where
  "with_branch b c v = v\<lparr>gv_branches := (gv_branches v)(b \<mapsto> c)\<rparr>"

definition empty_commit :: "string \<Rightarrow> string \<Rightarrow> string \<Rightarrow> commit" where
  "empty_commit c p m = \<lparr>cm_id = c, cm_first_parent = Some p, cm_message = trim m, cm_paths = []\<rparr>"

definition commit_laws :: "'g git \<Rightarrow> ('g \<Rightarrow> string \<Rightarrow> git_view) \<Rightarrow> ('g \<Rightarrow> bool) \<Rightarrow> bool" where
  "commit_laws G view ok \<longleftrightarrow> (\<forall>g g' r p m c e. ok g \<longrightarrow> gv_commits (view g r) p \<noteq> None \<longrightarrow> loggable m \<longrightarrow>
     (git_commit_empty G r p m g = (Inr c, g') \<longrightarrow>
        ok g' \<and> git_repository_root G g' = git_repository_root G g \<and>
        gv_commits (view g r) c \<in> {None, Some (empty_commit c p m)} \<and>
        view g' r = with_commit c (empty_commit c p m) (view g r)) \<and>
     (git_commit_empty G r p m g = (Inl e, g') \<longrightarrow> g' = g))"

definition ref_laws :: "'g git \<Rightarrow> ('g \<Rightarrow> string \<Rightarrow> git_view) \<Rightarrow> ('g \<Rightarrow> bool) \<Rightarrow> bool" where
  "ref_laws G view ok \<longleftrightarrow> (\<forall>g g' r b c t e. ok g \<longrightarrow> gv_commits (view g r) c \<noteq> None \<longrightarrow>
     (git_update_branch G r b c t g = (Inr (), g') \<longrightarrow>
        ok g' \<and> git_repository_root G g' = git_repository_root G g \<and>
        gv_branches (view g r) b = Some t \<and> view g' r = with_branch b c (view g r)) \<and>
     (git_create_branch G r b c g = (Inr (), g') \<longrightarrow>
        ok g' \<and> git_repository_root G g' = git_repository_root G g \<and>
        gv_branches (view g r) b = None \<and> view g' r = with_branch b c (view g r)) \<and>
     (git_update_branch G r b c t g = (Inl e, g') \<or> git_create_branch G r b c g = (Inl e, g') \<longrightarrow> g' = g))"

definition git_writes_lawfully :: "'g git \<Rightarrow> ('g \<Rightarrow> string \<Rightarrow> git_view) \<Rightarrow> ('g \<Rightarrow> bool) \<Rightarrow> bool" where
  "git_writes_lawfully G view ok \<longleftrightarrow> commit_laws G view ok \<and> ref_laws G view ok"

section \<open>Histories\<close>

lemma first_parents_unique: "first_parents C t h \<Longrightarrow> first_parents C t h' \<Longrightarrow> h = h'"
proof (induction arbitrary: h' rule: first_parents.induct)
  case (root C t k)
  from root.prems show ?case by (rule first_parents_cases) (use root.hyps in auto)
next
  case (step C t k p h)
  from step.prems show ?case
  proof (rule first_parents_cases)
    fix k' p' g assume g: "h' = t # g" "C t = Some k'" "cm_first_parent k' = Some p'" "first_parents C p' g"
    then have "p' = p" using step.hyps by simp
    then show ?thesis using step.IH g by simp
  qed (use step.hyps in auto)
qed

text \<open>A new commit does not change the history of the others.\<close>

lemma first_parents_new:
  assumes "first_parents C t h" and "C c = None \<or> C c = Some k"
  shows "first_parents (C(c \<mapsto> k)) t h"
  using assms
proof (induction rule: first_parents.induct)
  case (root C t k')
  then have "(C(c \<mapsto> k)) t = Some k'" by auto
  then show ?case using root.hyps by (intro first_parents.root)
next
  case (step C t k' p h)
  then have "(C(c \<mapsto> k)) t = Some k'" by auto
  then show ?case using step by (intro first_parents.step)
qed

lemma first_parents_commits: "first_parents C t h \<Longrightarrow> i \<in> set h \<Longrightarrow> \<exists>k. C i = Some k"
  by (induction rule: first_parents.induct) auto

lemma scan_history_cong:
  "(\<And>i. i \<in> set h \<Longrightarrow> candidate_at cs i = candidate_at ds i) \<Longrightarrow>
   scan_history cs b h newer = scan_history ds b h newer"
  by (induction h arbitrary: newer) (auto split: option.splits intro!: arg_cong2 [where f = and_then])

lemma scan_history_acc:
  "scan_history cs b h (xs @ ys) = map_ok (map_option (\<lambda>(m, es). (m, es @ ys))) (scan_history cs b h xs)"
proof (induction h arbitrary: xs)
  case (Cons i h)
  have IH: "scan_history cs b h (i # xs @ ys) = map_ok (map_option (\<lambda>(m, es). (m, es @ ys))) (scan_history cs b h (i # xs))"
    using Cons.IH [of "i # xs"] by simp
  show ?case
  proof (cases "candidate_at cs i")
    case (Some k)
    then show ?thesis by (cases "marker_subject b i k") (auto simp: IH split: option.splits)
  qed (simp add: IH)
qed simp

text \<open>What the search for markers finds at a commit of the history.\<close>

abbreviation marker_keys :: "string list" where
  "marker_keys \<equiv> [REVIEW_TRAILER, SUBJECT_TRAILER]"

definition marked :: "(string \<Rightarrow> commit option) \<Rightarrow> string \<Rightarrow> commit option" where
  "marked C i = Option.bind (C i) (\<lambda>k. if has_key_line marker_keys (cm_message k) then Some k else None)"

lemma candidate_marked:
  assumes found: "\<And>k. k \<in> set cs \<longleftrightarrow> cm_id k \<in> set h \<and> C (cm_id k) = Some k \<and> has_key_line marker_keys (cm_message k)"
    and i: "i \<in> set h" and ids: "\<And>k. C i = Some k \<Longrightarrow> cm_id k = i"
  shows "candidate_at cs i = marked C i"
proof (cases "marked C i")
  case None
  have "cm_id x \<noteq> i" if x: "x \<in> set cs" for x
  proof
    assume e: "cm_id x = i"
    then have "C i = Some x" "has_key_line marker_keys (cm_message x)" using x found by blast+
    then show False using None by (simp add: marked_def)
  qed
  then show ?thesis using None by (simp add: candidate_at_def find_None_iff)
next
  case (Some k)
  then have k: "C i = Some k" "has_key_line marker_keys (cm_message k)"
    by (auto simp: marked_def bind_eq_Some_conv split: if_splits)
  then have "k \<in> set cs" using found [of k] ids i by simp
  then have "find (\<lambda>c. cm_id c = i) (rev cs) \<noteq> None" using ids [OF k(1)] by (auto simp: find_None_iff)
  then obtain x where x: "find (\<lambda>c. cm_id c = i) (rev cs) = Some x" by auto
  then have "x \<in> set (rev cs) \<and> cm_id x = i" by (auto simp: find_Some_iff set_conv_nth simp del: set_rev)
  then have "C i = Some x" using found [of x] by auto
  then show ?thesis using x k Some by (simp add: candidate_at_def)
qed

end
