(* ===== verification/Nota_Git_Spec.thy ===== *)
theory Nota_Git_Spec
  imports Nota_Review_Spec
begin

text \<open>
  What nota reads from \<open>git\<close>: a diff and a log in the documented formats read back as what they were printed
  from; a log whose messages have the byte that separates its records does not.
\<close>

section \<open>Printing and reading a diff\<close>

fun ends_cr :: "string \<Rightarrow> bool" where
  "ends_cr l \<longleftrightarrow> l \<noteq> [] \<and> last l = CHR 0x0D"

definition one_line :: "string \<Rightarrow> bool" where
  "one_line l \<longleftrightarrow> CHR 0x0A \<notin> set l \<and> \<not> ends_cr l"

definition joined_lines :: "string list \<Rightarrow> string" where
  "joined_lines ls = concat (map (\<lambda>l. l @ [CHR 0x0A]) ls)"

lemma lines_joined: "list_all one_line ls \<Longrightarrow> lines (joined_lines ls) = ls"
proof -
  assume ls: "list_all one_line ls"
  then have "split_on (CHR 0x0A) (joined_lines ls) = ls @ [[]]"
    by (induction ls) (auto simp: joined_lines_def split_on_line one_line_def)
  moreover have "map strip_cr ls = ls" using ls by (induction ls) (auto simp: strip_cr_def one_line_def)
  ultimately show ?thesis by (simp add: lines_def)
qed

text \<open>
  The text of \<open>git diff --unified=0\<close> for changed files whose paths Git does not quote.
  A count of one is left out; a path with a space ends with a tab.\<close>

definition print_range :: "nat \<Rightarrow> nat \<Rightarrow> string" where
  "print_range s c = (if c = 1 then show_nat s else show_nat s @ CHR '','' # show_nat c)"

definition print_path :: "string \<Rightarrow> string" where
  "print_path p = p @ (if CHR '' '' \<in> set p then [CHR 0x09] else [])"

definition print_hunk :: "hunk \<Rightarrow> string list" where
  "print_hunk h =
     (''@@ -'' @ print_range (hk_old_start h) (hk_old_count h) @ '' +'' @
       print_range (hk_new_start h) (hk_new_count h) @ '' @@'') #
     map ((#) (CHR ''-'')) (hk_old h) @ map ((#) (CHR ''+'')) (hk_new h)"

definition print_file :: "file_diff \<Rightarrow> string list" where
  "print_file f =
     [''diff --git a/'' @ fd_path f @ '' b/'' @ fd_path f, ''--- a/'' @ print_path (fd_path f),
      ''+++ b/'' @ print_path (fd_path f)] @
     concat (map print_hunk (fd_hunks f))"

definition printable_hunk :: "hunk \<Rightarrow> bool" where
  "printable_hunk h \<longleftrightarrow>
     hk_old_start h < 2 ^ 64 \<and> hk_old_count h < 2 ^ 64 \<and> hk_new_start h < 2 ^ 64 \<and> hk_new_count h < 2 ^ 64 \<and>
     hk_old_count h = length (hk_old h) \<and> hk_new_count h = length (hk_new h) \<and>
     list_all one_line (hk_old h) \<and> list_all one_line (hk_new h)"

definition printable_file :: "file_diff \<Rightarrow> bool" where
  "printable_file f \<longleftrightarrow>
     fd_path f \<noteq> [] \<and> list_all (\<lambda>c. 32 \<le> byte c \<and> c \<noteq> CHR 0x22 \<and> c \<noteq> CHR 0x5C) (fd_path f) \<and>
     list_all printable_hunk (fd_hunks f)"

lemma old_lines_read:
  assumes "length olds \<le> n"
  shows "parse_lines (map ((#) (CHR ''-'')) olds @ rest)
      \<lparr>ds_files = files @ [\<lparr>fd_path = p, fd_hunks = hs @ [h]\<rparr>], ds_old_path = op, ds_pending = (n, m)\<rparr> =
    parse_lines rest
      \<lparr>ds_files = files @ [\<lparr>fd_path = p, fd_hunks = hs @ [h\<lparr>hk_old := hk_old h @ olds\<rparr>]\<rparr>], ds_old_path = op,
       ds_pending = (n - length olds, m)\<rparr>"
  using assms
proof (induction olds arbitrary: n h)
  case (Cons l olds)
  then have "n \<noteq> 0" by auto
  then show ?case using Cons.IH [of "n - 1" "h\<lparr>hk_old := hk_old h @ [l]\<rparr>"] Cons.prems
    by (simp add: content_line_def last_hunk_def put_last_hunk_def)
qed simp

lemma new_lines_read:
  assumes "length news \<le> m"
  shows "parse_lines (map ((#) (CHR ''+'')) news @ rest)
      \<lparr>ds_files = files @ [\<lparr>fd_path = p, fd_hunks = hs @ [h]\<rparr>], ds_old_path = op, ds_pending = (n, m)\<rparr> =
    parse_lines rest
      \<lparr>ds_files = files @ [\<lparr>fd_path = p, fd_hunks = hs @ [h\<lparr>hk_new := hk_new h @ news\<rparr>]\<rparr>], ds_old_path = op,
       ds_pending = (n, m - length news)\<rparr>"
  using assms
proof (induction news arbitrary: m h)
  case (Cons l news)
  then have "m \<noteq> 0" by auto
  then show ?case using Cons.IH [of "m - 1" "h\<lparr>hk_new := hk_new h @ [l]\<rparr>"] Cons.prems
    by (simp add: content_line_def last_hunk_def put_last_hunk_def)
qed simp

lemma hunk_range_read: "s < 2 ^ 64 \<Longrightarrow> c < 2 ^ 64 \<Longrightarrow> hunk_range (print_range s c) = Inr (s, c)"
proof -
  assume sizes: "s < 2 ^ 64" "c < 2 ^ 64"
  have comma: "CHR '','' \<notin> set (show_nat s)" using show_nat_set [of "CHR '',''" s] by (auto simp: is_digit_def in_range_def)
  then have "split_once (CHR '','') (show_nat s @ CHR '','' # show_nat c) = Some (show_nat s, show_nat c)"
    by (simp add: split_once_Some)
  moreover have "split_once (CHR '','') (show_nat s) = None" using comma by (simp add: split_once_None)
  moreover have "parse_usize ''1'' = Some 1" by (simp add: parse_usize_def parse_unsigned_def digits_value_def is_digit_def in_range_def)
  ultimately show ?thesis using parse_show_nat [OF sizes(1)] parse_show_nat [OF sizes(2)]
    by (simp add: hunk_range_def print_range_def parse_usize_def with_context_simps)
qed

lemma print_range_set: "x \<in> set (print_range s c) \<Longrightarrow> is_digit x \<or> x = CHR '',''"
  using show_nat_set [of x s] show_nat_set [of x c] by (auto simp: print_range_def split: if_splits)

lemma hunk_header_read:
  assumes "printable_hunk h"
  shows "hunk_header (print_range (hk_old_start h) (hk_old_count h) @ '' +'' @
      print_range (hk_new_start h) (hk_new_count h) @ '' @@'') =
    Inr (h\<lparr>hk_old := [], hk_new := []\<rparr>)"
proof -
  let ?old = "print_range (hk_old_start h) (hk_old_count h)"
  let ?new = "print_range (hk_new_start h) (hk_new_count h)"
  have digits: "x \<notin> set (print_range m n)" if "\<not> is_digit x" "x \<noteq> CHR '',''" for x m n
    using print_range_set [of x m n] that by blast
  have other: "\<not> is_digit (CHR '' '')" "\<not> is_digit (CHR ''@'')" by code_simp+
  have "split_once_str '' @@'' ((?old @ '' +'' @ ?new) @ '' @@'' @ []) = Some (?old @ '' +'' @ ?new, [])"
  proof (rule split_once_str_append, rule notI)
    fix l l' assume l: "l \<noteq> []" "?old @ '' +'' @ ?new = l' @ l" and p: "prefix '' @@'' (l @ '' @@'' @ [])"
    have "set l \<subseteq> set (?old @ '' +'' @ ?new)" unfolding l(2) by simp
    moreover have "CHR ''@'' \<notin> set (?old @ '' +'' @ ?new)" using digits [OF other(2)] by simp
    ultimately have "CHR ''@'' \<notin> set l" by blast
    then show False using p l(1) by (cases l; cases "tl l") auto
  qed
  moreover have "split_once_str '' +'' (?old @ '' +'' @ ?new) = Some (?old, ?new)"
  proof (rule split_once_str_append, rule notI)
    fix l l' assume l: "l \<noteq> []" "?old = l' @ l" and p: "prefix '' +'' (l @ '' +'' @ ?new)"
    have "set l \<subseteq> set ?old" unfolding l(2) by simp
    moreover have "CHR '' '' \<notin> set ?old" using digits [OF other(1)] by simp
    ultimately have "CHR '' '' \<notin> set l" by blast
    then show False using p l(1) by (cases l) auto
  qed
  ultimately show ?thesis
    using assms hunk_range_read by (simp add: hunk_header_def printable_hunk_def)
qed

lemma print_hunk_read:
  assumes "printable_hunk h"
  shows "parse_lines (print_hunk h @ rest)
      \<lparr>ds_files = files @ [\<lparr>fd_path = p, fd_hunks = hs\<rparr>], ds_old_path = None, ds_pending = (0, 0)\<rparr> =
    parse_lines rest
      \<lparr>ds_files = files @ [\<lparr>fd_path = p, fd_hunks = hs @ [h]\<rparr>], ds_old_path = None, ds_pending = (0, 0)\<rparr>"
proof -
  have counts: "hk_old_count h = length (hk_old h)" "hk_new_count h = length (hk_new h)"
    using assms by (simp_all add: printable_hunk_def)
  have start: "header_line (hd (print_hunk h))
      \<lparr>ds_files = files @ [\<lparr>fd_path = p, fd_hunks = hs\<rparr>], ds_old_path = None, ds_pending = (0, 0)\<rparr> =
    Inr \<lparr>ds_files = files @ [\<lparr>fd_path = p, fd_hunks = hs @ [h\<lparr>hk_old := [], hk_new := []\<rparr>]\<rparr>], ds_old_path = None,
      ds_pending = (length (hk_old h), length (hk_new h))\<rparr>"
    using hunk_header_read [OF assms] counts
    by (simp add: print_hunk_def header_line_def strip_prefix_str_def push_hunk_def)
  show ?thesis
    using start old_lines_read [of "hk_old h" "length (hk_old h)"] new_lines_read [of "hk_new h" "length (hk_new h)"]
    by (simp add: print_hunk_def)
qed

lemma print_hunks_read:
  assumes "list_all printable_hunk ks"
  shows "parse_lines (concat (map print_hunk ks) @ rest)
      \<lparr>ds_files = files @ [\<lparr>fd_path = p, fd_hunks = hs\<rparr>], ds_old_path = None, ds_pending = (0, 0)\<rparr> =
    parse_lines rest
      \<lparr>ds_files = files @ [\<lparr>fd_path = p, fd_hunks = hs @ ks\<rparr>], ds_old_path = None, ds_pending = (0, 0)\<rparr>"
  using assms by (induction ks arbitrary: hs) (simp_all add: print_hunk_read)

lemma diff_path_plain:
  assumes "CHR 0x09 \<notin> set p" and "p \<noteq> []" and "c \<noteq> CHR 0x22"
  shows "diff_path (c # CHR ''/'' # print_path p) [c, CHR ''/''] = Some p"
proof (cases "CHR '' '' \<in> set p")
  case True
  have strip: "strip_suffix_str [CHR 0x09] (c # CHR ''/'' # print_path p) = Some (c # CHR ''/'' # p)"
    using True by (simp add: print_path_def)
  show ?thesis unfolding diff_path_def Let_def strip option.case using assms(3) by (simp add: strip_prefix_str_def)
next
  case False
  then have "strip_suffix_str [CHR 0x09] (c # CHR ''/'' # print_path p) = None"
  proof -
    obtain q d where q: "p = q @ [d]" using assms(2) by (metis rev_exhaust)
    then have "\<not> suffix [CHR 0x09] ((c # CHR ''/'' # q) @ [d])" using assms(1) unfolding suffix_snoc by simp
    then show ?thesis using False by (simp add: print_path_def strip_suffix_str_def q)
  qed
  then show ?thesis using assms(3) False by (simp add: diff_path_def strip_prefix_str_def print_path_def)
qed

lemma print_file_read:
  assumes "printable_file f"
  shows "parse_lines (print_file f @ rest) \<lparr>ds_files = files, ds_old_path = None, ds_pending = (0, 0)\<rparr> =
    parse_lines rest \<lparr>ds_files = files @ [f], ds_old_path = None, ds_pending = (0, 0)\<rparr>"
proof -
  have p: "CHR 0x09 \<notin> set (fd_path f)" "fd_path f \<noteq> []" and hs: "list_all printable_hunk (fd_hunks f)"
    using assms unfolding printable_file_def list_all_iff by fastforce+
  show ?thesis
    using diff_path_plain [OF p, of "CHR ''a''"] diff_path_plain [OF p, of "CHR ''b''"] print_hunks_read [OF hs, of rest files "fd_path f" "[]"]
    by (cases f) (simp add: print_file_def header_line_def strip_prefix_str_def)
qed

lemma one_line_Cons: "one_line l \<Longrightarrow> c \<noteq> CHR 0x0A \<Longrightarrow> c \<noteq> CHR 0x0D \<Longrightarrow> one_line (c # l)"
  by (auto simp: one_line_def)

lemma one_line_append: "CHR 0x0A \<notin> set x \<Longrightarrow> one_line l \<Longrightarrow> l \<noteq> [] \<Longrightarrow> one_line (x @ l)"
  by (auto simp: one_line_def)

lemma print_hunk_lines: "printable_hunk h \<Longrightarrow> list_all one_line (print_hunk h)"
proof -
  assume h: "printable_hunk h"
  have "CHR 0x0A \<notin> set (print_range m n)" for m n
    using print_range_set [of "CHR 0x0A" m n] by (auto simp: is_digit_def in_range_def)
  then have "one_line (hd (print_hunk h))" by (simp add: print_hunk_def one_line_def)
  then show ?thesis using h
    by (auto simp: print_hunk_def printable_hunk_def list_all_iff intro!: one_line_Cons)
qed

lemma print_file_lines:
  assumes "printable_file f"
  shows "list_all one_line (print_file f)"
proof -
  have visible: "CHR 0x0A \<notin> set (fd_path f)" "CHR 0x0D \<notin> set (fd_path f)" "fd_path f \<noteq> []"
    using assms unfolding printable_file_def list_all_iff by fastforce+
  then have p: "one_line (fd_path f)" using last_in_set [of "fd_path f"] by (metis ends_cr.simps one_line_def)
  have q: "one_line (print_path (fd_path f))" "print_path (fd_path f) \<noteq> []"
    using p visible by (auto simp: one_line_def print_path_def)
  have "one_line ((''diff --git a/'' @ fd_path f @ '' b/'') @ fd_path f)" "one_line (''--- a/'' @ print_path (fd_path f))"
    "one_line (''+++ b/'' @ print_path (fd_path f))"
    using p q visible by (intro one_line_append; simp)+
  then show ?thesis using assms print_hunk_lines by (auto simp: print_file_def printable_file_def list_all_iff)
qed


definition sample_file :: file_diff where
  "sample_file = \<lparr>fd_path = ''f'', fd_hunks = [
     \<lparr>hk_old_start = 1, hk_old_count = 2, hk_new_start = 1, hk_new_count = 1, hk_old = [''-- a'', ''-+++ b''],
      hk_new = [''@@ c'']\<rparr>]\<rparr>"


section \<open>Printing and reading a log\<close>

record logged =
  lg_id :: string
  lg_parents :: "string list"
  lg_body :: string
  lg_paths :: "string list"

definition print_fields :: "logged \<Rightarrow> string" where
  "print_fields l =
     lg_id l @ [CHR 0x00] @ join_with '' '' (lg_parents l) @ [CHR 0x00] @ lg_body l @ [CHR 0x00] @
     (if lg_paths l = [] then [] else [CHR 0x0A, CHR 0x0A] @ join_with [CHR 0x0A] (lg_paths l))"

text \<open>The text of \<open>git log --name-only\<close> in the format that is asked for.\<close>

definition print_logged :: "logged \<Rightarrow> string" where
  "print_logged l = CHR 0x1E # print_fields l @ [CHR 0x0A]"

definition visible_word :: "string \<Rightarrow> bool" where
  "visible_word w \<longleftrightarrow> w \<noteq> [] \<and> list_all plain w"

definition visible_path :: "string \<Rightarrow> bool" where
  "visible_path w \<longleftrightarrow> w \<noteq> [] \<and> list_all (\<lambda>c. 32 \<le> byte c \<and> byte c \<le> 126) w \<and> plain (last w)"

definition printable_logged :: "logged \<Rightarrow> bool" where
  "printable_logged l \<longleftrightarrow>
     visible_word (lg_id l) \<and> list_all visible_word (lg_parents l) \<and> CHR 0x00 \<notin> set (lg_body l) \<and>
     list_all visible_path (lg_paths l)"

definition read_logged :: "logged \<Rightarrow> commit" where
  "read_logged l =
     \<lparr>cm_id = lg_id l, cm_first_parent = (case lg_parents l of [] \<Rightarrow> None | p # _ \<Rightarrow> Some p),
      cm_message = trim (lg_body l), cm_paths = lg_paths l\<rparr>"

text \<open>Words.\<close>

lemma split_white_plain: "list_all plain p \<Longrightarrow> split_white w (p @ s) = split_white (rev p @ w) s"
proof (induction p arbitrary: w)
  case (Cons c p)
  then have "drop_white white_space (c # p @ s) = None" by (simp add: drop_white_None white_first)
  then show ?case using Cons by (simp add: split_white.simps [of w "c # p @ s"])
qed simp

lemma split_white_words:
  "list_all visible_word ws \<Longrightarrow> filter (\<lambda>w. w \<noteq> []) (split_white [] (join_with '' '' ws)) = ws"
proof (induction ws)
  case Nil
  then show ?case by (simp add: split_white.simps)
next
  case (Cons v ws)
  have v: "list_all plain v" "v \<noteq> []" using Cons.prems by (simp_all add: visible_word_def)
  show ?case
  proof (cases ws)
    case Nil
    have "split_white [] v = [v]"
      using split_white_plain [OF v(1), of "[]" "[]"] by (simp add: split_white.simps [of "rev v" "[]"])
    then show ?thesis using v(2) by (simp add: Nil)
  next
    case (Cons u us)
    have blank: "split_white (rev v) (CHR '' '' # s) = v # split_white [] s" for s
      by (simp add: split_white.simps [of "rev v" "CHR '' '' # s"] drop_white_blank)
    have "split_white [] (v @ CHR '' '' # join_with '' '' ws) = v # split_white [] (join_with '' '' ws)"
      using split_white_plain [OF v(1), of "[]"] blank by simp
    then show ?thesis using Cons Cons.IH Cons.prems v(2) by (simp add: Cons)
  qed
qed

text \<open>Paths.\<close>

lemma visible_path_chars: "visible_path w \<Longrightarrow> c \<in> set w \<Longrightarrow> c \<noteq> CHR 0x00 \<and> c \<noteq> CHR 0x1E \<and> c \<noteq> CHR 0x0A \<and> c \<noteq> CHR 0x0D"
  unfolding visible_path_def list_all_iff by fastforce

lemma visible_path_line:
  assumes "visible_path w"
  shows "w \<noteq> []" and "CHR 0x0A \<notin> set w" and "strip_cr w = w"
proof -
  show w: "w \<noteq> []" using assms by (simp add: visible_path_def)
  show "CHR 0x0A \<notin> set w" using visible_path_chars [OF assms] by blast
  show "strip_cr w = w" using visible_path_chars [OF assms last_in_set [OF w]] by (simp add: strip_cr_def)
qed

lemma split_joined:
  "ps \<noteq> [] \<Longrightarrow> list_all visible_path ps \<Longrightarrow> split_on (CHR 0x0A) (join_with [CHR 0x0A] ps) = ps"
proof (induction ps)
  case (Cons p ps)
  have p: "CHR 0x0A \<notin> set p" using Cons.prems visible_path_line(2) by simp
  show ?case
  proof (cases ps)
    case Nil
    then show ?thesis using split_on_single [OF p] by simp
  next
    case (Cons q qs)
    then have "split_on (CHR 0x0A) (p @ CHR 0x0A # join_with [CHR 0x0A] ps) = p # ps"
      using split_on_line [OF p] Cons.IH Cons.prems by simp
    then show ?thesis by (simp add: Cons)
  qed
qed simp

lemma paths_read:
  assumes "list_all visible_path ps" and "t = [] \<or> t = [CHR 0x0A]"
  shows "nonempty_lines ((if ps = [] then [] else [CHR 0x0A, CHR 0x0A] @ join_with [CHR 0x0A] ps) @ t) = ps"
proof (cases "ps = []")
  case True
  then show ?thesis using assms(2) by (auto simp: nonempty_lines_def lines_def strip_cr_def)
next
  case False
  let ?s = "join_with [CHR 0x0A] ps"
  note split = split_joined [OF False assms(1)]
  have same: "map strip_cr ps = ps" using assms(1) visible_path_line(3) by (induction ps) auto
  have kept: "filter (\<lambda>l. l \<noteq> []) ps = ps"
    using assms(1) visible_path_line(1) by (induction ps) auto
  have "split_on (CHR 0x0A) (CHR 0x0A # CHR 0x0A # ?s) = [] # [] # ps" using split by simp
  moreover have "split_on (CHR 0x0A) (CHR 0x0A # CHR 0x0A # ?s @ [CHR 0x0A]) = [] # [] # ps @ [[]]"
    using split_on_append [of "CHR 0x0A" ?s "[]"] split by simp
  moreover have "last ps \<noteq> []" using assms(1) False visible_path_line(1) by (auto simp: list_all_iff)
  moreover have "map strip_cr (butlast ps) @ [last ps] = ps"
    using False same by (metis append_butlast_last_id map_butlast)
  moreover have "strip_cr [] = []" by (simp add: strip_cr_def)
  ultimately have "lines (CHR 0x0A # CHR 0x0A # ?s @ t) = [] # [] # ps"
    using assms(2) False same by (auto simp: lines_def Let_def butlast_append)
  then show ?thesis using False kept by (simp add: nonempty_lines_def)
qed

lemma visible_word_chars: "visible_word w \<Longrightarrow> c \<in> set w \<Longrightarrow> c \<noteq> CHR 0x00 \<and> c \<noteq> CHR 0x1E"
  unfolding visible_word_def list_all_iff plain_def by fastforce

lemma joined_words: "list_all visible_word ws \<Longrightarrow> c \<in> set (join_with '' '' ws) \<Longrightarrow> c \<noteq> CHR 0x00 \<and> c \<noteq> CHR 0x1E"
proof (induction ws)
  case (Cons w ws)
  then show ?case using visible_word_chars [of w c] by (cases ws) auto
qed simp

lemma split_once_append: "c \<notin> set x \<Longrightarrow> split_once c (x @ c # y) = Some (x, y)"
  by (simp add: split_once_Some)

lemma log_record_read:
  assumes "printable_logged l" and "t = [] \<or> t = [CHR 0x0A]"
  shows "log_record r (print_fields l @ t) = Inr (read_logged l)"
proof -
  let ?rest = "(if lg_paths l = [] then [] else [CHR 0x0A, CHR 0x0A] @ join_with [CHR 0x0A] (lg_paths l)) @ t"
  have nul: "CHR 0x00 \<notin> set (lg_id l)" "CHR 0x00 \<notin> set (join_with '' '' (lg_parents l))" "CHR 0x00 \<notin> set (lg_body l)"
    using assms(1) visible_word_chars joined_words unfolding printable_logged_def by blast+
  have "splitn 4 (CHR 0x00) (print_fields l @ t) = [lg_id l, join_with '' '' (lg_parents l), lg_body l, ?rest]"
    using nul by (simp add: print_fields_def eval_nat_numeral split_once_append)
  moreover have "split_whitespace (join_with '' '' (lg_parents l)) = lg_parents l"
    using assms(1) by (simp add: split_whitespace_def split_white_words printable_logged_def)
  moreover have "nonempty_lines ?rest = lg_paths l"
    using assms by (intro paths_read) (simp_all add: printable_logged_def)
  ultimately show ?thesis by (simp add: log_record_def read_logged_def)
qed

text \<open>The end of the text is no white space but for its last line break.\<close>

lemma trim_end_NUL: "trim_end (s @ [CHR 0x00]) = s @ [CHR 0x00]"
proof -
  have "\<not> prefix (rev w) (CHR 0x00 # t)" if "w \<in> set white_space" for w t using that by (auto simp: white_space_def)
  then have "drop_white (map rev white_space) (CHR 0x00 # rev s) = None" by (simp add: drop_white_None)
  then show ?thesis by (simp add: trim_end_def strip_white_stop)
qed

lemma trim_start_RS: "trim_start (CHR 0x1E # s) = CHR 0x1E # s"
proof -
  have "\<not> prefix w (CHR 0x1E # s)" if "w \<in> set white_space" for w using that by (auto simp: white_space_def)
  then show ?thesis unfolding trim_start_def by (intro strip_white_stop) (simp add: drop_white_None)
qed

lemma print_fields_end:
  assumes "printable_logged l"
  shows "trim_end (x @ print_fields l) = x @ print_fields l"
proof (cases "lg_paths l = []")
  case True
  then show ?thesis
    using trim_end_NUL [of "x @ lg_id l @ [CHR 0x00] @ join_with '' '' (lg_parents l) @ [CHR 0x00] @ lg_body l"]
    by (simp add: print_fields_def)
next
  case False
  have ends: "\<exists>y d. join_with [CHR 0x0A] ps = y @ [d] \<and> plain d" if "ps \<noteq> []" "list_all visible_path ps" for ps
    using that
  proof (induction ps)
    case (Cons p ps)
    show ?case
    proof (cases ps)
      case Nil
      have "p = butlast p @ [last p]" "plain (last p)" using Cons.prems by (simp_all add: visible_path_def)
      then show ?thesis using Nil by (metis join_with.simps(2))
    next
      case (Cons q qs)
      then obtain y d where "join_with [CHR 0x0A] ps = y @ [d]" "plain d" using Cons.IH Cons.prems by auto
      then have "join_with [CHR 0x0A] (p # ps) = (p @ CHR 0x0A # y) @ [d]" "plain d" using Cons by simp_all
      then show ?thesis by blast
    qed
  qed simp
  then obtain y d where d: "join_with [CHR 0x0A] (lg_paths l) = y @ [d]" "plain d"
    using ends [OF False] assms unfolding printable_logged_def by blast
  show ?thesis
    using trim_end_plain [OF d(2), of "x @ lg_id l @ [CHR 0x00] @ join_with '' '' (lg_parents l) @ [CHR 0x00] @
        lg_body l @ [CHR 0x00, CHR 0x0A, CHR 0x0A] @ y"] False d(1)
    by (simp add: print_fields_def)
qed

lemma trim_log:
  assumes "printable_logged l"
  shows "trim (concat (map print_logged ls) @ print_logged l) = concat (map print_logged ls) @ CHR 0x1E # print_fields l"
proof -
  let ?x = "concat (map print_logged ls) @ [CHR 0x1E]"
  have "trim_start (concat (map print_logged ls) @ print_logged l) = concat (map print_logged ls) @ print_logged l"
    by (cases ls) (simp_all add: print_logged_def trim_start_RS)
  moreover have "concat (map print_logged ls) @ print_logged l = (?x @ print_fields l) @ [CHR 0x0A]"
    by (simp add: print_logged_def)
  ultimately show ?thesis
    using trim_end_newline [of "?x @ print_fields l"] print_fields_end [OF assms, of ?x] by (simp add: trim_def)
qed

definition log_command :: "string list \<Rightarrow> string list" where
  "log_command args =
     [''-c'', ''log.showSignature=false'', ''log'', ''--no-renames'', ''--name-only'', ''--format=%x1e%H%x00%P%x00%B%x00''] @
     args @ [''--stdin'']"

lemma git_log_run:
  assumes "revisions \<noteq> []"
    and "gp_query P g r (log_command args) (join_with [CHR 0x0A] revisions @ [CHR 0x0A]) = Output (Some 0) out err"
  shows "git_log P g r args revisions = collect (log_record r) (drop 1 (split_on (CHR 0x1E) (trim out)))"
  using assms by (simp add: git_log_def log_command_def successful_def Let_def)

lemma print_fields_chars:
  assumes "printable_logged l" and "CHR 0x1E \<notin> set (lg_body l)"
  shows "CHR 0x1E \<notin> set (print_fields l)"
proof -
  have "CHR 0x1E \<notin> set (join_with [CHR 0x0A] ps)" if "list_all visible_path ps" for ps
    using that
  proof (induction ps)
    case (Cons p ps)
    then show ?case using visible_path_chars [of p "CHR 0x1E"] by (cases ps) auto
  qed simp
  then show ?thesis
    using assms visible_word_chars [of "lg_id l" "CHR 0x1E"] joined_words [of "lg_parents l" "CHR 0x1E"]
    by (auto simp: print_fields_def printable_logged_def)
qed

lemma split_logged:
  assumes "CHR 0x1E \<notin> set (print_fields l)" and "list_all (\<lambda>k. CHR 0x1E \<notin> set (print_fields k)) ls"
  shows "split_on (CHR 0x1E) (concat (map print_logged ls) @ CHR 0x1E # print_fields l) =
    [] # map (\<lambda>k. print_fields k @ [CHR 0x0A]) ls @ [print_fields l]"
  using assms(2)
proof (induction ls)
  case Nil
  then show ?case using split_on_single [OF assms(1)] by simp
next
  case (Cons k ls)
  let ?rest = "concat (map print_logged ls) @ CHR 0x1E # print_fields l"
  have one: "CHR 0x1E \<notin> set (print_fields k @ [CHR 0x0A])" using Cons.prems by simp
  have "split_on (CHR 0x1E) ((print_fields k @ [CHR 0x0A]) @ ?rest) =
      (print_fields k @ [CHR 0x0A]) # tl (split_on (CHR 0x1E) ?rest)"
  proof -
    obtain s where s: "?rest = CHR 0x1E # s" by (cases ls) (auto simp: print_logged_def)
    show ?thesis unfolding s using split_on_line [OF one] by simp
  qed
  moreover have "split_on (CHR 0x1E) ?rest = [] # map (\<lambda>k. print_fields k @ [CHR 0x0A]) ls @ [print_fields l]"
    using Cons by simp
  moreover have "concat (map print_logged (k # ls)) @ CHR 0x1E # print_fields l =
      CHR 0x1E # (print_fields k @ [CHR 0x0A]) @ ?rest" by (simp add: print_logged_def [of k])
  ultimately show ?case by simp
qed

text \<open>
  A log reads back: from the text Git prints for commits in the format nota asks for, \<open>git_log\<close>
  gives exactly these commits, in their order, each with its first parent, its trimmed message and its
  paths, as long as no message has the byte 0x1E that starts a record.
\<close>

lemma log_reads_back:
  assumes "revisions \<noteq> []" and "list_all printable_logged ls" and "list_all (\<lambda>l. CHR 0x1E \<notin> set (lg_body l)) ls"
    and run: "gp_query P g r (log_command args) (join_with [CHR 0x0A] revisions @ [CHR 0x0A]) =
      Output (Some 0) (concat (map print_logged ls)) err"
  shows "git_log P g r args revisions = Inr (map read_logged ls)"
proof (cases ls rule: rev_cases)
  case Nil
  then show ?thesis using git_log_run [OF assms(1) run] by (simp add: trim_def trim_start_def trim_end_def strip_white.simps)
next
  case (snoc ks l)
  have l: "printable_logged l" "CHR 0x1E \<notin> set (print_fields l)" and ks: "list_all printable_logged ks"
    "list_all (\<lambda>k. CHR 0x1E \<notin> set (print_fields k)) ks"
    using assms(2,3) snoc print_fields_chars by (auto simp: list_all_iff)
  have pieces: "split_on (CHR 0x1E) (trim (concat (map print_logged ls))) =
      [] # map (\<lambda>k. print_fields k @ [CHR 0x0A]) ks @ [print_fields l]"
    using trim_log [OF l(1), of ks] split_logged [OF l(2) ks(2)] snoc by simp
  have older: "collect (log_record r) (map (\<lambda>k. print_fields k @ [CHR 0x0A]) ks) = Inr (map read_logged ks)"
    using ks(1) log_record_read by (induction ks) simp_all
  have newest: "log_record r (print_fields l) = Inr (read_logged l)" using log_record_read [OF l(1), of "[]"] by simp
  show ?thesis
    unfolding git_log_run [OF assms(1) run] pieces using older newest by (simp add: collect_append snoc)
qed

text \<open>
  C27. A message with the byte 0x1E breaks the log: if one of the commits that Git prints has it in its
  message, reading the log fails as a whole, and with it every operation that reads a review with this commit.
  Nothing keeps such a byte out of the text of a note.
\<close>

lemma record_separator_breaks_the_log:
  assumes "revisions \<noteq> []" and "list_all printable_logged ls" and "l \<in> set ls" and "CHR 0x1E \<in> set (lg_body l)"
    and run: "gp_query P g r (log_command args) (join_with [CHR 0x0A] revisions @ [CHR 0x0A]) =
      Output (Some 0) (concat (map print_logged ls)) err"
  shows "\<exists>e. git_log P g r args revisions = Inl e"
proof -
  obtain ks k where ls: "ls = ks @ [k]" using assms(3) by (metis list.distinct(1) list.set_cases rev_exhaust)
  have k: "printable_logged k" using assms(2) ls by simp
  let ?out = "concat (map print_logged ks) @ CHR 0x1E # print_fields k"
  obtain b c where body: "lg_body l = b @ CHR 0x1E # c" "CHR 0x1E \<notin> set b" using split_list_first [OF assms(4)] by blast
  let ?piece = "lg_id l @ [CHR 0x00] @ join_with '' '' (lg_parents l) @ [CHR 0x00] @ b"
  have l: "visible_word (lg_id l)" "list_all visible_word (lg_parents l)" "CHR 0x00 \<notin> set (lg_body l)"
    using assms(2,3) by (auto simp: list_all_iff printable_logged_def)
  obtain x y where "?out = x @ CHR 0x1E # print_fields l @ y"
  proof (cases "l = k")
    case False
    then obtain us vs where "ks = us @ l # vs" using assms(3) ls split_list [of l ks] by auto
    then show thesis
      by (intro that [of "concat (map print_logged us)"
        "[CHR 0x0A] @ concat (map print_logged vs) @ CHR 0x1E # print_fields k"]) (simp add: print_logged_def)
  qed (auto intro: that)
  then obtain z where "?out = x @ CHR 0x1E # ?piece @ CHR 0x1E # z" by (simp add: print_fields_def body(1))
  moreover have "CHR 0x1E \<notin> set ?piece" using l visible_word_chars joined_words body(2) by fastforce
  ultimately have "split_on (CHR 0x1E) ?out = split_on (CHR 0x1E) x @ ?piece # split_on (CHR 0x1E) z"
    using split_on_append [of "CHR 0x1E" x] split_on_line by metis
  then have piece: "?piece \<in> set (drop 1 (split_on (CHR 0x1E) ?out))"
    using split_on_not_Nil [of "CHR 0x1E" x] by (cases "split_on (CHR 0x1E) x") auto
  have nul: "CHR 0x00 \<notin> set (lg_id l)" "CHR 0x00 \<notin> set (join_with '' '' (lg_parents l))" "CHR 0x00 \<notin> set b"
    using l visible_word_chars joined_words body(1) by fastforce+
  then have "splitn 4 (CHR 0x00) ?piece = [lg_id l, join_with '' '' (lg_parents l), b]"
    by (simp add: eval_nat_numeral split_once_append split_once_None [THEN iffD2])
  then have bad: "\<not> is_ok (log_record r ?piece)" by (simp add: log_record_def result_simps)
  have "git_log P g r args revisions = collect (log_record r) (drop 1 (split_on (CHR 0x1E) ?out))"
    using git_log_run [OF assms(1) run] trim_log [OF k] ls by simp
  moreover have "\<not> is_ok (collect f xs)" if "v \<in> set xs" "\<not> is_ok (f v)" for f :: "string \<Rightarrow> commit res" and v xs
    using that by (induction xs) (auto simp: result_simps)
  ultimately show ?thesis using piece bad by (metis is_ok_iff sum.exhaust)
qed

definition printing :: "logged list \<Rightarrow> unit git_program" where
  "printing ls =
     \<lparr>gp_query = (\<lambda>g r args input. Output (Some 0) (concat (map print_logged ls)) []),
      gp_update = (\<lambda>r args input g. (NotStarted, g))\<rparr>"

definition sample_log :: "logged list" where
  "sample_log =
     [\<lparr>lg_id = ''b2'', lg_parents = [''a1'', ''a0''], lg_body = '' fix '', lg_paths = [''a b'', ''c'']\<rparr>,
      \<lparr>lg_id = ''a1'', lg_parents = [], lg_body = ''first'', lg_paths = []\<rparr>]"

lemma log_reads_back_witness:
  "git_log (printing sample_log) () ''.'' [] [''b2'', ''a1''] =
    Inr [\<lparr>cm_id = ''b2'', cm_first_parent = Some ''a1'', cm_message = ''fix'', cm_paths = [''a b'', ''c'']\<rparr>,
      \<lparr>cm_id = ''a1'', cm_first_parent = None, cm_message = ''first'', cm_paths = []\<rparr>]"
proof -
  have log: "list_all printable_logged sample_log" "list_all (\<lambda>l. CHR 0x1E \<notin> set (lg_body l)) sample_log"
    and trimmed: "map read_logged sample_log =
      [\<lparr>cm_id = ''b2'', cm_first_parent = Some ''a1'', cm_message = ''fix'', cm_paths = [''a b'', ''c'']\<rparr>,
       \<lparr>cm_id = ''a1'', cm_first_parent = None, cm_message = ''first'', cm_paths = []\<rparr>]" by code_simp+
  show ?thesis
    using log_reads_back [OF _ log, of "[''b2'', ''a1'']" "printing sample_log" "()" "''.''" "[]" "[]"] trimmed
    by (simp add: printing_def)
qed

lemma record_separator_breaks_the_log_witness:
  "\<exists>e. git_log (printing (map (lg_body_update (\<lambda>b. b @ [CHR 0x1E])) sample_log)) () ''.'' [] [''b2''] = Inl e"
proof -
  let ?log = "map (lg_body_update (\<lambda>b. b @ [CHR 0x1E])) sample_log"
  have log: "list_all printable_logged ?log" and one: "hd ?log \<in> set ?log" "CHR 0x1E \<in> set (lg_body (hd ?log))"
    by code_simp+
  show ?thesis
    using record_separator_breaks_the_log [OF _ log one, of "[''b2'']" "printing ?log" "()" "''.''" "[]" "[]"]
    by (simp add: printing_def)
qed

end
