(* ===== verification/Nota_Store_Spec.thy ===== *)
theory Nota_Store_Spec
  imports Nota_Review_Spec
begin

text \<open>
  The trailer store over a repository that keeps what the trait promises: an added note is the new last
  entry, a note that is refused changes nothing, a review that is started reads as an empty one, the search
  for a name ends, and a recorded source is accepted.
\<close>

section \<open>Reading a branch of the view\<close>

lemma branch_lawsD:
  assumes "branch_laws G g r C B"
  shows "finite (dom B)" and "B b = Some t \<Longrightarrow> git_branch_tip G g r b = Inr t"
    and "git_branch_tip G g r b = Inr t \<Longrightarrow> C t \<noteq> None"
    and "git_branch_exists G g r b = Inr (B b \<noteq> None)"
    and "git_resolve_commit G g r revision = Inr c \<Longrightarrow> is_commit_id c"
    and "git_resolve_commit G g r revision = Inr c \<Longrightarrow> C c \<noteq> None"
    and "git_validate_branch_name G g r b = Inr () \<Longrightarrow> b \<noteq> []"
    and "git_validate_branch_name G g r b = Inr () \<Longrightarrow> x \<in> set b \<Longrightarrow> 33 \<le> byte x"
  using assms unfolding branch_laws_def by blast+

lemma tip_history:
  assumes "history_laws G g r C" and "branch_laws G g r C B" and "B b = Some t"
  obtains h where "first_parents C t h"
proof -
  have "C t \<noteq> None" using branch_lawsD(2,3) [OF assms(2)] assms(3) by blast
  then show thesis using assms(1) that unfolding history_laws_def by blast
qed

lemma scan_entries:
  "scan_history cs b h newer = Inr (Some (m, es)) \<Longrightarrow> set es \<subseteq> set h \<union> set newer"
proof (induction cs b h newer rule: scan_history.induct)
  case (2 cs b i older newer)
  show ?case
  proof (cases "candidate_at cs i")
    case None
    then show ?thesis using 2 by auto
  next
    case (Some k)
    then obtain s where s: "marker_subject b i k = Inr s" using 2(3) by (auto simp: result_simps)
    then show ?thesis using 2 Some by (cases s) auto
  qed
qed simp

definition branch_found :: "string \<Rightarrow> string \<Rightarrow> (marker \<times> string list) option \<Rightarrow> branch res" where
  "branch_found b t found =
     ok_or (Bail ''`{}` is not a Nota review (no review marker found)'' [b])
       (map_option (\<lambda>(marker, entries). \<lparr>br_marker = marker, br_entries = entries, br_tip = t\<rparr>) found)"

lemma branch_reads:
  assumes H: "history_laws G g r C" and B: "branch_laws G g r C B" and b: "B b = Some t" and h: "first_parents C t h"
  obtains cs where "\<And>i. i \<in> set h \<Longrightarrow> candidate_at cs i = marked C i"
    and "read_branch G g r b = and_then (scan_history cs b h []) (branch_found b t)"
proof -
  obtain cs where cs: "git_commits_with_trailers G g r [t] marker_keys = Inr cs"
    and found: "\<And>k. k \<in> set cs \<longleftrightarrow> cm_id k \<in> set h \<and> C (cm_id k) = Some k \<and> has_key_line marker_keys (cm_message k)"
    using H h unfolding history_laws_def by meson
  have ids: "C i = Some k \<Longrightarrow> cm_id k = i" for i k using H by (simp add: history_laws_def)
  have "git_branch_tip G g r b = Inr t" using branch_lawsD(2) [OF B b] .
  moreover have "git_first_parent_history G g r t = Inr h" using H h by (simp add: history_laws_def)
  ultimately have "read_branch G g r b = and_then (scan_history cs b h []) (branch_found b t)"
    using cs by (cases "scan_history cs b h []")
      (simp_all add: branch_found_def read_branch_def marker_candidates_def read_branch_at_def with_context_simps)
  moreover have "candidate_at cs i = marked C i" if "i \<in> set h" for i
    by (rule candidate_marked [OF found that ids])
  ultimately show thesis by (rule that [rotated])
qed

lemma entries_read:
  assumes "history_laws G g r C" and "map C is = map Some ks"
  shows "entries_of G g r is = collect entry ks"
proof -
  have "length ks = length is" using assms(2) by (metis length_map)
  then show ?thesis using assms by (simp add: history_laws_def entries_of_def)
qed

lemma history_commits: "first_parents C t h \<Longrightarrow> set is \<subseteq> set h \<Longrightarrow> \<exists>ks. map C is = map Some ks"
proof (induction "is")
  case (Cons i "is")
  then obtain k ks where "C i = Some k" "map C is = map Some ks" using first_parents_commits by fastforce
  then have "map C (i # is) = map Some (k # ks)" by simp
  then show ?case by blast
qed simp

text \<open>Two repositories that agree on a branch and its history give one review.\<close>

lemma load_review_cong:
  assumes H: "history_laws G g r C" "history_laws G g' r C'"
    and B: "branch_laws G g r C B" "branch_laws G g' r C' B'"
    and tip: "B b = Some t" "B' b = Some t" and h: "first_parents C t h" "first_parents C' t h"
    and same: "\<And>i. i \<in> set h \<Longrightarrow> C' i = C i"
    and root: "git_repository_root G g path = Inr r" "git_repository_root G g' path = Inr r"
  shows "load_review G g' path b = load_review G g path b"
proof -
  obtain cs where cs: "\<And>i. i \<in> set h \<Longrightarrow> candidate_at cs i = marked C i"
    and read: "read_branch G g r b = and_then (scan_history cs b h []) (branch_found b t)"
    by (rule branch_reads [OF H(1) B(1) tip(1) h(1)]) blast
  obtain ds where ds: "\<And>i. i \<in> set h \<Longrightarrow> candidate_at ds i = marked C' i"
    and read': "read_branch G g' r b = and_then (scan_history ds b h []) (branch_found b t)"
    by (rule branch_reads [OF H(2) B(2) tip(2) h(2)]) blast
  have scan: "scan_history ds b h [] = scan_history cs b h []"
    by (rule scan_history_cong) (simp add: cs ds marked_def same)
  show ?thesis
  proof (cases "scan_history cs b h []")
    case (Inr found)
    show ?thesis
    proof (cases found)
      case (Some me)
      then obtain m es where me: "me = (m, es)" by force
      then have es: "set es \<subseteq> set h" using scan_entries [of cs b h "[]" m es] Inr Some by simp
      then obtain ks where ks: "map C es = map Some ks" using history_commits [OF h(1)] by blast
      moreover have "map C' es = map C es" using es same by auto
      ultimately have "entries_of G g' r es = entries_of G g r es"
        using entries_read [OF H(1) ks] entries_read [OF H(2)] by simp
      then show ?thesis by (simp add: load_review_def root read read' scan Inr Some me branch_found_def)
    qed (simp add: load_review_def root read read' scan Inr branch_found_def)
  qed (simp add: load_review_def root read read' scan)
qed

section \<open>Appending\<close>

lemma lawful_reads:
  assumes "git_reads_lawfully G view ok" and "ok g"
  shows "history_laws G g r (gv_commits (view g r))"
    and "branch_laws G g r (gv_commits (view g r)) (gv_branches (view g r))"
  using assms by (simp_all add: git_reads_lawfully_def)

text \<open>A commit the repository already has, or does not have, leaves the histories of the others.\<close>

lemma with_commit_same:
  "gv_commits v c \<in> {None, Some k} \<Longrightarrow> gv_commits v i = Some x \<Longrightarrow> gv_commits (with_commit c k v) i = Some x"
  by (auto simp: with_commit_def)

lemma with_commit_history:
  "gv_commits v c \<in> {None, Some k} \<Longrightarrow> first_parents (gv_commits v) t h \<Longrightarrow>
   first_parents (gv_commits (with_commit c k v)) t h"
  by (auto simp: with_commit_def intro: first_parents_new)

text \<open>What a commit on top of a branch does to the reviews of the repository.\<close>

definition advances ::
  "'g git \<Rightarrow> ('g \<Rightarrow> string \<Rightarrow> git_view) \<Rightarrow> string \<Rightarrow> string \<Rightarrow> string \<Rightarrow> commit \<Rightarrow> 'g \<Rightarrow> 'g \<Rightarrow> bool" where
  "advances G view r b c k g g' \<longleftrightarrow>
     git_repository_root G g' = git_repository_root G g \<and>
     gv_commits (view g r) c \<in> {None, Some k} \<and>
     view g' r = with_branch b c (with_commit c k (view g r))"

lemma review_kept:
  assumes reads: "git_reads_lawfully G view ok" "ok g" "ok g'"
    and kept: "gv_commits (view g r) c \<in> {None, Some k}"
    and new: "gv_commits (view g' r) = gv_commits (with_commit c k (view g r))"
    and tip: "gv_branches (view g r) x = Some t" "gv_branches (view g' r) x = Some t"
    and root: "git_repository_root G g path = Inr r" "git_repository_root G g' path = Inr r"
  shows "load_review G g' path x = load_review G g path x"
proof -
  note before = lawful_reads [OF reads(1,2), of r] and after = lawful_reads [OF reads(1,3), of r]
  obtain h where h: "first_parents (gv_commits (view g r)) t h" using tip_history [OF before tip(1)] .
  have "first_parents (gv_commits (view g' r)) t h" using with_commit_history [OF kept h] new by simp
  moreover have "gv_commits (view g' r) i = gv_commits (view g r) i" if "i \<in> set h" for i
    using first_parents_commits [OF h that] with_commit_same [OF kept] new by fastforce
  ultimately show ?thesis using load_review_cong [OF before(1) after(1) before(2) after(2) tip h] root by blast
qed

lemma other_reviews_kept:
  assumes reads: "git_reads_lawfully G view ok" "ok g" "ok g'"
    and adv: "advances G view r b c k g g'"
    and other: "x \<noteq> b" "gv_branches (view g r) x = Some t"
    and root: "git_repository_root G g path = Inr r"
  shows "load_review G g' path x = load_review G g path x"
  using adv other root by (intro review_kept [OF reads, of r c k x t path])
    (simp_all add: advances_def with_branch_def with_commit_def)

lemma review_grows:
  assumes reads: "git_reads_lawfully G view ok" "ok g" "ok g'"
    and adv: "advances G view r b c k g g'"
    and tip: "gv_branches (view g r) b = Some t" and parent: "cm_first_parent k = Some t"
    and unmarked: "\<And>i. marker_subject b i k = Inr None" and e: "entry k = Inr e"
    and root: "git_repository_root G g path = Inr r"
    and old: "load_review G g path b = Inr rv"
  shows "load_review G g' path b = Inr (rv\<lparr>rv_entries := rv_entries rv @ [e]\<rparr>)"
    and "entries_of G g' r [c] = Inr [e]"
proof -
  let ?C = "gv_commits (view g r)" and ?C' = "gv_commits (view g' r)"
  note before = lawful_reads [OF reads(1,2), of r] and after = lawful_reads [OF reads(1,3), of r]
  obtain h where h: "first_parents ?C t h" using tip_history [OF before tip] .
  have new: "?C' = gv_commits (with_commit c k (view g r))" "gv_branches (view g' r) b = Some c" "?C' c = Some k"
    using adv by (simp_all add: advances_def with_branch_def with_commit_def)
  have kept: "?C c \<in> {None, Some k}" using adv by (simp add: advances_def)
  have h': "first_parents ?C' c (c # h)"
    using with_commit_history [OF kept h] new parent by (auto intro: first_parents.intros)
  have same: "?C' i = ?C i" if "i \<in> set h" for i
    using first_parents_commits [OF h that] with_commit_same [OF kept] new(1) by fastforce
  obtain cs where cs: "\<And>i. i \<in> set h \<Longrightarrow> candidate_at cs i = marked ?C i"
    and read: "read_branch G g r b = and_then (scan_history cs b h []) (branch_found b t)"
    by (rule branch_reads [OF before tip h]) blast
  obtain ds where ds: "\<And>i. i \<in> set (c # h) \<Longrightarrow> candidate_at ds i = marked ?C' i"
    and read': "read_branch G g' r b = and_then (scan_history ds b (c # h) []) (branch_found b c)"
    by (rule branch_reads [OF after new(2) h']) blast
  obtain m es where scan: "scan_history cs b h [] = Inr (Some (m, es))"
    and entries: "entries_of G g r es = Inr (rv_entries rv)"
    and rv: "rv = \<lparr>rv_branch = b, rv_marker = mk_commit m, rv_subject = mk_subject m, rv_entries = rv_entries rv\<rparr>"
    using old by (auto simp: load_review_def root read branch_found_def result_simps)
  have "scan_history ds b (c # h) [] = scan_history ds b h ([] @ [c])"
    using unmarked ds [of c] new(3) by (auto simp: marked_def)
  also have "\<dots> = map_ok (map_option (\<lambda>(m, es). (m, es @ [c]))) (scan_history ds b h [])" by (rule scan_history_acc)
  also have "scan_history ds b h [] = scan_history cs b h []"
    by (rule scan_history_cong) (simp add: cs ds marked_def same)
  finally have scan': "scan_history ds b (c # h) [] = Inr (Some (m, es @ [c]))" by (simp add: scan)
  have "set es \<subseteq> set h" using scan_entries [OF scan] by simp
  then obtain ks where ks: "map ?C es = map Some ks" using history_commits [OF h] by blast
  have "map ?C' es = map ?C es" using \<open>set es \<subseteq> set h\<close> same by auto
  then have "entries_of G g' r (es @ [c]) = collect entry (ks @ [k])"
    using entries_read [OF after(1), of "es @ [c]" "ks @ [k]"] ks new(3) by simp
  moreover have "collect entry ks = Inr (rv_entries rv)" using entries entries_read [OF before(1) ks] by simp
  ultimately have "entries_of G g' r (es @ [c]) = Inr (rv_entries rv @ [e])" using e by (simp add: collect_append)
  moreover have "git_repository_root G g' path = Inr r" using root adv by (simp add: advances_def)
  moreover have "read_branch G g' r b = Inr \<lparr>br_marker = m, br_entries = es @ [c], br_tip = c\<rparr>"
    unfolding read' scan' by (simp add: branch_found_def)
  ultimately show "load_review G g' path b = Inr (rv\<lparr>rv_entries := rv_entries rv @ [e]\<rparr>)"
    using rv by (cases rv) (simp add: load_review_def)
  show "entries_of G g' r [c] = Inr [e]" using entries_read [OF after(1), of "[c]" "[k]"] new(3) e by simp
qed

section \<open>Adding a note\<close>

lemma found_tip: "branch_laws G g r C B \<Longrightarrow> read_branch G g r b = Inr found \<Longrightarrow> C (br_tip found) \<noteq> None"
  using branch_lawsD(3) [of G g r C B b "br_tip found"]
  by (auto simp: read_branch_def read_branch_at_def result_simps eq_commute [of "Some found"])

lemma checked_source:
  assumes "branch_laws G g r C B" and "check_source G g r s = Inr ()" and "ns_last s \<le> usize_max"
  shows "writable_source s"
proof -
  have "git_resolve_commit G g r (ns_revision s) = Inr (ns_revision s)"
    using assms(2) by (auto simp: check_source_def result_simps split: if_splits)
  then have "is_commit_id (ns_revision s)" by (rule branch_lawsD(5) [OF assms(1)])
  then show ?thesis using assms(2,3)
    by (auto simp: check_source_def result_simps writable_source_def valid_source_def Let_def
        split: if_splits option.splits)
qed

lemma note_unmarked:
  assumes "trim prose = prose" and "prose \<noteq> []" and "\<forall>s. source = Some s \<longrightarrow> writable_source s"
    and "cm_message k = trim (note_message prose source)"
  shows "marker_subject b i k = Inr None"
  using note_splits [OF assms(1-3)] assms(4)
  by (cases source) (simp_all add: marker_subject_def trailer_simps REVIEW_TRAILER_def SUBJECT_TRAILER_def)

lemma loggable_simps:
  "loggable (x @ y) \<longleftrightarrow> loggable x \<and> loggable y"
  "loggable (c # y) \<longleftrightarrow> c \<noteq> CHR 0x00 \<and> c \<noteq> CHR 0x1E \<and> loggable y"
  "loggable []"
  by (auto simp: loggable_def)

lemma loggable_plain: "(\<And>c. c \<in> set s \<Longrightarrow> plain c) \<Longrightarrow> loggable s"
  unfolding loggable_def by (fastforce simp: plain_def)

lemma format_source_loggable: "writable_source s \<Longrightarrow> loggable (ns_path s) \<Longrightarrow> loggable (format_source s)"
  using commit_id_chars digit_chars
  by (auto simp: format_source_def loggable_simps writable_source_def valid_source_def intro!: loggable_plain)

lemma note_message_loggable:
  "loggable prose \<Longrightarrow> \<forall>s. source = Some s \<longrightarrow> writable_source s \<and> loggable (ns_path s) \<Longrightarrow>
   loggable (note_message prose source)"
  using format_source_loggable
  by (auto simp: note_message_def loggable_simps NOTE_TRAILER_def SOURCE_TRAILER_def split: option.splits)

lemma st_case_iff: "(case m of (r, s) \<Rightarrow> (f r, s)) = (y, t) \<longleftrightarrow> (\<exists>r. m = (r, t) \<and> f r = y)"
  by (cases m) auto

text \<open>What adding a note comes to: a commit on the tip, and the branch moved from the tip to it.\<close>

lemma append_note_Inr:
  assumes laws: "git_writes_lawfully G view ok" "git_reads_lawfully G view ok" and g: "ok g"
    and tip: "gv_commits (view g r) (br_tip found) \<noteq> None" and m: "loggable m"
    and run: "append_note G r b found m g = (Inr e, g')"
  obtains c where "ok g'" "advances G view r b c (empty_commit c (br_tip found) m) g g'"
    "gv_branches (view g r) b = Some (br_tip found)" "map_ok hd (entries_of G g' r [c]) = Inr e"
proof -
  let ?k = "\<lambda>c. empty_commit c (br_tip found) m"
  obtain c g1 where commit: "git_commit_empty G r (br_tip found) m g = (Inr c, g1)"
    and update: "git_update_branch G r b c (br_tip found) g1 = (Inr (), g')"
    and e: "map_ok hd (entries_of G g' r [c]) = Inr e"
    using run by (auto simp: append_note_def result_simps with_context_Inr_iff st_case_iff)
  have first: "ok g1" "git_repository_root G g1 = git_repository_root G g"
    "gv_commits (view g r) c \<in> {None, Some (?k c)}" "view g1 r = with_commit c (?k c) (view g r)"
    using laws(1) g tip m commit unfolding git_writes_lawfully_def commit_laws_def by blast+
  have "gv_commits (view g1 r) c \<noteq> None" using first(4) by (simp add: with_commit_def)
  then have second: "ok g'" "git_repository_root G g' = git_repository_root G g1"
    "gv_branches (view g1 r) b = Some (br_tip found)" "view g' r = with_branch b c (view g1 r)"
    using laws(1) first(1) update unfolding git_writes_lawfully_def ref_laws_def by blast+
  show thesis
    using first second e by (intro that [of c]) (simp_all add: advances_def with_commit_def)
qed

lemma append_note_Inl:
  assumes laws: "git_writes_lawfully G view ok" and g: "ok g"
    and tip: "gv_commits (view g r) (br_tip found) \<noteq> None" and m: "loggable m"
    and run: "append_note G r b found m g = (Inl e, g')"
  obtains "g' = g"
  | c where "ok g'" "git_repository_root G g' = git_repository_root G g"
      "gv_commits (view g r) c \<in> {None, Some (empty_commit c (br_tip found) m)}"
      "view g' r = with_commit c (empty_commit c (br_tip found) m) (view g r)"
  | c where "ok g'" "advances G view r b c (empty_commit c (br_tip found) m) g g'"
      "gv_branches (view g r) b = Some (br_tip found)" "map_ok hd (entries_of G g' r [c]) = Inl e"
proof -
  let ?k = "\<lambda>c. empty_commit c (br_tip found) m"
  obtain c g1 where commit: "git_commit_empty G r (br_tip found) m g = (c, g1)" by force
  show thesis
  proof (cases c)
    case (Inl d)
    then have "g1 = g" using laws g tip m commit unfolding git_writes_lawfully_def commit_laws_def by blast
    then show thesis using run commit Inl that(1) by (auto simp: append_note_def st_then_def)
  next
    case (Inr c)
    then have first: "ok g1" "git_repository_root G g1 = git_repository_root G g"
      "gv_commits (view g r) c \<in> {None, Some (?k c)}" "view g1 r = with_commit c (?k c) (view g r)"
      using laws g tip m commit unfolding git_writes_lawfully_def commit_laws_def by blast+
    have there: "gv_commits (view g1 r) c \<noteq> None" using first(4) by (simp add: with_commit_def)
    obtain u g2 where update: "git_update_branch G r b c (br_tip found) g1 = (u, g2)" by force
    show thesis
    proof (cases u)
      case (Inl d)
      then have "g2 = g1" using laws first(1) there update unfolding git_writes_lawfully_def ref_laws_def by blast
      then have "g' = g1" using run commit \<open>_ = Inr c\<close> update Inl
        by (auto simp: append_note_def st_then_def with_context_simps)
      then show thesis using first that(2) by blast
    next
      case (Inr x)
      then have update: "git_update_branch G r b c (br_tip found) g1 = (Inr (), g2)" using update by simp
      then have second: "ok g2" "git_repository_root G g2 = git_repository_root G g1"
        "gv_branches (view g1 r) b = Some (br_tip found)" "view g2 r = with_branch b c (view g1 r)"
        using laws first(1) there unfolding git_writes_lawfully_def ref_laws_def by blast+
      have "g' = g2" "map_ok hd (entries_of G g2 r [c]) = Inl e"
        using run commit \<open>_ = Inr c\<close> update by (auto simp: append_note_def st_then_def st_read_def with_context_simps)
      then show thesis using first second by (intro that(3) [of c]) (simp_all add: advances_def with_commit_def)
    qed
  qed
qed

text \<open>A note as the writing part sees it: a trimmed text, and a source that was checked.\<close>

definition note_of :: "string \<Rightarrow> string \<Rightarrow> note_source option \<Rightarrow> review_entry" where
  "note_of c prose source =
     \<lparr>re_commit = c, re_message = prose, re_kind = Note, re_paths = [], re_source = source\<rparr>"

lemma new_note_entry:
  assumes "trim prose = prose" and "prose \<noteq> []" and "\<forall>s. source = Some s \<longrightarrow> writable_source s"
  shows "entry (empty_commit c t (note_message prose source)) = Inr (note_of c prose source)"
  using note_entry_reads [OF assms, of "empty_commit c t (note_message prose source)"]
  by (simp add: empty_commit_def note_of_def)

lemma add_note_runs:
  assumes laws: "git_reads_lawfully G view ok" "ok g"
    and root: "git_repository_root G g path = Inr r" and found: "read_branch G g r b = Inr found"
    and run: "add_note G path b message source g = (res, g')"
    and log: "loggable message" "\<forall>s. source = Some s \<longrightarrow> ns_last s \<le> usize_max \<and> loggable (ns_path s)"
  obtains d where "res = Inl d" "g' = g"
  | "append_note G r b found (note_message (trim message) source) g = (res, g')" "trim message \<noteq> []"
    "\<forall>s. source = Some s \<longrightarrow> writable_source s" "loggable (note_message (trim message) source)"
proof -
  have checked: "writable_source s"
    if "source = Some s" "check_source G g r s = Inr ()" for s
    using checked_source [OF lawful_reads(2) [OF laws] that(2)] log(2) that(1) by simp
  have "loggable (trim message)"
    using log(1) set_trim [of message] by (auto simp: loggable_def)
  then have log': "loggable (note_message (trim message) source)" if "\<forall>s. source = Some s \<longrightarrow> writable_source s"
    using log(2) that by (intro note_message_loggable) auto
  show thesis
  proof (cases "trim message = []")
    case True
    then show thesis using run by (intro that(1)) (auto simp: add_note_def st_fail_def)
  next
    case False
    then have steps: "st_then (st_read (\<lambda>g. case source of None \<Rightarrow> Inr () | Some s \<Rightarrow> check_source G g r s))
        (\<lambda>_. append_note G r b found (note_message (trim message) source)) g = (res, g')"
      using run root found by (simp add: add_note_def Let_def st_then_def [of "st_read _"] st_read_def)
    show thesis
    proof (cases "case source of None \<Rightarrow> Inr () | Some s \<Rightarrow> check_source G g r s")
      case (Inl d)
      then show thesis using steps by (intro that(1)) (auto simp: st_then_def st_read_def)
    next
      case (Inr x)
      then have "\<forall>s. source = Some s \<longrightarrow> writable_source s" using checked by auto
      moreover have "append_note G r b found (note_message (trim message) source) g = (res, g')"
        using steps Inr by (simp add: st_then_def [of "st_read _"] st_read_def)
      ultimately show thesis using False log' by (intro that(2)) auto
    qed
  qed
qed

section \<open>Notes are appended\<close>

text \<open>
  C7. A note that is added becomes the last entry of its review and reads back as it was given: the review,
  loaded again, has the entries it had and then the note, with the trimmed text and the source; every other
  branch gives what it gave. The laws of the queries and of the writing operations of the trait are named
  hypotheses, and the text and the path of the source have none of the two bytes the log is separated by.
\<close>

lemma added_note_is_appended:
  assumes laws: "git_reads_lawfully G view ok" "git_writes_lawfully G view ok" and "ok g"
    and root: "git_repository_root G g path = Inr r"
    and log: "loggable message" "\<forall>s. source = Some s \<longrightarrow> ns_last s \<le> usize_max \<and> loggable (ns_path s)"
    and old: "load_review G g path b = Inr rv"
    and run: "add_note G path b message source g = (Inr e, g')"
  shows "(\<exists>c. e = \<lparr>re_commit = c, re_message = trim message, re_kind = Note, re_paths = [], re_source = source\<rparr>) \<and>
    load_review G g' path b = Inr (rv\<lparr>rv_entries := rv_entries rv @ [e]\<rparr>) \<and>
    (\<forall>x t. x \<noteq> b \<longrightarrow> gv_branches (view g r) x = Some t \<longrightarrow> load_review G g' path x = load_review G g path x)"
proof -
  obtain found where found: "read_branch G g r b = Inr found" using old root by (auto simp: load_review_def result_simps)
  have added: "append_note G r b found (note_message (trim message) source) g = (Inr e, g')" "trim message \<noteq> []"
    "\<forall>s. source = Some s \<longrightarrow> writable_source s" "loggable (note_message (trim message) source)"
    using add_note_runs [OF laws(1) assms(3) root found run log] by auto
  note reads = lawful_reads [OF laws(1) assms(3), of r]
  obtain c where c: "ok g'" "advances G view r b c (empty_commit c (br_tip found) (note_message (trim message) source)) g g'"
    "gv_branches (view g r) b = Some (br_tip found)" "map_ok hd (entries_of G g' r [c]) = Inr e"
    using append_note_Inr [OF laws(2,1) assms(3) found_tip [OF reads(2) found] added(4,1)] by blast
  let ?k = "empty_commit c (br_tip found) (note_message (trim message) source)"
  have k: "entry ?k = Inr (note_of c (trim message) source)"
    by (rule new_note_entry [OF trim_trim added(2,3)])
  have unmarked: "marker_subject b i ?k = Inr None" for i
    by (rule note_unmarked [OF trim_trim added(2,3)]) (simp add: empty_commit_def)
  have parent: "cm_first_parent ?k = Some (br_tip found)" by (simp add: empty_commit_def)
  note grown = review_grows [OF laws(1) assms(3) c(1,2,3) parent unmarked k root old]
  have "e = note_of c (trim message) source" using grown(2) c(4) by simp
  then show ?thesis
    using grown(1) other_reviews_kept [OF laws(1) assms(3) c(1,2) _ _ root] by (auto simp: note_of_def)
qed


end
