(* ===== verification/Nota_Start_Spec.thy ===== *)
theory Nota_Start_Spec
  imports Nota_Store_Spec
begin

text \<open>
  Starting a review (\<open>TrailerReviewStore::start\<close>): the marker commit reads back as the marker of the
  branch, so the new review is empty, and the search for a default name ends with an unused one.
\<close>

section \<open>The marker commit\<close>

definition marker_paragraph :: "string \<Rightarrow> string \<Rightarrow> string" where
  "marker_paragraph b s = ''Nota-Review: '' @ b @ CHR 0x0A # ''Nota-Subject: '' @ s"

definition marker_parts :: "string \<Rightarrow> string \<Rightarrow> string \<Rightarrow> string" where
  "marker_parts revision b s = (''Start review of '' @ revision) @ [CHR 0x0A, CHR 0x0A] @ marker_paragraph b s"

lemma commit_id_ends:
  assumes "is_commit_id s"
  obtains c cs d ds where "s = c # cs" "plain c" "s = ds @ [d]" "plain d"
proof -
  have "s \<noteq> []" using assms by (auto simp: is_commit_id_def)
  then obtain c cs ds d where s: "s = c # cs" "s = ds @ [d]" by (metis list.exhaust rev_exhaust)
  have "plain c" "plain d" using commit_id_chars [OF assms, of c] commit_id_chars [OF assms, of d] s by (metis in_set_conv_decomp list.set_intros(1))+
  then show thesis using s that by blast
qed

lemma marker_message_trimmed:
  assumes "is_commit_id s"
  shows "trim (marker_message revision b s) = marker_parts revision b s"
    and "trim_end (marker_parts revision b s) = marker_parts revision b s"
proof -
  let ?m = "marker_parts revision b s"
  obtain ds d where d: "s = ds @ [d]" "plain d" using commit_id_ends [OF assms] by metis
  have S: "plain (CHR ''S'')" by (simp add: plain_def)
  have "?m = ((''Start review of '' @ revision) @ [CHR 0x0A, CHR 0x0A] @ ''Nota-Review: '' @ b @ CHR 0x0A # ''Nota-Subject: '' @ ds) @ [d]"
    by (simp add: marker_parts_def marker_paragraph_def d(1))
  then show kept: "trim_end ?m = ?m" using trim_end_plain [OF d(2)] by metis
  have "marker_message revision b s = ?m @ [CHR 0x0A]"
    by (simp add: marker_message_def marker_parts_def marker_paragraph_def REVIEW_TRAILER_def SUBJECT_TRAILER_def)
  moreover have "trim_start (?m @ [CHR 0x0A]) = ?m @ [CHR 0x0A]"
    using trim_start_plain [OF S] by (simp add: marker_parts_def)
  ultimately show "trim (marker_message revision b s) = ?m" using kept trim_end_newline [of ?m] by (simp add: trim_def)
qed

text \<open>A branch name that Git accepts and that has no white space at its ends.\<close>

definition trailer_name :: "string \<Rightarrow> bool" where
  "trailer_name b \<longleftrightarrow> b \<noteq> [] \<and> trim b = b \<and> (\<forall>c \<in> set b. 33 \<le> byte c)"

lemma trim_blank: "trim (CHR '' '' # b) = trim b"
  by (simp add: trim_def trim_start_blank)

lemma marker_line:
  assumes "list_all is_ascii_alphanumeric_or_dash key" "key \<noteq> []" "trim v = v"
  shows "trailer_line (key @ CHR '':'' # CHR '' '' # v) = Some (key, v)"
proof -
  have "CHR '':'' \<notin> set key"
    using assms(1) by (auto simp: list_all_iff is_ascii_alphanumeric_or_dash_def in_range_def)
  then have "split_once (CHR '':'') (key @ CHR '':'' # CHR '' '' # v) = Some (key, CHR '' '' # v)"
    by (simp add: split_once_Some)
  then show ?thesis using assms by (simp add: trailer_line_def trim_blank)
qed

lemma no_newline: "trailer_name b \<Longrightarrow> CHR 0x0A \<notin> set b"
  unfolding trailer_name_def by fastforce

lemma commit_id_name: assumes "is_commit_id s" shows "trailer_name s"
proof -
  obtain c cs d ds where s: "s = c # cs" "plain c" "s = ds @ [d]" "plain d" by (rule commit_id_ends [OF assms])
  have "trim s = s" using s trim_start_plain trim_end_plain unfolding trim_def by metis
  then show ?thesis using s commit_id_chars [OF assms] by (auto simp: trailer_name_def plain_def)
qed

lemma strip_cr_name:
  assumes "trailer_name b"
  shows "strip_cr (l @ b) = l @ b"
proof -
  have "last b \<noteq> CHR 0x0D" using assms last_in_set [of b] unfolding trailer_name_def by fastforce
  then show ?thesis using assms by (simp add: strip_cr_def trailer_name_def)
qed

lemma marker_lines:
  assumes "trailer_name b" and "trailer_name s"
  shows "split_on (CHR 0x0A) (marker_paragraph b s) = [''Nota-Review: '' @ b, ''Nota-Subject: '' @ s]"
    and "lines (marker_paragraph b s) = [''Nota-Review: '' @ b, ''Nota-Subject: '' @ s]"
proof -
  have "split_on (CHR 0x0A) ((''Nota-Review: '' @ b) @ CHR 0x0A # ''Nota-Subject: '' @ s) =
      (''Nota-Review: '' @ b) # split_on (CHR 0x0A) (''Nota-Subject: '' @ s)"
    using no_newline [OF assms(1)] by (intro split_on_line) simp
  also have "split_on (CHR 0x0A) (''Nota-Subject: '' @ s) = [''Nota-Subject: '' @ s]"
    using no_newline [OF assms(2)] by (intro split_on_single) simp
  finally show split: "split_on (CHR 0x0A) (marker_paragraph b s) = [''Nota-Review: '' @ b, ''Nota-Subject: '' @ s]"
    by (simp add: marker_paragraph_def)
  then show "lines (marker_paragraph b s) = [''Nota-Review: '' @ b, ''Nota-Subject: '' @ s]"
    using strip_cr_name [OF assms(1), of "''Nota-Review: ''"] by (simp add: lines_def)
qed

lemma marker_splits:
  assumes b: "trailer_name b" and s: "is_commit_id s"
  shows "snd (split_trailers (marker_parts revision b s)) = [(''Nota-Review'', b), (''Nota-Subject'', s)]"
proof -
  have key: "list_all is_ascii_alphanumeric_or_dash ''Nota-Review''" "list_all is_ascii_alphanumeric_or_dash ''Nota-Subject''"
    by code_simp+
  have tr: "trim b = b" "trim s = s" using b commit_id_name [OF s] by (simp_all add: trailer_name_def)
  have trailers: "those (map trailer_line (lines (marker_paragraph b s))) = Some [(''Nota-Review'', b), (''Nota-Subject'', s)]"
    using marker_line [OF key(1) _ tr(1)] marker_line [OF key(2) _ tr(2)]
    by (simp add: marker_lines [OF b commit_id_name [OF s]])
  have "count_list (marker_paragraph b s) (CHR 0x0A) \<le> 1"
    using no_newline [OF b] no_newline [OF commit_id_name [OF s]]
    by (simp add: marker_paragraph_def count_list_0_iff)
  then have "rsplit_once_str [CHR 0x0A, CHR 0x0A] (marker_parts revision b s) =
      Some (''Start review of '' @ revision, marker_paragraph b s)"
    unfolding marker_parts_def by (intro split_at_blank_line) (simp_all add: marker_paragraph_def)
  then show ?thesis
    using marker_message_trimmed(2) [OF s] trailers by (simp add: split_trailers_def)
qed

lemma marker_found:
  assumes b: "trailer_name b" and s: "is_commit_id s"
  shows "has_key_line marker_keys (marker_parts revision b s)"
proof -
  have "''Nota-Review: '' @ b \<in> set (split_on (CHR 0x0A) (marker_parts revision b s))"
    using split_on_append [of "CHR 0x0A" "''Start review of '' @ revision" "CHR 0x0A # marker_paragraph b s"]
      marker_lines(1) [OF b commit_id_name [OF s]] by (simp add: marker_parts_def)
  moreover have "prefix (REVIEW_TRAILER @ '':'') (''Nota-Review: '' @ b)" by (simp add: REVIEW_TRAILER_def)
  ultimately show ?thesis unfolding has_key_line_def list_ex_iff by (meson list.set_intros(1))
qed

lemma marker_subject_found:
  assumes b: "trailer_name b" and s: "is_commit_id s"
  shows "marker_subject b i (empty_commit c s (marker_message revision b s)) = Inr (Some s)"
  using marker_splits [OF b s, of revision] marker_message_trimmed(1) [OF s] b commit_id_name [OF s]
  by (simp add: marker_subject_def empty_commit_def trailer_simps trailer_name_def REVIEW_TRAILER_def SUBJECT_TRAILER_def)

section \<open>A started review\<close>

lemma start_review_Some:
  assumes "start_review G path revision branch g = Some (Inr sd, g')"
  obtains r subject b where "git_repository_root G g path = Inr r" "git_resolve_commit G g r revision = Inr subject"
    "start_named G r revision subject b g = (Inr sd, g')"
  using assms by (auto simp: start_review_def result_simps split: sum.splits)

lemma start_named_Inr:
  assumes laws: "git_reads_lawfully G view ok" "git_writes_lawfully G view ok" and "ok g"
    and subject: "gv_commits (view g r) subject \<noteq> None"
    and m: "loggable (marker_message revision b subject)"
    and run: "start_named G r revision subject b g = (Inr sd, g')"
  obtains c where "sd = \<lparr>sd_branch = b, sd_marker = c, sd_subject = subject, sd_repository = r\<rparr>" "ok g'"
    "gv_branches (view g r) b = None" "git_validate_branch_name G g r b = Inr ()"
    "advances G view r b c (empty_commit c subject (marker_message revision b subject)) g g'"
proof -
  let ?k = "\<lambda>c. empty_commit c subject (marker_message revision b subject)"
  obtain c g1 where valid: "git_validate_branch_name G g r b = Inr ()"
    and commit: "git_commit_empty G r subject (marker_message revision b subject) g = (Inr c, g1)"
    and create: "git_create_branch G r b c g1 = (Inr (), g')"
    and sd: "sd = \<lparr>sd_branch = b, sd_marker = c, sd_subject = subject, sd_repository = r\<rparr>"
    using run by (auto simp: start_named_def result_simps split: if_splits)
  have first: "ok g1" "git_repository_root G g1 = git_repository_root G g"
    "gv_commits (view g r) c \<in> {None, Some (?k c)}" "view g1 r = with_commit c (?k c) (view g r)"
    using laws(2) assms(3) subject m commit unfolding git_writes_lawfully_def commit_laws_def by blast+
  have "gv_commits (view g1 r) c \<noteq> None" using first(4) by (simp add: with_commit_def)
  then have second: "ok g'" "git_repository_root G g' = git_repository_root G g1"
    "gv_branches (view g1 r) b = None" "view g' r = with_branch b c (view g1 r)"
    using laws(2) first(1) create unfolding git_writes_lawfully_def ref_laws_def by blast+
  show thesis using first second sd valid by (intro that [of c]) (simp_all add: advances_def with_commit_def)
qed

lemma marker_message_loggable:
  assumes "loggable revision" and "trailer_name b" and "is_commit_id s"
  shows "loggable (marker_message revision b s)"
proof -
  have "loggable b" using assms(2) unfolding trailer_name_def loggable_def by fastforce
  moreover have "loggable s" using commit_id_chars [OF assms(3)] by (intro loggable_plain) blast
  ultimately show ?thesis using assms(1)
    by (simp add: marker_message_def loggable_simps REVIEW_TRAILER_def SUBJECT_TRAILER_def)
qed


section \<open>The default name\<close>

lemma show_nat_inj: "show_nat m = show_nat n \<Longrightarrow> m = n"
proof -
  assume same: "show_nat m = show_nat n"
  have "m + n < 2 ^ (m + n)" by (rule less_exp)
  then have bounds: "m < 2 ^ (m + n)" "n < 2 ^ (m + n)" by linarith+
  show "m = n" using parse_show_nat [OF bounds(1)] parse_show_nat [OF bounds(2)] unfolding same by simp
qed

lemma unused_branch_finds:
  assumes taken: "\<And>b. taken b = Inr (b \<in> D)" and free: "stem @ ''-'' @ show_nat (n + d) \<notin> D"
  shows "\<exists>b. unused_branch taken stem branch n = Some (Inr b) \<and> b \<notin> D"
proof -
  have step: "unused_branch taken stem b m =
      (if b \<in> D then unused_branch taken stem (stem @ ''-'' @ show_nat m) (m + 1) else Some (Inr b))" for b m
    by (subst unused_branch.simps) (simp only: taken sum.case)
  show ?thesis using free
  proof (induction d arbitrary: n branch)
    case 0
    then show ?case using step [of branch n] step [of "stem @ ''-'' @ show_nat n" "n + 1"] by auto
  next
    case (Suc d)
    then show ?case using Suc.IH [of "n + 1" "stem @ ''-'' @ show_nat n"] step [of branch n] by auto
  qed
qed

lemma some_name_is_free:
  assumes "finite D"
  obtains d where "stem @ ''-'' @ show_nat (n + d) \<notin> D"
proof (rule ccontr)
  assume "\<not> thesis"
  then have "range (\<lambda>d. stem @ ''-'' @ show_nat (n + d)) \<subseteq> D" using that by blast
  moreover have "inj (\<lambda>d. stem @ ''-'' @ show_nat (n + d))" by (rule injI) (auto dest: show_nat_inj)
  ultimately show False using assms finite_imageD finite_subset infinite_UNIV_nat by blast
qed

text \<open>
  C25. Starting a review always returns: the search for a default name tries one name after the other and
  ends because a repository has finitely many branches, and what it finds is the name of no branch.
\<close>

lemma start_review_returns:
  assumes laws: "git_reads_lawfully G view ok" and "ok g"
  shows "start_review G path revision branch g \<noteq> None \<and>
    (\<forall>r subject stem. review_stem G g r revision subject = Inr stem \<longrightarrow>
      (\<exists>b. default_branch G g r revision subject = Some (Inr b) \<and> gv_branches (view g r) b = None))"
proof -
  have found: "\<exists>b. default_branch G g r revision subject = Some (Inr b) \<and> gv_branches (view g r) b = None"
    if stem: "review_stem G g r revision subject = Inr stem" for r subject stem
  proof -
    note reads = lawful_reads [OF assms, of r]
    let ?D = "dom (gv_branches (view g r))"
    obtain d where d: "stem @ ''-'' @ show_nat (2 + d) \<notin> ?D"
      by (rule some_name_is_free [OF branch_lawsD(1) [OF reads(2)]])
    have "git_branch_exists G g r b = Inr (b \<in> ?D)" for b
      using branch_lawsD(4) [OF reads(2), of b] by (simp add: domIff)
    from unused_branch_finds [of "git_branch_exists G g r" ?D, OF this d, of stem] stem
    show ?thesis by (auto simp: default_branch_def domIff simp del: not_None_eq)
  qed
  have "default_branch G g r revision subject \<noteq> None" for r subject
  proof (cases "review_stem G g r revision subject")
    case (Inr stem)
    then show ?thesis using found [OF Inr] by auto
  qed (simp add: default_branch_def)
  then have "start_review G path revision branch g \<noteq> None"
    by (cases branch) (auto simp: start_review_def simp del: not_None_eq split: sum.split)
  then show ?thesis using found by blast
qed

section \<open>The source that is recorded for a note\<close>

text \<open>
  What the note's source rests on beyond the laws above: a full id resolves to itself, and storing a blob
  changes nothing a query of the trait answers about revisions and files.
\<close>

definition blob_laws :: "'g git \<Rightarrow> bool" where
  "blob_laws G \<longleftrightarrow>
     (\<forall>g r revision c. git_resolve_commit G g r revision = Inr c \<longrightarrow> git_resolve_commit G g r c = Inr c) \<and>
     (\<forall>g r f x i g'. git_write_blob G r f x g = (i, g') \<longrightarrow>
        git_resolve_commit G g' = git_resolve_commit G g \<and> git_read_file G g' = git_read_file G g)"


end
