(* ===== verification/Nota_Sample.thy ===== *)
theory Nota_Sample
  imports Nota_Start_Spec
begin

text \<open>
  A repository kept in memory that has what the trait promises, and the properties of the trailer store
  applied to it: a review is started and a note is added to it. A new commit comes in front of the others
  and is named by a text longer than all their names.
\<close>

section \<open>The repository\<close>

record memory =
  mem_commits :: "commit list"
  mem_branches :: "(string \<times> string) list"

definition commit_at :: "commit list \<Rightarrow> string \<Rightarrow> commit option" where
  "commit_at ks i = find (\<lambda>k. cm_id k = i) ks"

fun history_at :: "commit list \<Rightarrow> string \<Rightarrow> string list option" where
  "history_at [] t = None"
| "history_at (k # ks) t =
     (if cm_id k = t
      then (case cm_first_parent k of None \<Rightarrow> Some [t] | Some p \<Rightarrow> map_option ((#) t) (history_at ks p))
      else history_at ks t)"

fun grown :: "commit list \<Rightarrow> bool" where
  "grown [] \<longleftrightarrow> True"
| "grown (k # ks) \<longleftrightarrow>
     commit_at ks (cm_id k) = None \<and> (case cm_first_parent k of None \<Rightarrow> True | Some p \<Rightarrow> commit_at ks p \<noteq> None) \<and> grown ks"

definition memory_ok :: "memory \<Rightarrow> bool" where
  "memory_ok m \<longleftrightarrow> grown (mem_commits m) \<and> (\<forall>bt \<in> set (mem_branches m). commit_at (mem_commits m) (snd bt) \<noteq> None)"

definition memory_view :: "memory \<Rightarrow> string \<Rightarrow> git_view" where
  "memory_view m r = \<lparr>gv_commits = commit_at (mem_commits m), gv_branches = map_of (mem_branches m)\<rparr>"

definition no_such :: error where "no_such = Bail ''not found'' []"

definition new_id :: "commit list \<Rightarrow> string" where
  "new_id ks = ''c'' @ concat (map cm_id ks)"

definition found_with :: "commit list \<Rightarrow> string list \<Rightarrow> string list \<Rightarrow> commit list" where
  "found_with ks tips keys =
     filter (\<lambda>k. list_ex (\<lambda>t. case history_at ks t of None \<Rightarrow> False | Some h \<Rightarrow> cm_id k \<in> set h) tips \<and>
       has_key_line keys (cm_message k)) ks"

definition memory_git :: "memory git" where
  "memory_git =
     \<lparr>git_repository_root = (\<lambda>m path. Inr path),
      git_resolve_commit = (\<lambda>m r revision.
        if is_commit_id revision \<and> commit_at (mem_commits m) revision \<noteq> None then Inr revision else Inl no_such),
      git_current_branch = (\<lambda>m r. Inr None),
      git_validate_branch_name = (\<lambda>m r b. if b \<noteq> [] \<and> list_all (\<lambda>c. 33 \<le> byte c) b then Inr () else Inl no_such),
      git_branch_exists = (\<lambda>m r b. Inr (map_of (mem_branches m) b \<noteq> None)),
      git_branch_tip = (\<lambda>m r b.
        case map_of (mem_branches m) b of None \<Rightarrow> Inl no_such | Some t \<Rightarrow> Inr t),
      git_local_branches = (\<lambda>m r. Inr (AList.clearjunk (mem_branches m))),
      git_create_branch = (\<lambda>r b c m.
        if map_of (mem_branches m) b = None \<and> commit_at (mem_commits m) c \<noteq> None
        then (Inr (), m\<lparr>mem_branches := (b, c) # mem_branches m\<rparr>) else (Inl no_such, m)),
      git_commit_empty = (\<lambda>r p text m.
        if commit_at (mem_commits m) p = None then (Inl no_such, m)
        else let c = new_id (mem_commits m) in
          (Inr c, m\<lparr>mem_commits := empty_commit c p text # mem_commits m\<rparr>)),
      git_update_branch = (\<lambda>r b c t m.
        if map_of (mem_branches m) b = Some t \<and> commit_at (mem_commits m) c \<noteq> None
        then (Inr (), m\<lparr>mem_branches := (b, c) # mem_branches m\<rparr>) else (Inl no_such, m)),
      git_first_parent_history = (\<lambda>m r t. ok_or no_such (history_at (mem_commits m) t)),
      git_commits_with_trailers = (\<lambda>m r tips keys. Inr (found_with (mem_commits m) tips keys)),
      git_commits = (\<lambda>m r. collect (\<lambda>i. ok_or no_such (commit_at (mem_commits m) i))),
      git_read_file = (\<lambda>m r revision path. Inr None),
      git_write_blob = (\<lambda>r path x m. (Inl no_such, m)),
      git_diff = (\<lambda>m r source dest paths. Inl no_such),
      git_diff_blobs = (\<lambda>m r source dest. Inl no_such)\<rparr>"

section \<open>It is lawful\<close>

lemma commit_at_Cons: "commit_at (k # ks) = (commit_at ks)(cm_id k \<mapsto> k)"
  by (auto simp: commit_at_def)

lemma commit_at_id: "commit_at ks i = Some k \<Longrightarrow> cm_id k = i"
  by (auto simp: commit_at_def find_Some_iff)

lemma commit_at_mem: "grown ks \<Longrightarrow> k \<in> set ks \<longleftrightarrow> commit_at ks (cm_id k) = Some k"
proof (induction ks)
  case (Cons a ks)
  then show ?case by (auto simp: commit_at_Cons)
qed (simp add: commit_at_def)

lemma history_exists: "grown ks \<Longrightarrow> commit_at ks t \<noteq> None \<Longrightarrow> \<exists>h. history_at ks t = Some h"
proof (induction ks arbitrary: t)
  case (Cons k ks)
  show ?case
  proof (cases "cm_id k = t")
    case True
    then show ?thesis using Cons.prems Cons.IH by (cases "cm_first_parent k") auto
  next
    case False
    then show ?thesis using Cons by (auto simp: commit_at_Cons)
  qed
qed (simp add: commit_at_def)

lemma history_first_parents: "grown ks \<Longrightarrow> history_at ks t = Some h \<Longrightarrow> first_parents (commit_at ks) t h"
proof (induction ks arbitrary: t h)
  case (Cons k ks)
  have older: "first_parents (commit_at ks) p g \<Longrightarrow> first_parents (commit_at (k # ks)) p g" for p g
    using Cons.prems(1) unfolding commit_at_Cons by (intro first_parents_new) auto
  show ?case
  proof (cases "cm_id k = t")
    case True
    then have at: "commit_at (k # ks) t = Some k" by (simp add: commit_at_Cons)
    show ?thesis
    proof (cases "cm_first_parent k")
      case None
      then show ?thesis using first_parents.root [of "commit_at (k # ks)" t k] at True Cons.prems(2) by simp
    next
      case (Some p)
      then obtain g where g: "h = t # g" "history_at ks p = Some g" using True Cons.prems(2) by auto
      then have "first_parents (commit_at (k # ks)) p g" using Cons.IH Cons.prems(1) older by simp
      then show ?thesis using first_parents.step [of "commit_at (k # ks)" t k p g] at Some g(1) by simp
    qed
  next
    case False
    then show ?thesis using Cons older by simp
  qed
qed simp

lemma history_iff:
  assumes "grown ks"
  shows "first_parents (commit_at ks) t h \<longleftrightarrow> history_at ks t = Some h"
proof
  assume fp: "first_parents (commit_at ks) t h"
  then have "commit_at ks t \<noteq> None" by (cases rule: first_parents.cases) auto
  then obtain g where g: "history_at ks t = Some g" using history_exists [OF assms] by blast
  then show "history_at ks t = Some h"
    using first_parents_unique [OF fp] history_first_parents [OF assms g] by simp
qed (rule history_first_parents [OF assms])

lemma new_id_fresh: "commit_at ks (new_id ks) = None"
proof (rule ccontr)
  assume "commit_at ks (new_id ks) \<noteq> None"
  then obtain k where k: "k \<in> set ks" "cm_id k = new_id ks" by (auto simp: commit_at_def find_None_iff)
  have "length (cm_id k) \<le> sum_list (map length (map cm_id ks))"
    by (rule member_le_sum_list) (use k(1) in auto)
  then have "length (cm_id k) \<le> length (concat (map cm_id ks))" by (simp add: length_concat)
  then show False using k(2) by (simp add: new_id_def)
qed

lemma found_with_iff:
  assumes "grown ks" and "history_at ks t = Some h"
  shows "k \<in> set (found_with ks [t] keys) \<longleftrightarrow>
    cm_id k \<in> set h \<and> commit_at ks (cm_id k) = Some k \<and> has_key_line keys (cm_message k)"
  using commit_at_mem [OF assms(1), of k] assms(2) by (auto simp: found_with_def)

lemma commits_found: "map (commit_at ks) is = map Some xs \<Longrightarrow> collect (\<lambda>i. ok_or e (commit_at ks i)) is = Inr xs"
  by (induction "is" arbitrary: xs) (auto simp: Cons_eq_map_conv map_eq_Cons_conv)

lemma memory_reads: "git_reads_lawfully memory_git memory_view memory_ok"
  unfolding git_reads_lawfully_def
proof (intro allI impI conjI)
  fix m r assume ok: "memory_ok m"
  then have grown: "grown (mem_commits m)" by (simp add: memory_ok_def)
  note history = history_iff [OF grown]
  show "history_laws memory_git m r (gv_commits (memory_view m r))"
    unfolding history_laws_def
  proof (intro conjI allI impI)
    fix i k assume "gv_commits (memory_view m r) i = Some k"
    then have at: "commit_at (mem_commits m) i = Some k" by (simp add: memory_view_def)
    then show "cm_id k = i" by (rule commit_at_id)
    show "\<exists>h. first_parents (gv_commits (memory_view m r)) i h"
      using history_exists [OF grown, of i] at history by (simp add: memory_view_def)
  next
    fix t h assume "first_parents (gv_commits (memory_view m r)) t h"
    then have h: "history_at (mem_commits m) t = Some h" using history by (simp add: memory_view_def)
    then show "git_first_parent_history memory_git m r t = Inr h" by (simp add: memory_git_def)
    show "\<exists>cs. git_commits_with_trailers memory_git m r [t] keys = Inr cs \<and>
        (\<forall>k. (k \<in> set cs) = (cm_id k \<in> set h \<and> gv_commits (memory_view m r) (cm_id k) = Some k \<and>
          has_key_line keys (cm_message k)))" for keys
      using found_with_iff [OF grown h] by (simp add: memory_git_def memory_view_def)
  next
    fix "is" ks assume "map (gv_commits (memory_view m r)) is = map Some ks"
    then show "git_commits memory_git m r is = Inr ks"
      by (simp add: memory_git_def memory_view_def commits_found)
  qed
  show "branch_laws memory_git m r (gv_commits (memory_view m r)) (gv_branches (memory_view m r))"
    unfolding branch_laws_def
  proof (intro conjI allI impI)
    fix b t assume "git_branch_tip memory_git m r b = Inr t"
    then have "map_of (mem_branches m) b = Some t" by (simp add: memory_git_def split: option.splits)
    then show "gv_commits (memory_view m r) t \<noteq> None"
      using ok by (fastforce simp: memory_ok_def memory_view_def dest: map_of_SomeD)
  qed (auto simp: memory_git_def memory_view_def finite_dom_map_of list_all_iff split: if_splits)
qed

lemma memory_writes: "git_writes_lawfully memory_git memory_view memory_ok"
  unfolding git_writes_lawfully_def
proof
  show "commit_laws memory_git memory_view memory_ok"
    unfolding commit_laws_def
    using new_id_fresh
    by (fastforce simp: memory_git_def memory_view_def memory_ok_def with_commit_def Let_def commit_at_Cons empty_commit_def
        split: if_splits)
  show "ref_laws memory_git memory_view memory_ok"
    unfolding ref_laws_def
    by (fastforce simp: memory_git_def memory_view_def memory_ok_def with_branch_def split: if_splits)
qed

section \<open>A review in it\<close>

definition base_id :: string where "base_id = replicate 40 (CHR ''a'')"

definition memory0 :: memory where
  "memory0 =
     \<lparr>mem_commits = [\<lparr>cm_id = base_id, cm_first_parent = None, cm_message = ''base'', cm_paths = [''f'']\<rparr>],
      mem_branches = [(''main'', base_id)]\<rparr>"

lemma memory0_ok: "memory_ok memory0" by code_simp

definition memory1 :: memory where
  "memory1 = memory0
     \<lparr>mem_commits := empty_commit (new_id (mem_commits memory0)) base_id (marker_message base_id ''r'' base_id) #
        mem_commits memory0,
      mem_branches := (''r'', new_id (mem_commits memory0)) # mem_branches memory0\<rparr>"

lemma memory1_ok: "memory_ok memory1" by code_simp

lemma sample_start: "start_review memory_git ''.'' base_id (Some ''r'') memory0 =
    Some (Inr \<lparr>sd_branch = ''r'', sd_marker = new_id (mem_commits memory0), sd_subject = base_id, sd_repository = ''.''\<rparr>,
      memory1)"
  by code_simp

definition sample_review :: review where
  "sample_review = \<lparr>rv_branch = ''r'', rv_marker = new_id (mem_commits memory0), rv_subject = base_id, rv_entries = []\<rparr>"

lemma sample_loaded: "load_review memory_git memory1 ''.'' ''r'' = Inr sample_review" by code_simp

lemma sample_add: "is_ok (fst (add_note memory_git ''.'' ''r'' '' ok '' None memory1))" by code_simp

section \<open>The properties at this repository\<close>

lemma added_note_is_appended_witness:
  "\<exists>e m. add_note memory_git ''.'' ''r'' '' ok '' None memory1 = (Inr e, m) \<and> re_message e = ''ok'' \<and>
     load_review memory_git m ''.'' ''r'' = Inr (sample_review\<lparr>rv_entries := [e]\<rparr>)"
proof -
  obtain e m where run: "add_note memory_git ''.'' ''r'' '' ok '' None memory1 = (Inr e, m)"
    using sample_add by (metis is_ok_iff prod.collapse)
  have root: "git_repository_root memory_git memory1 ''.'' = Inr ''.''" and log: "loggable '' ok ''"
    and cut: "trim '' ok '' = ''ok''" by code_simp+
  show ?thesis
    using added_note_is_appended [OF memory_reads memory_writes memory1_ok root log _ sample_loaded run] run cut
    by (auto simp: sample_review_def)
qed



lemma start_review_returns_witness:
  "\<exists>b. default_branch memory_git memory1 ''.'' ''HEAD'' base_id = Some (Inr b) \<and> map_of (mem_branches memory1) b = None"
proof -
  have "is_ok (review_stem memory_git memory1 ''.'' ''HEAD'' base_id)" by code_simp
  then obtain stem where "review_stem memory_git memory1 ''.'' ''HEAD'' base_id = Inr stem" by (auto simp: is_ok_iff)
  then show ?thesis using start_review_returns [OF memory_reads memory1_ok] by (simp add: memory_view_def)
qed

text \<open>The same repository with one file, which the working tree has in another version.\<close>

definition joined :: "string list \<Rightarrow> string" where
  "joined ls = concat (map (\<lambda>l. l @ [CHR 0x0A]) ls)"

definition file_git :: "memory git" where
  "file_git = memory_git
     \<lparr>git_read_file := (\<lambda>m r revision path. Inr (Some (joined sample_old))),
      git_write_blob := (\<lambda>r path x m. (Inr ''b'', m)),
      git_diff_blobs := (\<lambda>m r source dest. Inr sample_hunks)\<rparr>"

lemma file_git_blobs: "blob_laws file_git"
  by (auto simp: blob_laws_def file_git_def memory_git_def split: if_splits)

definition recorded_sample :: note_source where
  "recorded_sample = \<lparr>ns_revision = base_id, ns_path = ''f'', ns_first = 2, ns_last = 4\<rparr>"

lemma sample_recorded:
  "note_source_of file_git ''.'' base_id ''f'' (2, 4) (Some (joined sample_new)) (\<lambda>_ _. Inl no_such) memory0 =
    (Inr recorded_sample, memory0)"
proof -
  have "map_line sample_hunks 2 New = 2" "map_line sample_hunks 4 New = 4" by (simp_all add: locate_simps)
  moreover have "git_repository_root file_git memory0 ''.'' = Inr ''.''"
    "git_resolve_commit file_git memory0 ''.'' base_id = Inr base_id"
    "git_read_file file_git memory0 ''.'' base_id ''f'' = Inr (Some (joined sample_old))"
    "length (lines (joined sample_old)) = 4"
    by code_simp+
  ultimately show ?thesis
    by (simp add: note_source_of_def st_then_def st_read_def st_return_def file_git_def recorded_sample_def clamp_def)
qed


end
