(* ===== verification/Spec2Isabelle.thy ===== *)
theory Spec2Isabelle
  imports Linka_Pairing Driva_Runtime Driva_Probe Orka_Workspace_Spec Orka_Settle_Spec
    Nota_Git_Spec Nota_Sample
begin

text \<open>
  This library models four programs of the verka workspace and proves what their operations promise:
  \<^bold>\<open>linka\<close>, the graph of work at its core (\<open>linka/model\<close> and \<open>linka/src\<close>),
  \<^bold>\<open>driva\<close>, which runs a command in a sandbox that grants only what was asked for
  (\<open>driva/src\<close>), \<^bold>\<open>orka\<close>, which lets an agent work on a linka node in such a
  sandbox and settles what came of it (\<open>orka/src\<close>), and \<^bold>\<open>nota\<close>, which keeps code reviews
  in Git commits (\<open>nota/src\<close>).

  \<^bold>\<open>Linka.\<close> A workbench holds a store of nodes (\<open>.linka/\<close>) beside an ordinary
  project repository. A node has a definition (metadata and prose), at most one result, immutable
  attachments and context observations, each in files of its directory. Versions are Git blob ids
  of the files, so a recorded result pins exactly what it was built against, and every state (done,
  stale, blocked, ready, awaiting integration) is derived from the files on demand. Callers take a
  snapshot of ready work and submit a result against it; a submission is refused with conflicts when
  the frozen facts moved. A result with output can be a candidate, which a verification node accepts
  or rejects, and which publication moves to its target branch. All mutations run under one lock
  and commit the store once.

  \<^bold>\<open>Driva.\<close> Configuration, templates and flags are composed into one execution request; the
  request is validated; the Bubblewrap backend turns it into an argument list (a floor, the base system
  resolved from the host, the planned mounts, a sealed root, the environment), makes private copies of
  overlaid files, starts the program and waits for it. Runtimes are prepared root filesystems in a store
  with a current link. Probes run a capability of the base in a sandbox of its own.

  \<^bold>\<open>Orka.\<close> An attempt is a directory of records written in a fixed order: the input (a linka
  snapshot with its prose), the workspace plan, the prepared marker, the execution request, the exit
  evidence, the seal. Between them the engine prepares a Git worktree for the attempt, admits it, runs the
  agent through an executor, and settles: the workspace is validated against the audit captured when it was
  prepared, the outcome the agent declared is judged together with the exit code, accepted work is captured,
  promoted and submitted to linka with all evidence, and the attempt is sealed with what linka answered.
  Recovery classifies every attempt a stopped machine left and finishes, rolls back or seals it.

  \<^bold>\<open>Nota.\<close> A review is a branch: an empty marker commit names the branch and the commit under
  review in trailers of its message, every later commit of the first-parent history is an entry, a note (an
  empty commit with a trailer, and another one for the lines it is about) or a suggestion (an ordinary commit).
  A note is appended by a compare-and-set of the branch. Lines are numbered as one commit has the file; to
  show an entry in another version its lines are carried through the diff between the two.

  \<^bold>\<open>The theories.\<close>
  \<^item> \<open>Prelude\<close>: results as sums (\<open>and_then\<close> is the question mark), operations with state
    (\<open>st_then\<close>), the collections \<open>result_simps\<close> and \<open>frame_simps\<close>. \<open>Rust_Str\<close>: the string
    functions of the standard library the code calls, on byte strings.
  \<^item> \<open>Linka_Ids\<close> (\<open>model/src/ids.rs\<close>), \<open>Linka_Model\<close> (\<open>node.rs\<close>, \<open>result.rs\<close>,
    \<open>state.rs\<close>, \<open>submission.rs\<close>, and the records of \<open>candidate.rs\<close>): the data types.
  \<^item> \<open>Linka_Store\<close> (\<open>store.rs\<close>): a store is a value with one entry per node directory; a file
    is absent, unreadable or bytes. \<open>Linka_Store_Props\<close>: round trips, the codec hypotheses.
  \<^item> \<open>Linka_Vcs\<close> (\<open>vcs.rs\<close>): the trait as a record of operations over a backend state, the
    in-memory \<open>FakeVcs\<close>, the mutation lock, and the locale \<open>vcs_contract\<close> with the laws the
    trait documents, interpreted on \<open>FakeVcs\<close>.
  \<^item> \<open>Linka_Ops\<close> (\<open>ops/mod.rs\<close>, \<open>pairing.rs\<close>, \<open>candidate/storage.rs\<close>): pins, project
    snapshots, outcome rules. \<open>Linka_Sample\<close>: the concrete workbench of the witnesses.
  \<^item> \<open>Linka_State\<close> (\<open>ops/state.rs\<close>): the memoised graph view with its visiting set.
    \<open>Linka_State_Spec\<close>: the declarative derivation of a state as an inductive relation, its
    equivalence with the code, and exact characterisations of readiness, blockers and staleness.
  \<^item> \<open>Linka_Candidate\<close> (\<open>candidate/operations.rs\<close>), \<open>Linka_Query\<close> (\<open>ops/query.rs\<close>),
    \<open>Linka_Evidence\<close> (attachments and observations of \<open>ops/mutate.rs\<close>), \<open>Linka_Submit\<close>
    (\<open>ops/submit.rs\<close>), \<open>Linka_Mutate\<close> (the rest of \<open>ops/mutate.rs\<close>).
  \<^item> \<open>Linka_Check\<close> (\<open>ops/check.rs\<close>): the integrity check with its depth-first cycle search.
    \<open>Linka_Check_Spec\<close>: the declarative soundness of a store and its equivalence with a clean check.
  \<^item> \<open>Linka_Pairing\<close> (\<open>ops/pairing_ops.rs\<close>).
  \<^item> \<open>Rust_Path\<close>, \<open>BTree_Map\<close>, \<open>Anyhow\<close>: what both programs use of Rust's paths,
    ordered maps and errors.
  \<^item> \<open>Driva_Policy\<close> (\<open>lib.rs\<close>): the host as a record of what the code asks of it, requests,
    mounts and their validation. \<open>Driva_Base\<close> (\<open>base.rs\<close>): the capability tables and their
    resolution. \<open>Driva_Bwrap\<close> (\<open>bwrap.rs\<close>): the backend, its run and its wait loop.
    \<open>Driva_Sample\<close>: the concrete host and requests of the witnesses.
  \<^item> \<open>Driva_Sandbox\<close>: the documented option grammar of bwrap; the argument list reads back as the
    intended options. \<open>Driva_View\<close>: the documented meaning of the mount options as a mount table; the
    deepest mount wins, host writes are granted ones, everything writable is reported.
    \<open>Driva_Run\<close>: validation, the environment, private copies, clean-up and the wait loop.
  \<^item> \<open>Driva_Config\<close> (\<open>config.rs\<close>): templates laid over each other. \<open>Driva_Main\<close>
    (\<open>main.rs\<close>): the composition of a request, and what the flags promise about the invocation that
    comes out. \<open>Driva_Probe\<close> (\<open>probe.rs\<close>) and \<open>Driva_Runtime\<close> (\<open>runtime.rs\<close>), with
    the store's reachable states as a step relation.
  \<^item> \<open>Op_Logic\<close>: triples and frame rules for operations that change their state also when
    they fail. \<open>Orka_Model\<close>: the records of orka and its codec (\<open>input.rs\<close>, \<open>outcome.rs\<close>,
    \<open>executor.rs\<close>, \<open>agent.rs\<close> and the types of \<open>attempt.rs\<close> and \<open>workspace.rs\<close>).
  \<^item> \<open>Orka_Attempt\<close> (\<open>attempt.rs\<close>) with \<open>Orka_Attempt_Spec\<close>: the life cycle of attempt
    directories, the exactness of the audit, the finality of seals. \<open>Orka_Workspace\<close>
    (\<open>workspace.rs\<close>) with \<open>Orka_Workspace_Spec\<close>: the Git workspace manager over a host that runs
    git, the locale \<open>workspace_contract\<close>, what a validation proves, what clean-up never removes.
    \<open>Orka_Access\<close> (\<open>access.rs\<close>, \<open>file_changes.rs\<close>): journals and the watcher loop.
  \<^item> \<open>Orka_Work\<close> (\<open>linka_work.rs\<close>): orka's view of linka. \<open>Orka_Engine\<close>
    (\<open>engine.rs\<close>): a run, its settlement and recovery over one state that holds the workbench, the
    attempt store and the progress reports. \<open>Orka_Fakes\<close> (\<open>fakes.rs\<close>) and
    \<open>Orka_Sample\<close>: the doubles and the concrete run of the witnesses.
  \<^item> \<open>Orka_Engine_Spec\<close>: what every stopped run and recovery leaves in the attempt store, as an
    invariant of the reachable states. \<open>Orka_Settle_Spec\<close>: what a seal says of linka, and when linka
    may have moved.
  \<^item> \<open>Rust_Parse\<close>, \<open>Git_Command\<close>: more of Rust's strings and integers, and what a finished
    command answers. \<open>Nota_Git\<close> (\<open>git.rs\<close>): the trait as a record of operations, \<open>SystemGit\<close>
    and the readers of what git prints, with \<open>Nota_Git_Spec\<close>: diffs and logs read back, and what a
    separator in a message does.
  \<^item> \<open>Nota_Review\<close> (\<open>review.rs\<close>, \<open>trailer_store.rs\<close>): the trailer store.
    \<open>Nota_Review_Spec\<close>: notes, trailers and sources read back; the laws of the trait.
    \<open>Nota_Store_Spec\<close>: a note is appended or nothing changes. \<open>Nota_Start_Spec\<close>: a started review
    is empty, the default name is found, a recorded source is accepted. \<open>Nota_Sample\<close>: a lawful
    repository in memory and the witnesses.
  \<^item> \<open>Nota_Locate\<close> (\<open>locate.rs\<close>) with \<open>Nota_Locate_Spec\<close>: what a diff is, and that lines
    are carried to where their content is.

  \<^bold>\<open>Conventions.\<close> A definition carries the name of the function it models; a function that
  mixes many checks is split into its read-only part and its writes, in the order of the code. Errors
  keep the format string of the source and its arguments. What the code takes from outside is an
  argument: the TOML crate and SHA-1 are the fields of the record \<open>codec\<close>, clock readings and
  ULIDs are arguments, the Git backend is the record \<open>vcs\<close>; for driva the file system and the
  process environment are the record \<open>host\<close>, and spawned programs (bwrap, podman, tar) are functions
  from what they are given to what they answer; for orka the executor and the workspace manager are records
  of functions, and the attempt store carries a list of fates: each durable write succeeds, fails with an error the
  code sees, or stops the machine; for nota the trait is the record \<open>git\<close> and the program behind it the record
  \<open>git_program\<close>. Hypotheses about them are stated by
  name: \<open>codec_faithful\<close> (what is printed parses back), \<open>orka_codec_faithful\<close> (the same for
  orka's records), \<open>outcome_strings_valid\<close> (a parsed outcome holds Rust strings), \<open>vcs_contract\<close>,
  \<open>workspace_contract\<close>, \<open>git_reads_lawfully\<close> and \<open>git_writes_lawfully\<close> (what the trait of nota
  documents: histories, commit-then-move of branches), \<open>diff_of\<close> (what Git answers is a diff of the two
  texts), \<open>utf8_valid\<close> for the Rust strings a caller passes. Strings are byte lists.
  Line numbers of nota are natural numbers below the bound of \<open>usize\<close>, with its saturating sum.

  \<^bold>\<open>Recursion.\<close> No fuel is used. The state evaluation ends because each nested call visits an
  existing node outside the visiting set, the cycle search because its state map only grows, and the
  reverse search of \<open>unsettled\<close> because each round marks a node; the termination proofs stand
  with the definitions. The wait for a sandboxed child may never end: it is a partial function, whose
  value is exactly characterised by the first round in which something happens. The search for an unused
  branch name is one too; it ends because the branches are finitely many.

  \<^bold>\<open>Not modelled.\<close> Directory search, temporary files, fsync and permissions below a file write
  (a write is one step and does not fail midway), \<open>init_workbench\<close>, the Git command line of linka
  (\<open>git.rs\<close>); of driva: argument parsing, printing, the container build of a runtime and the opening of
  standard streams; of orka: the parts of a durable write (temporary file, fsync, rename) and the removal of a
  directory, which are one step each, the registration of inotify watches, the Git commands of a file-change
  checkpoint, and candidate listing, configuration, reviews, event display and the command line; of nota: argument parsing and
  printing (\<open>main.rs\<close>); and the other programs of the workspace (genta, styra and the user
  interfaces).
\<close>

end
